(* ===== verification/Prelude.thy ===== *)
theory Prelude
  imports Complex_Main "HOL-Library.AList" "HOL-Library.List_Lexorder" "HOL-Library.Char_ord"
begin

text \<open>
  Shared vocabulary of the development: Python values (JSON data, insertion-ordered
  dictionaries, instants, amounts), fallible computations as sums, loops that may raise,
  and the number formatting the engine writes into its records. Nothing in this theory
  models a particular file; the component theories rest on its types and its lemmas.

  Conventions used everywhere:
  \<^item> an amount or any other Python \<open>float\<close> is a rational (\<open>usd\<close>), so rounding of
    binary floating point is not modelled;
  \<^item> a timezone-aware \<open>datetime\<close> is its number of microseconds since the epoch
    (\<open>instant\<close>), and \<open>timedelta(seconds=s)\<close> is rounded half to even to microseconds as
    Python does;
  \<^item> a \<open>dict\<close> is an association list without repeated keys, in insertion order;
    assigning an existing key keeps its position, a new key goes to the end;
  \<^item> a computation that may raise returns \<open>Inl\<close> of the exception or \<open>Inr\<close> of its value.
\<close>

named_theorems py_simps \<open>equations for dictionaries, results and loops\<close>

section \<open>Python data\<close>

type_synonym usd = rat
type_synonym instant = int

datatype json =
    JNull
  | JBool bool
  | JInt int
  | JFloat rat
  | JStr string
  | JArr "json list"
  | JObj "(string \<times> json) list"

type_synonym ('k, 'v) pydict = "('k \<times> 'v) list"
type_synonym obj = "(string, json) pydict"

abbreviation dget :: "('k, 'v) pydict \<Rightarrow> 'k \<Rightarrow> 'v option" where
  "dget d k \<equiv> map_of d k"

abbreviation dset :: "'k \<Rightarrow> 'v \<Rightarrow> ('k, 'v) pydict \<Rightarrow> ('k, 'v) pydict" where
  "dset k v d \<equiv> AList.update k v d"

abbreviation dkeys :: "('k, 'v) pydict \<Rightarrow> 'k list" where
  "dkeys d \<equiv> map fst d"

definition dupdate :: "('k, 'v) pydict \<Rightarrow> ('k, 'v) pydict \<Rightarrow> ('k, 'v) pydict" where
  "dupdate d new = foldl (\<lambda>acc (k, v). dset k v acc) d new"

definition dsetdefault :: "'k \<Rightarrow> 'v \<Rightarrow> ('k, 'v) pydict \<Rightarrow> ('k, 'v) pydict" where
  "dsetdefault k v d = (case dget d k of None \<Rightarrow> dset k v d | Some _ \<Rightarrow> d)"

lemma dget_dset [simp]: "dget (dset k v d) k' = (if k' = k then Some v else dget d k')"
  by (simp add: AList.update_conv')

lemma dkeys_dset [simp]:
  "dkeys (dset k v d) = (if k \<in> set (dkeys d) then dkeys d else dkeys d @ [k])"
  by (induction d) auto

lemma dget_None_iff: "dget d k = None \<longleftrightarrow> k \<notin> set (dkeys d)"
  by (simp add: map_of_eq_None_iff)

lemma dget_Some_in: "dget d k = Some v \<Longrightarrow> (k, v) \<in> set d"
  by (rule map_of_SomeD)

lemma dget_in_keys: "dget d k = Some v \<Longrightarrow> k \<in> set (dkeys d)"
  by (force dest: map_of_SomeD)

lemma in_dget: "distinct (dkeys d) \<Longrightarrow> (k, v) \<in> set d \<Longrightarrow> dget d k = Some v"
  by (simp add: map_of_is_SomeI)

lemma distinct_dset: "distinct (dkeys d) \<Longrightarrow> distinct (dkeys (dset k v d))"
  by auto

lemma dset_fresh: "k \<notin> set (dkeys d) \<Longrightarrow> dset k v d = d @ [(k, v)]"
  by (induction d) auto

lemma set_dset_subset: "set (dset k v d) \<subseteq> insert (k, v) (set d)"
  by (induction d) auto

lemma dget_dsetdefault [simp]:
  "dget (dsetdefault k v d) k' =
     (if k' = k \<and> dget d k = None then Some v else dget d k')"
  by (auto simp: dsetdefault_def split: option.splits)

lemma dkeys_dsetdefault:
  "dkeys (dsetdefault k v d) = (if k \<in> set (dkeys d) then dkeys d else dkeys d @ [k])"
proof (cases "dget d k")
  case None
  then have "dsetdefault k v d = dset k v d" by (simp only: dsetdefault_def option.case)
  moreover have "k \<notin> set (dkeys d)" using None by (simp only: dget_None_iff not_False_eq_True)
  ultimately show ?thesis by simp
next
  case (Some v')
  then show ?thesis using dget_in_keys [OF Some] by (simp add: dsetdefault_def)
qed

lemma keys_dsetdefault: "fst ` set (dsetdefault k v d) = insert k (fst ` set d)"
  using arg_cong [OF dkeys_dsetdefault [of k v d], of set] by (auto split: if_splits)

section \<open>Truthiness\<close>

text \<open>\<open>if x:\<close> on an optional string, on an optional dictionary, on an optional integer.\<close>

fun truthy_str :: "string option \<Rightarrow> bool" where
  "truthy_str None = False"
| "truthy_str (Some s) = (s \<noteq> [])"

fun truthy_obj :: "('k, 'v) pydict option \<Rightarrow> bool" where
  "truthy_obj None = False"
| "truthy_obj (Some d) = (d \<noteq> [])"

fun truthy_int :: "int option \<Rightarrow> bool" where
  "truthy_int None = False"
| "truthy_int (Some n) = (n \<noteq> 0)"

section \<open>Computations that may raise\<close>

definition rbind :: "'e + 'a \<Rightarrow> ('a \<Rightarrow> 'e + 'b) \<Rightarrow> 'e + 'b" where
  "rbind m f = (case m of Inl e \<Rightarrow> Inl e | Inr x \<Rightarrow> f x)"

lemma rbind_Inl [simp]: "rbind (Inl e) f = Inl e"
  by (simp add: rbind_def)

lemma rbind_Inr [simp]: "rbind (Inr x) f = f x"
  by (simp add: rbind_def)

lemma rbind_eq_Inr [py_simps]: "rbind m f = Inr y \<longleftrightarrow> (\<exists>x. m = Inr x \<and> f x = Inr y)"
  by (cases m) auto

lemma rbind_eq_Inl [py_simps]:
  "rbind m f = Inl e \<longleftrightarrow> m = Inl e \<or> (\<exists>x. m = Inr x \<and> f x = Inl e)"
  by (cases m) auto

lemma rbind_assoc: "rbind (rbind m f) g = rbind m (\<lambda>x. rbind (f x) g)"
  by (cases m) auto

text \<open>\<open>for x in xs: s = body(s, x)\<close>, where the body may raise.\<close>

fun rfoldl :: "('s \<Rightarrow> 'a \<Rightarrow> 'e + 's) \<Rightarrow> 's \<Rightarrow> 'a list \<Rightarrow> 'e + 's" where
  "rfoldl f s [] = Inr s"
| "rfoldl f s (x # xs) = rbind (f s x) (\<lambda>s'. rfoldl f s' xs)"

lemma rfoldl_append:
  "rfoldl f s (xs @ ys) = rbind (rfoldl f s xs) (\<lambda>s'. rfoldl f s' ys)"
  by (induction xs arbitrary: s) (auto simp: rbind_assoc)

lemma rfoldl_inv:
  assumes "rfoldl f s xs = Inr s'" "P s"
    and "\<And>s x s'. P s \<Longrightarrow> x \<in> set xs \<Longrightarrow> f s x = Inr s' \<Longrightarrow> P s'"
  shows "P s'"
  using assms
proof (induction xs arbitrary: s)
  case Nil
  then show ?case by simp
next
  case (Cons x xs)
  from Cons.prems(1) obtain s1 where "f s x = Inr s1" "rfoldl f s1 xs = Inr s'"
    by (auto simp: rbind_eq_Inr)
  moreover from this have "P s1" using Cons.prems(2,3) by (meson list.set_intros(1))
  ultimately show ?case using Cons.IH Cons.prems(3) by (meson list.set_intros(2))
qed

section \<open>Stateful computations\<close>

text \<open>
  Code that reads and writes shared state (the database, the clock, the id generator) and
  may raise: the state reached so far survives the exception, as it does in Python.
\<close>

type_synonym ('s, 'e, 'a) eff = "'s \<Rightarrow> ('e + 'a) \<times> 's"

definition ereturn :: "'a \<Rightarrow> ('s, 'e, 'a) eff" where
  "ereturn x s = (Inr x, s)"

definition ethrow :: "'e \<Rightarrow> ('s, 'e, 'a) eff" where
  "ethrow e s = (Inl e, s)"

definition ebind :: "('s, 'e, 'a) eff \<Rightarrow> ('a \<Rightarrow> ('s, 'e, 'b) eff) \<Rightarrow> ('s, 'e, 'b) eff" where
  "ebind m f s = (case m s of (Inl e, s') \<Rightarrow> (Inl e, s') | (Inr x, s') \<Rightarrow> f x s')"

lemma ereturn_apply [simp]: "ereturn x s = (Inr x, s)"
  by (simp add: ereturn_def)

lemma ethrow_apply [simp]: "ethrow e s = (Inl e, s)"
  by (simp add: ethrow_def)

lemma ebind_Inr [simp]: "m s = (Inr x, s') \<Longrightarrow> ebind m f s = f x s'"
  by (simp add: ebind_def)

lemma ebind_Inl [simp]: "m s = (Inl e, s') \<Longrightarrow> ebind m f s = (Inl e, s')"
  by (simp add: ebind_def)

lemma ebind_eq_Inr:
  "ebind m f s = (Inr y, t) \<longleftrightarrow> (\<exists>x s'. m s = (Inr x, s') \<and> f x s' = (Inr y, t))"
  by (auto simp: ebind_def split: prod.splits sum.splits)

lemma ebind_cases:
  assumes "ebind m f s = (r, t)"
  obtains (raised) e where "m s = (Inl e, t)" "r = Inl e"
    | (returned) x s' where "m s = (Inr x, s')" "f x s' = (r, t)"
  using assms by (auto simp: ebind_def split: prod.splits sum.splits)

text \<open>\<open>try: ... except\<close>: the outcome of a computation as a value.\<close>

definition etry :: "('s, 'e, 'a) eff \<Rightarrow> ('s, 'e, 'e + 'a) eff" where
  "etry m s = (case m s of (r, s') \<Rightarrow> (Inr r, s'))"

lemma etry_apply [simp]: "m s = (r, s') \<Longrightarrow> etry m s = (Inr r, s')"
  by (simp add: etry_def)

text \<open>\<open>f"{x}"\<close> of an optional string.\<close>

definition show_opt :: "string option \<Rightarrow> string" where
  "show_opt x = (case x of None \<Rightarrow> ''None'' | Some s \<Rightarrow> s)"

text \<open>
  Triples for stateful computations: from a state satisfying \<open>P\<close>, the outcome and the final
  state satisfy \<open>Q\<close>. The rules of \<open>hoare\<close> take a computation apart in the order it runs.
\<close>

named_theorems hoare \<open>rules for triples of stateful computations\<close>

definition triple :: "('s \<Rightarrow> bool) \<Rightarrow> ('s, 'e, 'a) eff \<Rightarrow> ('e + 'a \<Rightarrow> 's \<Rightarrow> bool) \<Rightarrow> bool" where
  "triple P m Q \<longleftrightarrow> (\<forall>s r s'. P s \<longrightarrow> m s = (r, s') \<longrightarrow> Q r s')"

lemma tripleI: "(\<And>s r s'. P s \<Longrightarrow> m s = (r, s') \<Longrightarrow> Q r s') \<Longrightarrow> triple P m Q"
  by (simp add: triple_def)

lemma tripleD: "triple P m Q \<Longrightarrow> P s \<Longrightarrow> m s = (r, s') \<Longrightarrow> Q r s'"
  by (simp add: triple_def)

lemma triple_conseq:
  "triple P' m Q' \<Longrightarrow> (\<And>s. P s \<Longrightarrow> P' s) \<Longrightarrow> (\<And>r s. Q' r s \<Longrightarrow> Q r s) \<Longrightarrow> triple P m Q"
  unfolding triple_def by blast

lemma triple_ebind [hoare]:
  assumes "triple P m (\<lambda>r s. case r of Inl e \<Rightarrow> Q (Inl e) s | Inr x \<Rightarrow> R x s)"
    and "\<And>x. triple (R x) (f x) Q"
  shows "triple P (ebind m f) Q"
proof (rule tripleI)
  fix s r s' assume "P s" "ebind m f s = (r, s')"
  from this(2) show "Q r s'"
  proof (cases rule: ebind_cases)
    case (raised e)
    then show ?thesis using tripleD [OF assms(1) \<open>P s\<close>, of "Inl e" s'] by simp
  next
    case (returned x t)
    then have "R x t" using tripleD [OF assms(1) \<open>P s\<close>, of "Inr x" t] by simp
    then show ?thesis using tripleD [OF assms(2)] returned(2) by blast
  qed
qed

lemma triple_ereturn [hoare]: "(\<And>s. P s \<Longrightarrow> Q (Inr x) s) \<Longrightarrow> triple P (ereturn x) Q"
  by (auto simp: triple_def)

lemma triple_ethrow [hoare]: "(\<And>s. P s \<Longrightarrow> Q (Inl e) s) \<Longrightarrow> triple P (ethrow e) Q"
  by (auto simp: triple_def)

lemma triple_etry [hoare]: "triple P m (\<lambda>r s. Q (Inr r) s) \<Longrightarrow> triple P (etry m) Q"
  by (force simp: triple_def etry_def split: prod.splits)

lemma triple_if [hoare]:
  "(b \<Longrightarrow> triple P m Q) \<Longrightarrow> (\<not> b \<Longrightarrow> triple P n Q) \<Longrightarrow> triple P (if b then m else n) Q"
  by simp

text \<open>A relation between states that is reflexive and transitive survives sequencing.\<close>

lemma ebind_rel:
  assumes "\<And>s. R s (snd (m s))" "\<And>x s. R s (snd (f x s))"
    and "\<And>a b c. R a b \<Longrightarrow> R b c \<Longrightarrow> R a c"
  shows "R s (snd (ebind m f s))"
proof (cases "m s")
  case (Pair r s')
  then have "R s s'" using assms(1) [of s] by simp
  show ?thesis
  proof (cases r)
    case (Inl e)
    then show ?thesis using Pair \<open>R s s'\<close> by simp
  next
    case (Inr x)
    then have "ebind m f s = f x s'" using Pair by simp
    then show ?thesis using \<open>R s s'\<close> assms(2) [of s' x] assms(3) by metis
  qed
qed

section \<open>Instants and number formatting\<close>

definition round_half_even :: "rat \<Rightarrow> int" where
  "round_half_even x =
     (let f = \<lfloor>x\<rfloor>; d = x - of_int f
      in if d < 1/2 then f else if d > 1/2 then f + 1 else if even f then f else f + 1)"

definition timedelta_seconds :: "rat \<Rightarrow> int" where
  "timedelta_seconds s = round_half_even (s * 1000000)"

lemma round_half_even_of_int [simp]: "round_half_even (of_int n) = n"
  by (simp add: round_half_even_def)

lemma round_half_even_mono_0: "0 \<le> x \<Longrightarrow> 0 \<le> round_half_even x"
  by (auto simp: round_half_even_def Let_def)

lemma round_half_even_le: "x \<le> of_int n \<Longrightarrow> round_half_even x \<le> n"
  unfolding round_half_even_def Let_def by (auto split: if_splits; linarith)

lemma timedelta_seconds_nonneg: "0 \<le> s \<Longrightarrow> 0 \<le> timedelta_seconds s"
  by (simp add: timedelta_seconds_def round_half_even_mono_0)

lemma timedelta_seconds_int: "timedelta_seconds (of_int n) = n * 1000000"
  using round_half_even_of_int [of "n * 1000000"] by (simp add: timedelta_seconds_def)

definition digit :: "nat \<Rightarrow> char" where
  "digit n = char_of (48 + n)"

fun show_nat :: "nat \<Rightarrow> string" where
  "show_nat n = (if n < 10 then [digit n] else show_nat (n div 10) @ [digit (n mod 10)])"

declare show_nat.simps [simp del]

definition show_int :: "int \<Rightarrow> string" where
  "show_int i = (if i < 0 then ''-'' @ show_nat (nat (- i)) else show_nat (nat i))"

definition pad4 :: "nat \<Rightarrow> string" where
  "pad4 n = replicate (4 - length (show_nat n)) CHR ''0'' @ show_nat n"

text \<open>The format \<open>:.4f\<close>.\<close>

definition fmt4 :: "rat \<Rightarrow> string" where
  "fmt4 x =
     (let n = nat (round_half_even (\<bar>x\<bar> * 10000))
      in (if x < 0 then ''-'' else '''') @ show_nat (n div 10000) @ ''.'' @ pad4 (n mod 10000))"

text \<open>\<open>', '.join(parts)\<close> and the quoting that \<open>!r\<close> gives a plain identifier.\<close>

fun join :: "string \<Rightarrow> string list \<Rightarrow> string" where
  "join sep [] = ''''"
| "join sep [x] = x"
| "join sep (x # y # zs) = x @ sep @ join sep (y # zs)"

definition py_repr :: "string \<Rightarrow> string" where
  "py_repr s = [CHR 39] @ s @ [CHR 39]"

end
