(* ===== verification/Enums.thy ===== *)
theory Enums
  imports Prelude
begin

text \<open>
  \<open>core/domain/enums.py\<close>: the status vocabularies, their stored string values and the two
  transition tables that the projection enforces.
\<close>

section \<open>Vocabularies\<close>

datatype workflow_status =
    WF_PENDING | WF_RUNNING | WF_PAUSED | WF_WAITING_APPROVAL | WF_RETRYING
  | WF_FAILED | WF_DEAD_LETTERED | WF_COMPLETED | WF_ROLLED_BACK

datatype step_status =
    ST_PENDING | ST_READY | ST_RUNNING | ST_WAITING_APPROVAL | ST_COMPLETED
  | ST_FAILED | ST_SKIPPED | ST_COMPENSATED

datatype cost_tier = CHEAP | STANDARD | PREMIUM | CRITICAL

datatype on_failure = OF_PAUSE | OF_ROLLBACK | OF_DEAD_LETTER | OF_ESCALATE

datatype trigger_source = TS_API | TS_N8N | TS_SCHEDULER | TS_MANUAL | TS_REPLAY

fun wf_value :: "workflow_status \<Rightarrow> string" where
  "wf_value WF_PENDING = ''pending''"
| "wf_value WF_RUNNING = ''running''"
| "wf_value WF_PAUSED = ''paused''"
| "wf_value WF_WAITING_APPROVAL = ''waiting_approval''"
| "wf_value WF_RETRYING = ''retrying''"
| "wf_value WF_FAILED = ''failed''"
| "wf_value WF_DEAD_LETTERED = ''dead_lettered''"
| "wf_value WF_COMPLETED = ''completed''"
| "wf_value WF_ROLLED_BACK = ''rolled_back''"

fun st_value :: "step_status \<Rightarrow> string" where
  "st_value ST_PENDING = ''pending''"
| "st_value ST_READY = ''ready''"
| "st_value ST_RUNNING = ''running''"
| "st_value ST_WAITING_APPROVAL = ''waiting_approval''"
| "st_value ST_COMPLETED = ''completed''"
| "st_value ST_FAILED = ''failed''"
| "st_value ST_SKIPPED = ''skipped''"
| "st_value ST_COMPENSATED = ''compensated''"

fun tier_value :: "cost_tier \<Rightarrow> string" where
  "tier_value CHEAP = ''cheap''"
| "tier_value STANDARD = ''standard''"
| "tier_value PREMIUM = ''premium''"
| "tier_value CRITICAL = ''critical''"

fun on_failure_value :: "on_failure \<Rightarrow> string" where
  "on_failure_value OF_PAUSE = ''pause''"
| "on_failure_value OF_ROLLBACK = ''rollback''"
| "on_failure_value OF_DEAD_LETTER = ''dead_letter''"
| "on_failure_value OF_ESCALATE = ''escalate''"

fun trigger_value :: "trigger_source \<Rightarrow> string" where
  "trigger_value TS_API = ''api''"
| "trigger_value TS_N8N = ''n8n''"
| "trigger_value TS_SCHEDULER = ''scheduler''"
| "trigger_value TS_MANUAL = ''manual''"
| "trigger_value TS_REPLAY = ''replay''"

lemma wf_value_inj [simp]: "wf_value a = wf_value b \<longleftrightarrow> a = b"
  by (cases a; cases b) simp_all

lemma st_value_inj [simp]: "st_value a = st_value b \<longleftrightarrow> a = b"
  by (cases a; cases b) simp_all

lemma tier_value_inj [simp]: "tier_value a = tier_value b \<longleftrightarrow> a = b"
  by (cases a; cases b) simp_all

section \<open>Transition tables\<close>

definition TERMINAL_WORKFLOW_STATUSES :: "workflow_status set" where
  "TERMINAL_WORKFLOW_STATUSES = {WF_COMPLETED, WF_ROLLED_BACK}"

fun WORKFLOW_TRANSITIONS :: "workflow_status \<Rightarrow> workflow_status set" where
  "WORKFLOW_TRANSITIONS WF_PENDING = {WF_RUNNING, WF_PAUSED, WF_FAILED, WF_ROLLED_BACK}"
| "WORKFLOW_TRANSITIONS WF_RUNNING =
     {WF_PAUSED, WF_WAITING_APPROVAL, WF_RETRYING, WF_FAILED, WF_COMPLETED,
      WF_DEAD_LETTERED, WF_ROLLED_BACK}"
| "WORKFLOW_TRANSITIONS WF_RETRYING = {WF_RUNNING, WF_FAILED, WF_DEAD_LETTERED}"
| "WORKFLOW_TRANSITIONS WF_PAUSED = {WF_RUNNING, WF_ROLLED_BACK, WF_FAILED}"
| "WORKFLOW_TRANSITIONS WF_WAITING_APPROVAL =
     {WF_RUNNING, WF_ROLLED_BACK, WF_FAILED, WF_DEAD_LETTERED}"
| "WORKFLOW_TRANSITIONS WF_FAILED =
     {WF_RUNNING, WF_RETRYING, WF_ROLLED_BACK, WF_DEAD_LETTERED}"
| "WORKFLOW_TRANSITIONS WF_DEAD_LETTERED = {WF_RUNNING}"
| "WORKFLOW_TRANSITIONS WF_COMPLETED = {}"
| "WORKFLOW_TRANSITIONS WF_ROLLED_BACK = {}"

fun STEP_TRANSITIONS :: "step_status \<Rightarrow> step_status set" where
  "STEP_TRANSITIONS ST_PENDING = {ST_READY, ST_SKIPPED}"
| "STEP_TRANSITIONS ST_READY = {ST_RUNNING, ST_SKIPPED, ST_WAITING_APPROVAL}"
| "STEP_TRANSITIONS ST_RUNNING = {ST_COMPLETED, ST_FAILED, ST_WAITING_APPROVAL, ST_READY}"
| "STEP_TRANSITIONS ST_WAITING_APPROVAL =
     {ST_READY, ST_RUNNING, ST_COMPLETED, ST_SKIPPED, ST_FAILED}"
| "STEP_TRANSITIONS ST_FAILED =
     {ST_READY, ST_RUNNING, ST_SKIPPED, ST_COMPENSATED, ST_WAITING_APPROVAL}"
| "STEP_TRANSITIONS ST_COMPLETED = {ST_COMPENSATED, ST_WAITING_APPROVAL}"
| "STEP_TRANSITIONS ST_SKIPPED = {}"
| "STEP_TRANSITIONS ST_COMPENSATED = {}"

definition workflow_transition_allowed :: "workflow_status \<Rightarrow> workflow_status \<Rightarrow> bool" where
  "workflow_transition_allowed src dst \<longleftrightarrow> dst \<in> WORKFLOW_TRANSITIONS src"

definition step_transition_allowed :: "step_status \<Rightarrow> step_status \<Rightarrow> bool" where
  "step_transition_allowed src dst \<longleftrightarrow> src = dst \<or> dst \<in> STEP_TRANSITIONS src"

lemma step_transition_refl [simp]: "step_transition_allowed s s"
  by (simp add: step_transition_allowed_def)

lemma workflow_terminal_no_exit:
  "src \<in> TERMINAL_WORKFLOW_STATUSES \<Longrightarrow> \<not> workflow_transition_allowed src dst"
  by (auto simp: TERMINAL_WORKFLOW_STATUSES_def workflow_transition_allowed_def)

lemma workflow_no_self_loop: "\<not> workflow_transition_allowed s s"
  by (cases s) (simp_all add: workflow_transition_allowed_def)

text \<open>Reachability in the tables, with the steps a run may take.\<close>

inductive wf_path :: "workflow_status \<Rightarrow> workflow_status \<Rightarrow> bool" where
  wf_path_refl: "wf_path s s"
| wf_path_step: "wf_path s t \<Longrightarrow> workflow_transition_allowed t u \<Longrightarrow> wf_path s u"

lemma wf_path_terminal:
  "wf_path s t \<Longrightarrow> s \<in> TERMINAL_WORKFLOW_STATUSES \<Longrightarrow> t = s"
  by (induction rule: wf_path.induct) (auto dest: workflow_terminal_no_exit)

lemma wf_path_trans: "wf_path s t \<Longrightarrow> wf_path t u \<Longrightarrow> wf_path s u"
  by (rotate_tac, induction rule: wf_path.induct) (auto intro: wf_path.intros)

lemma wf_path_one: "workflow_transition_allowed s t \<Longrightarrow> wf_path s t"
  by (blast intro: wf_path.intros)

text \<open>Every status is reachable from a fresh instance.\<close>

lemma wf_path_all_reachable: "wf_path WF_PENDING s"
proof -
  have r: "wf_path WF_PENDING WF_RUNNING"
    by (rule wf_path_one) (simp add: workflow_transition_allowed_def)
  show ?thesis
  proof (cases "s = WF_PENDING \<or> s = WF_RUNNING")
    case True
    then show ?thesis using r by (auto intro: wf_path_refl)
  next
    case False
    then have "workflow_transition_allowed WF_RUNNING s"
      by (cases s) (auto simp: workflow_transition_allowed_def)
    then show ?thesis by (rule wf_path_step [OF r])
  qed
qed

end
