(* ===== verification/Exceptions.thy ===== *)
theory Exceptions
  imports Prelude
begin

text \<open>
  The exception hierarchy of \<open>exceptions.py\<close> together with the Python and driver
  exceptions that the modelled code can let through. An exception is modelled by its
  class; where its text becomes data (an error recorded on a step) the pair of class and
  text is kept (\<open>pexn\<close>).
\<close>

datatype exn_class =
    AgentForgeError
  | ConfigurationError
  | WorkflowDefinitionError
  | CyclicDependencyError
  | EventStreamError
  | InvalidStateTransition
  | ConflictError
  | LeaseLostError
  | StepExecutionError
  | StepTimeoutError
  | MaxRetriesExceededError
  | BudgetExceededError
  | LLMError
  | LLMTimeoutError
  | RateLimitError
  | MalformedOutputError
  | NoEligibleModelError
  | SideEffectError
  | CompensationError
  | EscalationTimeout
  | PyKeyError
  | PyIndexError
  | PyRuntimeError
  | PyAssertionError
  | PyTimeoutError
  | PyCancelledError
  | PydanticValidationError
  | DbIntegrityError
  | DbDataError
  | OtherException string

type_synonym 'a res = "exn_class + 'a"

datatype pexn = PExn (pexn_class: exn_class) (pexn_text: string)

text \<open>The direct base class inside the hierarchy; \<open>None\<close> outside it.\<close>

fun parent_class :: "exn_class \<Rightarrow> exn_class option" where
  "parent_class ConfigurationError = Some AgentForgeError"
| "parent_class WorkflowDefinitionError = Some ConfigurationError"
| "parent_class CyclicDependencyError = Some WorkflowDefinitionError"
| "parent_class EventStreamError = Some AgentForgeError"
| "parent_class InvalidStateTransition = Some EventStreamError"
| "parent_class ConflictError = Some AgentForgeError"
| "parent_class LeaseLostError = Some ConflictError"
| "parent_class StepExecutionError = Some AgentForgeError"
| "parent_class StepTimeoutError = Some StepExecutionError"
| "parent_class MaxRetriesExceededError = Some StepExecutionError"
| "parent_class BudgetExceededError = Some AgentForgeError"
| "parent_class LLMError = Some AgentForgeError"
| "parent_class LLMTimeoutError = Some LLMError"
| "parent_class RateLimitError = Some LLMError"
| "parent_class MalformedOutputError = Some LLMError"
| "parent_class NoEligibleModelError = Some LLMError"
| "parent_class SideEffectError = Some AgentForgeError"
| "parent_class CompensationError = Some SideEffectError"
| "parent_class EscalationTimeout = Some AgentForgeError"
| "parent_class _ = None"

text \<open>\<open>isinstance(exc, AgentForgeError)\<close>.\<close>

definition is_agentforge_error :: "exn_class \<Rightarrow> bool" where
  "is_agentforge_error c \<longleftrightarrow> c = AgentForgeError \<or> parent_class c \<noteq> None"

text \<open>The class attribute \<open>retryable\<close>, inherited where a class does not set it.\<close>

fun retryable :: "exn_class \<Rightarrow> bool" where
  "retryable ConflictError = True"
| "retryable LeaseLostError = True"
| "retryable StepTimeoutError = True"
| "retryable LLMTimeoutError = True"
| "retryable RateLimitError = True"
| "retryable MalformedOutputError = True"
| "retryable _ = False"

text \<open>\<open>except (LeaseLostError, ConflictError)\<close>: the second class covers the first.\<close>

definition is_conflict :: "exn_class \<Rightarrow> bool" where
  "is_conflict c \<longleftrightarrow> c = ConflictError \<or> parent_class c = Some ConflictError"

text \<open>\<open>type(exc).__name__\<close>.\<close>

fun class_name :: "exn_class \<Rightarrow> string" where
  "class_name AgentForgeError = ''AgentForgeError''"
| "class_name ConfigurationError = ''ConfigurationError''"
| "class_name WorkflowDefinitionError = ''WorkflowDefinitionError''"
| "class_name CyclicDependencyError = ''CyclicDependencyError''"
| "class_name EventStreamError = ''EventStreamError''"
| "class_name InvalidStateTransition = ''InvalidStateTransition''"
| "class_name ConflictError = ''ConflictError''"
| "class_name LeaseLostError = ''LeaseLostError''"
| "class_name StepExecutionError = ''StepExecutionError''"
| "class_name StepTimeoutError = ''StepTimeoutError''"
| "class_name MaxRetriesExceededError = ''MaxRetriesExceededError''"
| "class_name BudgetExceededError = ''BudgetExceededError''"
| "class_name LLMError = ''LLMError''"
| "class_name LLMTimeoutError = ''LLMTimeoutError''"
| "class_name RateLimitError = ''RateLimitError''"
| "class_name MalformedOutputError = ''MalformedOutputError''"
| "class_name NoEligibleModelError = ''NoEligibleModelError''"
| "class_name SideEffectError = ''SideEffectError''"
| "class_name CompensationError = ''CompensationError''"
| "class_name EscalationTimeout = ''EscalationTimeout''"
| "class_name PyKeyError = ''KeyError''"
| "class_name PyIndexError = ''IndexError''"
| "class_name PyRuntimeError = ''RuntimeError''"
| "class_name PyAssertionError = ''AssertionError''"
| "class_name PyTimeoutError = ''TimeoutError''"
| "class_name PyCancelledError = ''CancelledError''"
| "class_name PydanticValidationError = ''ValidationError''"
| "class_name DbIntegrityError = ''IntegrityError''"
| "class_name DbDataError = ''DBAPIError''"
| "class_name (OtherException n) = n"

definition RETRYABLE_BY_NAME :: "string set" where
  "RETRYABLE_BY_NAME =
     {''LLMTimeoutError'', ''RateLimitError'', ''MalformedOutputError'', ''StepTimeoutError'',
      ''ConflictError'', ''ConnectionError'', ''TimeoutError''}"

lemma retryable_agentforge: "retryable c \<Longrightarrow> is_agentforge_error c"
  by (cases c) (auto simp: is_agentforge_error_def)

text \<open>
  The attribute is what its closest ancestor says: a class is retryable exactly when it is
  one of the five that set it, or inherits from one of them.
\<close>

lemma retryable_inherited:
  assumes "parent_class c = Some p" "retryable p"
  shows "retryable c"
  using assms by (cases c) auto

end
