(* ===== verification/Dag.thy ===== *)
theory Dag
  imports Exceptions
begin

text \<open>
  \<open>core/domain/dag.py\<close>: dependency validation and Kahn layering of workflow steps. The
  dependency mapping is a dictionary from step id to its list of dependencies. The theory
  shows that the layering loop stops, that every layer is exactly the set of steps whose
  dependencies lie in earlier layers, and that it raises exactly on cyclic graphs.
\<close>

type_synonym dep_graph = "(string, string list) pydict"

section \<open>Definitions\<close>

text \<open>\<open>sorted(step_id for step_id, deps in remaining.items() if deps <= resolved)\<close>.\<close>

definition ready_of :: "dep_graph \<Rightarrow> string set \<Rightarrow> string list" where
  "ready_of remaining resolved =
     sort (map fst (filter (\<lambda>(s, deps). set deps \<subseteq> resolved) remaining))"

lemma ready_of_set:
  "set (ready_of remaining resolved) =
     {s. \<exists>deps. (s, deps) \<in> set remaining \<and> set deps \<subseteq> resolved}"
  by (force simp: ready_of_def)

lemma ready_of_shrinks:
  assumes "ready_of remaining resolved \<noteq> []"
  shows "length (filter (\<lambda>(s, deps). s \<notin> set (ready_of remaining resolved)) remaining)
           < length remaining"
proof -
  obtain s where "s \<in> set (ready_of remaining resolved)"
    using assms by (cases "ready_of remaining resolved") auto
  then obtain deps where "(s, deps) \<in> set remaining" "s \<in> set (ready_of remaining resolved)"
    by (auto simp: ready_of_set)
  then show ?thesis by (intro length_filter_less) auto
qed

text \<open>The \<open>while remaining\<close> loop.\<close>

function layers_loop ::
  "dep_graph \<Rightarrow> string set \<Rightarrow> string list list \<Rightarrow> string list list res" where
  "layers_loop remaining resolved layers =
     (if remaining = [] then Inr layers
      else let ready = ready_of remaining resolved
           in if ready = [] then Inl CyclicDependencyError
              else layers_loop (filter (\<lambda>(s, deps). s \<notin> set ready) remaining)
                     (resolved \<union> set ready) (layers @ [ready]))"
  by pat_completeness auto

termination
  by (relation "measure (\<lambda>(remaining, resolved, layers). length remaining)")
     (auto dest: ready_of_shrinks)

declare layers_loop.simps [simp del]

definition topological_layers :: "dep_graph \<Rightarrow> string list list res" where
  "topological_layers dependencies = layers_loop dependencies {} []"

text \<open>The first loop of \<open>validate_dependencies\<close>: self and unknown dependencies.\<close>

definition check_dep :: "string set \<Rightarrow> string \<Rightarrow> string \<Rightarrow> unit res" where
  "check_dep known step_id dep =
     (if dep = step_id then Inl WorkflowDefinitionError
      else if dep \<notin> known then Inl WorkflowDefinitionError
      else Inr ())"

definition validate_dependencies :: "dep_graph \<Rightarrow> unit res" where
  "validate_dependencies dependencies =
     rbind (rfoldl (\<lambda>_ (step_id, deps). rfoldl (\<lambda>_ dep. check_dep (set (dkeys dependencies)) step_id dep) () deps)
              () dependencies)
       (\<lambda>_. rbind (topological_layers dependencies) (\<lambda>_. Inr ()))"

section \<open>What a layering is\<close>

text \<open>The steps of layer \<open>i\<close>: not placed earlier, every dependency placed earlier.\<close>

definition layer_set :: "dep_graph \<Rightarrow> string set \<Rightarrow> string set" where
  "layer_set g placed = {s. \<exists>deps. (s, deps) \<in> set g \<and> set deps \<subseteq> placed \<and> s \<notin> placed}"

definition layers_ok :: "dep_graph \<Rightarrow> string list list \<Rightarrow> bool" where
  "layers_ok g ls \<longleftrightarrow>
     distinct (concat ls) \<and>
     (\<forall>i < length ls. ls ! i \<noteq> [] \<and> sorted (ls ! i) \<and>
        set (ls ! i) = layer_set g (set (concat (take i ls))))"

definition dep_rel :: "dep_graph \<Rightarrow> (string \<times> string) set" where
  "dep_rel g = {(s, d). \<exists>deps. (s, deps) \<in> set g \<and> d \<in> set deps}"

definition closed_graph :: "dep_graph \<Rightarrow> bool" where
  "closed_graph g \<longleftrightarrow> (\<forall>(s, deps) \<in> set g. set deps \<subseteq> set (dkeys g))"

section \<open>The loop establishes it\<close>

lemma layers_ok_Nil: "layers_ok g []"
  by (simp add: layers_ok_def)

lemma layers_ok_snoc:
  assumes ok: "layers_ok g ls" and dist: "distinct (dkeys g)"
    and rem: "remaining = filter (\<lambda>(s, deps). s \<notin> set (concat ls)) g"
    and ready: "ready = ready_of remaining (set (concat ls))" "ready \<noteq> []"
  shows "layers_ok g (ls @ [ready])"
proof -
  have set_ready: "set ready = layer_set g (set (concat ls))"
    by (auto simp: ready ready_of_set rem layer_set_def)
  have "distinct (dkeys remaining)"
    using dist by (simp add: rem distinct_map_filter)
  then have "distinct ready"
    by (simp add: ready ready_of_def distinct_map_filter)
  moreover have "set (concat ls) \<inter> set ready = {}"
    by (auto simp: set_ready layer_set_def)
  ultimately have "distinct (concat (ls @ [ready]))"
    using ok by (auto simp: layers_ok_def)
  moreover have "sorted ready" by (simp add: ready ready_of_def)
  ultimately show ?thesis
    using ok ready(2) set_ready by (auto simp: layers_ok_def nth_append less_Suc_eq)
qed

lemma remaining_step:
  assumes "remaining = filter (\<lambda>(s, deps). s \<notin> set (concat ls)) g"
  shows "filter (\<lambda>(s, deps). s \<notin> set ready) remaining =
           filter (\<lambda>(s, deps). s \<notin> set (concat (ls @ [ready]))) g"
  using assms by (auto intro!: filter_cong)

lemma layers_loop_spec:
  assumes "distinct (dkeys g)" "layers_ok g layers"
    and "remaining = filter (\<lambda>(s, deps). s \<notin> set (concat layers)) g"
    and "resolved = set (concat layers)"
  shows "(\<exists>ls. layers_loop remaining resolved layers = Inr ls \<and> layers_ok g ls \<and>
             set (dkeys g) \<subseteq> set (concat ls)) \<or>
         (layers_loop remaining resolved layers = Inl CyclicDependencyError \<and>
           (\<exists>ls. layers_ok g ls \<and> \<not> set (dkeys g) \<subseteq> set (concat ls) \<and>
              layer_set g (set (concat ls)) = {}))"
  using assms
proof (induction remaining resolved layers rule: layers_loop.induct)
  case (1 remaining resolved layers)
  show ?case
  proof (cases "remaining = []")
    case True
    then have "set (dkeys g) \<subseteq> set (concat layers)"
      using "1.prems" by (auto simp: filter_empty_conv)
    then show ?thesis using True "1.prems" by (simp add: layers_loop.simps)
  next
    case False
    let ?ready = "ready_of remaining resolved"
    show ?thesis
    proof (cases "?ready = []")
      case True
      then have "layer_set g (set (concat layers)) = {}"
        using "1.prems" ready_of_set [of remaining resolved] by (auto simp: layer_set_def)
      moreover have "\<not> set (dkeys g) \<subseteq> set (concat layers)"
        using False "1.prems" by (auto simp: filter_empty_conv)
      moreover have "layers_loop remaining resolved layers = Inl CyclicDependencyError"
        using True False by (subst layers_loop.simps) (simp add: Let_def)
      ultimately show ?thesis using "1.prems"(2) by blast
    next
      case nonempty: False
      have step: "layers_loop remaining resolved layers =
          layers_loop (filter (\<lambda>(s, deps). s \<notin> set ?ready) remaining)
            (resolved \<union> set ?ready) (layers @ [?ready])"
        using False nonempty by (subst layers_loop.simps) (simp add: Let_def)
      have ok: "layers_ok g (layers @ [?ready])"
        using layers_ok_snoc [OF "1.prems"(2,1,3), of ?ready] nonempty "1.prems"(4) by simp
      show ?thesis
        unfolding step
        by (rule "1.IH" [OF False refl nonempty "1.prems"(1) ok])
           (use remaining_step [OF "1.prems"(3)] "1.prems"(4) in auto)
    qed
  qed
qed

lemma topological_layers_cases:
  assumes "distinct (dkeys g)"
  obtains (layers) ls where "topological_layers g = Inr ls" "layers_ok g ls"
      "set (dkeys g) \<subseteq> set (concat ls)"
  | (cyclic) ls where "topological_layers g = Inl CyclicDependencyError" "layers_ok g ls"
      "\<not> set (dkeys g) \<subseteq> set (concat ls)" "layer_set g (set (concat ls)) = {}"
proof -
  have "g = filter (\<lambda>(s, deps). s \<notin> set (concat [])) g" "{} = set (concat [])" by simp_all
  from layers_loop_spec [OF assms layers_ok_Nil this] show thesis
    using that unfolding topological_layers_def by blast
qed

lemma in_concat_nth:
  assumes "s \<in> set (concat ls)"
  obtains i where "i < length ls" "s \<in> set (ls ! i)"
proof -
  from assms obtain x where "x \<in> set ls" "s \<in> set x" by auto
  then show thesis using that by (metis in_set_conv_nth)
qed

lemma layers_ok_subset:
  assumes "layers_ok g ls"
  shows "set (concat ls) \<subseteq> set (dkeys g)"
proof
  fix s
  assume "s \<in> set (concat ls)"
  then obtain i where "i < length ls" "s \<in> set (ls ! i)" by (rule in_concat_nth)
  then have "s \<in> layer_set g (set (concat (take i ls)))"
    using assms unfolding layers_ok_def by blast
  then show "s \<in> set (dkeys g)" by (force simp: layer_set_def)
qed

lemma topological_layers_sound:
  assumes "distinct (dkeys g)" "topological_layers g = Inr ls"
  shows "layers_ok g ls" "set (concat ls) = set (dkeys g)"
proof -
  have "layers_ok g ls \<and> set (dkeys g) \<subseteq> set (concat ls)"
    by (rule topological_layers_cases [OF assms(1)]) (use assms(2) in simp_all)
  then show "layers_ok g ls" "set (concat ls) = set (dkeys g)"
    using layers_ok_subset by blast+
qed

section \<open>Cycles\<close>

definition level :: "string list list \<Rightarrow> string \<Rightarrow> nat" where
  "level ls s = (LEAST i. i < length ls \<and> s \<in> set (ls ! i))"

lemma level_props:
  assumes "s \<in> set (concat ls)"
  shows "level ls s < length ls" "s \<in> set (ls ! level ls s)"
proof -
  from assms obtain i where "i < length ls \<and> s \<in> set (ls ! i)"
    by (blast elim: in_concat_nth)
  then have "level ls s < length ls \<and> s \<in> set (ls ! level ls s)"
    unfolding level_def by (rule LeastI)
  then show "level ls s < length ls" "s \<in> set (ls ! level ls s)" by auto
qed

lemma level_le: "i < length ls \<Longrightarrow> s \<in> set (ls ! i) \<Longrightarrow> level ls s \<le> i"
  unfolding level_def by (rule Least_le) simp

lemma in_concat_take:
  "s \<in> set (concat (take i ls)) \<longleftrightarrow> (\<exists>j < min i (length ls). s \<in> set (ls ! j))"
proof
  assume "s \<in> set (concat (take i ls))"
  then obtain j where "j < length (take i ls)" "s \<in> set (take i ls ! j)" by (rule in_concat_nth)
  then show "\<exists>j < min i (length ls). s \<in> set (ls ! j)" by auto
next
  assume "\<exists>j < min i (length ls). s \<in> set (ls ! j)"
  then obtain j where j: "j < i" "j < length ls" "s \<in> set (ls ! j)" by auto
  then have "ls ! j \<in> set (take i ls)" by (auto simp: in_set_conv_nth intro!: exI [of _ j])
  then show "s \<in> set (concat (take i ls))" using j(3) by auto
qed

lemma layers_ok_level:
  assumes "layers_ok g ls" "distinct (dkeys g)" "s \<in> set (concat ls)" "(s, d) \<in> dep_rel g"
  shows "level ls d < level ls s"
proof -
  let ?i = "level ls s"
  have i: "?i < length ls" "s \<in> set (ls ! ?i)" using level_props [OF assms(3)] by auto
  then have "s \<in> layer_set g (set (concat (take ?i ls)))"
    using assms(1) by (auto simp: layers_ok_def)
  then obtain deps where deps: "(s, deps) \<in> set g" "set deps \<subseteq> set (concat (take ?i ls))"
    by (auto simp: layer_set_def)
  from assms(4) obtain deps' where "(s, deps') \<in> set g" "d \<in> set deps'"
    by (auto simp: dep_rel_def)
  then have "d \<in> set (concat (take ?i ls))"
    using deps assms(2) by (metis eq_key_imp_eq_value subsetD)
  then obtain j where "j < ?i" "j < length ls" "d \<in> set (ls ! j)"
    unfolding in_concat_take by auto
  then show ?thesis using level_le [of j ls d] by linarith
qed

lemma finite_dep_rel: "finite (dep_rel g)"
proof -
  have "dep_rel g \<subseteq> (\<Union>(s, deps) \<in> set g. {s} \<times> set deps)" by (auto simp: dep_rel_def)
  then show ?thesis by (rule finite_subset) auto
qed

lemma topological_layers_acyclic:
  assumes "distinct (dkeys g)" "topological_layers g = Inr ls"
  shows "acyclic (dep_rel g)"
proof -
  note sound = topological_layers_sound [OF assms]
  have "dep_rel g \<subseteq> (measure (level ls))\<inverse>"
  proof (rule subrelI)
    fix s d
    assume sd: "(s, d) \<in> dep_rel g"
    then have "s \<in> set (concat ls)" unfolding sound(2) by (force simp: dep_rel_def)
    then show "(s, d) \<in> (measure (level ls))\<inverse>"
      using layers_ok_level [OF sound(1) assms(1) _ sd] by simp
  qed
  then have "acyclic ((measure (level ls))\<inverse>) \<longrightarrow> acyclic (dep_rel g)"
    by (blast intro: acyclic_subset)
  then show ?thesis by (simp add: wf_acyclic)
qed

lemma acyclic_topological_layers:
  assumes "distinct (dkeys g)" "closed_graph g" "acyclic (dep_rel g)"
  shows "\<exists>ls. topological_layers g = Inr ls"
proof (cases rule: topological_layers_cases [OF assms(1)])
  case (1 ls)
  then show ?thesis by blast
next
  case (2 ls)
  define U where "U = set (dkeys g) - set (concat ls)"
  have "wf ((dep_rel g)\<inverse>)"
    using assms(3) finite_dep_rel by (simp add: finite_acyclic_wf)
  moreover obtain u where "u \<in> U" using 2 unfolding U_def by blast
  ultimately obtain s where s: "s \<in> U" "\<And>d. (d, s) \<in> (dep_rel g)\<inverse> \<Longrightarrow> d \<notin> U"
    by (rule wfE_min) blast
  from s(1) obtain deps where deps: "(s, deps) \<in> set g" by (auto simp: U_def)
  have "set deps \<subseteq> set (concat ls)"
  proof
    fix d
    assume "d \<in> set deps"
    then have "d \<notin> U" "d \<in> set (dkeys g)"
      using s(2) [of d] deps assms(2) unfolding dep_rel_def closed_graph_def by auto
    then show "d \<in> set (concat ls)" by (auto simp: U_def)
  qed
  then have "s \<in> layer_set g (set (concat ls))"
    using deps s(1) by (auto simp: layer_set_def U_def)
  then show ?thesis using 2 by simp
qed

section \<open>Validation\<close>

lemma check_dep_loop:
  "rfoldl (\<lambda>_ dep. check_dep known s dep) () deps = Inr u \<longleftrightarrow> set deps \<subseteq> known - {s}"
  by (induction deps) (auto simp: check_dep_def)

lemma check_dep_loop_error:
  "rfoldl (\<lambda>_ dep. check_dep known s dep) () deps = Inl e \<Longrightarrow> e = WorkflowDefinitionError"
  by (induction deps) (auto simp: check_dep_def split: if_splits)

lemma check_all_loop:
  "rfoldl (\<lambda>_ (s, deps). rfoldl (\<lambda>_ dep. check_dep known s dep) () deps) () g = Inr u
     \<longleftrightarrow> (\<forall>(s, deps) \<in> set g. set deps \<subseteq> known - {s})"
  by (induction g) (auto simp: rbind_eq_Inr check_dep_loop)

lemma check_all_loop_error:
  "rfoldl (\<lambda>_ (s, deps). rfoldl (\<lambda>_ dep. check_dep known s dep) () deps) () g = Inl e
     \<Longrightarrow> e = WorkflowDefinitionError"
  by (induction g) (auto simp: rbind_eq_Inl dest: check_dep_loop_error)

lemma validate_dependencies_Inr:
  assumes "distinct (dkeys g)"
  shows "validate_dependencies g = Inr () \<longleftrightarrow>
           closed_graph g \<and> (\<forall>(s, deps) \<in> set g. s \<notin> set deps) \<and> acyclic (dep_rel g)"
proof -
  have "validate_dependencies g = Inr () \<longleftrightarrow>
      (\<forall>(s, deps) \<in> set g. set deps \<subseteq> set (dkeys g) - {s}) \<and> (\<exists>ls. topological_layers g = Inr ls)"
    by (auto simp: validate_dependencies_def rbind_eq_Inr check_all_loop)
  also have "(\<forall>(s, deps) \<in> set g. set deps \<subseteq> set (dkeys g) - {s}) \<longleftrightarrow>
      closed_graph g \<and> (\<forall>(s, deps) \<in> set g. s \<notin> set deps)"
    by (fastforce simp: closed_graph_def)
  finally show ?thesis
    using topological_layers_acyclic [OF assms] acyclic_topological_layers [OF assms] by blast
qed

lemma validate_dependencies_error:
  assumes "distinct (dkeys g)" "validate_dependencies g = Inl e"
  shows "e = WorkflowDefinitionError \<or> e = CyclicDependencyError"
  using assms(2)
  by (cases rule: topological_layers_cases [OF assms(1)])
     (auto simp: validate_dependencies_def rbind_eq_Inl dest: check_all_loop_error)

section \<open>Properties\<close>

text \<open>
  C27: \<open>topological_layers\<close> on a graph whose dependencies are all known: it raises
  \<open>CyclicDependencyError\<close> exactly when the graph has a cycle, and otherwise returns layers that
  hold every step once, each layer being precisely the sorted steps whose dependencies all
  lie in earlier layers.
\<close>

theorem topological_layers_correct:
  assumes "distinct (dkeys g)" "closed_graph g"
  shows "if acyclic (dep_rel g)
         then \<exists>ls. topological_layers g = Inr ls \<and> layers_ok g ls \<and> set (concat ls) = set (dkeys g)
         else topological_layers g = Inl CyclicDependencyError"
proof (cases rule: topological_layers_cases [OF assms(1)])
  case (1 ls)
  then show ?thesis
    using topological_layers_sound [OF assms(1) 1(1)] topological_layers_acyclic [OF assms(1) 1(1)]
    by simp
next
  case (2 ls)
  then show ?thesis using acyclic_topological_layers [OF assms] by auto
qed

definition sample_graph :: dep_graph where
  "sample_graph = [(''score'', [''fetch'', ''clean'']), (''fetch'', []), (''clean'', [''fetch''])]"

theorem topological_layers_correct_witness:
  "distinct (dkeys sample_graph) \<and> closed_graph sample_graph \<and>
   topological_layers sample_graph = Inr [[''fetch''], [''clean''], [''score'']] \<and>
   (if acyclic (dep_rel sample_graph)
    then \<exists>ls. topological_layers sample_graph = Inr ls \<and> layers_ok sample_graph ls \<and>
           set (concat ls) = set (dkeys sample_graph)
    else topological_layers sample_graph = Inl CyclicDependencyError)"
proof -
  have pre: "distinct (dkeys sample_graph)" "closed_graph sample_graph"
    by (simp_all add: sample_graph_def closed_graph_def)
  have "topological_layers sample_graph = Inr [[''fetch''], [''clean''], [''score'']]"
    by (simp add: topological_layers_def sample_graph_def layers_loop.simps ready_of_def)
  with pre topological_layers_correct [OF pre] show ?thesis by blast
qed

end
