(* ===== verification/Workflow_Definition.thy ===== *)
theory Workflow_Definition
  imports Enums Dag
begin

text \<open>
  \<open>core/domain/definition.py\<close>: the immutable template an instance executes. A record per
  model, the field constraints that pydantic checks on construction, the graph validator,
  the lookups and the retry backoff.
\<close>

section \<open>Models\<close>

record retry_policy =
  rp_max_retries :: int
  rp_backoff_base_seconds :: rat
  rp_backoff_multiplier :: rat
  rp_backoff_max_seconds :: rat
  rp_jitter :: rat
  rp_retry_on :: "string list"
  rp_fallback_model :: "string option"

definition DEFAULT_RETRYABLE :: "string list" where
  "DEFAULT_RETRYABLE = [''LLMTimeoutError'', ''RateLimitError'', ''MalformedOutputError'']"

definition default_retry_policy :: retry_policy where
  "default_retry_policy =
     \<lparr>rp_max_retries = 3, rp_backoff_base_seconds = 1, rp_backoff_multiplier = 2,
      rp_backoff_max_seconds = 60, rp_jitter = 1/5, rp_retry_on = DEFAULT_RETRYABLE,
      rp_fallback_model = None\<rparr>"

definition backoff_delay :: "retry_policy \<Rightarrow> int \<Rightarrow> rat" where
  "backoff_delay p attempt =
     min (rp_backoff_base_seconds p * rp_backoff_multiplier p ^ nat (max (attempt - 1) 0))
         (rp_backoff_max_seconds p)"

record workflow_step =
  ws_step_id :: string
  ws_name :: string
  ws_agent_type :: string
  ws_input_schema :: obj
  ws_output_schema :: obj
  ws_retry_policy :: retry_policy
  ws_timeout_seconds :: int
  ws_cost_tier :: cost_tier
  ws_side_effects :: "string list"
  ws_compensation_action :: "string option"
  ws_requires_approval :: bool
  ws_approval_timeout_seconds :: "int option"
  ws_approval_auto_action :: string
  ws_dependencies :: "string list"

record workflow_definition =
  wd_workflow_id :: string
  wd_name :: string
  wd_description :: string
  wd_version :: string
  wd_steps :: "workflow_step list"
  wd_global_timeout_seconds :: int
  wd_max_concurrent_steps :: int
  wd_on_failure :: on_failure

text \<open>A step and a definition with every optional field left at its default.\<close>

definition mk_step :: "string \<Rightarrow> string \<Rightarrow> string \<Rightarrow> string list \<Rightarrow> workflow_step" where
  "mk_step sid name agent deps =
     \<lparr>ws_step_id = sid, ws_name = name, ws_agent_type = agent, ws_input_schema = [],
      ws_output_schema = [], ws_retry_policy = default_retry_policy, ws_timeout_seconds = 300,
      ws_cost_tier = STANDARD, ws_side_effects = [], ws_compensation_action = None,
      ws_requires_approval = False, ws_approval_timeout_seconds = None,
      ws_approval_auto_action = ''abort'', ws_dependencies = deps\<rparr>"

definition mk_definition ::
  "string \<Rightarrow> string \<Rightarrow> string \<Rightarrow> workflow_step list \<Rightarrow> workflow_definition" where
  "mk_definition wid name version steps =
     \<lparr>wd_workflow_id = wid, wd_name = name, wd_description = '''', wd_version = version,
      wd_steps = steps, wd_global_timeout_seconds = 3600, wd_max_concurrent_steps = 5,
      wd_on_failure = OF_PAUSE\<rparr>"

section \<open>Field constraints\<close>

definition ident_char :: "char \<Rightarrow> bool" where
  "ident_char c \<longleftrightarrow>
     (CHR ''a'' \<le> c \<and> c \<le> CHR ''z'') \<or> (CHR ''A'' \<le> c \<and> c \<le> CHR ''Z'') \<or>
     (CHR ''0'' \<le> c \<and> c \<le> CHR ''9'') \<or> c = CHR ''_'' \<or> c = CHR ''.'' \<or> c = CHR ''-''"

text \<open>The pattern of a letter, digit, underscore, dot or dash, one or more times.\<close>

definition ident_pattern :: "string \<Rightarrow> bool" where
  "ident_pattern s \<longleftrightarrow> s \<noteq> [] \<and> list_all ident_char s"

fun split_on :: "char \<Rightarrow> string \<Rightarrow> string list" where
  "split_on c [] = [[]]"
| "split_on c (x # xs) =
     (if x = c then [] # split_on c xs
      else case split_on c xs of [] \<Rightarrow> [[x]] | p # ps \<Rightarrow> (x # p) # ps)"

definition digits_pattern :: "string \<Rightarrow> bool" where
  "digits_pattern s \<longleftrightarrow> s \<noteq> [] \<and> list_all (\<lambda>c. CHR ''0'' \<le> c \<and> c \<le> CHR ''9'') s"

text \<open>Three dot-separated numbers.\<close>

definition semver_pattern :: "string \<Rightarrow> bool" where
  "semver_pattern s \<longleftrightarrow>
     length (split_on CHR ''.'' s) = 3 \<and> list_all digits_pattern (split_on CHR ''.'' s)"

definition retry_policy_fields :: "retry_policy \<Rightarrow> bool" where
  "retry_policy_fields p \<longleftrightarrow>
     0 \<le> rp_max_retries p \<and> rp_max_retries p \<le> 20 \<and>
     0 < rp_backoff_base_seconds p \<and> 1 \<le> rp_backoff_multiplier p \<and>
     0 < rp_backoff_max_seconds p \<and> 0 \<le> rp_jitter p \<and> rp_jitter p \<le> 1"

definition workflow_step_fields :: "workflow_step \<Rightarrow> bool" where
  "workflow_step_fields s \<longleftrightarrow>
     ident_pattern (ws_step_id s) \<and> length (ws_step_id s) \<le> 128 \<and>
     length (ws_name s) \<le> 256 \<and> length (ws_agent_type s) \<le> 128 \<and>
     retry_policy_fields (ws_retry_policy s) \<and>
     0 < ws_timeout_seconds s \<and> ws_timeout_seconds s \<le> 86400 \<and>
     (case ws_approval_timeout_seconds s of None \<Rightarrow> True | Some n \<Rightarrow> 0 < n) \<and>
     ws_approval_auto_action s \<in> {''approve'', ''skip'', ''abort''}"

definition workflow_definition_fields :: "workflow_definition \<Rightarrow> bool" where
  "workflow_definition_fields d \<longleftrightarrow>
     ident_pattern (wd_workflow_id d) \<and> length (wd_workflow_id d) \<le> 64 \<and>
     length (wd_name d) \<le> 256 \<and> semver_pattern (wd_version d) \<and>
     wd_steps d \<noteq> [] \<and> list_all workflow_step_fields (wd_steps d) \<and>
     0 < wd_global_timeout_seconds d \<and>
     1 \<le> wd_max_concurrent_steps d \<and> wd_max_concurrent_steps d \<le> 100"

section \<open>Graph validation and lookups\<close>

text \<open>The dictionary of step id to its list of dependencies.\<close>

definition deps_dict :: "workflow_step list \<Rightarrow> dep_graph" where
  "deps_dict steps = foldl (\<lambda>d s. dset (ws_step_id s) (ws_dependencies s) d) [] steps"

definition step_ids :: "workflow_definition \<Rightarrow> string list" where
  "step_ids d = map ws_step_id (wd_steps d)"

definition check_compensation :: "workflow_step \<Rightarrow> unit res" where
  "check_compensation s =
     (if truthy_str (ws_compensation_action s) \<and> ws_side_effects s = []
      then Inl WorkflowDefinitionError else Inr ())"

definition validate_graph :: "workflow_definition \<Rightarrow> unit res" where
  "validate_graph d =
     (let ids = step_ids d; dupes = filter (\<lambda>i. count_list ids i > 1) ids
      in if dupes \<noteq> [] then Inl WorkflowDefinitionError
         else rbind (validate_dependencies (deps_dict (wd_steps d)))
                (\<lambda>_. rfoldl (\<lambda>_ s. check_compensation s) () (wd_steps d)))"

text \<open>Constructing a definition: the fields first, then the graph validator.\<close>

definition new_definition :: "workflow_definition \<Rightarrow> workflow_definition res" where
  "new_definition d =
     (if \<not> workflow_definition_fields d then Inl PydanticValidationError
      else rbind (validate_graph d) (\<lambda>_. Inr d))"

definition find_step :: "workflow_definition \<Rightarrow> string \<Rightarrow> workflow_step res" where
  "find_step d step_id =
     (case List.find (\<lambda>s. ws_step_id s = step_id) (wd_steps d) of
        Some s \<Rightarrow> Inr s | None \<Rightarrow> Inl PyKeyError)"

definition dependents :: "workflow_definition \<Rightarrow> string \<Rightarrow> string list" where
  "dependents d step_id =
     map ws_step_id (filter (\<lambda>s. step_id \<in> set (ws_dependencies s)) (wd_steps d))"

definition execution_layers :: "workflow_definition \<Rightarrow> string list list res" where
  "execution_layers d = topological_layers (deps_dict (wd_steps d))"

section \<open>Validation establishes well-formedness\<close>

definition graph_of :: "workflow_definition \<Rightarrow> dep_graph" where
  "graph_of d = map (\<lambda>s. (ws_step_id s, ws_dependencies s)) (wd_steps d)"

text \<open>What every constructed definition satisfies.\<close>

definition wf_definition :: "workflow_definition \<Rightarrow> bool" where
  "wf_definition d \<longleftrightarrow>
     distinct (step_ids d) \<and>
     (\<forall>s \<in> set (wd_steps d). set (ws_dependencies s) \<subseteq> set (step_ids d) \<and>
        ws_step_id s \<notin> set (ws_dependencies s)) \<and>
     acyclic (dep_rel (graph_of d)) \<and>
     (\<forall>s \<in> set (wd_steps d). truthy_str (ws_compensation_action s) \<longrightarrow> ws_side_effects s \<noteq> [])"

lemma graph_of_keys [simp]: "dkeys (graph_of d) = step_ids d"
  by (simp add: graph_of_def step_ids_def)

lemma foldl_dset_distinct:
  assumes "distinct (dkeys acc @ map ws_step_id steps)"
  shows "foldl (\<lambda>d s. dset (ws_step_id s) (ws_dependencies s) d) acc steps =
           acc @ map (\<lambda>s. (ws_step_id s, ws_dependencies s)) steps"
  using assms
proof (induction steps arbitrary: acc)
  case (Cons s steps)
  have "dset (ws_step_id s) (ws_dependencies s) acc = acc @ [(ws_step_id s, ws_dependencies s)]"
    using Cons.prems by (intro dset_fresh) auto
  then show ?case using Cons by simp
qed simp

lemma deps_dict_distinct: "distinct (step_ids d) \<Longrightarrow> deps_dict (wd_steps d) = graph_of d"
  using foldl_dset_distinct [of "[]" "wd_steps d"]
  by (simp add: deps_dict_def graph_of_def step_ids_def)

lemma no_dupes_iff: "filter (\<lambda>i. count_list xs i > 1) xs = [] \<longleftrightarrow> distinct xs"
proof
  assume "filter (\<lambda>i. count_list xs i > 1) xs = []"
  then have le: "\<forall>x \<in> set xs. count_list xs x \<le> 1" by (auto simp: filter_empty_conv)
  show "distinct xs"
  proof (rule ccontr)
    assume "\<not> distinct xs"
    then obtain us y vs ws where "xs = us @ [y] @ vs @ [y] @ ws"
      using not_distinct_decomp by blast
    then have "count_list xs y \<ge> 2" "y \<in> set xs" by auto
    then show False using le by fastforce
  qed
next
  assume "distinct xs"
  then have "count_list xs x \<le> 1" for x
    by (induction xs) (auto simp: count_notin)
  then show "filter (\<lambda>i. count_list xs i > 1) xs = []"
    by (auto simp: filter_empty_conv not_less)
qed

lemma check_compensation_loop:
  "rfoldl (\<lambda>_ s. check_compensation s) () steps = Inr u \<longleftrightarrow>
     (\<forall>s \<in> set steps. truthy_str (ws_compensation_action s) \<longrightarrow> ws_side_effects s \<noteq> [])"
  by (induction steps) (auto simp: check_compensation_def)

lemma validate_graph_iff: "validate_graph d = Inr () \<longleftrightarrow> wf_definition d"
proof (cases "distinct (step_ids d)")
  case True
  then have "validate_graph d = Inr () \<longleftrightarrow>
      closed_graph (graph_of d) \<and> (\<forall>(s, deps) \<in> set (graph_of d). s \<notin> set deps) \<and>
      acyclic (dep_rel (graph_of d)) \<and>
      (\<forall>s \<in> set (wd_steps d). truthy_str (ws_compensation_action s) \<longrightarrow> ws_side_effects s \<noteq> [])"
    using no_dupes_iff [of "step_ids d"] validate_dependencies_Inr [of "graph_of d"]
    by (auto simp: validate_graph_def deps_dict_distinct rbind_eq_Inr check_compensation_loop Let_def)
  moreover have "closed_graph (graph_of d) \<longleftrightarrow>
      (\<forall>s \<in> set (wd_steps d). set (ws_dependencies s) \<subseteq> set (step_ids d))"
    by (auto simp: closed_graph_def graph_of_def step_ids_def)
  moreover have "(\<forall>(s, deps) \<in> set (graph_of d). s \<notin> set deps) \<longleftrightarrow>
      (\<forall>s \<in> set (wd_steps d). ws_step_id s \<notin> set (ws_dependencies s))"
    by (auto simp: graph_of_def)
  ultimately show ?thesis using True by (auto simp: wf_definition_def)
next
  case False
  then have "filter (\<lambda>i. count_list (step_ids d) i > 1) (step_ids d) \<noteq> []"
    by (simp only: no_dupes_iff not_False_eq_True)
  then have "validate_graph d = Inl WorkflowDefinitionError"
    unfolding validate_graph_def Let_def by (simp only: if_True not_False_eq_True)
  then show ?thesis using False by (simp add: wf_definition_def)
qed

lemma new_definition_Inr:
  "new_definition d = Inr d' \<longleftrightarrow> d' = d \<and> workflow_definition_fields d \<and> wf_definition d"
  using validate_graph_iff [of d] by (auto simp: new_definition_def rbind_eq_Inr)

lemma find_step_Inr_iff:
  "(\<exists>s. find_step d i = Inr s) \<longleftrightarrow> i \<in> set (step_ids d)"
proof (cases "List.find (\<lambda>s. ws_step_id s = i) (wd_steps d)")
  case None
  moreover from None have "i \<notin> set (step_ids d)" by (auto simp: find_None_iff step_ids_def)
  ultimately show ?thesis by (simp only: find_step_def option.case) simp
next
  case (Some s)
  moreover from Some have "i \<in> set (step_ids d)" by (auto simp: find_Some_iff step_ids_def)
  ultimately show ?thesis by (simp only: find_step_def option.case) simp
qed

lemma find_step_Inr: "find_step d i = Inr s \<Longrightarrow> s \<in> set (wd_steps d) \<and> ws_step_id s = i"
  by (auto simp: find_step_def find_Some_iff split: option.splits)

lemma find_step_unique:
  assumes "distinct (step_ids d)" "s \<in> set (wd_steps d)"
  shows "find_step d (ws_step_id s) = Inr s"
proof -
  have "ws_step_id s \<in> set (step_ids d)" using assms(2) by (auto simp: step_ids_def)
  then obtain s' where s': "find_step d (ws_step_id s) = Inr s'"
    using find_step_Inr_iff by blast
  then have "s' \<in> set (wd_steps d)" "ws_step_id s' = ws_step_id s"
    using find_step_Inr by blast+
  then have "s' = s"
    using assms by (metis step_ids_def distinct_map inj_on_def)
  then show ?thesis using s' by simp
qed

section \<open>Backoff\<close>

lemma backoff_delay_pos:
  "retry_policy_fields p \<Longrightarrow> 0 < backoff_delay p attempt"
  by (auto simp: backoff_delay_def retry_policy_fields_def)

lemma backoff_delay_le_max: "backoff_delay p attempt \<le> rp_backoff_max_seconds p"
  by (simp add: backoff_delay_def)

lemma backoff_delay_mono:
  assumes "retry_policy_fields p" "a \<le> b"
  shows "backoff_delay p a \<le> backoff_delay p b"
proof -
  have "rp_backoff_multiplier p ^ nat (max (a - 1) 0) \<le> rp_backoff_multiplier p ^ nat (max (b - 1) 0)"
    using assms by (intro power_increasing) (auto simp: retry_policy_fields_def)
  then have "rp_backoff_base_seconds p * rp_backoff_multiplier p ^ nat (max (a - 1) 0)
      \<le> rp_backoff_base_seconds p * rp_backoff_multiplier p ^ nat (max (b - 1) 0)"
    using assms(1) by (intro mult_left_mono) (auto simp: retry_policy_fields_def)
  then show ?thesis unfolding backoff_delay_def by (rule min.mono) simp
qed

section \<open>Properties\<close>

text \<open>
  C28: constructing a \<open>WorkflowDefinition\<close> succeeds exactly when the fields meet their
  constraints, step ids are unique, dependencies name other existing steps, the dependency
  relation has no cycle and compensated steps declare side effects; the value is then the
  definition itself.
\<close>

theorem new_definition_accepts:
  "new_definition d = Inr d' \<longleftrightarrow> d' = d \<and> workflow_definition_fields d \<and> wf_definition d"
  by (rule new_definition_Inr)

text \<open>
  The execution layers of a constructed definition always exist, cover its steps exactly
  once, and put every dependency of a step into a strictly earlier layer.
\<close>

lemma execution_layers_sound:
  assumes "new_definition d = Inr d"
  shows "\<exists>ls. execution_layers d = Inr ls \<and> distinct (concat ls) \<and>
           set (concat ls) = set (step_ids d) \<and>
           (\<forall>s \<in> set (wd_steps d). \<forall>dep \<in> set (ws_dependencies s).
              level ls dep < level ls (ws_step_id s))"
proof -
  have wf: "wf_definition d" using assms by (simp add: new_definition_Inr)
  have g: "distinct (dkeys (graph_of d))" "acyclic (dep_rel (graph_of d))"
    using wf by (simp_all add: wf_definition_def)
  moreover have "closed_graph (graph_of d)"
    using wf by (auto simp: wf_definition_def closed_graph_def graph_of_def step_ids_def)
  ultimately obtain ls where ls: "topological_layers (graph_of d) = Inr ls"
    using acyclic_topological_layers by blast
  note ok = topological_layers_sound [OF g(1) ls]
  have "execution_layers d = Inr ls"
    using ls g(1) by (simp add: execution_layers_def deps_dict_distinct)
  moreover have "level ls dep < level ls (ws_step_id s)"
    if "s \<in> set (wd_steps d)" "dep \<in> set (ws_dependencies s)" for s dep
    using layers_ok_level [OF ok(1), of "ws_step_id s" dep] that ok g(1)
    by (auto simp: dep_rel_def graph_of_def step_ids_def)
  ultimately show ?thesis using ok by (auto simp: layers_ok_def)
qed

definition sample_definition :: workflow_definition where
  "sample_definition = mk_definition ''wf'' ''Sample'' ''1.0.0''
     [mk_step ''a'' ''A'' ''agent'' [], mk_step ''b'' ''B'' ''agent'' [''a'']]"

lemma sample_definition_ok: "new_definition sample_definition = Inr sample_definition"
  by code_simp

lemma execution_layers_sound_witness:
  "new_definition sample_definition = Inr sample_definition \<and>
   (\<exists>ls. execution_layers sample_definition = Inr ls \<and> distinct (concat ls) \<and>
      set (concat ls) = {''a'', ''b''} \<and> level ls ''a'' < level ls ''b'')"
  using execution_layers_sound [OF sample_definition_ok] sample_definition_ok
  by (auto simp: sample_definition_def mk_definition_def mk_step_def step_ids_def)

text \<open>
  The delay before a retry is positive, never above the policy's maximum, and never
  shrinks from one attempt to a later one.
\<close>

lemma backoff_delay_bounds:
  assumes "retry_policy_fields p" "a \<le> b"
  shows "0 < backoff_delay p a \<and> backoff_delay p a \<le> backoff_delay p b \<and>
         backoff_delay p b \<le> rp_backoff_max_seconds p"
  using backoff_delay_pos [OF assms(1)] backoff_delay_mono [OF assms] backoff_delay_le_max by blast

lemma backoff_delay_bounds_witness:
  "retry_policy_fields default_retry_policy \<and>
   0 < backoff_delay default_retry_policy 1 \<and>
   backoff_delay default_retry_policy 1 \<le> backoff_delay default_retry_policy 3 \<and>
   backoff_delay default_retry_policy 3 \<le> rp_backoff_max_seconds default_retry_policy"
proof -
  have "retry_policy_fields default_retry_policy"
    by (simp add: retry_policy_fields_def default_retry_policy_def)
  then show ?thesis using backoff_delay_bounds [of default_retry_policy 1 3] by simp
qed

end
