(* ===== verification/Instance_State.thy ===== *)
theory Instance_State
  imports Workflow_Definition
begin

text \<open>
  \<open>core/domain/instance.py\<close>: the runtime projection of one workflow instance and its
  read-only helpers. The record of a recorded model call has the six keys that the
  projection stores (\<open>fold.py\<close>, \<open>_on_llm_recorded\<close>).
\<close>

section \<open>Models\<close>

record token_usage =
  tu_input :: int
  tu_output :: int

definition tu_total :: "token_usage \<Rightarrow> int" where
  "tu_total u = tu_input u + tu_output u"

record llm_recording =
  lr_request_digest :: string
  lr_model :: string
  lr_response :: obj
  lr_tokens_input :: int
  lr_tokens_output :: int
  lr_cost_usd :: usd

record step_state =
  ss_step_id :: string
  ss_status :: step_status
  ss_attempts :: int
  ss_output :: "obj option"
  ss_error_type :: "string option"
  ss_error_message :: "string option"
  ss_model_used :: "string option"
  ss_cost_usd :: usd
  ss_tokens :: token_usage
  ss_started_at :: "instant option"
  ss_completed_at :: "instant option"
  ss_next_retry_at :: "instant option"
  ss_recorded_llm_calls :: "llm_recording list"

record error_record =
  er_step_id :: "string option"
  er_error_type :: string
  er_error_message :: string
  er_occurred_at :: instant
  er_attempt :: "int option"

record escalation_ref =
  esc_escalation_id :: string
  esc_step_id :: string
  esc_reason :: string
  esc_deadline :: "instant option"
  esc_resolved :: bool

datatype effect_ref_status = ES_PENDING | ES_EXECUTED | ES_COMPENSATED

record side_effect_ref =
  se_idempotency_key :: string
  se_step_id :: string
  se_effect_name :: string
  se_status :: effect_ref_status

record workflow_instance =
  wi_instance_id :: string
  wi_tenant_id :: string
  wi_workflow_id :: string
  wi_workflow_version :: string
  wi_status :: workflow_status
  wi_context :: obj
  wi_step_states :: "(string, step_state) pydict"
  wi_cost_accumulated_usd :: usd
  wi_tokens_used :: token_usage
  wi_budget_limit_usd :: "usd option"
  wi_error_history :: "error_record list"
  wi_escalations :: "escalation_ref list"
  wi_side_effects :: "side_effect_ref list"
  wi_version :: nat
  wi_created_at :: "instant option"
  wi_updated_at :: "instant option"
  wi_completed_at :: "instant option"

definition new_step_state :: "string \<Rightarrow> step_state" where
  "new_step_state sid =
     \<lparr>ss_step_id = sid, ss_status = ST_PENDING, ss_attempts = 0, ss_output = None,
      ss_error_type = None, ss_error_message = None, ss_model_used = None, ss_cost_usd = 0,
      ss_tokens = \<lparr>tu_input = 0, tu_output = 0\<rparr>, ss_started_at = None,
      ss_completed_at = None, ss_next_retry_at = None, ss_recorded_llm_calls = []\<rparr>"

definition new_instance :: "string \<Rightarrow> string \<Rightarrow> string \<Rightarrow> string \<Rightarrow> workflow_instance" where
  "new_instance iid tid wid ver =
     \<lparr>wi_instance_id = iid, wi_tenant_id = tid, wi_workflow_id = wid, wi_workflow_version = ver,
      wi_status = WF_PENDING, wi_context = [], wi_step_states = [],
      wi_cost_accumulated_usd = 0, wi_tokens_used = \<lparr>tu_input = 0, tu_output = 0\<rparr>,
      wi_budget_limit_usd = None, wi_error_history = [], wi_escalations = [],
      wi_side_effects = [], wi_version = 0, wi_created_at = None, wi_updated_at = None,
      wi_completed_at = None\<rparr>"

section \<open>Read helpers\<close>

definition is_terminal :: "workflow_instance \<Rightarrow> bool" where
  "is_terminal i \<longleftrightarrow> wi_status i \<in> TERMINAL_WORKFLOW_STATUSES"

definition remaining_budget_usd :: "workflow_instance \<Rightarrow> usd option" where
  "remaining_budget_usd i =
     (case wi_budget_limit_usd i of None \<Rightarrow> None
      | Some limit \<Rightarrow> Some (limit - wi_cost_accumulated_usd i))"

definition step_of :: "workflow_instance \<Rightarrow> string \<Rightarrow> step_state res" where
  "step_of i sid = (case dget (wi_step_states i) sid of None \<Rightarrow> Inl PyKeyError | Some st \<Rightarrow> Inr st)"

definition step_done :: "workflow_instance \<Rightarrow> string \<Rightarrow> bool" where
  "step_done i sid =
     (case dget (wi_step_states i) sid of None \<Rightarrow> False
      | Some st \<Rightarrow> ss_status st \<in> {ST_COMPLETED, ST_SKIPPED})"

definition ready_steps :: "workflow_instance \<Rightarrow> workflow_definition \<Rightarrow> string list" where
  "ready_steps i d =
     map ws_step_id
       (filter (\<lambda>s. (case dget (wi_step_states i) (ws_step_id s) of None \<Rightarrow> True
                      | Some st \<Rightarrow> ss_status st \<in> {ST_PENDING, ST_READY})
                    \<and> list_all (step_done i) (ws_dependencies s))
          (wd_steps d))"

definition all_steps_settled :: "workflow_instance \<Rightarrow> workflow_definition \<Rightarrow> bool" where
  "all_steps_settled i d =
     list_all (\<lambda>s. ss_status (case dget (wi_step_states i) (ws_step_id s) of
                                 None \<Rightarrow> new_step_state (ws_step_id s) | Some st \<Rightarrow> st)
                   \<in> {ST_COMPLETED, ST_SKIPPED, ST_COMPENSATED})
       (wd_steps d)"

section \<open>Facts about the helpers\<close>

lemma ready_steps_deps_done:
  "sid \<in> set (ready_steps i d) \<Longrightarrow>
     \<exists>s \<in> set (wd_steps d). ws_step_id s = sid \<and> (\<forall>dep \<in> set (ws_dependencies s). step_done i dep)"
  by (auto simp: ready_steps_def list_all_iff)

text \<open>A settled instance offers nothing to run.\<close>

lemma settled_no_ready:
  assumes "all_steps_settled i d"
  shows "ready_steps i d = []"
proof -
  have "\<not> (case dget (wi_step_states i) (ws_step_id s) of None \<Rightarrow> True
           | Some st \<Rightarrow> ss_status st \<in> {ST_PENDING, ST_READY})"
    if "s \<in> set (wd_steps d)" for s
    using assms that
    by (auto simp: all_steps_settled_def list_all_iff new_step_state_def split: option.splits)
  then show ?thesis by (simp add: ready_steps_def filter_empty_conv)
qed

end
