(* ===== verification/Events.thy ===== *)
theory Events
  imports Instance_State
begin

text \<open>
  \<open>core/events/types.py\<close>: the event vocabulary. The envelope (\<open>BaseEvent\<close>) is a record
  whose last field is one of the 23 payloads, each a constructor with the fields of its
  class in the source's order. \<open>event_fields\<close> are the constraints pydantic checks when an
  event is built or parsed.
\<close>

datatype event_body =
    InstanceCreated string string obj "usd option" string obj
      \<comment> \<open>workflow id, workflow version, context, budget limit, trigger source, trigger metadata\<close>
  | InstanceStatusChanged workflow_status workflow_status "string option"
      \<comment> \<open>from, to, reason\<close>
  | InstanceCompleted obj
      \<comment> \<open>outputs\<close>
  | InstanceFailed string string
      \<comment> \<open>error type, error message\<close>
  | WorkflowRequeued "string option" string "int option"
      \<comment> \<open>step id, requeued by, dead-letter id\<close>
  | WorkflowBudgetAdjusted "usd option" string "string option"
      \<comment> \<open>new limit, adjusted by, reason\<close>
  | StepStatusChanged string step_status step_status "string option"
      \<comment> \<open>step id, from, to, reason\<close>
  | StepStarted string int string "string option"
      \<comment> \<open>step id, attempt, worker id, model selected\<close>
  | StepCompleted string int obj "string option" usd int int int
      \<comment> \<open>step id, attempt, output, model used, cost, tokens in, tokens out, duration\<close>
  | StepFailed string int string string bool
      \<comment> \<open>step id, attempt, error type, error message, retryable\<close>
  | StepRetryScheduled string int instant
      \<comment> \<open>step id, next attempt, run at\<close>
  | StepSkipped string string
      \<comment> \<open>step id, reason\<close>
  | StepCompensated string string
      \<comment> \<open>step id, compensation action\<close>
  | LLMCallRecorded string int string string obj int int usd
      \<comment> \<open>step id, attempt, request digest, model, response, tokens in, tokens out, cost\<close>
  | ToolCallRecorded string int string string json
      \<comment> \<open>step id, attempt, tool name, args digest, result\<close>
  | SideEffectIntentRecorded string string string obj string
      \<comment> \<open>step id, effect name, idempotency key, params, guarantee\<close>
  | SideEffectExecuted string string obj bool
      \<comment> \<open>step id, idempotency key, result, deduplicated\<close>
  | SideEffectCompensated string string obj
      \<comment> \<open>step id, idempotency key, result\<close>
  | EscalationRaised string string string string rat "obj list" "instant option" string
      \<comment> \<open>escalation id, step id, reason, recommendation, confidence, options, deadline, auto action\<close>
  | EscalationResolved string string string string "obj option"
      \<comment> \<open>escalation id, step id, resolution, resolved by, modified context\<close>
  | EscalationTimedOut string string string
      \<comment> \<open>escalation id, step id, auto action\<close>
  | CostCharged "string option" usd "string option" int int
      \<comment> \<open>step id, amount, model, tokens in, tokens out\<close>
  | BudgetExceeded string usd usd string
      \<comment> \<open>step id, projected cost, remaining budget, scope\<close>

record event =
  ev_event_id :: string
  ev_instance_id :: string
  ev_tenant_id :: string
  ev_sequence :: nat
  ev_occurred_at :: instant
  ev_body :: event_body

definition ev_key :: "event \<Rightarrow> string \<times> nat" where
  "ev_key e = (ev_instance_id e, ev_sequence e)"

fun event_type :: "event_body \<Rightarrow> string" where
  "event_type (InstanceCreated _ _ _ _ _ _) = ''InstanceCreated''"
| "event_type (InstanceStatusChanged _ _ _) = ''InstanceStatusChanged''"
| "event_type (InstanceCompleted _) = ''InstanceCompleted''"
| "event_type (InstanceFailed _ _) = ''InstanceFailed''"
| "event_type (WorkflowRequeued _ _ _) = ''WorkflowRequeued''"
| "event_type (WorkflowBudgetAdjusted _ _ _) = ''WorkflowBudgetAdjusted''"
| "event_type (StepStatusChanged _ _ _ _) = ''StepStatusChanged''"
| "event_type (StepStarted _ _ _ _) = ''StepStarted''"
| "event_type (StepCompleted _ _ _ _ _ _ _ _) = ''StepCompleted''"
| "event_type (StepFailed _ _ _ _ _) = ''StepFailed''"
| "event_type (StepRetryScheduled _ _ _) = ''StepRetryScheduled''"
| "event_type (StepSkipped _ _) = ''StepSkipped''"
| "event_type (StepCompensated _ _) = ''StepCompensated''"
| "event_type (LLMCallRecorded _ _ _ _ _ _ _ _) = ''LLMCallRecorded''"
| "event_type (ToolCallRecorded _ _ _ _ _) = ''ToolCallRecorded''"
| "event_type (SideEffectIntentRecorded _ _ _ _ _) = ''SideEffectIntentRecorded''"
| "event_type (SideEffectExecuted _ _ _ _) = ''SideEffectExecuted''"
| "event_type (SideEffectCompensated _ _ _) = ''SideEffectCompensated''"
| "event_type (EscalationRaised _ _ _ _ _ _ _ _) = ''EscalationRaised''"
| "event_type (EscalationResolved _ _ _ _ _) = ''EscalationResolved''"
| "event_type (EscalationTimedOut _ _ _) = ''EscalationTimedOut''"
| "event_type (CostCharged _ _ _ _ _) = ''CostCharged''"
| "event_type (BudgetExceeded _ _ _ _) = ''BudgetExceeded''"

fun body_fields :: "event_body \<Rightarrow> bool" where
  "body_fields (StepStarted _ attempt _ _) = (1 \<le> attempt)"
| "body_fields (StepCompleted _ attempt _ _ _ _ _ _) = (1 \<le> attempt)"
| "body_fields (StepFailed _ attempt _ _ _) = (1 \<le> attempt)"
| "body_fields (StepRetryScheduled _ next_attempt _) = (2 \<le> next_attempt)"
| "body_fields (LLMCallRecorded _ attempt _ _ _ _ _ _) = (1 \<le> attempt)"
| "body_fields (ToolCallRecorded _ attempt _ _ _) = (1 \<le> attempt)"
| "body_fields (SideEffectIntentRecorded _ _ _ _ guarantee) =
     (guarantee \<in> {''exactly_once'', ''at_least_once_dedup''})"
| "body_fields (BudgetExceeded _ _ _ scope) = (scope \<in> {''workflow'', ''tenant_daily''})"
| "body_fields _ = True"

definition event_fields :: "event \<Rightarrow> bool" where
  "event_fields e \<longleftrightarrow> 1 \<le> ev_sequence e \<and> body_fields (ev_body e)"

text \<open>The step an event is scoped to, if any.\<close>

fun event_step :: "event_body \<Rightarrow> string option" where
  "event_step (WorkflowRequeued s _ _) = s"
| "event_step (StepStatusChanged s _ _ _) = Some s"
| "event_step (StepStarted s _ _ _) = Some s"
| "event_step (StepCompleted s _ _ _ _ _ _ _) = Some s"
| "event_step (StepFailed s _ _ _ _) = Some s"
| "event_step (StepRetryScheduled s _ _) = Some s"
| "event_step (StepSkipped s _) = Some s"
| "event_step (StepCompensated s _) = Some s"
| "event_step (LLMCallRecorded s _ _ _ _ _ _ _) = Some s"
| "event_step (EscalationRaised _ s _ _ _ _ _ _) = (if s = '''' then None else Some s)"
| "event_step (CostCharged s _ _ _ _) = (if truthy_str s then s else None)"
| "event_step _ = None"

end
