(* ===== verification/Fold.thy ===== *)
theory Fold
  imports Events
begin

text \<open>
  \<open>core/events/fold.py\<close>: rebuilding an instance from its event stream. One definition per
  helper and per handler, the handler table as \<open>handler\<close>, and the loop of \<open>fold\<close> as
  \<open>fold_events\<close>. A handler mutates the instance in place in Python; here it returns the
  updated one, and a raise leaves no instance because the caller works on a private copy.
\<close>

section \<open>Helpers\<close>

definition put_step :: "workflow_instance \<Rightarrow> string \<Rightarrow> step_state \<Rightarrow> workflow_instance" where
  "put_step inst sid st = inst\<lparr>wi_step_states := dset sid st (wi_step_states inst)\<rparr>"

definition ensure_step :: "workflow_instance \<Rightarrow> string \<Rightarrow> step_state \<times> workflow_instance" where
  "ensure_step inst sid =
     (case dget (wi_step_states inst) sid of
        None \<Rightarrow> (new_step_state sid, put_step inst sid (new_step_state sid))
      | Some st \<Rightarrow> (st, inst))"

definition set_step_status ::
  "workflow_instance \<Rightarrow> string \<Rightarrow> step_status \<Rightarrow> workflow_instance res" where
  "set_step_status inst sid target =
     (case ensure_step inst sid of (st, inst') \<Rightarrow>
        if \<not> step_transition_allowed (ss_status st) target then Inl InvalidStateTransition
        else Inr (put_step inst' sid (st\<lparr>ss_status := target\<rparr>)))"

definition set_workflow_status ::
  "workflow_instance \<Rightarrow> workflow_status \<Rightarrow> workflow_status option \<Rightarrow> workflow_instance res" where
  "set_workflow_status inst target declared_from =
     (if (case declared_from of None \<Rightarrow> False | Some f \<Rightarrow> f \<noteq> wi_status inst)
      then Inl EventStreamError
      else if wi_status inst \<noteq> target \<and> \<not> workflow_transition_allowed (wi_status inst) target
      then Inl InvalidStateTransition
      else Inr (inst\<lparr>wi_status := target\<rparr>))"

section \<open>Handlers\<close>

text \<open>The loop of \<open>_on_created\<close> over the definition's steps.\<close>

definition seed_steps ::
  "(string, step_state) pydict \<Rightarrow> workflow_step list \<Rightarrow> (string, step_state) pydict" where
  "seed_steps m steps =
     foldl (\<lambda>m s. dsetdefault (ws_step_id s) (new_step_state (ws_step_id s)) m) m steps"

definition on_created ::
  "workflow_instance \<Rightarrow> instant \<Rightarrow> obj \<Rightarrow> usd option \<Rightarrow> workflow_definition option \<Rightarrow> workflow_instance res"
where
  "on_created inst ts context budget defn =
     (let inst = inst\<lparr>wi_context := context, wi_budget_limit_usd := budget,
                       wi_created_at := Some ts\<rparr>
      in Inr (case defn of None \<Rightarrow> inst
              | Some d \<Rightarrow>
                  inst\<lparr>wi_step_states := seed_steps (wi_step_states inst) (wd_steps d)\<rparr>))"

definition on_wf_status ::
  "workflow_instance \<Rightarrow> instant \<Rightarrow> workflow_status \<Rightarrow> workflow_status \<Rightarrow> workflow_instance res" where
  "on_wf_status inst ts from_status to_status =
     rbind (set_workflow_status inst to_status (Some from_status))
       (\<lambda>inst. Inr (if is_terminal inst then inst\<lparr>wi_completed_at := Some ts\<rparr> else inst))"

definition on_completed :: "workflow_instance \<Rightarrow> instant \<Rightarrow> obj \<Rightarrow> workflow_instance res" where
  "on_completed inst ts outputs =
     rbind (set_workflow_status inst WF_COMPLETED None)
       (\<lambda>inst. let inst = inst\<lparr>wi_completed_at := Some ts\<rparr>
               in Inr (if outputs \<noteq> []
                       then inst\<lparr>wi_context := dset ''_outputs'' (JObj outputs) (wi_context inst)\<rparr>
                       else inst))"

definition on_failed :: "workflow_instance \<Rightarrow> instant \<Rightarrow> string \<Rightarrow> string \<Rightarrow> workflow_instance res" where
  "on_failed inst ts etype emsg =
     rbind (set_workflow_status inst WF_FAILED None)
       (\<lambda>inst. Inr (inst\<lparr>wi_error_history := wi_error_history inst @
          [\<lparr>er_step_id = None, er_error_type = etype, er_error_message = emsg,
            er_occurred_at = ts, er_attempt = None\<rparr>]\<rparr>))"

definition on_requeued :: "workflow_instance \<Rightarrow> string option \<Rightarrow> workflow_instance res" where
  "on_requeued inst step_id =
     rbind (set_workflow_status inst WF_RUNNING None)
       (\<lambda>inst. case step_id of None \<Rightarrow> Inr inst
        | Some sid \<Rightarrow>
            (case ensure_step inst sid of (st, inst) \<Rightarrow>
               Inr (put_step inst sid
                 (st\<lparr>ss_status := ST_READY, ss_attempts := 0, ss_next_retry_at := None,
                     ss_error_type := None, ss_error_message := None\<rparr>))))"

definition on_budget_adjusted :: "workflow_instance \<Rightarrow> usd option \<Rightarrow> workflow_instance res" where
  "on_budget_adjusted inst new_limit = Inr (inst\<lparr>wi_budget_limit_usd := new_limit\<rparr>)"

definition on_step_status ::
  "workflow_instance \<Rightarrow> string \<Rightarrow> step_status \<Rightarrow> step_status \<Rightarrow> workflow_instance res" where
  "on_step_status inst sid from_status to_status =
     (case ensure_step inst sid of (st, inst) \<Rightarrow>
        if from_status \<noteq> ss_status st then Inl EventStreamError
        else set_step_status inst sid to_status)"

definition on_step_started ::
  "workflow_instance \<Rightarrow> instant \<Rightarrow> string \<Rightarrow> int \<Rightarrow> string option \<Rightarrow> workflow_instance res" where
  "on_step_started inst ts sid attempt model_selected =
     rbind (set_step_status inst sid ST_RUNNING)
       (\<lambda>inst. rbind (step_of inst sid)
          (\<lambda>st. let st = st\<lparr>ss_attempts := attempt, ss_started_at := Some ts,
                             ss_next_retry_at := None\<rparr>
                in Inr (put_step inst sid
                     (if truthy_str model_selected then st\<lparr>ss_model_used := model_selected\<rparr> else st))))"

definition on_step_completed ::
  "workflow_instance \<Rightarrow> instant \<Rightarrow> string \<Rightarrow> obj \<Rightarrow> string option \<Rightarrow> workflow_instance res" where
  "on_step_completed inst ts sid output model_used =
     rbind (set_step_status inst sid ST_COMPLETED)
       (\<lambda>inst. rbind (step_of inst sid)
          (\<lambda>st. let st = st\<lparr>ss_output := Some output, ss_completed_at := Some ts\<rparr>
                in Inr (put_step inst sid
                     (if truthy_str model_used then st\<lparr>ss_model_used := model_used\<rparr> else st))))"

definition on_step_failed ::
  "workflow_instance \<Rightarrow> instant \<Rightarrow> string \<Rightarrow> int \<Rightarrow> string \<Rightarrow> string \<Rightarrow> workflow_instance res" where
  "on_step_failed inst ts sid attempt etype emsg =
     rbind (set_step_status inst sid ST_FAILED)
       (\<lambda>inst. rbind (step_of inst sid)
          (\<lambda>st. let inst = put_step inst sid
                      (st\<lparr>ss_error_type := Some etype, ss_error_message := Some emsg,
                          ss_recorded_llm_calls := []\<rparr>)
                in Inr (inst\<lparr>wi_error_history := wi_error_history inst @
                     [\<lparr>er_step_id = Some sid, er_error_type = etype, er_error_message = emsg,
                       er_occurred_at = ts, er_attempt = Some attempt\<rparr>]\<rparr>)))"

definition on_retry_scheduled :: "workflow_instance \<Rightarrow> string \<Rightarrow> instant \<Rightarrow> workflow_instance res" where
  "on_retry_scheduled inst sid run_at =
     (case ensure_step inst sid of (st, inst) \<Rightarrow>
        Inr (put_step inst sid (st\<lparr>ss_next_retry_at := Some run_at\<rparr>)))"

definition on_step_skipped :: "workflow_instance \<Rightarrow> string \<Rightarrow> workflow_instance res" where
  "on_step_skipped inst sid = set_step_status inst sid ST_SKIPPED"

definition on_step_compensated :: "workflow_instance \<Rightarrow> string \<Rightarrow> workflow_instance res" where
  "on_step_compensated inst sid = set_step_status inst sid ST_COMPENSATED"

definition on_llm_recorded ::
  "workflow_instance \<Rightarrow> string \<Rightarrow> string \<Rightarrow> string \<Rightarrow> obj \<Rightarrow> int \<Rightarrow> int \<Rightarrow> usd \<Rightarrow> workflow_instance res" where
  "on_llm_recorded inst sid digest model response tin tout cost =
     (case ensure_step inst sid of (st, inst) \<Rightarrow>
        Inr (put_step inst sid
          (st\<lparr>ss_model_used := Some model,
              ss_recorded_llm_calls := ss_recorded_llm_calls st @
                [\<lparr>lr_request_digest = digest, lr_model = model, lr_response = response,
                  lr_tokens_input = tin, lr_tokens_output = tout, lr_cost_usd = cost\<rparr>]\<rparr>)))"

definition add_tokens :: "token_usage \<Rightarrow> int \<Rightarrow> int \<Rightarrow> token_usage" where
  "add_tokens u tin tout = u\<lparr>tu_input := tu_input u + tin, tu_output := tu_output u + tout\<rparr>"

definition on_cost ::
  "workflow_instance \<Rightarrow> string option \<Rightarrow> usd \<Rightarrow> int \<Rightarrow> int \<Rightarrow> workflow_instance res" where
  "on_cost inst step_id amount tin tout =
     (let inst = inst\<lparr>wi_cost_accumulated_usd := wi_cost_accumulated_usd inst + amount,
                       wi_tokens_used := add_tokens (wi_tokens_used inst) tin tout\<rparr>
      in if truthy_str step_id
         then case ensure_step inst (the step_id) of (st, inst) \<Rightarrow>
                Inr (put_step inst (the step_id)
                  (st\<lparr>ss_cost_usd := ss_cost_usd st + amount,
                      ss_tokens := add_tokens (ss_tokens st) tin tout\<rparr>))
         else Inr inst)"

definition budget_exceeded_text :: "usd \<Rightarrow> usd \<Rightarrow> string \<Rightarrow> string" where
  "budget_exceeded_text projected remaining scope =
     ''projected '' @ fmt4 projected @ '' > remaining '' @ fmt4 remaining @
     '' ('' @ scope @ '')''"

definition on_budget_exceeded ::
  "workflow_instance \<Rightarrow> instant \<Rightarrow> string \<Rightarrow> usd \<Rightarrow> usd \<Rightarrow> string \<Rightarrow> workflow_instance res" where
  "on_budget_exceeded inst ts sid projected remaining scope =
     Inr (inst\<lparr>wi_error_history := wi_error_history inst @
       [\<lparr>er_step_id = Some sid, er_error_type = class_name BudgetExceededError,
         er_error_message = budget_exceeded_text projected remaining scope,
         er_occurred_at = ts, er_attempt = None\<rparr>]\<rparr>)"

definition on_escalation_raised ::
  "workflow_instance \<Rightarrow> string \<Rightarrow> string \<Rightarrow> string \<Rightarrow> instant option \<Rightarrow> workflow_instance res" where
  "on_escalation_raised inst eid sid reason deadline =
     rbind (if sid \<noteq> '''' then set_step_status inst sid ST_WAITING_APPROVAL else Inr inst)
       (\<lambda>inst. Inr (inst\<lparr>wi_escalations := wi_escalations inst @
          [\<lparr>esc_escalation_id = eid, esc_step_id = sid, esc_reason = reason,
            esc_deadline = deadline, esc_resolved = False\<rparr>]\<rparr>))"

definition resolve_escalation :: "workflow_instance \<Rightarrow> string \<Rightarrow> workflow_instance" where
  "resolve_escalation inst eid =
     inst\<lparr>wi_escalations :=
       map (\<lambda>r. if esc_escalation_id r = eid then r\<lparr>esc_resolved := True\<rparr> else r)
         (wi_escalations inst)\<rparr>"

definition on_escalation_resolved ::
  "workflow_instance \<Rightarrow> string \<Rightarrow> obj option \<Rightarrow> workflow_instance res" where
  "on_escalation_resolved inst eid modified_context =
     (let inst = resolve_escalation inst eid
      in Inr (if truthy_obj modified_context
              then inst\<lparr>wi_context := dupdate (wi_context inst) (the modified_context)\<rparr>
              else inst))"

definition on_escalation_timed_out :: "workflow_instance \<Rightarrow> string \<Rightarrow> workflow_instance res" where
  "on_escalation_timed_out inst eid = Inr (resolve_escalation inst eid)"

definition side_effect_ref_of :: "workflow_instance \<Rightarrow> string \<Rightarrow> side_effect_ref option" where
  "side_effect_ref_of inst key = List.find (\<lambda>r. se_idempotency_key r = key) (wi_side_effects inst)"

text \<open>\<open>ref.status = v\<close> on the first reference with that key.\<close>

fun set_ref_status :: "string \<Rightarrow> effect_ref_status \<Rightarrow> side_effect_ref list \<Rightarrow> side_effect_ref list" where
  "set_ref_status key v [] = []"
| "set_ref_status key v (r # rs) =
     (if se_idempotency_key r = key then r\<lparr>se_status := v\<rparr> # rs
      else r # set_ref_status key v rs)"

definition on_effect_intent ::
  "workflow_instance \<Rightarrow> string \<Rightarrow> string \<Rightarrow> string \<Rightarrow> workflow_instance res" where
  "on_effect_intent inst sid effect_name key =
     Inr (case side_effect_ref_of inst key of
            None \<Rightarrow> inst\<lparr>wi_side_effects := wi_side_effects inst @
                      [\<lparr>se_idempotency_key = key, se_step_id = sid, se_effect_name = effect_name,
                        se_status = ES_PENDING\<rparr>]\<rparr>
          | Some _ \<Rightarrow> inst)"

definition on_effect_executed :: "workflow_instance \<Rightarrow> string \<Rightarrow> string \<Rightarrow> workflow_instance res" where
  "on_effect_executed inst sid key =
     Inr (case side_effect_ref_of inst key of
            None \<Rightarrow> inst\<lparr>wi_side_effects := wi_side_effects inst @
                      [\<lparr>se_idempotency_key = key, se_step_id = sid, se_effect_name = '''',
                        se_status = ES_EXECUTED\<rparr>]\<rparr>
          | Some _ \<Rightarrow> inst\<lparr>wi_side_effects :=
                        set_ref_status key ES_EXECUTED (wi_side_effects inst)\<rparr>)"

definition on_effect_compensated :: "workflow_instance \<Rightarrow> string \<Rightarrow> workflow_instance res" where
  "on_effect_compensated inst key =
     Inr (case side_effect_ref_of inst key of None \<Rightarrow> inst
          | Some _ \<Rightarrow> inst\<lparr>wi_side_effects :=
                        set_ref_status key ES_COMPENSATED (wi_side_effects inst)\<rparr>)"

section \<open>The handler table and the loop\<close>

definition handler ::
  "workflow_definition option \<Rightarrow> workflow_instance \<Rightarrow> event \<Rightarrow> workflow_instance res" where
  "handler defn inst ev =
     (let ts = ev_occurred_at ev in
      case ev_body ev of
        InstanceCreated wid ver context budget src meta \<Rightarrow> on_created inst ts context budget defn
      | InstanceStatusChanged f t r \<Rightarrow> on_wf_status inst ts f t
      | InstanceCompleted outputs \<Rightarrow> on_completed inst ts outputs
      | InstanceFailed etype emsg \<Rightarrow> on_failed inst ts etype emsg
      | WorkflowRequeued sid by dlq \<Rightarrow> on_requeued inst sid
      | WorkflowBudgetAdjusted limit by r \<Rightarrow> on_budget_adjusted inst limit
      | StepStatusChanged sid f t r \<Rightarrow> on_step_status inst sid f t
      | StepStarted sid attempt worker model \<Rightarrow> on_step_started inst ts sid attempt model
      | StepCompleted sid attempt output model cost tin tout ms \<Rightarrow>
          on_step_completed inst ts sid output model
      | StepFailed sid attempt etype emsg retry \<Rightarrow> on_step_failed inst ts sid attempt etype emsg
      | StepRetryScheduled sid next_attempt run_at \<Rightarrow> on_retry_scheduled inst sid run_at
      | StepSkipped sid r \<Rightarrow> on_step_skipped inst sid
      | StepCompensated sid action \<Rightarrow> on_step_compensated inst sid
      | LLMCallRecorded sid attempt digest model response tin tout cost \<Rightarrow>
          on_llm_recorded inst sid digest model response tin tout cost
      | ToolCallRecorded sid attempt tool digest result \<Rightarrow> Inr inst
      | SideEffectIntentRecorded sid name key params guarantee \<Rightarrow> on_effect_intent inst sid name key
      | SideEffectExecuted sid key result dedup \<Rightarrow> on_effect_executed inst sid key
      | SideEffectCompensated sid key result \<Rightarrow> on_effect_compensated inst key
      | EscalationRaised eid sid reason recommendation confidence options deadline auto \<Rightarrow>
          on_escalation_raised inst eid sid reason deadline
      | EscalationResolved eid sid resolution by modified \<Rightarrow> on_escalation_resolved inst eid modified
      | EscalationTimedOut eid sid auto \<Rightarrow> on_escalation_timed_out inst eid
      | CostCharged sid amount model tin tout \<Rightarrow> on_cost inst sid amount tin tout
      | BudgetExceeded sid projected remaining scope \<Rightarrow>
          on_budget_exceeded inst ts sid projected remaining scope)"

text \<open>The instance the first event opens.\<close>

definition open_instance :: "event \<Rightarrow> workflow_instance res" where
  "open_instance ev =
     (case ev_body ev of
        InstanceCreated wid ver context budget src meta \<Rightarrow>
          Inr (new_instance (ev_instance_id ev) (ev_tenant_id ev) wid ver)
      | _ \<Rightarrow> Inl EventStreamError)"

text \<open>One round of the loop, on the current instance and the sequence number expected.\<close>

definition fold_step ::
  "workflow_definition option \<Rightarrow> workflow_instance option \<times> nat \<Rightarrow> event \<Rightarrow>
   (workflow_instance option \<times> nat) res" where
  "fold_step defn = (\<lambda>(inst, expected) ev.
     if ev_sequence ev \<noteq> expected then Inl EventStreamError
     else rbind (case inst of None \<Rightarrow> open_instance ev | Some i \<Rightarrow> Inr i)
       (\<lambda>i. rbind (handler defn i ev)
          (\<lambda>i. Inr (Some (i\<lparr>wi_updated_at := Some (ev_occurred_at ev),
                            wi_version := ev_sequence ev\<rparr>), expected + 1))))"

definition base_version :: "workflow_instance option \<Rightarrow> nat" where
  "base_version base = (case base of None \<Rightarrow> 0 | Some b \<Rightarrow> wi_version b)"

definition fold_events ::
  "event list \<Rightarrow> workflow_definition option \<Rightarrow> workflow_instance option \<Rightarrow> workflow_instance res" where
  "fold_events events defn base =
     rbind (rfoldl (fold_step defn) (base, base_version base + 1) events)
       (\<lambda>(inst, _). case inst of None \<Rightarrow> Inl EventStreamError | Some i \<Rightarrow> Inr i)"

end
