(* ===== verification/Fold_Props.thy ===== *)
theory Fold_Props
  imports Fold
begin

text \<open>
  Properties of the projection: normal forms of the handlers, what one event may change,
  and the facts about whole streams that the store, the driver and the operators rest on.
\<close>

section \<open>Handlers as updates of one step\<close>

text \<open>The step state as \<open>_ensure_step\<close> sees it, and the update of one step.\<close>

definition st_at :: "workflow_instance \<Rightarrow> string \<Rightarrow> step_state" where
  "st_at inst sid =
     (case dget (wi_step_states inst) sid of None \<Rightarrow> new_step_state sid | Some st \<Rightarrow> st)"

definition upd_step :: "workflow_instance \<Rightarrow> string \<Rightarrow> (step_state \<Rightarrow> step_state) \<Rightarrow> workflow_instance" where
  "upd_step inst sid f =
     inst\<lparr>wi_step_states := dset sid (f (st_at inst sid)) (wi_step_states inst)\<rparr>"

named_theorems handler_nf \<open>handlers as guarded updates\<close>

lemma st_at_upd_step [simp]:
  "st_at (upd_step inst sid f) s = (if s = sid then f (st_at inst sid) else st_at inst s)"
  by (simp add: st_at_def upd_step_def)

lemma dget_upd_step [simp]:
  "dget (wi_step_states (upd_step inst sid f)) s =
     (if s = sid then Some (f (st_at inst sid)) else dget (wi_step_states inst) s)"
  by (simp add: upd_step_def)

lemma upd_step_fields [simp]:
  "wi_instance_id (upd_step i s f) = wi_instance_id i"
  "wi_tenant_id (upd_step i s f) = wi_tenant_id i"
  "wi_workflow_id (upd_step i s f) = wi_workflow_id i"
  "wi_workflow_version (upd_step i s f) = wi_workflow_version i"
  "wi_status (upd_step i s f) = wi_status i"
  "wi_context (upd_step i s f) = wi_context i"
  "wi_cost_accumulated_usd (upd_step i s f) = wi_cost_accumulated_usd i"
  "wi_tokens_used (upd_step i s f) = wi_tokens_used i"
  "wi_budget_limit_usd (upd_step i s f) = wi_budget_limit_usd i"
  "wi_error_history (upd_step i s f) = wi_error_history i"
  "wi_escalations (upd_step i s f) = wi_escalations i"
  "wi_side_effects (upd_step i s f) = wi_side_effects i"
  "wi_version (upd_step i s f) = wi_version i"
  "wi_created_at (upd_step i s f) = wi_created_at i"
  "wi_updated_at (upd_step i s f) = wi_updated_at i"
  "wi_completed_at (upd_step i s f) = wi_completed_at i"
  by (simp_all add: upd_step_def)

lemma dkeys_upd_step [simp]:
  "dkeys (wi_step_states (upd_step i s f)) =
     (if s \<in> set (dkeys (wi_step_states i)) then dkeys (wi_step_states i)
      else dkeys (wi_step_states i) @ [s])"
  by (simp add: upd_step_def)

lemma keys_upd_step [simp]:
  "fst ` set (wi_step_states (upd_step i s f)) = insert s (fst ` set (wi_step_states i))"
  by (simp add: upd_step_def AList.dom_update)

lemma st_at_other_fields [simp]:
  "st_at (i\<lparr>wi_status := a\<rparr>) s = st_at i s"
  "st_at (i\<lparr>wi_context := b\<rparr>) s = st_at i s"
  "st_at (i\<lparr>wi_cost_accumulated_usd := c\<rparr>) s = st_at i s"
  "st_at (i\<lparr>wi_tokens_used := d\<rparr>) s = st_at i s"
  "st_at (i\<lparr>wi_budget_limit_usd := e\<rparr>) s = st_at i s"
  "st_at (i\<lparr>wi_error_history := f\<rparr>) s = st_at i s"
  "st_at (i\<lparr>wi_escalations := g\<rparr>) s = st_at i s"
  "st_at (i\<lparr>wi_side_effects := h\<rparr>) s = st_at i s"
  "st_at (i\<lparr>wi_version := v\<rparr>) s = st_at i s"
  "st_at (i\<lparr>wi_created_at := x\<rparr>) s = st_at i s"
  "st_at (i\<lparr>wi_updated_at := y\<rparr>) s = st_at i s"
  "st_at (i\<lparr>wi_completed_at := z\<rparr>) s = st_at i s"
  by (simp_all add: st_at_def)

lemma put_upd_step:
  "put_step (upd_step inst sid f) sid st = upd_step inst sid (\<lambda>_. st)"
  by (simp add: put_step_def upd_step_def AList.update_last)

lemma ensure_step_nf: "ensure_step inst sid = (st_at inst sid, upd_step inst sid id)"
  by (cases "dget (wi_step_states inst) sid")
     (auto simp: ensure_step_def st_at_def upd_step_def put_step_def AList.update_triv)

lemma step_of_upd_step [simp]: "step_of (upd_step inst sid f) sid = Inr (f (st_at inst sid))"
  by (simp add: step_of_def)

lemma upd_step_upd_step: "upd_step (upd_step i s f) s g = upd_step i s (\<lambda>st. g (f st))"
  by (simp add: upd_step_def st_at_def AList.update_last)

lemma upd_step_const: "upd_step i s (\<lambda>_. f (st_at i s)) = upd_step i s f"
  by (simp add: upd_step_def)

lemmas nf_unfold = put_step_def upd_step_def step_of_def AList.update_last

lemma set_step_status_nf [handler_nf]:
  "set_step_status inst sid target =
     (if step_transition_allowed (ss_status (st_at inst sid)) target
      then Inr (upd_step inst sid (\<lambda>st. st\<lparr>ss_status := target\<rparr>))
      else Inl InvalidStateTransition)"
  using upd_step_const [of inst sid "\<lambda>st. st\<lparr>ss_status := target\<rparr>"]
  by (simp add: set_step_status_def ensure_step_nf put_upd_step)

lemma on_step_status_nf [handler_nf]:
  "on_step_status inst sid f t =
     (if f \<noteq> ss_status (st_at inst sid) then Inl EventStreamError
      else if step_transition_allowed f t
      then Inr (upd_step inst sid (\<lambda>st. st\<lparr>ss_status := t\<rparr>))
      else Inl InvalidStateTransition)"
  by (simp add: on_step_status_def ensure_step_nf set_step_status_nf upd_step_upd_step)

lemma on_step_started_nf [handler_nf]:
  "on_step_started inst ts sid attempt model =
     (if step_transition_allowed (ss_status (st_at inst sid)) ST_RUNNING
      then Inr (upd_step inst sid
             (\<lambda>st. st\<lparr>ss_status := ST_RUNNING, ss_attempts := attempt, ss_started_at := Some ts,
                      ss_next_retry_at := None,
                      ss_model_used := if truthy_str model then model else ss_model_used st\<rparr>))
      else Inl InvalidStateTransition)"
  by (auto simp: on_step_started_def set_step_status_nf Let_def nf_unfold)

lemma on_step_completed_nf [handler_nf]:
  "on_step_completed inst ts sid output model =
     (if step_transition_allowed (ss_status (st_at inst sid)) ST_COMPLETED
      then Inr (upd_step inst sid
             (\<lambda>st. st\<lparr>ss_status := ST_COMPLETED, ss_output := Some output,
                      ss_completed_at := Some ts,
                      ss_model_used := if truthy_str model then model else ss_model_used st\<rparr>))
      else Inl InvalidStateTransition)"
  by (auto simp: on_step_completed_def set_step_status_nf Let_def nf_unfold)

lemma on_step_failed_nf [handler_nf]:
  "on_step_failed inst ts sid attempt etype emsg =
     (if step_transition_allowed (ss_status (st_at inst sid)) ST_FAILED
      then Inr ((upd_step inst sid
             (\<lambda>st. st\<lparr>ss_status := ST_FAILED, ss_error_type := Some etype,
                      ss_error_message := Some emsg, ss_recorded_llm_calls := []\<rparr>))
             \<lparr>wi_error_history := wi_error_history inst @
               [\<lparr>er_step_id = Some sid, er_error_type = etype, er_error_message = emsg,
                 er_occurred_at = ts, er_attempt = Some attempt\<rparr>]\<rparr>)
      else Inl InvalidStateTransition)"
  by (auto simp: on_step_failed_def set_step_status_nf Let_def nf_unfold)

lemma on_retry_scheduled_nf [handler_nf]:
  "on_retry_scheduled inst sid run_at =
     Inr (upd_step inst sid (\<lambda>st. st\<lparr>ss_next_retry_at := Some run_at\<rparr>))"
  by (simp add: on_retry_scheduled_def ensure_step_nf nf_unfold)

lemma on_llm_recorded_nf [handler_nf]:
  "on_llm_recorded inst sid digest model response tin tout cost =
     Inr (upd_step inst sid (\<lambda>st.
       st\<lparr>ss_model_used := Some model,
          ss_recorded_llm_calls := ss_recorded_llm_calls st @
            [\<lparr>lr_request_digest = digest, lr_model = model, lr_response = response,
              lr_tokens_input = tin, lr_tokens_output = tout, lr_cost_usd = cost\<rparr>]\<rparr>))"
  by (simp add: on_llm_recorded_def ensure_step_nf nf_unfold)

lemma on_cost_nf [handler_nf]:
  "on_cost inst step_id amount tin tout =
     (let inst' = inst\<lparr>wi_cost_accumulated_usd := wi_cost_accumulated_usd inst + amount,
                       wi_tokens_used := add_tokens (wi_tokens_used inst) tin tout\<rparr>
      in Inr (if truthy_str step_id
              then upd_step inst' (the step_id)
                     (\<lambda>st. st\<lparr>ss_cost_usd := ss_cost_usd st + amount,
                              ss_tokens := add_tokens (ss_tokens st) tin tout\<rparr>)
              else inst'))"
  by (simp add: on_cost_def ensure_step_nf Let_def nf_unfold)

lemma on_requeued_nf [handler_nf]:
  "on_requeued inst step_id =
     rbind (set_workflow_status inst WF_RUNNING None)
       (\<lambda>inst. Inr (case step_id of None \<Rightarrow> inst
         | Some sid \<Rightarrow> upd_step inst sid
             (\<lambda>st. st\<lparr>ss_status := ST_READY, ss_attempts := 0, ss_next_retry_at := None,
                      ss_error_type := None, ss_error_message := None\<rparr>)))"
  by (cases step_id; cases "set_workflow_status inst WF_RUNNING None")
     (simp_all add: on_requeued_def ensure_step_nf nf_unfold)

lemma on_escalation_raised_nf [handler_nf]:
  "on_escalation_raised inst eid sid reason deadline =
     (let ref = \<lparr>esc_escalation_id = eid, esc_step_id = sid, esc_reason = reason,
                 esc_deadline = deadline, esc_resolved = False\<rparr>
      in if sid = '''' then Inr (inst\<lparr>wi_escalations := wi_escalations inst @ [ref]\<rparr>)
         else if step_transition_allowed (ss_status (st_at inst sid)) ST_WAITING_APPROVAL
         then Inr ((upd_step inst sid (\<lambda>st. st\<lparr>ss_status := ST_WAITING_APPROVAL\<rparr>))
                     \<lparr>wi_escalations := wi_escalations inst @ [ref]\<rparr>)
         else Inl InvalidStateTransition)"
  by (simp add: on_escalation_raised_def set_step_status_nf Let_def)

lemmas handler_plain_defs =
  on_created_def on_wf_status_def on_completed_def on_failed_def on_budget_adjusted_def
  on_step_skipped_def on_step_compensated_def on_budget_exceeded_def resolve_escalation_def
  on_escalation_resolved_def on_escalation_timed_out_def on_effect_intent_def
  on_effect_executed_def on_effect_compensated_def


section \<open>What one event may change\<close>

lemma set_workflow_status_Inr:
  "set_workflow_status inst target declared = Inr j \<longleftrightarrow>
     j = inst\<lparr>wi_status := target\<rparr> \<and>
     (wi_status inst = target \<or> workflow_transition_allowed (wi_status inst) target) \<and>
     (case declared of None \<Rightarrow> True | Some f \<Rightarrow> f = wi_status inst)"
  by (auto simp: set_workflow_status_def split: option.splits)

lemma handler_status:
  assumes "handler defn i ev = Inr j"
  shows "wi_status j = wi_status i \<or> workflow_transition_allowed (wi_status i) (wi_status j)"
  using assms
  by (cases "ev_body ev")
     (auto simp: handler_def handler_nf handler_plain_defs Let_def py_simps
        set_workflow_status_Inr split: if_splits option.splits)

text \<open>Which events set the status, and to what.\<close>

lemma handler_status_set:
  assumes "handler defn i ev = Inr j"
  shows "case ev_body ev of
       InstanceStatusChanged src dst _ \<Rightarrow> wi_status i = src \<and> wi_status j = dst
     | InstanceCompleted _ \<Rightarrow> wi_status j = WF_COMPLETED
     | InstanceFailed _ _ \<Rightarrow> wi_status j = WF_FAILED
     | WorkflowRequeued _ _ _ \<Rightarrow> wi_status j = WF_RUNNING
     | _ \<Rightarrow> wi_status j = wi_status i"
  using assms
  by (cases "ev_body ev")
     (auto simp: handler_def handler_nf handler_plain_defs Let_def py_simps
        set_workflow_status_Inr split: if_splits option.splits)

lemma handler_ids:
  assumes "handler defn i ev = Inr j"
  shows "wi_instance_id j = wi_instance_id i \<and> wi_tenant_id j = wi_tenant_id i \<and>
         wi_workflow_id j = wi_workflow_id i \<and> wi_workflow_version j = wi_workflow_version i"
  using assms
  by (cases "ev_body ev")
     (auto simp: handler_def handler_nf handler_plain_defs Let_def py_simps
        set_workflow_status_Inr split: if_splits option.splits)

fun charge_of :: "event_body \<Rightarrow> usd" where
  "charge_of (CostCharged sid amount model tin tout) = amount"
| "charge_of _ = 0"

fun charge_tokens :: "event_body \<Rightarrow> int \<times> int" where
  "charge_tokens (CostCharged sid amount model tin tout) = (tin, tout)"
| "charge_tokens _ = (0, 0)"

fun step_charge_of :: "string \<Rightarrow> event_body \<Rightarrow> usd" where
  "step_charge_of s (CostCharged sid amount model tin tout) =
     (if sid = Some s \<and> s \<noteq> [] then amount else 0)"
| "step_charge_of s _ = 0"

lemma handler_cost:
  assumes "handler defn i ev = Inr j"
  shows "wi_cost_accumulated_usd j = wi_cost_accumulated_usd i + charge_of (ev_body ev)"
  using assms
  by (cases "ev_body ev")
     (auto simp: handler_def handler_nf handler_plain_defs Let_def py_simps
        set_workflow_status_Inr split: if_splits option.splits)

lemma handler_tokens:
  assumes "handler defn i ev = Inr j"
  shows "wi_tokens_used j =
           add_tokens (wi_tokens_used i) (fst (charge_tokens (ev_body ev))) (snd (charge_tokens (ev_body ev)))"
  using assms
  by (cases "ev_body ev")
     (auto simp: handler_def handler_nf handler_plain_defs Let_def py_simps add_tokens_def
        set_workflow_status_Inr split: if_splits option.splits)

lemma seed_steps_keys [simp]:
  "fst ` set (seed_steps m steps) = fst ` set m \<union> ws_step_id ` set steps"
  unfolding seed_steps_def by (induction steps arbitrary: m) (auto simp: keys_dsetdefault)

lemma seed_steps_get:
  "dget (seed_steps m steps) k =
     (case dget m k of Some st \<Rightarrow> Some st
      | None \<Rightarrow> if k \<in> ws_step_id ` set steps then Some (new_step_state k) else None)"
  unfolding seed_steps_def by (induction steps arbitrary: m) (auto split: option.splits)

lemma seed_steps_distinct: "distinct (dkeys m) \<Longrightarrow> distinct (dkeys (seed_steps m steps))"
  unfolding seed_steps_def by (induction steps arbitrary: m) (auto simp: dkeys_dsetdefault)

text \<open>Seeding steps from a definition does not change the state a handler sees.\<close>

lemma st_at_seed:
  "wi_step_states j = seed_steps (wi_step_states i) steps \<Longrightarrow> st_at j k = st_at i k"
  by (auto simp: st_at_def seed_steps_get split: option.splits)

lemma truthy_str_Some: "truthy_str x \<longleftrightarrow> (\<exists>s. x = Some s \<and> s \<noteq> [])"
  by (cases x) auto

lemma handler_step_cost:
  assumes "handler defn i ev = Inr j"
  shows "ss_cost_usd (st_at j s) = ss_cost_usd (st_at i s) + step_charge_of s (ev_body ev)"
  using assms
  by (cases "ev_body ev")
     (auto simp: handler_def handler_nf handler_plain_defs Let_def py_simps
        set_workflow_status_Inr truthy_str_Some st_at_seed split: if_splits option.splits)

lemma handler_keys_grow:
  assumes "handler defn i ev = Inr j"
  shows "fst ` set (wi_step_states i) \<subseteq> fst ` set (wi_step_states j)"
  using assms
  by (cases "ev_body ev")
     (auto simp: handler_def handler_nf handler_plain_defs Let_def py_simps
        set_workflow_status_Inr truthy_str_Some st_at_seed split: if_splits option.splits del: imageE)

lemma handler_steps_distinct:
  assumes "handler defn i ev = Inr j" "distinct (dkeys (wi_step_states i))"
  shows "distinct (dkeys (wi_step_states j))"
  using assms
  by (cases "ev_body ev")
     (auto simp: handler_def handler_nf handler_plain_defs Let_def py_simps
        set_workflow_status_Inr split: if_splits option.splits
        intro: seed_steps_distinct)

text \<open>A step changes status along the table, except that a requeue puts its step to ready.\<close>

lemma handler_step_status:
  assumes "handler defn i ev = Inr j"
  shows "step_transition_allowed (ss_status (st_at i s)) (ss_status (st_at j s)) \<or>
         ss_status (st_at j s) = ss_status (st_at i s) \<or>
         (\<exists>u dlq. ev_body ev = WorkflowRequeued (Some s) u dlq \<and> ss_status (st_at j s) = ST_READY)"
  using assms
  by (cases "ev_body ev")
     (auto simp: handler_def handler_nf handler_plain_defs Let_def py_simps
        set_workflow_status_Inr truthy_str_Some st_at_seed split: if_splits option.splits)


section \<open>Whole streams\<close>

lemma fold_step_Inr:
  "fold_step defn (b, n) ev = Inr (r, m) \<longleftrightarrow>
     ev_sequence ev = n \<and> m = n + 1 \<and>
     (\<exists>i j. (case b of None \<Rightarrow> open_instance ev | Some i \<Rightarrow> Inr i) = Inr i \<and>
        handler defn i ev = Inr j \<and>
        r = Some (j\<lparr>wi_updated_at := Some (ev_occurred_at ev), wi_version := n\<rparr>))"
  by (auto simp: fold_step_def rbind_eq_Inr)

lemma open_instance_Inr:
  "open_instance ev = Inr i \<longleftrightarrow>
     (\<exists>wid ver context budget src meta.
        ev_body ev = InstanceCreated wid ver context budget src meta \<and>
        i = new_instance (ev_instance_id ev) (ev_tenant_id ev) wid ver)"
  by (cases "ev_body ev") (auto simp: open_instance_def)

text \<open>Sequence numbers are contiguous and the projected version is the last of them.\<close>

lemma fold_loop_shape:
  assumes "rfoldl (fold_step defn) (base, n) evs = Inr (r, m)"
  shows "m = n + length evs \<and> map ev_sequence evs = [n..<n + length evs] \<and>
         (if evs = [] then r = base else \<exists>i. r = Some i \<and> wi_version i = m - 1)"
  using assms
proof (induction evs arbitrary: base n)
  case (Cons ev evs)
  then obtain b' n' where s: "fold_step defn (base, n) ev = Inr (b', n')"
    and rest: "rfoldl (fold_step defn) (b', n') evs = Inr (r, m)"
    by (auto simp: rbind_eq_Inr)
  from s obtain j where "ev_sequence ev = n" "n' = n + 1" "b' = Some j" "wi_version j = n"
    unfolding fold_step_Inr by auto
  with Cons.IH [OF rest] show ?case by (auto simp: upt_rec [of n] split: if_splits)
qed simp

lemma fold_events_loop:
  "fold_events evs defn base = Inr i \<longleftrightarrow>
     (\<exists>m. rfoldl (fold_step defn) (base, base_version base + 1) evs = Inr (Some i, m))"
  by (auto simp: fold_events_def rbind_eq_Inr split: option.splits)

lemma fold_events_version:
  assumes "fold_events evs defn base = Inr i"
  shows "wi_version i = base_version base + length evs \<and>
         map ev_sequence evs = [base_version base + 1..<base_version base + 1 + length evs]"
proof -
  obtain m where m: "rfoldl (fold_step defn) (base, base_version base + 1) evs = Inr (Some i, m)"
    using assms by (auto simp: fold_events_loop)
  from fold_loop_shape [OF m] show ?thesis
    by (auto simp: base_version_def split: if_splits)
qed

text \<open>
  Projecting a stream in two parts, the first part's result as the base of the second: what
  a snapshot in the middle of the stream, and the driver's own projection, rely on.
\<close>

lemma fold_events_append:
  assumes "xs \<noteq> [] \<or> base \<noteq> None"
  shows "fold_events (xs @ ys) defn base =
         rbind (fold_events xs defn base) (\<lambda>i. fold_events ys defn (Some i))"
proof (cases "rfoldl (fold_step defn) (base, base_version base + 1) xs")
  case (Inl e)
  then show ?thesis by (simp add: fold_events_def rfoldl_append)
next
  case (Inr rm)
  obtain r m where rm: "rm = (r, m)" by (cases rm)
  with fold_loop_shape [OF Inr [unfolded rm]] assms obtain i
    where i: "r = Some i" and m: "m = wi_version i + 1"
    by (auto simp: base_version_def split: if_splits)
  then show ?thesis using Inr rm by (simp add: fold_events_def rfoldl_append base_version_def)
qed

lemma fold_events_snoc:
  assumes "fold_events xs defn base = Inr i"
  shows "fold_events (xs @ ys) defn base = fold_events ys defn (Some i)"
proof -
  have "xs \<noteq> [] \<or> base \<noteq> None"
    using assms by (cases base) (auto simp: fold_events_def)
  then show ?thesis using assms by (simp add: fold_events_append)
qed

lemma fold_events_Nil_Some [simp]: "fold_events [] defn (Some b) = Inr b"
  by (simp add: fold_events_def)

lemma fold_events_Nil_None [simp]: "fold_events [] defn None = Inl EventStreamError"
  by (simp add: fold_events_def)

lemma fold_events_Cons_Some:
  "fold_events (ev # evs) defn (Some b) =
     (if ev_sequence ev = wi_version b + 1
      then rbind (handler defn b ev)
             (\<lambda>i. fold_events evs defn (Some (i\<lparr>wi_updated_at := Some (ev_occurred_at ev),
                                              wi_version := ev_sequence ev\<rparr>)))
      else Inl EventStreamError)"
  by (auto simp: fold_events_def fold_step_def base_version_def rbind_assoc)

lemma fold_events_Cons_None:
  "fold_events (ev # evs) defn None =
     (if ev_sequence ev = 1
      then rbind (open_instance ev) (\<lambda>b. rbind (handler defn b ev)
             (\<lambda>i. fold_events evs defn (Some (i\<lparr>wi_updated_at := Some (ev_occurred_at ev),
                                              wi_version := ev_sequence ev\<rparr>))))
      else Inl EventStreamError)"
  by (auto simp: fold_events_def fold_step_def base_version_def rbind_assoc)

text \<open>
  Induction over a successful projection from an instance: a relation that holds of the
  empty stream and is kept by one handled event holds of the stream.
\<close>

lemma fold_events_rel:
  assumes "fold_events evs defn (Some b) = Inr i"
    and refl: "R [] b"
    and step: "\<And>xs j ev k. R xs j \<Longrightarrow> handler defn j ev = Inr k \<Longrightarrow> ev \<in> set evs \<Longrightarrow>
       R (xs @ [ev]) (k\<lparr>wi_updated_at := Some (ev_occurred_at ev), wi_version := ev_sequence ev\<rparr>)"
  shows "R evs i"
  using assms(1) step
proof (induction evs arbitrary: i rule: rev_induct)
  case Nil
  then show ?case using refl by simp
next
  case (snoc ev evs)
  from snoc.prems(1) obtain j where j: "fold_events evs defn (Some b) = Inr j"
    and r: "fold_events [ev] defn (Some j) = Inr i"
    by (auto simp: fold_events_append rbind_eq_Inr)
  have "R evs j"
  proof (rule snoc.IH [OF j])
    fix xs j' ev' k
    assume "R xs j'" "handler defn j' ev' = Inr k" "ev' \<in> set evs"
    then show "R (xs @ [ev']) (k\<lparr>wi_updated_at := Some (ev_occurred_at ev'), wi_version := ev_sequence ev'\<rparr>)"
      using snoc.prems(2) [of xs j' ev' k] by simp
  qed
  moreover from r obtain k where "handler defn j ev = Inr k"
    "i = k\<lparr>wi_updated_at := Some (ev_occurred_at ev), wi_version := ev_sequence ev\<rparr>"
    by (auto simp: fold_events_Cons_Some rbind_eq_Inr split: if_splits)
  ultimately show ?case using snoc.prems(2) [of evs j ev k] by simp
qed

text \<open>A stream read from its beginning is the creation event and a projection of the rest.\<close>

lemma fold_events_from_start:
  assumes "fold_events evs defn None = Inr i"
  obtains ev rest b wid ver ctx budget src meta where
    "evs = ev # rest" "ev_sequence ev = 1"
    "ev_body ev = InstanceCreated wid ver ctx budget src meta"
    "handler defn (new_instance (ev_instance_id ev) (ev_tenant_id ev) wid ver) ev = Inr b"
    "fold_events rest defn (Some (b\<lparr>wi_updated_at := Some (ev_occurred_at ev), wi_version := 1\<rparr>)) = Inr i"
  using assms
  by (cases evs) (auto simp: fold_events_Cons_None open_instance_Inr rbind_eq_Inr split: if_splits)


section \<open>The projection invariant\<close>

definition inst_ok :: "workflow_instance \<Rightarrow> bool" where
  "inst_ok i \<longleftrightarrow>
     distinct (dkeys (wi_step_states i)) \<and>
     list_all (\<lambda>(k, st). ss_step_id st = k) (wi_step_states i) \<and>
     distinct (map se_idempotency_key (wi_side_effects i)) \<and>
     (is_terminal i \<longrightarrow> wi_completed_at i \<noteq> None)"

lemma set_ref_status_keys [simp]:
  "map se_idempotency_key (set_ref_status key v rs) = map se_idempotency_key rs"
  by (induction rs) auto

lemma side_effect_ref_of_None:
  "side_effect_ref_of i key = None \<longleftrightarrow> key \<notin> se_idempotency_key ` set (wi_side_effects i)"
  by (auto simp: side_effect_ref_of_def find_None_iff)

lemma handler_effect_keys:
  assumes "handler defn i ev = Inr j" "distinct (map se_idempotency_key (wi_side_effects i))"
  shows "distinct (map se_idempotency_key (wi_side_effects j))"
  using assms
  by (cases "ev_body ev")
     (auto simp: handler_def handler_nf handler_plain_defs Let_def py_simps set_workflow_status_Inr
        side_effect_ref_of_None split: if_splits option.splits)

lemma handler_completed_at:
  assumes "handler defn i ev = Inr j" "is_terminal i \<longrightarrow> wi_completed_at i \<noteq> None"
  shows "is_terminal j \<longrightarrow> wi_completed_at j \<noteq> None"
  using assms
  by (cases "ev_body ev")
     (auto simp: handler_def handler_nf handler_plain_defs Let_def py_simps is_terminal_def
        set_workflow_status_Inr TERMINAL_WORKFLOW_STATUSES_def split: if_splits option.splits)

lemma list_all_dset:
  "list_all P d \<Longrightarrow> P (k, v) \<Longrightarrow> list_all P (dset k v d)"
  using set_dset_subset [of k v d] by (auto simp: list_all_iff)

abbreviation keyed :: "(string, step_state) pydict \<Rightarrow> bool" where
  "keyed m \<equiv> list_all (\<lambda>(k, st). ss_step_id st = k) m"

lemma keyed_st_at: "keyed (wi_step_states i) \<Longrightarrow> ss_step_id (st_at i s) = s"
  by (auto simp: st_at_def new_step_state_def list_all_iff split: option.splits
      dest!: dget_Some_in)

lemma keyed_upd_step:
  "keyed (wi_step_states i) \<Longrightarrow> (\<And>st. ss_step_id (f st) = ss_step_id st) \<Longrightarrow>
   keyed (wi_step_states (upd_step i s f))"
  by (auto simp: upd_step_def keyed_st_at intro: list_all_dset)

lemma new_step_state_id: "ss_step_id (new_step_state k) = k"
  by (simp add: new_step_state_def)

lemma keyed_seed: "keyed m \<Longrightarrow> keyed (seed_steps m steps)"
proof (induction steps arbitrary: m)
  case (Cons s steps)
  have "keyed (dsetdefault (ws_step_id s) (new_step_state (ws_step_id s)) m)"
    using Cons.prems
    by (cases "dget m (ws_step_id s)")
       (simp_all only: dsetdefault_def option.case list_all_dset case_prod_conv new_step_state_id)
  from Cons.IH [OF this] show ?case by (simp add: seed_steps_def)
qed (simp add: seed_steps_def)

lemma handler_keyed:
  assumes "handler defn i ev = Inr j" "keyed (wi_step_states i)"
  shows "keyed (wi_step_states j)"
  using assms
  by (cases "ev_body ev")
     (auto simp: handler_def handler_nf handler_plain_defs Let_def py_simps
        set_workflow_status_Inr split: if_splits option.splits
        intro!: keyed_upd_step keyed_seed)

lemma handler_inst_ok:
  "handler defn i ev = Inr j \<Longrightarrow> inst_ok i \<Longrightarrow> inst_ok j"
  using handler_steps_distinct handler_keyed handler_effect_keys handler_completed_at
  unfolding inst_ok_def by blast

lemma new_instance_ok: "inst_ok (new_instance iid tid wid ver)"
  by (simp add: inst_ok_def new_instance_def is_terminal_def TERMINAL_WORKFLOW_STATUSES_def)

lemma inst_ok_stamp [simp]:
  "inst_ok (i\<lparr>wi_updated_at := u, wi_version := v\<rparr>) = inst_ok i"
  by (simp add: inst_ok_def is_terminal_def)

lemma fold_events_inst_ok_base:
  assumes "fold_events evs defn (Some b) = Inr i" "inst_ok b"
  shows "inst_ok i"
  by (rule fold_events_rel [OF assms(1), where R = "\<lambda>_. inst_ok", OF assms(2)])
     (simp add: handler_inst_ok)

lemma fold_events_inst_ok:
  assumes "fold_events evs defn None = Inr i"
  shows "inst_ok i"
  using assms
proof (rule fold_events_from_start)
  fix ev rest b wid ver
  assume "handler defn (new_instance (ev_instance_id ev) (ev_tenant_id ev) wid ver) ev = Inr b"
    and f: "fold_events rest defn
      (Some (b\<lparr>wi_updated_at := Some (ev_occurred_at ev), wi_version := 1\<rparr>)) = Inr i"
  then have "inst_ok b" by (simp add: handler_inst_ok [OF _ new_instance_ok])
  then show "inst_ok i" using fold_events_inst_ok_base [OF f] by simp
qed

section \<open>Status, identity, cost and steps over a stream\<close>

lemma fold_events_status:
  assumes "fold_events evs defn (Some b) = Inr i"
  shows "wf_path (wi_status b) (wi_status i)"
proof (rule fold_events_rel [OF assms, where R = "\<lambda>_ j. wf_path (wi_status b) (wi_status j)"])
  show "wf_path (wi_status b) (wi_status b)" by (rule wf_path_refl)
next
  fix xs :: "event list" and j ev k
  assume "wf_path (wi_status b) (wi_status j)" "handler defn j ev = Inr k"
  then show "wf_path (wi_status b)
      (wi_status (k\<lparr>wi_updated_at := Some (ev_occurred_at ev), wi_version := ev_sequence ev\<rparr>))"
    using handler_status wf_path_step by fastforce
qed

lemma fold_events_ids:
  assumes "fold_events evs defn (Some b) = Inr i"
  shows "wi_instance_id i = wi_instance_id b \<and> wi_tenant_id i = wi_tenant_id b \<and>
         wi_workflow_id i = wi_workflow_id b \<and> wi_workflow_version i = wi_workflow_version b"
  by (rule fold_events_rel [OF assms, where R = "\<lambda>_ i. wi_instance_id i = wi_instance_id b \<and>
        wi_tenant_id i = wi_tenant_id b \<and> wi_workflow_id i = wi_workflow_id b \<and>
        wi_workflow_version i = wi_workflow_version b"])
     (auto dest: handler_ids)

definition charged :: "event list \<Rightarrow> usd" where
  "charged evs = (\<Sum>e\<leftarrow>evs. charge_of (ev_body e))"

definition step_charged :: "string \<Rightarrow> event list \<Rightarrow> usd" where
  "step_charged s evs = (\<Sum>e\<leftarrow>evs. step_charge_of s (ev_body e))"

lemma charged_simps [simp]:
  "charged [] = 0" "charged (e # es) = charge_of (ev_body e) + charged es"
  "charged (es @ fs) = charged es + charged fs"
  by (simp_all add: charged_def)

lemma step_charged_simps [simp]:
  "step_charged s [] = 0" "step_charged s (e # es) = step_charge_of s (ev_body e) + step_charged s es"
  "step_charged s (es @ fs) = step_charged s es + step_charged s fs"
  by (simp_all add: step_charged_def)

lemma fold_events_cost:
  assumes "fold_events evs defn (Some b) = Inr i"
  shows "wi_cost_accumulated_usd i = wi_cost_accumulated_usd b + charged evs"
  by (rule fold_events_rel [OF assms, where
        R = "\<lambda>es i. wi_cost_accumulated_usd i = wi_cost_accumulated_usd b + charged es"])
     (auto dest: handler_cost)

lemma fold_events_step_cost:
  assumes "fold_events evs defn (Some b) = Inr i"
  shows "ss_cost_usd (st_at i s) = ss_cost_usd (st_at b s) + step_charged s evs"
  by (rule fold_events_rel [OF assms, where
        R = "\<lambda>es i. ss_cost_usd (st_at i s) = ss_cost_usd (st_at b s) + step_charged s es"])
     (auto dest: handler_step_cost [where s = s])

lemma fold_events_keys_grow:
  assumes "fold_events evs defn (Some b) = Inr i"
  shows "fst ` set (wi_step_states b) \<subseteq> fst ` set (wi_step_states i)"
  by (rule fold_events_rel [OF assms, where
        R = "\<lambda>es i. fst ` set (wi_step_states b) \<subseteq> fst ` set (wi_step_states i)"])
     (simp_all add: subset_trans [OF _ handler_keys_grow])

lemma fold_events_start_fields:
  assumes "fold_events evs defn None = Inr i"
  shows "wi_cost_accumulated_usd i = charged evs"
    and "ss_cost_usd (st_at i s) = step_charged s evs"
    and "defn = Some d \<Longrightarrow> set (step_ids d) \<subseteq> fst ` set (wi_step_states i)"
    and "wi_instance_id i = ev_instance_id (hd evs) \<and> wi_tenant_id i = ev_tenant_id (hd evs)"
proof -
  from assms obtain ev rest b wid ver ctx budget src meta where e: "evs = ev # rest"
    and body: "ev_body ev = InstanceCreated wid ver ctx budget src meta"
    and h: "handler defn (new_instance (ev_instance_id ev) (ev_tenant_id ev) wid ver) ev = Inr b"
    and f: "fold_events rest defn (Some (b\<lparr>wi_updated_at := Some (ev_occurred_at ev), wi_version := 1\<rparr>)) = Inr i"
    by (rule fold_events_from_start)
  show "wi_cost_accumulated_usd i = charged evs"
    using fold_events_cost [OF f] handler_cost [OF h] e by (simp add: new_instance_def)
  show "ss_cost_usd (st_at i s) = step_charged s evs"
    using fold_events_step_cost [OF f, of s] handler_step_cost [OF h, of s] e
    by (simp add: new_instance_def st_at_def new_step_state_def)
  show "wi_instance_id i = ev_instance_id (hd evs) \<and> wi_tenant_id i = ev_tenant_id (hd evs)"
    using fold_events_ids [OF f] handler_ids [OF h] e by (simp add: new_instance_def)
  show "set (step_ids d) \<subseteq> fst ` set (wi_step_states i)" if "defn = Some d"
  proof -
    have "ws_step_id ` set (wd_steps d) \<subseteq> fst ` set (wi_step_states b)"
      using h that body by (auto simp: handler_def on_created_def Let_def new_instance_def)
    then show ?thesis using fold_events_keys_grow [OF f] by (auto simp: step_ids_def)
  qed
qed

section \<open>A concrete stream\<close>

definition sample_event :: "nat \<Rightarrow> event_body \<Rightarrow> event" where
  "sample_event n body =
     \<lparr>ev_event_id = ''e'' @ show_nat n, ev_instance_id = ''i1'', ev_tenant_id = ''t1'',
      ev_sequence = n, ev_occurred_at = 1000 * int n, ev_body = body\<rparr>"

text \<open>One instance of \<open>sample_definition\<close> in which step \<open>a\<close> runs, pays and completes.\<close>

definition sample_stream :: "event list" where
  "sample_stream = map (\<lambda>(n, b). sample_event n b)
     [(1, InstanceCreated ''wf'' ''1.0.0'' [(''q'', JInt 1)] (Some 5) ''api'' []),
      (2, InstanceStatusChanged WF_PENDING WF_RUNNING None),
      (3, StepStatusChanged ''a'' ST_PENDING ST_READY None),
      (4, StepStarted ''a'' 1 ''w1'' None),
      (5, CostCharged (Some ''a'') (1/4) (Some ''m'') 10 20),
      (6, StepCompleted ''a'' 1 [(''out'', JInt 2)] (Some ''m'') (1/4) 10 20 7)]"

lemmas fold_eval =
  fold_events_Cons_None fold_events_Cons_Some open_instance_def handler_def on_created_def
  seed_steps_def dsetdefault_def on_wf_status_def set_workflow_status_def
  workflow_transition_allowed_def step_transition_allowed_def is_terminal_def
  TERMINAL_WORKFLOW_STATUSES_def on_step_status_nf on_step_started_nf on_cost_nf on_step_completed_nf
  upd_step_def st_at_def new_step_state_def new_instance_def add_tokens_def

definition sample_instance :: workflow_instance where
  "sample_instance =
     (new_instance ''i1'' ''t1'' ''wf'' ''1.0.0'')
       \<lparr>wi_status := WF_RUNNING, wi_context := [(''q'', JInt 1)],
        wi_step_states :=
          [(''a'', (new_step_state ''a'')
              \<lparr>ss_status := ST_COMPLETED, ss_attempts := 1, ss_output := Some [(''out'', JInt 2)],
               ss_model_used := Some ''m'', ss_cost_usd := 1/4,
               ss_tokens := \<lparr>tu_input = 10, tu_output = 20\<rparr>, ss_started_at := Some 4000,
               ss_completed_at := Some 6000\<rparr>),
           (''b'', new_step_state ''b'')],
        wi_cost_accumulated_usd := 1/4, wi_tokens_used := \<lparr>tu_input = 10, tu_output = 20\<rparr>,
        wi_budget_limit_usd := Some 5, wi_version := 6, wi_created_at := Some 1000,
        wi_updated_at := Some 6000\<rparr>"

lemma sample_stream_fold:
  "fold_events sample_stream (Some sample_definition) None = Inr sample_instance"
  by (simp add: sample_stream_def sample_event_def sample_instance_def fold_eval
      sample_definition_def mk_definition_def mk_step_def)

section \<open>Properties\<close>

text \<open>
  C23: projecting a stream in one pass equals projecting a prefix and then continuing from the
  resulting instance with the rest, for the value as well as for a raise. A snapshot taken
  anywhere in the stream, and the driver's habit of projecting only what it appended, give the
  state that a full replay gives.
\<close>

theorem replay_from_snapshot:
  assumes "xs \<noteq> [] \<or> base \<noteq> None"
  shows "fold_events (xs @ ys) defn base =
         rbind (fold_events xs defn base) (\<lambda>snapshot. fold_events ys defn (Some snapshot))"
  by (rule fold_events_append [OF assms])

theorem replay_from_snapshot_witness:
  "take 3 sample_stream \<noteq> [] \<and>
   rbind (fold_events (take 3 sample_stream) (Some sample_definition) None)
     (\<lambda>s. fold_events (drop 3 sample_stream) (Some sample_definition) (Some s)) = Inr sample_instance"
proof -
  have "take 3 sample_stream \<noteq> []" by (simp add: sample_stream_def)
  then show ?thesis
    using replay_from_snapshot [of "take 3 sample_stream" None "drop 3 sample_stream" "Some sample_definition"]
      sample_stream_fold by simp
qed

text \<open>
  A stream that projects has contiguous sequence numbers starting right after the base
  version, and the projected version is the base version plus the number of events.
\<close>

lemma fold_version_contiguous:
  assumes "fold_events evs defn base = Inr i"
  shows "wi_version i = base_version base + length evs \<and>
         map ev_sequence evs = [base_version base + 1..<base_version base + 1 + length evs]"
  by (rule fold_events_version [OF assms])

lemma fold_version_contiguous_witness:
  "fold_events sample_stream (Some sample_definition) None = Inr sample_instance \<and>
   wi_version sample_instance = base_version None + length sample_stream \<and>
   map ev_sequence sample_stream = [base_version None + 1..<base_version None + 1 + length sample_stream]"
  using fold_version_contiguous [OF sample_stream_fold] sample_stream_fold by blast

text \<open>
  C25: every single event of a stream that folds moves the workflow status along the transition table,
  written out here, or leaves it alone. A status change starts from the status the event declares and
  ends in the one it names, a completion, a failure and a requeue set the status they stand for, and no
  other event changes it. The identity of the instance never changes, and once the status is completed
  or rolled back it stays so to the end of the stream.
\<close>

theorem fold_status_legal:
  assumes "fold_events (evs @ ev # rest) defn base = Inr i" "evs \<noteq> [] \<or> base \<noteq> None"
  shows "\<exists>j k. fold_events evs defn base = Inr j \<and> fold_events (evs @ [ev]) defn base = Inr k \<and>
    (wi_status k = wi_status j \<or> wi_status k \<in> (case wi_status j of
        WF_PENDING \<Rightarrow> {WF_RUNNING, WF_PAUSED, WF_FAILED, WF_ROLLED_BACK}
      | WF_RUNNING \<Rightarrow> {WF_PAUSED, WF_WAITING_APPROVAL, WF_RETRYING, WF_FAILED, WF_COMPLETED, WF_DEAD_LETTERED, WF_ROLLED_BACK}
      | WF_RETRYING \<Rightarrow> {WF_RUNNING, WF_FAILED, WF_DEAD_LETTERED}
      | WF_PAUSED \<Rightarrow> {WF_RUNNING, WF_ROLLED_BACK, WF_FAILED}
      | WF_WAITING_APPROVAL \<Rightarrow> {WF_RUNNING, WF_ROLLED_BACK, WF_FAILED, WF_DEAD_LETTERED}
      | WF_FAILED \<Rightarrow> {WF_RUNNING, WF_RETRYING, WF_ROLLED_BACK, WF_DEAD_LETTERED}
      | WF_DEAD_LETTERED \<Rightarrow> {WF_RUNNING} | WF_COMPLETED \<Rightarrow> {} | WF_ROLLED_BACK \<Rightarrow> {})) \<and>
    (case ev_body ev of
        InstanceStatusChanged src dst _ \<Rightarrow> wi_status j = src \<and> wi_status k = dst
      | InstanceCompleted _ \<Rightarrow> wi_status k = WF_COMPLETED
      | InstanceFailed _ _ \<Rightarrow> wi_status k = WF_FAILED
      | WorkflowRequeued _ _ _ \<Rightarrow> wi_status k = WF_RUNNING
      | _ \<Rightarrow> wi_status k = wi_status j) \<and>
    wi_instance_id i = wi_instance_id j \<and> wi_tenant_id i = wi_tenant_id j \<and>
    wi_workflow_id i = wi_workflow_id j \<and> wi_workflow_version i = wi_workflow_version j \<and>
    (wi_status j \<in> {WF_COMPLETED, WF_ROLLED_BACK} \<longrightarrow> wi_status i = wi_status j)"
proof -
  obtain j where j: "fold_events evs defn base = Inr j" and r: "fold_events (ev # rest) defn (Some j) = Inr i"
    using assms by (auto simp: fold_events_append rbind_eq_Inr)
  from r obtain m where m: "handler defn j ev = Inr m" "ev_sequence ev = wi_version j + 1"
    by (auto simp: fold_events_Cons_Some rbind_eq_Inr split: if_splits)
  let ?k = "m\<lparr>wi_updated_at := Some (ev_occurred_at ev), wi_version := ev_sequence ev\<rparr>"
  have k: "fold_events (evs @ [ev]) defn base = Inr ?k"
    using m by (simp add: fold_events_snoc [OF j] fold_events_Cons_Some)
  have allowed: "workflow_transition_allowed s t \<longleftrightarrow> t \<in> WORKFLOW_TRANSITIONS s" for s t
    by (simp add: workflow_transition_allowed_def)
  have st: "wi_status ?k = wi_status j \<or> wi_status ?k \<in> WORKFLOW_TRANSITIONS (wi_status j)"
    using handler_status [OF m(1)] by (simp add: allowed)
  have tb: "WORKFLOW_TRANSITIONS s = (case s of
        WF_PENDING \<Rightarrow> {WF_RUNNING, WF_PAUSED, WF_FAILED, WF_ROLLED_BACK}
      | WF_RUNNING \<Rightarrow> {WF_PAUSED, WF_WAITING_APPROVAL, WF_RETRYING, WF_FAILED, WF_COMPLETED, WF_DEAD_LETTERED, WF_ROLLED_BACK}
      | WF_RETRYING \<Rightarrow> {WF_RUNNING, WF_FAILED, WF_DEAD_LETTERED}
      | WF_PAUSED \<Rightarrow> {WF_RUNNING, WF_ROLLED_BACK, WF_FAILED}
      | WF_WAITING_APPROVAL \<Rightarrow> {WF_RUNNING, WF_ROLLED_BACK, WF_FAILED, WF_DEAD_LETTERED}
      | WF_FAILED \<Rightarrow> {WF_RUNNING, WF_RETRYING, WF_ROLLED_BACK, WF_DEAD_LETTERED}
      | WF_DEAD_LETTERED \<Rightarrow> {WF_RUNNING} | WF_COMPLETED \<Rightarrow> {} | WF_ROLLED_BACK \<Rightarrow> {})" for s
    by (cases s) simp_all
  have ev: "case ev_body ev of
        InstanceStatusChanged src dst _ \<Rightarrow> wi_status j = src \<and> wi_status ?k = dst
      | InstanceCompleted _ \<Rightarrow> wi_status ?k = WF_COMPLETED
      | InstanceFailed _ _ \<Rightarrow> wi_status ?k = WF_FAILED
      | WorkflowRequeued _ _ _ \<Rightarrow> wi_status ?k = WF_RUNNING
      | _ \<Rightarrow> wi_status ?k = wi_status j"
    using handler_status_set [OF m(1)] by (simp cong: event_body.case_cong)
  have "wi_status j \<in> {WF_COMPLETED, WF_ROLLED_BACK} \<longrightarrow> wi_status i = wi_status j"
    using wf_path_terminal [OF fold_events_status [OF r]] by (simp add: TERMINAL_WORKFLOW_STATUSES_def)
  then show ?thesis using j k st [unfolded tb] ev fold_events_ids [OF r] by blast
qed

definition sample_completion :: "event list" where
  "sample_completion = [sample_event 7 (InstanceCompleted [(''r'', JInt 3)])]"

theorem fold_status_legal_witness:
  "\<exists>i k. fold_events sample_completion None (Some sample_instance) = Inr i \<and>
     fold_events [sample_event 7 (InstanceCompleted [(''r'', JInt 3)])] None (Some sample_instance) = Inr k \<and>
     wi_status sample_instance = WF_RUNNING \<and> wi_status k = WF_COMPLETED \<and> wi_tenant_id i = ''t1''"
proof -
  have "\<exists>i. fold_events sample_completion None (Some sample_instance) = Inr i"
    by (simp add: sample_completion_def sample_event_def sample_instance_def fold_eval
        on_completed_def Let_def)
  then obtain i where i: "fold_events sample_completion None (Some sample_instance) = Inr i" by blast
  have start: "fold_events [] None (Some sample_instance) = Inr sample_instance" by (simp add: fold_events_def)
  have "wi_status sample_instance = WF_RUNNING" "wi_tenant_id sample_instance = ''t1''"
    by (simp_all add: sample_instance_def new_instance_def)
  then show ?thesis
    using fold_status_legal [of "[]" "sample_event 7 (InstanceCompleted [(''r'', JInt 3)])" "[]" None "Some sample_instance" i] i start
    by (auto simp: sample_completion_def sample_event_def)
qed

text \<open>
  C26: the cost of an instance is the sum of the charges in its stream, and the cost of each
  step is the sum of the charges that name it.
\<close>

theorem fold_cost_accounting:
  assumes "fold_events evs defn None = Inr i"
  shows "wi_cost_accumulated_usd i = charged evs \<and> ss_cost_usd (st_at i s) = step_charged s evs"
  using fold_events_start_fields(1) [OF assms] fold_events_start_fields(2) [OF assms, of s] by blast

theorem fold_cost_accounting_witness:
  "fold_events sample_stream (Some sample_definition) None = Inr sample_instance \<and>
   wi_cost_accumulated_usd sample_instance = charged sample_stream \<and>
   ss_cost_usd (st_at sample_instance ''a'') = step_charged ''a'' sample_stream"
  using fold_cost_accounting [OF sample_stream_fold, of "''a''"] sample_stream_fold by blast

text \<open>
  C24: every projection from the start of a stream is well formed: step states are keyed by
  their own id without repetition, side effects are listed once per idempotency key, a
  terminal instance has its completion time, every step of the definition it was projected
  with is present, and tenant and id are those of the creation event.
\<close>

theorem fold_projection_invariant:
  assumes "fold_events evs (Some d) None = Inr i"
  shows "inst_ok i \<and> set (step_ids d) \<subseteq> set (dkeys (wi_step_states i)) \<and>
         wi_instance_id i = ev_instance_id (hd evs) \<and> wi_tenant_id i = ev_tenant_id (hd evs)"
  using fold_events_inst_ok [OF assms] fold_events_start_fields(3) [OF assms, of d]
    fold_events_start_fields(4) [OF assms] by simp

theorem fold_projection_invariant_witness:
  "fold_events sample_stream (Some sample_definition) None = Inr sample_instance \<and>
   inst_ok sample_instance \<and> set (step_ids sample_definition) \<subseteq> set (dkeys (wi_step_states sample_instance)) \<and>
   wi_tenant_id sample_instance = ev_tenant_id (hd sample_stream)"
  using fold_projection_invariant [OF sample_stream_fold] sample_stream_fold by blast

text \<open>
  A handled event leaves the status of every step unchanged or moves it along the step
  table, with one exception: a requeue puts the step it names back to ready from any status.
\<close>

lemma handler_step_transitions:
  assumes "handler defn i ev = Inr j"
  shows "step_transition_allowed (ss_status (st_at i s)) (ss_status (st_at j s)) \<or>
         (\<exists>u dlq. ev_body ev = WorkflowRequeued (Some s) u dlq \<and> ss_status (st_at j s) = ST_READY)"
  using handler_step_status [OF assms, of s] by auto

lemma handler_step_transitions_witness:
  "\<exists>j. handler None sample_instance (sample_event 7 (StepStatusChanged ''b'' ST_PENDING ST_READY None)) = Inr j \<and>
       step_transition_allowed (ss_status (st_at sample_instance ''b'')) (ss_status (st_at j ''b''))"
proof -
  have "\<exists>j. handler None sample_instance (sample_event 7 (StepStatusChanged ''b'' ST_PENDING ST_READY None)) = Inr j"
    by (simp add: sample_event_def sample_instance_def fold_eval)
  then show ?thesis
    using handler_step_transitions [of None sample_instance "sample_event 7 (StepStatusChanged ''b'' ST_PENDING ST_READY None)" _ "''b''"]
    by (auto simp: sample_event_def)
qed

end
