(* ===== verification/Tables.thy ===== *)
theory Tables
  imports Events
begin

text \<open>
  \<open>core/persistence/tables.py\<close>: the rows of the relational schema and the database they
  form. A table with a primary key is a dictionary from the key to the row, the event log is
  the list of its rows in insertion order. \<open>db_clock\<close> is what \<open>func.now()\<close> returns and
  \<open>db_published\<close> the calls made to the event publisher. JSONB columns hold the typed value
  whose dump they store. A statement that violates a constraint is an error value, and a
  transaction that raises leaves the database as it was.
\<close>

section \<open>Rows\<close>

record defn_row =
  dr_tenant_id :: string
  dr_workflow_id :: string
  dr_version :: string
  dr_name :: string
  dr_description :: string
  dr_definition :: workflow_definition
  dr_checksum :: string
  dr_is_active :: bool
  dr_created_at :: instant
  dr_updated_at :: instant

record event_row =
  wr_instance_id :: string
  wr_tenant_id :: string
  wr_sequence :: nat
  wr_event_type :: string
  wr_payload :: event
  wr_occurred_at :: instant
  wr_recorded_at :: instant

record snapshot_row =
  sr_instance_id :: string
  sr_tenant_id :: string
  sr_version :: nat
  sr_state :: workflow_instance
  sr_created_at :: instant

record index_row =
  ix_instance_id :: string
  ix_tenant_id :: string
  ix_workflow_id :: string
  ix_workflow_version :: string
  ix_status :: string
  ix_last_sequence :: nat
  ix_cost_accumulated_usd :: usd
  ix_budget_limit_usd :: "usd option"
  ix_next_wakeup_at :: "instant option"
  ix_created_at :: instant
  ix_updated_at :: instant
  ix_completed_at :: "instant option"

record lease_row =
  le_instance_id :: string
  le_tenant_id :: string
  le_worker_id :: string
  le_acquired_at :: instant
  le_heartbeat_at :: instant
  le_expires_at :: instant
  le_fence_token :: nat

record dead_letter_row =
  dl_id :: nat
  dl_instance_id :: string
  dl_tenant_id :: string
  dl_step_id :: "string option"
  dl_reason :: string
  dl_error_type :: "string option"
  dl_error_message :: "string option"
  dl_at_version :: nat
  dl_resolved :: bool
  dl_created_at :: instant
  dl_resolved_at :: "instant option"

record outbox_row =
  ob_idempotency_key :: string
  ob_instance_id :: string
  ob_tenant_id :: string
  ob_step_id :: string
  ob_effect_name :: string
  ob_provider :: string
  ob_params :: obj
  ob_guarantee :: string
  ob_status :: string
  ob_attempts :: int
  ob_result :: "obj option"
  ob_provider_ref :: "string option"
  ob_error :: "string option"
  ob_compensation_status :: "string option"
  ob_created_at :: instant
  ob_updated_at :: instant

record ledger_row =
  lg_tenant_id :: string
  lg_day :: int
  lg_cost_usd :: usd
  lg_updated_at :: instant

record api_key_row =
  ak_key_id :: string
  ak_key_hash :: string
  ak_tenant_id :: string
  ak_principal_name :: string
  ak_scopes :: "string list"
  ak_disabled :: bool
  ak_created_at :: instant
  ak_last_used_at :: "instant option"

record escalation_row =
  es_escalation_id :: string
  es_instance_id :: string
  es_tenant_id :: string
  es_step_id :: string
  es_reason :: string
  es_recommendation :: string
  es_confidence :: rat
  es_options :: "obj list"
  es_auto_action :: string
  es_deadline :: "instant option"
  es_status :: string
  es_resolution :: "string option"
  es_resolved_by :: "string option"
  es_created_at :: instant
  es_resolved_at :: "instant option"

section \<open>The database\<close>

type_synonym defn_key = "string \<times> string \<times> string"

record db =
  db_definitions :: "(defn_key, defn_row) pydict"
  db_events :: "event_row list"
  db_snapshots :: "(string, snapshot_row) pydict"
  db_index :: "(string, index_row) pydict"
  db_leases :: "(string, lease_row) pydict"
  db_dead_letters :: "dead_letter_row list"
  db_next_dead_letter :: nat
  db_outbox :: "(string, outbox_row) pydict"
  db_ledger :: "(string \<times> int, ledger_row) pydict"
  db_api_keys :: "(string, api_key_row) pydict"
  db_escalations :: "(string, escalation_row) pydict"
  db_clock :: instant
  db_published :: "(string \<times> string \<times> event list) list"

definition empty_db :: "instant \<Rightarrow> db" where
  "empty_db now =
     \<lparr>db_definitions = [], db_events = [], db_snapshots = [], db_index = [], db_leases = [],
      db_dead_letters = [], db_next_dead_letter = 1, db_outbox = [], db_ledger = [],
      db_api_keys = [], db_escalations = [], db_clock = now, db_published = []\<rparr>"

text \<open>The length limits of \<open>String(n)\<close> columns, checked for the values of one statement.\<close>

definition fits :: "(nat \<times> string) list \<Rightarrow> bool" where
  "fits cols \<longleftrightarrow> list_all (\<lambda>(n, s). length s \<le> n) cols"

definition fits_opt :: "nat \<Rightarrow> string option \<Rightarrow> bool" where
  "fits_opt n s = (case s of None \<Rightarrow> True | Some x \<Rightarrow> length x \<le> n)"

text \<open>\<open>UPDATE ... WHERE key = k\<close> on a keyed table: nothing happens when the row is missing.\<close>

definition dadjust :: "'k \<Rightarrow> ('v \<Rightarrow> 'v) \<Rightarrow> ('k, 'v) pydict \<Rightarrow> ('k, 'v) pydict" where
  "dadjust k f d = map (\<lambda>(k', v). (k', if k' = k then f v else v)) d"

lemma dkeys_dadjust [simp]: "dkeys (dadjust k f d) = dkeys d"
  by (auto simp: dadjust_def)

lemma dget_dadjust [simp]:
  "dget (dadjust k f d) k' = (if k' = k then map_option f (dget d k) else dget d k')"
  by (induction d) (auto simp: dadjust_def)

text \<open>\<open>UPDATE ... WHERE p\<close> over the rows of a keyed table.\<close>

definition dupdate_where :: "('v \<Rightarrow> bool) \<Rightarrow> ('v \<Rightarrow> 'v) \<Rightarrow> ('k, 'v) pydict \<Rightarrow> ('k, 'v) pydict" where
  "dupdate_where p f d = map (\<lambda>(k, v). (k, if p v then f v else v)) d"

lemma dkeys_dupdate_where [simp]: "dkeys (dupdate_where p f d) = dkeys d"
  by (auto simp: dupdate_where_def)

lemma dget_dupdate_where [simp]:
  "dget (dupdate_where p f d) k = map_option (\<lambda>v. if p v then f v else v) (dget d k)"
  by (induction d) (auto simp: dupdate_where_def)

end
