(* ===== verification/EventStore.thy ===== *)
theory EventStore
  imports Tables Fold_Props
begin

text \<open>
  \<open>core/events/snapshot.py\<close> and \<open>core/persistence/event_store.py\<close>: the append-only log with
  its derived snapshot, index and escalation rows. \<open>commit_tx\<close> is the transaction of
  \<open>_commit\<close> with the state its first reads saw and the state its writes meet as separate
  arguments, because the two differ when transactions overlap under READ COMMITTED;
  \<open>commit\<close> is the transaction run alone.
\<close>

section \<open>Snapshots\<close>

definition SNAPSHOT_EVERY :: nat where
  "SNAPSHOT_EVERY = 50"

definition should_snapshot :: "nat \<Rightarrow> nat \<Rightarrow> bool" where
  "should_snapshot last_snapshot_version current_version \<longleftrightarrow>
     int current_version - int last_snapshot_version \<ge> int SNAPSHOT_EVERY"

section \<open>Reads\<close>

definition rows_of :: "db \<Rightarrow> string \<Rightarrow> event_row list" where
  "rows_of d iid = filter (\<lambda>r. wr_instance_id r = iid) (db_events d)"

text \<open>\<open>select(func.max(sequence))\<close>, with \<open>or 0\<close>.\<close>

definition max_sequence :: "db \<Rightarrow> string \<Rightarrow> nat" where
  "max_sequence d iid = foldr max (map wr_sequence (rows_of d iid)) 0"

definition load :: "db \<Rightarrow> string \<Rightarrow> string \<Rightarrow> nat \<Rightarrow> event list" where
  "load d iid tid after =
     map wr_payload
       (sort_key wr_sequence
          (filter (\<lambda>r. wr_tenant_id r = tid \<and> wr_sequence r > after) (rows_of d iid)))"

definition load_snapshot :: "db \<Rightarrow> string \<Rightarrow> snapshot_row option" where
  "load_snapshot d iid = dget (db_snapshots d) iid"

definition project ::
  "db \<Rightarrow> string \<Rightarrow> string \<Rightarrow> workflow_definition option \<Rightarrow> bool \<Rightarrow> workflow_instance option res" where
  "project d iid tid defn required =
     (let snap = load_snapshot d iid;
          base = map_option sr_state snap;
          after = (case snap of None \<Rightarrow> 0 | Some s \<Rightarrow> sr_version s);
          tail = map wr_payload
                   (sort_key wr_sequence (filter (\<lambda>r. wr_sequence r > after) (rows_of d iid)))
      in if base = None \<and> tail = []
         then (if required then Inl EventStreamError else Inr None)
         else rbind (fold_events tail defn base)
                (\<lambda>inst. if wi_tenant_id inst \<noteq> tid
                        then (if required then Inl EventStreamError else Inr None)
                        else Inr (Some inst)))"

definition get_instance ::
  "db \<Rightarrow> string \<Rightarrow> string \<Rightarrow> workflow_definition option \<Rightarrow> workflow_instance option res" where
  "get_instance d iid tid defn = project d iid tid defn False"

definition state_at ::
  "db \<Rightarrow> string \<Rightarrow> string \<Rightarrow> nat \<Rightarrow> workflow_definition option \<Rightarrow> workflow_instance option res" where
  "state_at d iid tid version defn =
     (let events = filter (\<lambda>e. ev_sequence e \<le> version) (load d iid tid 0)
      in if events = [] then Inr None else rbind (fold_events events defn None) (\<lambda>i. Inr (Some i)))"

record instance_summary =
  su_instance_id :: string
  su_workflow_id :: string
  su_workflow_version :: string
  su_status :: string
  su_cost_accumulated_usd :: usd
  su_budget_limit_usd :: "usd option"
  su_next_wakeup_at :: "instant option"
  su_created_at :: instant
  su_updated_at :: instant
  su_completed_at :: "instant option"

definition summary_of :: "index_row \<Rightarrow> instance_summary" where
  "summary_of r =
     \<lparr>su_instance_id = ix_instance_id r, su_workflow_id = ix_workflow_id r,
      su_workflow_version = ix_workflow_version r, su_status = ix_status r,
      su_cost_accumulated_usd = ix_cost_accumulated_usd r,
      su_budget_limit_usd = ix_budget_limit_usd r, su_next_wakeup_at = ix_next_wakeup_at r,
      su_created_at = ix_created_at r, su_updated_at = ix_updated_at r,
      su_completed_at = ix_completed_at r\<rparr>"

definition list_instances ::
  "db \<Rightarrow> string \<Rightarrow> string list option \<Rightarrow> string option \<Rightarrow> int \<Rightarrow> int \<Rightarrow>
   instance_summary list res" where
  "list_instances d tid statuses workflow_id limit offset =
     (let rows = filter (\<lambda>r. ix_tenant_id r = tid \<and>
                   (case statuses of None \<Rightarrow> True
                    | Some ss \<Rightarrow> ss = [] \<or> ix_status r \<in> set ss) \<and>
                   (truthy_str workflow_id \<longrightarrow> ix_workflow_id r = the workflow_id))
                 (map snd (db_index d));
          newest = sort_key (\<lambda>r. - ix_updated_at r) rows
      in if limit < 0 then Inl DbDataError
         else Inr (map summary_of (take (nat (min limit 200)) (drop (nat (max offset 0)) newest))))"

definition latest_snapshot :: "db \<Rightarrow> string \<Rightarrow> string \<Rightarrow> snapshot_row option" where
  "latest_snapshot d iid tid =
     (case load_snapshot d iid of None \<Rightarrow> None
      | Some s \<Rightarrow> if sr_tenant_id s \<noteq> tid then None else Some s)"

section \<open>Writes\<close>

definition event_row_of :: "db \<Rightarrow> string \<Rightarrow> string \<Rightarrow> event \<Rightarrow> event_row" where
  "event_row_of d iid tid ev =
     \<lparr>wr_instance_id = iid, wr_tenant_id = tid, wr_sequence = ev_sequence ev,
      wr_event_type = event_type (ev_body ev), wr_payload = ev,
      wr_occurred_at = ev_occurred_at ev, wr_recorded_at = db_clock d\<rparr>"

text \<open>The flush of one row: a duplicate of the unique key becomes the conflict.\<close>

definition insert_event :: "string \<Rightarrow> string \<Rightarrow> db \<Rightarrow> event \<Rightarrow> db res" where
  "insert_event iid tid d ev =
     (if \<not> fits [(36, iid), (64, tid)] then Inl DbDataError
      else if list_ex (\<lambda>r. wr_sequence r = ev_sequence ev) (rows_of d iid) then Inl ConflictError
      else Inr (d\<lparr>db_events := db_events d @ [event_row_of d iid tid ev]\<rparr>))"

definition upsert_index ::
  "db \<Rightarrow> workflow_instance \<Rightarrow> instant option \<Rightarrow> db res" where
  "upsert_index d inst next_wakeup_at =
     (if \<not> fits [(36, wi_instance_id inst), (64, wi_tenant_id inst), (64, wi_workflow_id inst),
                 (32, wi_workflow_version inst)]
      then Inl DbDataError
      else case dget (db_index d) (wi_instance_id inst) of
        None \<Rightarrow>
          if dget (db_definitions d)
               (wi_tenant_id inst, wi_workflow_id inst, wi_workflow_version inst) = None
          then Inl DbIntegrityError
          else Inr (d\<lparr>db_index := dset (wi_instance_id inst)
            \<lparr>ix_instance_id = wi_instance_id inst, ix_tenant_id = wi_tenant_id inst,
             ix_workflow_id = wi_workflow_id inst,
             ix_workflow_version = wi_workflow_version inst,
             ix_status = wf_value (wi_status inst), ix_last_sequence = wi_version inst,
             ix_cost_accumulated_usd = wi_cost_accumulated_usd inst,
             ix_budget_limit_usd = wi_budget_limit_usd inst,
             ix_next_wakeup_at = next_wakeup_at, ix_created_at = db_clock d,
             ix_updated_at = db_clock d, ix_completed_at = wi_completed_at inst\<rparr>
            (db_index d)\<rparr>)
      | Some row \<Rightarrow>
          Inr (d\<lparr>db_index := dset (wi_instance_id inst)
            (row\<lparr>ix_status := wf_value (wi_status inst), ix_last_sequence := wi_version inst,
                 ix_cost_accumulated_usd := wi_cost_accumulated_usd inst,
                 ix_budget_limit_usd := wi_budget_limit_usd inst,
                 ix_next_wakeup_at := next_wakeup_at,
                 ix_completed_at := wi_completed_at inst, ix_updated_at := db_clock d\<rparr>)
            (db_index d)\<rparr>))"

definition write_snapshot :: "db \<Rightarrow> workflow_instance \<Rightarrow> instant \<Rightarrow> db" where
  "write_snapshot d inst created_at =
     d\<lparr>db_snapshots :=
       (case dget (db_snapshots d) (wi_instance_id inst) of
          None \<Rightarrow> dset (wi_instance_id inst)
            \<lparr>sr_instance_id = wi_instance_id inst, sr_tenant_id = wi_tenant_id inst,
             sr_version = wi_version inst, sr_state = inst, sr_created_at = created_at\<rparr>
            (db_snapshots d)
        | Some row \<Rightarrow> dset (wi_instance_id inst)
            (row\<lparr>sr_version := wi_version inst, sr_state := inst, sr_created_at := created_at\<rparr>)
            (db_snapshots d))\<rparr>"

definition project_escalation :: "db \<Rightarrow> event \<Rightarrow> db res" where
  "project_escalation d ev =
     (case ev_body ev of
        EscalationRaised eid sid reason recommendation confidence options deadline auto \<Rightarrow>
          if \<not> fits [(64, eid), (36, ev_instance_id ev), (64, ev_tenant_id ev), (128, sid),
                     (64, reason), (16, auto)]
          then Inl DbDataError
          else (case dget (db_escalations d) eid of
             Some _ \<Rightarrow> Inr d
           | None \<Rightarrow> Inr (d\<lparr>db_escalations := dset eid
               \<lparr>es_escalation_id = eid, es_instance_id = ev_instance_id ev,
                es_tenant_id = ev_tenant_id ev, es_step_id = sid, es_reason = reason,
                es_recommendation = recommendation, es_confidence = confidence,
                es_options = options, es_auto_action = auto, es_deadline = deadline,
                es_status = ''pending'', es_resolution = None, es_resolved_by = None,
                es_created_at = ev_occurred_at ev, es_resolved_at = None\<rparr>
               (db_escalations d)\<rparr>))
      | EscalationResolved eid sid resolution resolved_by modified \<Rightarrow>
          if dget (db_escalations d) eid \<noteq> None \<and> \<not> fits [(16, resolution), (128, resolved_by)]
          then Inl DbDataError
          else Inr (d\<lparr>db_escalations := dadjust eid
            (\<lambda>r. r\<lparr>es_status := ''resolved'', es_resolution := Some resolution,
                   es_resolved_by := Some resolved_by,
                   es_resolved_at := Some (ev_occurred_at ev)\<rparr>)
            (db_escalations d)\<rparr>)
      | EscalationTimedOut eid sid auto \<Rightarrow>
          if dget (db_escalations d) eid \<noteq> None \<and> \<not> fits [(16, auto)]
          then Inl DbDataError
          else Inr (d\<lparr>db_escalations := dadjust eid
            (\<lambda>r. r\<lparr>es_status := ''timed_out'', es_resolution := Some auto,
                   es_resolved_by := Some ''auto'',
                   es_resolved_at := Some (ev_occurred_at ev)\<rparr>)
            (db_escalations d)\<rparr>)
      | _ \<Rightarrow> Inr d)"

type_synonym guard = "db \<Rightarrow> unit res"

text \<open>The body of the transaction: the database it leaves, or the exception that rolls it back.\<close>

definition commit_body ::
  "db \<Rightarrow> db \<Rightarrow> string \<Rightarrow> string \<Rightarrow> event list \<Rightarrow> nat \<Rightarrow> guard option \<Rightarrow> instant option \<Rightarrow> db res" where
  "commit_body rd d iid tid events expected_version guard next_wakeup_at =
     rbind (case guard of None \<Rightarrow> Inr () | Some g \<Rightarrow> g rd) (\<lambda>_.
       if max_sequence rd iid \<noteq> expected_version then Inl ConflictError
       else rbind (rfoldl (insert_event iid tid) d events) (\<lambda>d.
         rbind (project d iid tid None True) (\<lambda>inst.
           rbind (upsert_index d (the inst) next_wakeup_at) (\<lambda>d.
             rbind (rfoldl project_escalation d events) (\<lambda>d.
               let snap = load_snapshot d iid;
                   base_version = (case snap of None \<Rightarrow> 0 | Some s \<Rightarrow> sr_version s)
               in if snap = None \<or> should_snapshot base_version (wi_version (the inst))
                  then (if events = [] then Inl PyIndexError
                        else Inr (write_snapshot d (the inst) (ev_occurred_at (last events))))
                  else Inr d)))))"

definition commit_tx ::
  "db \<Rightarrow> db \<Rightarrow> string \<Rightarrow> string \<Rightarrow> event list \<Rightarrow> nat \<Rightarrow> guard option \<Rightarrow> instant option \<Rightarrow>
   (nat \<times> event list) res \<times> db" where
  "commit_tx rd d iid tid events expected_version guard next_wakeup_at =
     (if list_ex (\<lambda>ev. ev_instance_id ev \<noteq> iid \<or> ev_tenant_id ev \<noteq> tid) events
      then (Inl EventStreamError, d)
      else case commit_body rd d iid tid events expected_version guard next_wakeup_at of
          Inl e \<Rightarrow> (Inl e, d)
        | Inr d' \<Rightarrow>
            (let d' = d'\<lparr>db_published := db_published d' @ [(iid, tid, events)]\<rparr>
             in if events = [] then (Inl PyIndexError, d')
                else (Inr (ev_sequence (last events), events), d')))"

definition commit ::
  "string \<Rightarrow> string \<Rightarrow> event list \<Rightarrow> nat \<Rightarrow> guard option \<Rightarrow> instant option \<Rightarrow>
   (db, exn_class, nat \<times> event list) eff" where
  "commit iid tid events expected_version guard next_wakeup_at d =
     commit_tx d d iid tid events expected_version guard next_wakeup_at"

definition append_events ::
  "string \<Rightarrow> string \<Rightarrow> event list \<Rightarrow> nat \<Rightarrow> guard option \<Rightarrow> instant option \<Rightarrow>
   (db, exn_class, nat) eff" where
  "append_events iid tid events expected_version guard next_wakeup_at =
     (if events = [] then ereturn expected_version
      else if map ev_sequence events \<noteq>
                [expected_version + 1..<expected_version + 1 + length events]
      then ethrow EventStreamError
      else ebind (commit iid tid events expected_version guard next_wakeup_at)
             (\<lambda>(v, _). ereturn v))"

definition sequenced :: "nat \<Rightarrow> event list \<Rightarrow> event list" where
  "sequenced expected_version drafts =
     map (\<lambda>(i, draft). draft\<lparr>ev_sequence := expected_version + i\<rparr>)
       (zip [1..<length drafts + 1] drafts)"

definition append_new ::
  "string \<Rightarrow> string \<Rightarrow> event list \<Rightarrow> nat \<Rightarrow> guard option \<Rightarrow> instant option \<Rightarrow>
   (db, exn_class, nat \<times> event list) eff" where
  "append_new iid tid drafts expected_version guard next_wakeup_at =
     commit iid tid (sequenced expected_version drafts) expected_version guard next_wakeup_at"

end
