(* ===== verification/EventStore_Props.thy ===== *)
theory EventStore_Props
  imports EventStore
begin

text \<open>
  What the event store guarantees: the invariant of its tables, the effect of a commit on the
  log, and reads as replays of the log.
\<close>

section \<open>Rows and the log\<close>

definition log_of :: "db \<Rightarrow> string \<Rightarrow> event list" where
  "log_of d iid = map wr_payload (rows_of d iid)"

lemma rows_of_append [simp]:
  "rows_of (d\<lparr>db_events := db_events d @ rs\<rparr>) iid =
     rows_of d iid @ filter (\<lambda>r. wr_instance_id r = iid) rs"
  by (simp add: rows_of_def)

lemma rows_of_other_tables [simp]:
  "rows_of (d\<lparr>db_index := a\<rparr>) iid = rows_of d iid"
  "rows_of (d\<lparr>db_snapshots := b\<rparr>) iid = rows_of d iid"
  "rows_of (d\<lparr>db_escalations := c\<rparr>) iid = rows_of d iid"
  "rows_of (d\<lparr>db_published := e\<rparr>) iid = rows_of d iid"
  "rows_of (d\<lparr>db_leases := f\<rparr>) iid = rows_of d iid"
  "rows_of (d\<lparr>db_outbox := g\<rparr>) iid = rows_of d iid"
  "rows_of (d\<lparr>db_ledger := h\<rparr>) iid = rows_of d iid"
  "rows_of (d\<lparr>db_dead_letters := k\<rparr>) iid = rows_of d iid"
  "rows_of (d\<lparr>db_definitions := l\<rparr>) iid = rows_of d iid"
  "rows_of (d\<lparr>db_clock := m\<rparr>) iid = rows_of d iid"
  by (simp_all add: rows_of_def)

lemma event_row_of_fields [simp]:
  "wr_instance_id (event_row_of d iid tid ev) = iid"
  "wr_tenant_id (event_row_of d iid tid ev) = tid"
  "wr_sequence (event_row_of d iid tid ev) = ev_sequence ev"
  "wr_payload (event_row_of d iid tid ev) = ev"
  by (simp_all add: event_row_of_def)

lemma event_row_of_clock: "db_clock d' = db_clock d \<Longrightarrow> event_row_of d' = event_row_of d"
  by (intro ext) (simp add: event_row_of_def)

lemma insert_event_Inr:
  "insert_event iid tid d ev = Inr d' \<longleftrightarrow>
     fits [(36, iid), (64, tid)] \<and> ev_sequence ev \<notin> wr_sequence ` set (rows_of d iid) \<and>
     d' = d\<lparr>db_events := db_events d @ [event_row_of d iid tid ev]\<rparr>"
  by (auto simp: insert_event_def list_ex_iff) force

lemma insert_events_Inr:
  assumes "rfoldl (insert_event iid tid) d events = Inr d'"
  shows "d' = d\<lparr>db_events := db_events d @ map (event_row_of d iid tid) events\<rparr> \<and>
         ev_sequence ` set events \<inter> wr_sequence ` set (rows_of d iid) = {}"
  using assms
proof (induction events arbitrary: d)
  case (Cons ev events)
  let ?d = "d\<lparr>db_events := db_events d @ [event_row_of d iid tid ev]\<rparr>"
  from Cons.prems have fresh: "ev_sequence ev \<notin> wr_sequence ` set (rows_of d iid)"
    and rest: "rfoldl (insert_event iid tid) ?d events = Inr d'"
    by (auto simp: rbind_eq_Inr insert_event_Inr)
  have "event_row_of ?d iid tid = event_row_of d iid tid" by (intro ext) (simp add: event_row_of_def)
  then show ?case using Cons.IH [OF rest] fresh by auto
qed simp

lemma project_escalation_Inr:
  "project_escalation d ev = Inr d' \<Longrightarrow> \<exists>es. d' = d\<lparr>db_escalations := es\<rparr>"
  by (cases "ev_body ev") (auto simp: project_escalation_def split: if_splits option.splits
      intro: exI [of _ "db_escalations d"])

lemma project_escalations_Inr:
  assumes "rfoldl project_escalation d events = Inr d'"
  shows "\<exists>es. d' = d\<lparr>db_escalations := es\<rparr>"
  using assms
proof (induction events arbitrary: d)
  case Nil
  then show ?case by (auto intro: exI [of _ "db_escalations d"])
next
  case (Cons ev events)
  then obtain d1 where d1: "project_escalation d ev = Inr d1"
    "rfoldl project_escalation d1 events = Inr d'" by (auto simp: rbind_eq_Inr)
  from project_escalation_Inr [OF d1(1)] Cons.IH [OF d1(2)] show ?case by auto
qed

section \<open>The invariant\<close>

definition index_ok :: "workflow_instance \<Rightarrow> index_row \<Rightarrow> bool" where
  "index_ok inst r \<longleftrightarrow>
     ix_instance_id r = wi_instance_id inst \<and> ix_tenant_id r = wi_tenant_id inst \<and>
     ix_workflow_id r = wi_workflow_id inst \<and> ix_workflow_version r = wi_workflow_version inst \<and>
     ix_status r = wf_value (wi_status inst) \<and> ix_last_sequence r = wi_version inst \<and>
     ix_cost_accumulated_usd r = wi_cost_accumulated_usd inst \<and>
     ix_budget_limit_usd r = wi_budget_limit_usd inst \<and>
     ix_completed_at r = wi_completed_at inst"

definition snapshot_ok :: "event list \<Rightarrow> workflow_instance \<Rightarrow> snapshot_row \<Rightarrow> bool" where
  "snapshot_ok evs inst s \<longleftrightarrow>
     1 \<le> sr_version s \<and> sr_version s \<le> length evs \<and>
     length evs < sr_version s + SNAPSHOT_EVERY \<and>
     sr_tenant_id s = wi_tenant_id inst \<and>
     fold_events (take (sr_version s) evs) None None = Inr (sr_state s)"

text \<open>
  For one instance: contiguous rows that agree with the events they store, and, once there are
  rows, a log that projects, whose tenant every row carries, with its snapshot and index row.
\<close>

definition instance_ok :: "db \<Rightarrow> string \<Rightarrow> bool" where
  "instance_ok d iid \<longleftrightarrow>
     map wr_sequence (rows_of d iid) = [1..<length (rows_of d iid) + 1] \<and>
     (\<forall>r \<in> set (rows_of d iid). ev_sequence (wr_payload r) = wr_sequence r \<and>
        ev_instance_id (wr_payload r) = iid \<and> ev_tenant_id (wr_payload r) = wr_tenant_id r) \<and>
     (if rows_of d iid = [] then dget (db_snapshots d) iid = None \<and> dget (db_index d) iid = None
      else \<exists>inst s ix. fold_events (log_of d iid) None None = Inr inst \<and>
             (\<forall>r \<in> set (rows_of d iid). wr_tenant_id r = wi_tenant_id inst) \<and>
             dget (db_snapshots d) iid = Some s \<and> snapshot_ok (log_of d iid) inst s \<and>
             dget (db_index d) iid = Some ix \<and> index_ok inst ix)"

definition store_ok :: "db \<Rightarrow> bool" where
  "store_ok d \<longleftrightarrow> (\<forall>iid. instance_ok d iid) \<and> distinct (dkeys (db_index d))"

lemma store_ok_empty: "store_ok (empty_db now)"
  by (simp add: store_ok_def instance_ok_def rows_of_def empty_db_def)

lemma instance_ok_cong:
  assumes "rows_of d' iid = rows_of d iid"
    "dget (db_snapshots d') iid = dget (db_snapshots d) iid"
    "dget (db_index d') iid = dget (db_index d) iid"
  shows "instance_ok d' iid = instance_ok d iid"
  by (simp add: instance_ok_def log_of_def assms)

text \<open>The store's invariant depends on three tables only.\<close>

lemma store_ok_cong:
  assumes "db_events d' = db_events d" "db_snapshots d' = db_snapshots d" "db_index d' = db_index d"
  shows "store_ok d' = store_ok d"
proof -
  have "instance_ok d' iid = instance_ok d iid" for iid
    using assms by (intro instance_ok_cong) (simp_all add: rows_of_def)
  then show ?thesis using assms(3) by (simp add: store_ok_def)
qed

section \<open>Projection is replay\<close>

lemma tail_of_rows:
  assumes "map wr_sequence rs = [1..<m + 1] @ zs" "\<forall>z \<in> set zs. m < z" "sorted zs"
  shows "sort_key wr_sequence (filter (\<lambda>r. m < wr_sequence r) rs) = drop m rs"
proof -
  have len: "m \<le> length rs" using arg_cong [OF assms(1), of length] by simp
  have seqs: "map wr_sequence (take m rs) = [1..<m + 1]" "map wr_sequence (drop m rs) = zs"
    using assms(1) by (simp_all add: take_map [symmetric] drop_map [symmetric])
  have "filter (\<lambda>r. m < wr_sequence r) (take m rs) = []"
    using arg_cong [OF seqs(1), of set] by (auto simp: filter_empty_conv)
  moreover have "filter (\<lambda>r. m < wr_sequence r) (drop m rs) = drop m rs"
    using assms(2) unfolding seqs(2) [symmetric] by (intro filter_True) simp
  ultimately have "filter (\<lambda>r. m < wr_sequence r) rs = drop m rs"
    by (metis append_Nil append_take_drop_id filter_append)
  moreover have "sort_key wr_sequence (drop m rs) = drop m rs"
    using assms(3) seqs(2) by (simp add: sort_key_id_if_sorted)
  ultimately show ?thesis by simp
qed


text \<open>
  With a snapshot of the first \<open>m\<close> events (or none and \<open>m = 0\<close>), projecting reads the
  same state as a replay of the whole log.
\<close>

definition projected ::
  "event list \<Rightarrow> string \<Rightarrow> bool \<Rightarrow> workflow_instance option res" where
  "projected evs tid required =
     (if evs = [] then (if required then Inl EventStreamError else Inr None)
      else rbind (fold_events evs None None)
             (\<lambda>inst. if wi_tenant_id inst \<noteq> tid
                     then (if required then Inl EventStreamError else Inr None)
                     else Inr (Some inst)))"

lemma projected_Some:
  "projected evs tid required = Inr (Some inst) \<longleftrightarrow>
     evs \<noteq> [] \<and> fold_events evs None None = Inr inst \<and> wi_tenant_id inst = tid"
  by (auto simp: projected_def rbind_eq_Inr split: if_splits)

lemma project_replay:
  assumes seqs: "map wr_sequence (rows_of d iid) = [1..<m + 1] @ zs" "\<forall>z \<in> set zs. m < z" "sorted zs"
    and snap: "case load_snapshot d iid of None \<Rightarrow> m = 0
       | Some s \<Rightarrow> sr_version s = m \<and> 1 \<le> m \<and>
           fold_events (take m (log_of d iid)) None None = Inr (sr_state s)"
  shows "project d iid tid None required = projected (log_of d iid) tid required"
proof (cases "load_snapshot d iid")
  case None
  then have "m = 0" using snap by simp
  then show ?thesis using None tail_of_rows [OF seqs]
    by (simp add: project_def projected_def log_of_def)
next
  case (Some s)
  then have s: "sr_version s = m" "1 \<le> m"
      "fold_events (take m (log_of d iid)) None None = Inr (sr_state s)"
    using snap by simp_all
  have "log_of d iid \<noteq> []" using s by auto
  moreover have "fold_events (log_of d iid) None None =
      fold_events (drop m (log_of d iid)) None (Some (sr_state s))"
    using fold_events_snoc [OF s(3), of "drop m (log_of d iid)"] by simp
  ultimately show ?thesis using Some s(1) tail_of_rows [OF seqs]
    by (simp add: project_def projected_def log_of_def drop_map)
qed

lemma instance_ok_snapshot:
  assumes "instance_ok d iid"
  obtains m where "m \<le> length (log_of d iid)"
    "case load_snapshot d iid of None \<Rightarrow> m = 0 \<and> log_of d iid = []
       | Some s \<Rightarrow> sr_version s = m \<and> 1 \<le> m \<and>
           fold_events (take m (log_of d iid)) None None = Inr (sr_state s)"
  using assms
  by (auto simp: instance_ok_def snapshot_ok_def load_snapshot_def log_of_def split: if_splits)

lemma instance_ok_project:
  assumes "instance_ok d iid"
  shows "project d iid tid None required = projected (log_of d iid) tid required"
proof -
  from assms obtain m where m: "m \<le> length (log_of d iid)"
    "case load_snapshot d iid of None \<Rightarrow> m = 0 \<and> log_of d iid = []
       | Some s \<Rightarrow> sr_version s = m \<and> 1 \<le> m \<and>
           fold_events (take m (log_of d iid)) None None = Inr (sr_state s)"
    by (rule instance_ok_snapshot)
  have seqs: "map wr_sequence (rows_of d iid) = [1..<m + 1] @ [m + 1..<length (log_of d iid) + 1]"
    using assms m(1) upt_add_eq_append [of 1 "m + 1" "length (log_of d iid) - m"]
    by (simp add: instance_ok_def log_of_def del: upt_Suc)
  have "case load_snapshot d iid of None \<Rightarrow> m = 0
       | Some s \<Rightarrow> sr_version s = m \<and> 1 \<le> m \<and>
           fold_events (take m (log_of d iid)) None None = Inr (sr_state s)"
    using m(2) by (simp split: option.splits)
  then show ?thesis by (intro project_replay [OF seqs]) (simp_all del: upt_Suc)
qed

text \<open>A commit finds the log exactly at the version it expected.\<close>

lemma commit_version:
  assumes ok: "instance_ok d iid" and ev: "events \<noteq> []"
    and seq: "map ev_sequence events = [v + 1..<v + 1 + length events]"
    and ins: "rfoldl (insert_event iid tid) d events = Inr d1"
    and proj: "project d1 iid tid None True = Inr (Some inst)"
  shows "v = length (log_of d iid)" "fold_events (log_of d iid @ events) None None = Inr inst"
    "wi_tenant_id inst = tid"
proof -
  from insert_events_Inr [OF ins] have d1: "d1 = d\<lparr>db_events := db_events d @ map (event_row_of d iid tid) events\<rparr>"
    and fresh: "ev_sequence ` set events \<inter> wr_sequence ` set (rows_of d iid) = {}" by simp_all
  have rows: "rows_of d1 iid = rows_of d iid @ map (event_row_of d iid tid) events"
    and log: "log_of d1 iid = log_of d iid @ events" and snap: "load_snapshot d1 iid = load_snapshot d iid"
    by (simp_all add: d1 log_of_def load_snapshot_def comp_def filter_map)
  let ?n = "length (log_of d iid)"
  have n: "map wr_sequence (rows_of d iid) = [1..<?n + 1]"
    using ok by (simp add: instance_ok_def log_of_def)
  have "v + 1 \<in> set (map ev_sequence events)" using ev unfolding seq set_upt by simp
  then have "v + 1 \<notin> set (map wr_sequence (rows_of d iid))" using fresh by auto
  then have le: "?n \<le> v" unfolding n set_upt by simp
  from ok obtain m where m: "m \<le> ?n"
    "case load_snapshot d iid of None \<Rightarrow> m = 0 \<and> log_of d iid = []
       | Some s \<Rightarrow> sr_version s = m \<and> 1 \<le> m \<and>
           fold_events (take m (log_of d iid)) None None = Inr (sr_state s)"
    by (rule instance_ok_snapshot)
  have seqs: "map wr_sequence (rows_of d1 iid) =
      [1..<m + 1] @ ([m + 1..<?n + 1] @ [v + 1..<v + 1 + length events])"
    using n seq m(1) upt_add_eq_append [of 1 "m + 1" "?n - m"]
    by (simp add: rows comp_def del: upt_Suc)
  have srt: "sorted ([m + 1..<?n + 1] @ [v + 1..<v + 1 + length events])"
    using le by (simp add: sorted_append del: upt_Suc)
  have gt: "\<forall>z \<in> set ([m + 1..<?n + 1] @ [v + 1..<v + 1 + length events]). m < z"
    using le m(1) by auto
  have "case load_snapshot d1 iid of None \<Rightarrow> m = 0
       | Some s \<Rightarrow> sr_version s = m \<and> 1 \<le> m \<and>
           fold_events (take m (log_of d1 iid)) None None = Inr (sr_state s)"
    using m by (simp add: snap log split: option.splits)
  then have "project d1 iid tid None True = projected (log_of d1 iid) tid True"
    by (rule project_replay [OF seqs gt srt])
  then have "projected (log_of d iid @ events) tid True = Inr (Some inst)"
    using proj log by metis
  then have p: "fold_events (log_of d iid @ events) None None = Inr inst" and t: "wi_tenant_id inst = tid"
    by (simp_all add: projected_Some)
  show "fold_events (log_of d iid @ events) None None = Inr inst" "wi_tenant_id inst = tid"
    by (fact p t)+
  have "map ev_sequence (log_of d iid @ events) = [1..<1 + ?n + length events]"
    using fold_events_version [OF p] by (simp add: base_version_def)
  then have "drop ?n (map ev_sequence (log_of d iid @ events)) = [1 + ?n..<1 + ?n + length events]"
    by (simp del: upt_Suc)
  then have "[v + 1..<v + 1 + length events] = [1 + ?n..<1 + ?n + length events]"
    using seq by (simp del: upt_Suc)
  then have "hd [v + 1..<v + 1 + length events] = hd [1 + ?n..<1 + ?n + length events]"
    by (simp only:)
  then show "v = ?n" using ev by (simp del: upt_Suc)
qed


section \<open>A commit keeps the invariant\<close>

lemma upsert_index_Inr:
  assumes "upsert_index d inst w = Inr d'"
    and "\<And>row. dget (db_index d) (wi_instance_id inst) = Some row \<Longrightarrow>
           ix_instance_id row = wi_instance_id inst \<and> ix_tenant_id row = wi_tenant_id inst \<and>
           ix_workflow_id row = wi_workflow_id inst \<and> ix_workflow_version row = wi_workflow_version inst"
  shows "\<exists>ix. d' = d\<lparr>db_index := dset (wi_instance_id inst) ix (db_index d)\<rparr> \<and>
              index_ok inst ix \<and> ix_next_wakeup_at ix = w"
proof (cases "dget (db_index d) (wi_instance_id inst)")
  case None
  with assms(1) show ?thesis
    unfolding upsert_index_def None option.case
    by (auto split: if_splits intro!: exI conjI simp: index_ok_def)
next
  case (Some row)
  with assms(1) assms(2) [OF Some] show ?thesis
    unfolding upsert_index_def Some option.case
    by (auto split: if_splits intro!: exI conjI simp: index_ok_def)
qed

lemma write_snapshot_eq:
  assumes "\<And>row. dget (db_snapshots d) (wi_instance_id inst) = Some row \<Longrightarrow>
             sr_tenant_id row = wi_tenant_id inst"
  shows "\<exists>s. write_snapshot d inst t =
           d\<lparr>db_snapshots := dset (wi_instance_id inst) s (db_snapshots d)\<rparr> \<and>
         sr_version s = wi_version inst \<and> sr_state s = inst \<and> sr_tenant_id s = wi_tenant_id inst"
proof (cases "dget (db_snapshots d) (wi_instance_id inst)")
  case None
  show ?thesis unfolding write_snapshot_def None option.case by (auto intro!: exI)
next
  case (Some row)
  show ?thesis unfolding write_snapshot_def Some option.case
    using assms [OF Some] by (auto intro!: exI)
qed

lemma project_required: "project d iid tid defn True = Inr x \<Longrightarrow> \<exists>inst. x = Some inst"
  by (auto simp: project_def Let_def rbind_eq_Inr split: if_splits)

lemma commit_body_guard:
  assumes "commit_body rd d iid tid events v guard w = Inr d'" "guard \<noteq> None"
  shows "the guard rd = Inr ()"
  using assms by (auto simp: commit_body_def rbind_eq_Inr split: if_splits option.splits)

text \<open>What a successful transaction did, step by step.\<close>

lemma commit_body_Inr:
  assumes "commit_body rd d iid tid events v guard w = Inr d'"
  obtains d1 inst d2 d3 where
    "max_sequence rd iid = v" "guard \<noteq> None \<Longrightarrow> the guard rd = Inr ()"
    "rfoldl (insert_event iid tid) d events = Inr d1"
    "project d1 iid tid None True = Inr (Some inst)"
    "upsert_index d1 inst w = Inr d2"
    "rfoldl project_escalation d2 events = Inr d3"
    "d' = (if load_snapshot d3 iid = None \<or>
              should_snapshot (sr_version (the (load_snapshot d3 iid))) (wi_version inst)
           then write_snapshot d3 inst (ev_occurred_at (last events)) else d3)"
proof -
  from assms have g: "guard \<noteq> None \<Longrightarrow> the guard rd = Inr ()" and v: "max_sequence rd iid = v"
    by (auto simp: commit_body_def rbind_eq_Inr split: if_splits option.splits)
  with assms obtain d1 where d1: "rfoldl (insert_event iid tid) d events = Inr d1"
    and r: "rbind (project d1 iid tid None True) (\<lambda>inst.
           rbind (upsert_index d1 (the inst) w) (\<lambda>d.
             rbind (rfoldl project_escalation d events) (\<lambda>d.
               let snap = load_snapshot d iid;
                   base_version = (case snap of None \<Rightarrow> 0 | Some s \<Rightarrow> sr_version s)
               in if snap = None \<or> should_snapshot base_version (wi_version (the inst))
                  then (if events = [] then Inl PyIndexError
                        else Inr (write_snapshot d (the inst) (ev_occurred_at (last events))))
                  else Inr d))) = Inr d'"
    by (auto simp: commit_body_def rbind_eq_Inr split: if_splits option.splits)
  then obtain inst d2 d3 where p: "project d1 iid tid None True = Inr (Some inst)"
    and u: "upsert_index d1 inst w = Inr d2" and e: "rfoldl project_escalation d2 events = Inr d3"
    and s: "(let snap = load_snapshot d3 iid;
                   base_version = (case snap of None \<Rightarrow> 0 | Some s \<Rightarrow> sr_version s)
               in if snap = None \<or> should_snapshot base_version (wi_version inst)
                  then (if events = [] then Inl PyIndexError
                        else Inr (write_snapshot d3 inst (ev_occurred_at (last events))))
                  else Inr d3) = Inr d'"
  proof -
    from r obtain x where x: "project d1 iid tid None True = Inr x" by (auto simp: rbind_eq_Inr)
    then obtain inst where "x = Some inst" using project_required by blast
    with r x obtain d2 d3 where "upsert_index d1 inst w = Inr d2"
      "rfoldl project_escalation d2 events = Inr d3"
      "(let snap = load_snapshot d3 iid;
            base_version = (case snap of None \<Rightarrow> 0 | Some s \<Rightarrow> sr_version s)
        in if snap = None \<or> should_snapshot base_version (wi_version inst)
           then (if events = [] then Inl PyIndexError
                 else Inr (write_snapshot d3 inst (ev_occurred_at (last events))))
           else Inr d3) = Inr d'"
      by (auto simp only: rbind_eq_Inr option.sel sum.inject)
    with x \<open>x = Some inst\<close> that show thesis by blast
  qed
  from s have "d' = (if load_snapshot d3 iid = None \<or>
              should_snapshot (sr_version (the (load_snapshot d3 iid))) (wi_version inst)
           then write_snapshot d3 inst (ev_occurred_at (last events)) else d3)"
    by (cases "load_snapshot d3 iid") (auto simp: Let_def split: if_splits)
  with that g v d1 p u e show thesis by blast
qed


lemma should_snapshot_iff: "should_snapshot a b \<longleftrightarrow> a + SNAPSHOT_EVERY \<le> b"
  by (auto simp: should_snapshot_def)

lemma fold_events_instance_id:
  assumes "fold_events evs defn None = Inr i" "\<forall>e \<in> set evs. ev_instance_id e = iid"
  shows "wi_instance_id i = iid"
proof -
  have "evs \<noteq> []" using assms(1) by auto
  then show ?thesis using fold_events_start_fields(4) [OF assms(1)] assms(2) hd_in_set by metis
qed

lemma instance_ok_log_ids:
  "instance_ok d iid \<Longrightarrow> \<forall>e \<in> set (log_of d iid). ev_instance_id e = iid"
  by (auto simp: instance_ok_def log_of_def)

lemma instance_ok_index:
  assumes "instance_ok d iid" "dget (db_index d) iid = Some row"
  obtains inst where "fold_events (log_of d iid) None None = Inr inst" "index_ok inst row"
  using assms by (auto simp: instance_ok_def split: if_splits)

text \<open>The instance a commit writes to, after the commit.\<close>

lemma commit_body_ok:
  assumes ok: "instance_ok d iid" and ev: "events \<noteq> []"
    and ids: "\<forall>e \<in> set events. ev_instance_id e = iid \<and> ev_tenant_id e = tid"
    and seq: "map ev_sequence events = [v + 1..<v + 1 + length events]"
    and c: "commit_body rd d iid tid events v guard w = Inr d'"
  shows "instance_ok d' iid \<and> v = length (log_of d iid) \<and> log_of d' iid = log_of d iid @ events"
proof -
  from c obtain d1 inst d2 d3 where ins: "rfoldl (insert_event iid tid) d events = Inr d1"
    and p: "project d1 iid tid None True = Inr (Some inst)" and u: "upsert_index d1 inst w = Inr d2"
    and e: "rfoldl project_escalation d2 events = Inr d3"
    and d': "d' = (if load_snapshot d3 iid = None \<or>
              should_snapshot (sr_version (the (load_snapshot d3 iid))) (wi_version inst)
           then write_snapshot d3 inst (ev_occurred_at (last events)) else d3)"
    by (rule commit_body_Inr)
  note cv = commit_version [OF ok ev seq ins p]
  let ?log = "log_of d iid @ events"
  have iid: "wi_instance_id inst = iid"
    using fold_events_instance_id [OF cv(2)] instance_ok_log_ids [OF ok] ids by auto
  have old: "\<exists>i0. fold_events (log_of d iid) None None = Inr i0 \<and> wi_tenant_id inst = wi_tenant_id i0 \<and>
      wi_workflow_id inst = wi_workflow_id i0 \<and> wi_workflow_version inst = wi_workflow_version i0"
    if "log_of d iid \<noteq> []"
  proof -
    from cv(2) that obtain i0 where "fold_events (log_of d iid) None None = Inr i0"
      "fold_events events None (Some i0) = Inr inst"
      by (auto simp: fold_events_append rbind_eq_Inr)
    then show ?thesis using fold_events_ids by metis
  qed
  from insert_events_Inr [OF ins]
  have d1: "d1 = d\<lparr>db_events := db_events d @ map (event_row_of d iid tid) events\<rparr>" by simp
  have "ix_instance_id row = wi_instance_id inst \<and> ix_tenant_id row = wi_tenant_id inst \<and>
      ix_workflow_id row = wi_workflow_id inst \<and> ix_workflow_version row = wi_workflow_version inst"
    if "dget (db_index d1) (wi_instance_id inst) = Some row" for row
  proof -
    have "dget (db_index d) iid = Some row" using that by (simp add: d1 iid)
    with ok obtain i0 where i0: "fold_events (log_of d iid) None None = Inr i0" "index_ok i0 row"
      by (rule instance_ok_index)
    then have "log_of d iid \<noteq> []" by auto
    with old i0 fold_events_instance_id [OF i0(1) instance_ok_log_ids [OF ok]] show ?thesis
      by (auto simp: index_ok_def iid)
  qed
  from upsert_index_Inr [OF u this] obtain ix where
    d2: "d2 = d1\<lparr>db_index := dset iid ix (db_index d1)\<rparr>" and ix: "index_ok inst ix"
    by (auto simp: iid)
  from project_escalations_Inr [OF e] obtain es where d3: "d3 = d2\<lparr>db_escalations := es\<rparr>" ..
  have snap3: "load_snapshot d3 iid = load_snapshot d iid" by (simp add: load_snapshot_def d3 d2 d1)
  have rows3: "rows_of d3 iid = rows_of d iid @ map (event_row_of d iid tid) events"
    by (simp add: d3 d2 d1 filter_map comp_def)
  have log3: "log_of d3 iid = ?log" by (simp add: log_of_def rows3 comp_def)
  have len: "wi_version inst = length ?log"
    using fold_events_version [OF cv(2)] by (simp add: base_version_def)
  have "\<exists>s. dget (db_snapshots d') iid = Some s \<and> snapshot_ok ?log inst s \<and>
      rows_of d' iid = rows_of d3 iid \<and> db_index d' = db_index d3"
  proof (cases "load_snapshot d3 iid = None \<or>
      should_snapshot (sr_version (the (load_snapshot d3 iid))) (wi_version inst)")
    case True
    have "sr_tenant_id row = wi_tenant_id inst"
      if "dget (db_snapshots d3) (wi_instance_id inst) = Some row" for row
      using that ok old snap3
      by (auto simp: iid load_snapshot_def instance_ok_def snapshot_ok_def log_of_def split: if_splits)
    from write_snapshot_eq [OF this, where t = "ev_occurred_at (last events)"] obtain s where
      "write_snapshot d3 inst (ev_occurred_at (last events)) =
         d3\<lparr>db_snapshots := dset iid s (db_snapshots d3)\<rparr>"
      "sr_version s = wi_version inst" "sr_state s = inst" "sr_tenant_id s = wi_tenant_id inst"
      by (auto simp: iid)
    then show ?thesis using True cv(2) ev len
      by (auto simp: d' snapshot_ok_def SNAPSHOT_EVERY_def Suc_le_eq)
  next
    case False
    then obtain s where s: "load_snapshot d3 iid = Some s"
      "\<not> should_snapshot (sr_version s) (wi_version inst)" by auto
    then have "dget (db_snapshots d) iid = Some s" using snap3 by (simp add: load_snapshot_def)
    then obtain i0 where "snapshot_ok (log_of d iid) i0 s" "fold_events (log_of d iid) None None = Inr i0"
      using ok by (auto simp: instance_ok_def split: if_splits)
    moreover from this have "wi_tenant_id inst = wi_tenant_id i0" using old by fastforce
    ultimately show ?thesis using s False len
      by (auto simp: d' snapshot_ok_def should_snapshot_iff load_snapshot_def)
  qed
  then obtain s where s: "dget (db_snapshots d') iid = Some s" "snapshot_ok ?log inst s"
    "rows_of d' iid = rows_of d3 iid" "db_index d' = db_index d3" by blast
  have log': "log_of d' iid = ?log" using s(3) log3 by (simp add: log_of_def)
  have "wr_tenant_id r = wi_tenant_id inst" if "r \<in> set (rows_of d iid)" for r
    using that ok old by (auto simp: instance_ok_def log_of_def split: if_splits)
  moreover have "map wr_sequence (rows_of d' iid) = [1..<length (rows_of d' iid) + 1]"
    using ok cv(1) seq upt_add_eq_append [of 1 "length (rows_of d iid) + 1" "length events"]
    by (simp add: s(3) rows3 comp_def instance_ok_def log_of_def del: upt_Suc)
  moreover have "\<forall>r \<in> set (rows_of d' iid). ev_sequence (wr_payload r) = wr_sequence r \<and>
        ev_instance_id (wr_payload r) = iid \<and> ev_tenant_id (wr_payload r) = wr_tenant_id r"
    using ok ids by (auto simp: s(3) rows3 instance_ok_def)
  moreover have "rows_of d' iid \<noteq> []" using ev by (simp add: s(3) rows3)
  moreover have "\<forall>r \<in> set (rows_of d' iid). wr_tenant_id r = wi_tenant_id inst"
    using calculation(1) cv(3) by (auto simp: s(3) rows3)
  moreover have "dget (db_index d') iid = Some ix" by (simp add: s(4) d3 d2)
  ultimately have "instance_ok d' iid"
    using cv(2) s(1,2) ix unfolding instance_ok_def log' by simp
  then show ?thesis using cv(1) log' by simp
qed


text \<open>The tables a commit never writes, and the one row of the index it does.\<close>

lemma commit_body_frame:
  assumes "commit_body rd d iid tid events v guard w = Inr d'"
  shows "(\<exists>k ix. db_index d' = dset k ix (db_index d)) \<and> db_leases d' = db_leases d \<and>
    db_definitions d' = db_definitions d \<and> db_dead_letters d' = db_dead_letters d \<and>
    db_next_dead_letter d' = db_next_dead_letter d \<and> db_outbox d' = db_outbox d \<and>
    db_ledger d' = db_ledger d \<and> db_api_keys d' = db_api_keys d \<and>
    db_clock d' = db_clock d \<and> db_published d' = db_published d"
proof -
  from assms obtain d1 inst d2 d3 where ins: "rfoldl (insert_event iid tid) d events = Inr d1"
    and u: "upsert_index d1 inst w = Inr d2" and e: "rfoldl project_escalation d2 events = Inr d3"
    and d': "d' = (if load_snapshot d3 iid = None \<or>
              should_snapshot (sr_version (the (load_snapshot d3 iid))) (wi_version inst)
           then write_snapshot d3 inst (ev_occurred_at (last events)) else d3)"
    by (rule commit_body_Inr)
  from u obtain k ix where d2: "d2 = d1\<lparr>db_index := dset k ix (db_index d1)\<rparr>"
    by (auto simp: upsert_index_def split: if_splits option.splits)
  then have "db_index d' = dset k ix (db_index d)"
    using insert_events_Inr [OF ins] project_escalations_Inr [OF e] by (auto simp: d' write_snapshot_def)
  then show ?thesis
    using insert_events_Inr [OF ins] project_escalations_Inr [OF e] d2
    by (intro conjI exI) (auto simp: d' write_snapshot_def)
qed

text \<open>The other instances are untouched.\<close>

lemma commit_body_other:
  assumes ev: "events \<noteq> []" and ok: "instance_ok d iid"
    and ids: "\<forall>e \<in> set events. ev_instance_id e = iid \<and> ev_tenant_id e = tid"
    and seq: "map ev_sequence events = [v + 1..<v + 1 + length events]"
    and c: "commit_body rd d iid tid events v guard w = Inr d'" and "j \<noteq> iid"
  shows "rows_of d' j = rows_of d j \<and> dget (db_snapshots d') j = dget (db_snapshots d) j \<and>
         dget (db_index d') j = dget (db_index d) j"
proof -
  from c obtain d1 inst d2 d3 where ins: "rfoldl (insert_event iid tid) d events = Inr d1"
    and p: "project d1 iid tid None True = Inr (Some inst)" and u: "upsert_index d1 inst w = Inr d2"
    and e: "rfoldl project_escalation d2 events = Inr d3"
    and d': "d' = (if load_snapshot d3 iid = None \<or>
              should_snapshot (sr_version (the (load_snapshot d3 iid))) (wi_version inst)
           then write_snapshot d3 inst (ev_occurred_at (last events)) else d3)"
    by (rule commit_body_Inr)
  note cv = commit_version [OF ok ev seq ins p]
  have iid: "wi_instance_id inst = iid"
    using fold_events_instance_id [OF cv(2)] instance_ok_log_ids [OF ok] ids by auto
  from insert_events_Inr [OF ins] have "rows_of d1 j = rows_of d j" "db_snapshots d1 = db_snapshots d"
    "db_index d1 = db_index d" using \<open>j \<noteq> iid\<close> by (auto simp: filter_map comp_def)
  moreover have "rows_of d2 j = rows_of d1 j" "db_snapshots d2 = db_snapshots d1"
    "dget (db_index d2) j = dget (db_index d1) j"
    using u \<open>j \<noteq> iid\<close> by (auto simp: upsert_index_def iid split: if_splits option.splits)
  moreover from project_escalations_Inr [OF e] have "rows_of d3 j = rows_of d2 j"
    "db_snapshots d3 = db_snapshots d2" "db_index d3 = db_index d2" by auto
  moreover have "rows_of d' j = rows_of d3 j" "dget (db_snapshots d') j = dget (db_snapshots d3) j"
    "db_index d' = db_index d3"
    using \<open>j \<noteq> iid\<close> by (auto simp: d' write_snapshot_def iid split: option.splits)
  ultimately show ?thesis by simp
qed

lemma commit_body_store_ok:
  assumes "store_ok d" "events \<noteq> []"
    "\<forall>e \<in> set events. ev_instance_id e = iid \<and> ev_tenant_id e = tid"
    "map ev_sequence events = [v + 1..<v + 1 + length events]"
    "commit_body rd d iid tid events v guard w = Inr d'"
  shows "store_ok d' \<and> v = length (log_of d iid) \<and>
         (\<forall>j. log_of d' j = (if j = iid then log_of d iid @ events else log_of d j))"
proof -
  have ok: "instance_ok d iid" using assms(1) by (simp add: store_ok_def)
  note own = commit_body_ok [OF ok assms(2-5)]
  note other = commit_body_other [OF assms(2) ok assms(3-5)]
  have "instance_ok d' j" for j
    using own other [of j] assms(1) instance_ok_cong [of d' j d] by (cases "j = iid") (auto simp: store_ok_def)
  moreover have "distinct (dkeys (db_index d'))"
    using commit_body_frame [OF assms(5)] assms(1) distinct_dset by (auto simp: store_ok_def)
  ultimately show ?thesis using own other by (auto simp: store_ok_def log_of_def)
qed

lemma length_sequenced [simp]: "length (sequenced v drafts) = length drafts"
  by (simp add: sequenced_def del: upt_Suc)

lemma sequenced_seq: "map ev_sequence (sequenced v drafts) = [v + 1..<v + 1 + length drafts]"
  by (rule nth_equalityI) (auto simp: sequenced_def simp del: upt_Suc)

lemma sequenced_Nil [simp]: "sequenced v [] = []"
  by (simp add: sequenced_def)

lemma sequenced_append:
  "sequenced v (xs @ ys) = sequenced v xs @ sequenced (v + length xs) ys"
  by (rule nth_equalityI) (auto simp: sequenced_def nth_append simp del: upt_Suc)

lemma sequenced_Cons: "sequenced v (x # xs) = x\<lparr>ev_sequence := v + 1\<rparr> # sequenced (v + 1) xs"
  using sequenced_append [of v "[x]" xs] by (simp add: sequenced_def)

lemma sequenced_ids:
  "e \<in> set (sequenced v drafts) \<Longrightarrow>
     \<exists>x \<in> set drafts. e = x\<lparr>ev_sequence := ev_sequence e\<rparr> \<and> ev_body e = ev_body x \<and>
       ev_instance_id e = ev_instance_id x \<and> ev_tenant_id e = ev_tenant_id x"
  by (force simp: sequenced_def dest: set_zip_rightD)

lemma sequenced_eq_Nil [simp]: "sequenced v drafts = [] \<longleftrightarrow> drafts = []"
  using length_sequenced by (metis length_0_conv)


section \<open>Appending\<close>

text \<open>
  The transaction with stale first reads: whatever state \<open>rd\<close> the guard and the version check
  saw, a success extends the log of the written state by exactly the events, and a failure
  leaves it alone.
\<close>

lemma commit_tx_body:
  assumes "commit_tx rd d iid tid events v guard w = (Inr (n, evs), d')"
  shows "\<forall>e \<in> set events. ev_instance_id e = iid \<and> ev_tenant_id e = tid" "events \<noteq> []"
    "evs = events" "n = ev_sequence (last events)"
    "\<exists>d1. commit_body rd d iid tid events v guard w = Inr d1 \<and>
       d' = d1\<lparr>db_published := db_published d1 @ [(iid, tid, events)]\<rparr>"
proof -
  have ne: "\<not> list_ex (\<lambda>ev. ev_instance_id ev \<noteq> iid \<or> ev_tenant_id ev \<noteq> tid) events"
    using assms by (auto simp: commit_tx_def)
  then show "\<forall>e \<in> set events. ev_instance_id e = iid \<and> ev_tenant_id e = tid"
    by (auto simp: list_ex_iff)
  obtain d1 where c: "commit_body rd d iid tid events v guard w = Inr d1"
    using assms ne by (cases "commit_body rd d iid tid events v guard w") (simp_all add: commit_tx_def)
  have r: "(let d' = d1\<lparr>db_published := db_published d1 @ [(iid, tid, events)]\<rparr>
             in if events = [] then (Inl PyIndexError, d')
                else (Inr (ev_sequence (last events), events), d')) = (Inr (n, evs), d')"
    using assms unfolding commit_tx_def c sum.case by (simp only: ne if_False)
  then show "events \<noteq> []" by (auto simp: Let_def)
  with r show "evs = events" "n = ev_sequence (last events)"
    "\<exists>d1. commit_body rd d iid tid events v guard w = Inr d1 \<and>
       d' = d1\<lparr>db_published := db_published d1 @ [(iid, tid, events)]\<rparr>"
    using c by (auto simp: Let_def)
qed

lemma commit_tx_Inr:
  assumes "store_ok d" "map ev_sequence events = [v + 1..<v + 1 + length events]"
    and "commit_tx rd d iid tid events v guard w = (Inr (n, evs), d')"
  shows "store_ok d' \<and> evs = events \<and> n = v + length events \<and> v = length (log_of d iid) \<and>
         (\<forall>j. log_of d' j = (if j = iid then log_of d iid @ events else log_of d j)) \<and>
         (guard \<noteq> None \<longrightarrow> the guard rd = Inr ())"
proof -
  note b = commit_tx_body [OF assms(3)]
  from b(5) obtain d1 where c: "commit_body rd d iid tid events v guard w = Inr d1"
    and d': "d' = d1\<lparr>db_published := db_published d1 @ [(iid, tid, events)]\<rparr>" by blast
  have "last (map ev_sequence events) = v + length events"
    unfolding assms(2) using b(2) by (subst last_upt) simp_all
  then have n: "n = v + length events" using b(2,4) by (simp add: last_map)
  have ok: "store_ok d' = store_ok d1" by (rule store_ok_cong) (simp_all add: d')
  have log: "log_of d' j = log_of d1 j" for j by (simp add: d' log_of_def)
  note s = commit_body_store_ok [OF assms(1) b(2,1) assms(2) c]
  have "guard \<noteq> None \<longrightarrow> the guard rd = Inr ()" using commit_body_guard [OF c] by blast
  then show ?thesis unfolding ok log using s n b(3) by metis
qed

lemma commit_tx_Inl:
  assumes "commit_tx rd d iid tid events v guard w = (Inl e, d')" "events \<noteq> []"
  shows "d' = d"
  using assms by (auto simp: commit_tx_def Let_def split: if_splits sum.splits)

lemma append_new_Inr:
  assumes "store_ok d" "append_new iid tid drafts v guard w d = (Inr (n, evs), d')"
  shows "store_ok d' \<and> evs = sequenced v drafts \<and> n = v + length drafts \<and>
         v = length (log_of d iid) \<and>
         (\<forall>j. log_of d' j = (if j = iid then log_of d iid @ evs else log_of d j))"
  using commit_tx_Inr [OF assms(1) sequenced_seq [of v drafts, folded length_sequenced [of v drafts]],
      of d iid tid guard w n evs d'] assms(2)
  by (simp add: append_new_def commit_def)

lemma append_new_leases:
  assumes "append_new iid tid drafts v guard w d = (r, d')"
  shows "db_leases d' = db_leases d"
proof (cases "commit_body d d iid tid (sequenced v drafts) v guard w")
  case (Inl e)
  then show ?thesis using assms
    by (auto simp: append_new_def commit_def commit_tx_def split: if_splits)
next
  case (Inr d1)
  then show ?thesis using assms commit_body_frame [OF Inr]
    by (auto simp: append_new_def commit_def commit_tx_def Let_def split: if_splits)
qed

lemma append_new_Inl:
  assumes "append_new iid tid drafts v guard w d = (Inl e, d')" "drafts \<noteq> []"
  shows "d' = d"
  using assms by (auto simp: append_new_def commit_def intro: commit_tx_Inl)

section \<open>Reading\<close>

definition is_created :: "event \<Rightarrow> bool" where
  "is_created e = (case ev_body e of InstanceCreated _ _ _ _ _ _ \<Rightarrow> True | _ \<Rightarrow> False)"

text \<open>The definition given to a projection matters for the creation event only.\<close>

lemma handler_no_definition:
  "\<not> is_created ev \<Longrightarrow> handler defn i ev = handler None i ev"
  by (cases "ev_body ev") (simp_all add: handler_def is_created_def)

lemma fold_events_no_definition:
  assumes "\<forall>e \<in> set evs. \<not> is_created e"
  shows "fold_events evs defn (Some b) = fold_events evs None (Some b)"
  using assms
proof (induction evs arbitrary: b)
  case (Cons e es)
  have "handler defn b e = handler None b e"
    by (rule handler_no_definition) (use Cons.prems in simp)
  then show ?case using Cons by (cases "handler None b e") (auto simp: fold_events_Cons_Some)
qed simp

text \<open>Only the first event of a log creates the instance.\<close>

definition created_once :: "db \<Rightarrow> bool" where
  "created_once d \<longleftrightarrow> (\<forall>iid. \<forall>e \<in> set (tl (log_of d iid)). \<not> is_created e)"

lemma get_instance_replay:
  assumes "store_ok d" "created_once d"
  shows "get_instance d iid tid defn = projected (log_of d iid) tid False"
proof -
  have ok: "instance_ok d iid" using assms(1) by (simp add: store_ok_def)
  have none: "project d iid tid None False = projected (log_of d iid) tid False"
    by (rule instance_ok_project [OF ok])
  from ok obtain m where m: "m \<le> length (log_of d iid)"
    "case load_snapshot d iid of None \<Rightarrow> m = 0 \<and> log_of d iid = []
       | Some s \<Rightarrow> sr_version s = m \<and> 1 \<le> m \<and>
           fold_events (take m (log_of d iid)) None None = Inr (sr_state s)"
    by (rule instance_ok_snapshot)
  show ?thesis
  proof (cases "load_snapshot d iid")
    case None
    then have "rows_of d iid = []" using m(2) by (simp add: log_of_def)
    then show ?thesis using None by (simp add: get_instance_def project_def projected_def log_of_def)
  next
    case (Some s)
    then have s: "sr_version s = m" "1 \<le> m" using m(2) by simp_all
    have seqs: "map wr_sequence (rows_of d iid) = [1..<m + 1] @ [m + 1..<length (log_of d iid) + 1]"
      using ok m(1) upt_add_eq_append [of 1 "m + 1" "length (log_of d iid) - m"]
      by (simp add: instance_ok_def log_of_def del: upt_Suc)
    have tail: "map wr_payload (sort_key wr_sequence (filter (\<lambda>r. m < wr_sequence r) (rows_of d iid))) =
        drop m (log_of d iid)"
      using tail_of_rows [OF seqs] by (simp add: log_of_def drop_map del: upt_Suc)
    have "\<forall>e \<in> set (drop m (log_of d iid)). \<not> is_created e"
      using assms(2) s(2) unfolding created_once_def
      by (cases m) (auto simp: drop_Suc dest: in_set_dropD)
    then have "project d iid tid defn False = project d iid tid None False"
      using Some s tail fold_events_no_definition [of _ defn] by (simp add: project_def)
    then show ?thesis using none by (simp add: get_instance_def)
  qed
qed

lemma load_log:
  assumes "store_ok d" "after \<le> length (log_of d iid)"
  shows "load d iid tid after = (if \<forall>e \<in> set (log_of d iid). ev_tenant_id e = tid
           then drop after (log_of d iid) else [])"
proof -
  have ok: "instance_ok d iid" using assms(1) by (simp add: store_ok_def)
  then have seqs: "map wr_sequence (rows_of d iid) =
      [1..<after + 1] @ [after + 1..<length (log_of d iid) + 1]"
    using assms(2) upt_add_eq_append [of 1 "after + 1" "length (log_of d iid) - after"]
    by (simp add: instance_ok_def log_of_def del: upt_Suc)
  have tail: "map wr_payload (sort_key wr_sequence (filter (\<lambda>r. after < wr_sequence r) (rows_of d iid))) =
      drop after (log_of d iid)"
    using tail_of_rows [OF seqs] by (simp add: log_of_def drop_map del: upt_Suc)
  obtain t where t: "\<forall>r \<in> set (rows_of d iid). wr_tenant_id r = t \<and> ev_tenant_id (wr_payload r) = t"
    using ok unfolding instance_ok_def by (metis empty_iff empty_set)
  show ?thesis
  proof (cases "t = tid \<or> rows_of d iid = []")
    case True
    then have "filter (\<lambda>r. wr_tenant_id r = tid \<and> wr_sequence r > after) (rows_of d iid) =
        filter (\<lambda>r. after < wr_sequence r) (rows_of d iid)"
      using t by (auto intro: filter_cong)
    then show ?thesis using True t tail by (auto simp: load_def log_of_def)
  next
    case False
    then have "filter (\<lambda>r. wr_tenant_id r = tid \<and> wr_sequence r > after) (rows_of d iid) = []"
      using t by (auto simp: filter_empty_conv)
    moreover have "\<not> (\<forall>e \<in> set (log_of d iid). ev_tenant_id e = tid)"
      using False t by (cases "rows_of d iid") (auto simp: log_of_def)
    ultimately show ?thesis by (simp only: load_def if_False) simp
  qed
qed


lemma filter_le_take:
  assumes "map f xs = [1..<length xs + 1]"
  shows "filter (\<lambda>x. f x \<le> (n :: nat)) xs = take n xs"
proof -
  have f: "f (xs ! k) = k + 1" if "k < length xs" for k
    using arg_cong [OF assms, of "\<lambda>ys. ys ! k"] that by (simp del: upt_Suc)
  have "filter (\<lambda>x. f x \<le> n) (take n xs) = take n xs"
    by (rule filter_True) (auto simp: in_set_conv_nth f)
  moreover have "filter (\<lambda>x. f x \<le> n) (drop n xs) = []"
    by (auto simp: filter_empty_conv in_set_conv_nth f)
  ultimately show ?thesis by (metis append_Nil2 append_take_drop_id filter_append)
qed

section \<open>The journal interface\<close>

text \<open>Drafts that create the instance only as the very first event of its log.\<close>

definition drafts_ok :: "nat \<Rightarrow> event list \<Rightarrow> bool" where
  "drafts_ok v drafts \<longleftrightarrow>
     drafts \<noteq> [] \<and> list_all (\<lambda>e. \<not> is_created e) (if v = 0 then tl drafts else drafts)"

text \<open>
  What the driver, the escalation service and the operator services rely on
  (\<open>persistence/protocols.py\<close>, \<open>EventJournal\<close>): an append succeeds only at the version it
  expects and then extends that log by the drafts with their sequence numbers; a failed append
  changes nothing; reads are projections of the log.
\<close>

locale event_journal =
  fixes append :: "string \<Rightarrow> string \<Rightarrow> event list \<Rightarrow> nat \<Rightarrow> 'g option \<Rightarrow> instant option \<Rightarrow>
                   ('s, exn_class, nat \<times> event list) eff"
    and get :: "'s \<Rightarrow> string \<Rightarrow> string \<Rightarrow> workflow_definition option \<Rightarrow> workflow_instance option res"
    and log :: "'s \<Rightarrow> string \<Rightarrow> event list"
    and ok :: "'s \<Rightarrow> bool"
  assumes append_ok:
      "ok s \<Longrightarrow> drafts_ok v drafts \<Longrightarrow> append iid tid drafts v g w s = (Inr (n, evs), s') \<Longrightarrow>
       ok s' \<and> evs = sequenced v drafts \<and> n = v + length drafts \<and> v = length (log s iid) \<and>
       (\<forall>j. log s' j = (if j = iid then log s iid @ evs else log s j))"
    and append_error:
      "drafts \<noteq> [] \<Longrightarrow> append iid tid drafts v g w s = (Inl e, s') \<Longrightarrow> s' = s"
    and get_version:
      "ok s \<Longrightarrow> get s iid tid defn = Inr (Some i) \<Longrightarrow>
       wi_version i = length (log s iid) \<and> wi_tenant_id i = tid"
    and get_extends:
      "ok s \<Longrightarrow> drafts_ok v drafts \<Longrightarrow> get s iid tid defn = Inr (Some i) \<Longrightarrow>
       append iid tid drafts v g w s = (Inr (n, evs), s') \<Longrightarrow>
       \<exists>i'. fold_events evs defn (Some i) = Inr i' \<and> get s' iid tid defn = Inr (Some i')"
begin

text \<open>Of two writers that expect the same version, the second is refused.\<close>

lemma second_append_refused:
  assumes "ok s" "drafts_ok v drafts" "drafts_ok v drafts'"
    and "append iid tid drafts v g w s = (Inr r, s')"
  shows "\<exists>e. append iid tid' drafts' v g' w' s' = (Inl e, s')"
proof (cases "append iid tid' drafts' v g' w' s'")
  case (Pair r2 s2)
  obtain n evs where r: "r = (n, evs)" by (cases r)
  note a = append_ok [OF assms(1,2) assms(4) [unfolded r]]
  have evs: "evs \<noteq> []" using a assms(2) by (auto simp: drafts_ok_def)
  show ?thesis
  proof (cases r2)
    case (Inl e)
    then show ?thesis using Pair append_error [of drafts' iid tid' v g' w' s' e s2] assms(3)
      by (auto simp: drafts_ok_def)
  next
    case (Inr x)
    then obtain n2 evs2 where "append iid tid' drafts' v g' w' s' = (Inr (n2, evs2), s2)"
      using Pair by (cases x) auto
    from append_ok [OF _ assms(3) this] a have "v = length (log s iid) + length evs" by simp
    then show ?thesis using a evs by simp
  qed
qed

text \<open>Several appends, each folded onto the local projection, as one writer does them.\<close>

fun append_all ::
  "string \<Rightarrow> string \<Rightarrow> workflow_definition option \<Rightarrow> 'g option \<Rightarrow> (event list \<times> instant option) list \<Rightarrow>
   workflow_instance \<Rightarrow> ('s, exn_class, workflow_instance) eff" where
  "append_all iid tid defn g [] i = ereturn i"
| "append_all iid tid defn g ((drafts, w) # rest) i =
     ebind (append iid tid drafts (wi_version i) g w)
       (\<lambda>(n, evs). case fold_events evs defn (Some i) of
          Inl e \<Rightarrow> ethrow e | Inr i' \<Rightarrow> append_all iid tid defn g rest i')"

lemma append_all_synced:
  assumes "append_all iid tid defn g batches i s = (Inr i', s')" "ok s"
    and "get s iid tid defn = Inr (Some i)"
    and "list_all (\<lambda>(drafts, w). drafts \<noteq> [] \<and> list_all (\<lambda>e. \<not> is_created e) drafts) batches"
  shows "ok s' \<and> get s' iid tid defn = Inr (Some i') \<and>
         log s' iid = log s iid @ sequenced (wi_version i) (concat (map fst batches))"
  using assms
proof (induction batches arbitrary: i s)
  case Nil
  then show ?case by (simp add: sequenced_def)
next
  case (Cons b rest)
  obtain drafts w where b: "b = (drafts, w)" by (cases b)
  then have dr: "drafts_ok (wi_version i) drafts"
    using Cons.prems(4) by (cases drafts) (auto simp: drafts_ok_def)
  from Cons.prems(1) b obtain n evs s1 where
    a: "append iid tid drafts (wi_version i) g w s = (Inr (n, evs), s1)"
    by (auto simp: ebind_eq_Inr)
  from get_extends [OF Cons.prems(2) dr Cons.prems(3) a] obtain i1 where
    i1: "fold_events evs defn (Some i) = Inr i1" "get s1 iid tid defn = Inr (Some i1)" by blast
  note ao = append_ok [OF Cons.prems(2) dr a]
  have tl_run: "append_all iid tid defn g rest i1 s1 = (Inr i', s')"
    using Cons.prems(1) a i1(1) by (simp add: b)
  have v1: "wi_version i1 = wi_version i + length drafts"
    using get_version [OF _ i1(2)] ao by auto
  have "sequenced (wi_version i) (drafts @ xs) =
      sequenced (wi_version i) drafts @ sequenced (wi_version i + length drafts) xs" for xs
    by (rule sequenced_append)
  then show ?case
    using Cons.IH [OF tl_run _ i1(2)] ao v1 Cons.prems(4) b by auto
qed

end

lemma instance_ok_tenant:
  assumes "instance_ok d iid"
  shows "\<exists>t. \<forall>e \<in> set (log_of d iid). ev_tenant_id e = t"
proof (cases "rows_of d iid = []")
  case False
  then have "\<exists>t. \<forall>r \<in> set (rows_of d iid). wr_tenant_id r = t"
    using assms by (fastforce simp: instance_ok_def simp del: upt_Suc)
  then show ?thesis using assms unfolding instance_ok_def log_of_def by auto
qed (simp add: log_of_def)

lemma created_once_append:
  assumes "created_once d" "store_ok d" "drafts_ok v drafts"
    and "append_new iid tid drafts v g w d = (Inr (n, evs), d')"
  shows "created_once d'"
proof -
  note a = append_new_Inr [OF assms(2,4)]
  have body: "\<not> is_created e" if "e \<in> set (sequenced u xs)" "list_all (\<lambda>e. \<not> is_created e) xs" for e u xs
    using sequenced_ids [OF that(1)] that(2) by (auto simp: list_all_iff is_created_def)
  have tl: "tl (sequenced v drafts) = sequenced (v + 1) (tl drafts)"
    by (cases drafts) (simp_all add: sequenced_Cons)
  have "\<not> is_created e" if "e \<in> set (tl (log_of d' iid))" for e
  proof (cases "log_of d iid")
    case Nil
    then show ?thesis using that a assms(3) body tl by (auto simp: drafts_ok_def)
  next
    case (Cons x xs)
    then have "e \<in> set (tl (log_of d iid)) \<or> e \<in> set (sequenced v drafts)"
      using that a by auto
    moreover have "v \<noteq> 0" using a Cons by auto
    ultimately show ?thesis using assms(1,3) body by (auto simp: created_once_def drafts_ok_def)
  qed
  then show ?thesis using a assms(1) by (auto simp: created_once_def)
qed

interpretation pg: event_journal append_new get_instance log_of "\<lambda>d. store_ok d \<and> created_once d"
proof (unfold_locales, goal_cases)
  case (1 s v drafts iid tid g w n evs s')
  then show ?case
    using append_new_Inr [of s iid tid drafts v g w n evs s'] created_once_append by blast
next
  case (2 drafts iid tid v g w s e s')
  then show ?case using append_new_Inl by blast
next
  case (3 s iid tid defn i)
  then have "projected (log_of s iid) tid False = Inr (Some i)" by (simp add: get_instance_replay)
  then show ?case using fold_events_version [of "log_of s iid" None None i]
    by (simp add: projected_Some base_version_def)
next
  case (4 s v drafts iid tid defn i g w n evs s')
  then have ok: "store_ok s" "created_once s" by simp_all
  note a = append_new_Inr [OF ok(1) 4(4)]
  have p: "fold_events (log_of s iid) None None = Inr i" "wi_tenant_id i = tid" "log_of s iid \<noteq> []"
    using 4(3) by (simp_all add: get_instance_replay ok projected_Some)
  have ok': "created_once s'" by (rule created_once_append [OF ok(2,1) 4(2,4)])
  have ev: "\<forall>e \<in> set evs. \<not> is_created e"
  proof -
    have "tl (log_of s' iid) = tl (log_of s iid) @ evs" using a p(3) by simp
    then have "set evs \<subseteq> set (tl (log_of s' iid))" by simp
    then show ?thesis using ok' unfolding created_once_def by blast
  qed
  have "log_of s' iid \<noteq> []" "instance_ok s' iid" using a p(3) by (auto simp: store_ok_def)
  then obtain i' where i': "fold_events (log_of s' iid) None None = Inr i'"
    by (auto simp: instance_ok_def log_of_def split: if_splits)
  then have f: "fold_events evs None (Some i) = Inr i'"
    using fold_events_snoc [OF p(1), of evs] a by simp
  moreover have "wi_tenant_id i' = tid" using fold_events_ids [OF f] p(2) by simp
  ultimately show ?case
    using ok' a i' p(3) fold_events_no_definition [OF ev, of defn i]
    by (simp add: get_instance_replay projected_Some)
qed


section \<open>A concrete database\<close>

definition sample_db0 :: db where
  "sample_db0 = (empty_db 500)
     \<lparr>db_definitions := [((''t1'', ''wf'', ''1.0.0''),
        \<lparr>dr_tenant_id = ''t1'', dr_workflow_id = ''wf'', dr_version = ''1.0.0'',
         dr_name = ''Sample'', dr_description = [], dr_definition = sample_definition,
         dr_checksum = ''c'', dr_is_active = True, dr_created_at = 0, dr_updated_at = 0\<rparr>)]\<rparr>"

definition sample_db :: db where
  "sample_db = snd (append_new ''i1'' ''t1'' sample_stream 0 None None sample_db0)"

lemma sample_db0_ok: "store_ok sample_db0 \<and> created_once sample_db0"
  by (auto simp: sample_db0_def store_ok_def instance_ok_def created_once_def rows_of_def log_of_def empty_db_def)

lemma sample_append:
  "append_new ''i1'' ''t1'' sample_stream 0 None None sample_db0 = (Inr (6, sample_stream), sample_db)"
proof -
  have "fst (append_new ''i1'' ''t1'' sample_stream 0 None None sample_db0) = Inr (6, sample_stream)"
    by code_simp
  then show ?thesis by (simp add: sample_db_def prod_eq_iff)
qed

lemma sample_drafts: "drafts_ok 0 sample_stream"
  by code_simp

lemma sample_db_ok: "store_ok sample_db \<and> created_once sample_db"
  using pg.append_ok [OF sample_db0_ok sample_drafts sample_append] by blast

lemma sample_db_log: "log_of sample_db ''i1'' = sample_stream"
  by code_simp

section \<open>Properties\<close>

text \<open>
  C1: \<open>append_new\<close> refines appending to one log per instance. It succeeds only when the
  expected version is the length of the instance's log; the log then grows by the drafts with
  their sequence numbers assigned, every other log is unchanged and the tables stay
  consistent. When it raises, the database is exactly as before.
\<close>

theorem append_new_refines_log:
  assumes "store_ok d" "drafts \<noteq> []"
  shows "case append_new iid tid drafts v guard w d of
      (Inr (n, evs), d') \<Rightarrow> store_ok d' \<and> evs = sequenced v drafts \<and> n = v + length drafts \<and>
         v = length (log_of d iid) \<and>
         (\<forall>j. log_of d' j = (if j = iid then log_of d iid @ evs else log_of d j))
    | (Inl e, d') \<Rightarrow> d' = d"
proof (cases "append_new iid tid drafts v guard w d")
  case (Pair r d')
  then show ?thesis
    using append_new_Inr [OF assms(1), of iid tid drafts v guard w _ _ d']
      append_new_Inl [of iid tid drafts v guard w d _ d'] assms(2)
    by (auto split: sum.splits)
qed

theorem append_new_refines_log_witness:
  "store_ok sample_db0 \<and> sample_stream \<noteq> [] \<and>
   append_new ''i1'' ''t1'' sample_stream 0 None None sample_db0 = (Inr (6, sample_stream), sample_db) \<and>
   log_of sample_db ''i1'' = log_of sample_db0 ''i1'' @ sample_stream"
proof -
  have "sample_stream \<noteq> []" by (simp add: sample_stream_def)
  with sample_db0_ok
  have "case append_new ''i1'' ''t1'' sample_stream 0 None None sample_db0 of
      (Inr (n, evs), d') \<Rightarrow> store_ok d' \<and> evs = sequenced 0 sample_stream \<and> n = 0 + length sample_stream \<and>
         0 = length (log_of sample_db0 ''i1'') \<and>
         (\<forall>j. log_of d' j = (if j = ''i1'' then log_of sample_db0 ''i1'' @ evs else log_of sample_db0 j))
    | (Inl e, d') \<Rightarrow> d' = sample_db0"
    by (intro append_new_refines_log) simp_all
  then show ?thesis using sample_db0_ok sample_append \<open>sample_stream \<noteq> []\<close> by simp
qed

text \<open>
  C4: transactions that overlap. Two commits whose guard and version check both read the same
  earlier state never both succeed: once one has extended the log, the other raises and
  changes nothing, although its own version check passed.
\<close>

theorem racing_commits_one_wins:
  assumes "store_ok d" "events \<noteq> []" "events' \<noteq> []"
    and "map ev_sequence events = [v + 1..<v + 1 + length events]"
    and "map ev_sequence events' = [v + 1..<v + 1 + length events']"
    and "commit_tx rd d iid tid events v g w = (Inr r, d')"
  shows "store_ok d' \<and> (\<exists>e. commit_tx rd d' iid tid' events' v g' w' = (Inl e, d'))"
proof -
  obtain n evs where r: "r = (n, evs)" by (cases r)
  note c = commit_tx_Inr [OF assms(1,4) assms(6) [unfolded r]]
  obtain r2 d2 where p: "commit_tx rd d' iid tid' events' v g' w' = (r2, d2)" by (cases "commit_tx rd d' iid tid' events' v g' w'")
  have "\<exists>e. r2 = Inl e"
  proof (cases r2)
    case (Inr x)
    then obtain n2 evs2 where "commit_tx rd d' iid tid' events' v g' w' = (Inr (n2, evs2), d2)"
      using p by (cases x) auto
    from commit_tx_Inr [OF _ assms(5) this] c show ?thesis using assms(2) by auto
  qed simp
  then show ?thesis using c p commit_tx_Inl [of rd d' iid tid' events' v g' w' _ d2] assms(3) by auto
qed

text \<open>
  C2: reading an instance is replaying its log. Whatever snapshots were taken, and whatever
  definition is passed, \<open>get_instance\<close> returns the projection of the full log made without a
  definition, or nothing for an unknown instance or another tenant.
\<close>

theorem get_instance_is_replay:
  assumes "store_ok d" "created_once d"
  shows "get_instance d iid tid defn =
     (if log_of d iid = [] then Inr None
      else rbind (fold_events (log_of d iid) None None)
             (\<lambda>inst. Inr (if wi_tenant_id inst = tid then Some inst else None)))"
  using get_instance_replay [OF assms, of iid tid defn]
  by (auto simp: projected_def intro!: arg_cong [where f = "rbind _"])

theorem get_instance_is_replay_witness:
  "store_ok sample_db \<and> created_once sample_db \<and>
   get_instance sample_db ''i1'' ''t1'' (Some sample_definition) =
     rbind (fold_events sample_stream None None)
       (\<lambda>inst. Inr (if wi_tenant_id inst = ''t1'' then Some inst else None))"
proof -
  have "sample_stream \<noteq> []" by (simp add: sample_stream_def)
  then show ?thesis
    using get_instance_is_replay [of sample_db "''i1''" "''t1''" "Some sample_definition"]
      sample_db_ok by (simp add: sample_db_log)
qed

definition sample_created :: event where
  "sample_created = sample_event 1 (InstanceCreated ''wf'' ''1.0.0'' [] None ''api'' [])"

theorem racing_commits_one_wins_witness:
  "\<exists>r d' e. commit_tx sample_db0 sample_db0 ''i1'' ''t1'' sample_stream 0 None None = (Inr r, d') \<and>
     store_ok d' \<and> commit_tx sample_db0 d' ''i1'' ''t1'' sample_stream 0 None None = (Inl e, d')"
proof -
  have "fst (append_new ''i1'' ''t1'' sample_stream 0 None None sample_db0) = Inr (6, sample_stream)"
    by (simp add: sample_append)
  moreover have seq: "sequenced 0 sample_stream = sample_stream" by code_simp
  ultimately have c: "commit_tx sample_db0 sample_db0 ''i1'' ''t1'' sample_stream 0 None None =
      (Inr (6, sample_stream), sample_db)"
    using sample_append by (simp add: append_new_def commit_def)
  have ne: "sample_stream \<noteq> []" by (simp add: sample_stream_def)
  have sq: "map ev_sequence sample_stream = [0 + 1..<0 + 1 + length sample_stream]"
    using sequenced_seq [of 0 sample_stream] by (simp only: seq)
  show ?thesis
    using racing_commits_one_wins [OF conjunct1 [OF sample_db0_ok] ne ne sq sq c] c by blast
qed

text \<open>
  Time travel. \<open>state_at\<close> a version of the log is the projection of the first \<open>version\<close>
  events, with the steps of the definition it is given.
\<close>

lemma state_at_is_prefix_replay:
  assumes "store_ok d" "log_of d iid \<noteq> []" "ev_tenant_id (hd (log_of d iid)) = tid"
  shows "state_at d iid tid version defn =
     (if version = 0 then Inr None
      else rbind (fold_events (take version (log_of d iid)) defn None) (\<lambda>i. Inr (Some i)))"
proof -
  have ok: "instance_ok d iid" using assms(1) by (simp add: store_ok_def)
  then obtain t where t: "\<forall>e \<in> set (log_of d iid). ev_tenant_id e = t"
    using instance_ok_tenant by blast
  then have all: "\<forall>e \<in> set (log_of d iid). ev_tenant_id e = tid"
    using hd_in_set [OF assms(2)] assms(3) by auto
  have seqs: "map ev_sequence (log_of d iid) = [1..<length (log_of d iid) + 1]"
    using ok by (simp add: instance_ok_def log_of_def comp_def cong: map_cong)
  have "filter (\<lambda>e. ev_sequence e \<le> version) (log_of d iid) = take version (log_of d iid)"
    by (rule filter_le_take [OF seqs])
  then show ?thesis using all load_log [OF assms(1), of 0 iid tid] assms(2)
    by (simp add: state_at_def Let_def)
qed

lemma state_at_is_prefix_replay_witness:
  "log_of sample_db ''i1'' \<noteq> [] \<and> ev_tenant_id (hd (log_of sample_db ''i1'')) = ''t1'' \<and>
   state_at sample_db ''i1'' ''t1'' 2 (Some sample_definition) =
     rbind (fold_events (take 2 sample_stream) (Some sample_definition) None) (\<lambda>i. Inr (Some i))"
proof -
  have "log_of sample_db ''i1'' \<noteq> []" "ev_tenant_id (hd (log_of sample_db ''i1'')) = ''t1''"
    by (simp_all add: sample_db_log sample_stream_def sample_event_def)
  with state_at_is_prefix_replay [of sample_db "''i1''" "''t1''" 2 "Some sample_definition"] sample_db_ok
  show ?thesis by (simp add: sample_db_log)
qed

text \<open>
  Tenant isolation. For an instance of one tenant, another tenant's reads return nothing
  and another tenant's append raises and leaves the database unchanged.
\<close>

lemma tenant_isolation:
  assumes "store_ok d" "created_once d" "log_of d iid \<noteq> []"
    and "ev_tenant_id (hd (log_of d iid)) \<noteq> tid" "drafts \<noteq> []"
  shows "get_instance d iid tid defn = Inr None \<and> load d iid tid 0 = [] \<and>
         state_at d iid tid version defn = Inr None \<and> latest_snapshot d iid tid = None \<and>
         (\<exists>e. append_new iid tid drafts v g w d = (Inl e, d))"
proof -
  have ok: "instance_ok d iid" using assms(1) by (simp add: store_ok_def)
  then obtain inst s where i: "fold_events (log_of d iid) None None = Inr inst"
    "dget (db_snapshots d) iid = Some s" "sr_tenant_id s = wi_tenant_id inst"
    using assms(3) by (auto simp: instance_ok_def log_of_def snapshot_ok_def split: if_splits)
  have t: "wi_tenant_id inst \<noteq> tid" using fold_events_start_fields(4) [OF i(1)] assms(4) by simp
  have load: "load d iid tid 0 = []"
    using load_log [OF assms(1), of 0 iid tid] hd_in_set [OF assms(3)] assms(4) by auto
  have "\<exists>e. append_new iid tid drafts v g w d = (Inl e, d)"
  proof (cases "append_new iid tid drafts v g w d")
    case (Pair r d')
    show ?thesis
    proof (cases r)
      case (Inl e)
      then show ?thesis using Pair append_new_Inl assms(5) by blast
    next
      case (Inr x)
      then obtain n evs where a: "append_new iid tid drafts v g w d = (Inr (n, evs), d')"
        using Pair by (cases x) auto
      note r = append_new_Inr [OF assms(1) a]
      have "ev_tenant_id e = tid" if "e \<in> set evs" for e
        using that r commit_tx_body(1) [OF a [unfolded append_new_def commit_def]] by simp
      moreover have "evs \<noteq> []" using r assms(5) by auto
      moreover have "instance_ok d' iid" using r by (simp add: store_ok_def)
      then obtain t' where "\<forall>e \<in> set (log_of d' iid). ev_tenant_id e = t'"
        using instance_ok_tenant by blast
      moreover have "hd (log_of d iid) \<in> set (log_of d' iid)" "hd evs \<in> set (log_of d' iid)"
        using r assms(3) calculation(2) by simp_all
      ultimately have False using assms(4) by auto
      then show ?thesis ..
    qed
  qed
  then show ?thesis using assms(1,2,3) i t load
    by (simp add: get_instance_replay projected_def state_at_def latest_snapshot_def load_snapshot_def)
qed

lemma tenant_isolation_witness:
  "log_of sample_db ''i1'' \<noteq> [] \<and> ev_tenant_id (hd (log_of sample_db ''i1'')) \<noteq> ''t2'' \<and>
   get_instance sample_db ''i1'' ''t2'' None = Inr None \<and>
   (\<exists>e. append_new ''i1'' ''t2'' [sample_created] 6 None None sample_db = (Inl e, sample_db))"
proof -
  have "log_of sample_db ''i1'' \<noteq> []" "ev_tenant_id (hd (log_of sample_db ''i1'')) \<noteq> ''t2''"
    by (simp_all add: sample_db_log sample_stream_def sample_event_def)
  with tenant_isolation [of sample_db "''i1''" "''t2''" "[sample_created]" None 0 6 None None] sample_db_ok
  show ?thesis by simp
qed

text \<open>
  The read model agrees with the log. For every instance that can be read, the index row
  carries its tenant, workflow, status, version, cost, budget and completion time, and the
  snapshot lags the log by fewer than \<open>SNAPSHOT_EVERY\<close> events, which bounds every replay.
\<close>

lemma index_and_snapshot_current:
  assumes "store_ok d" "created_once d" "get_instance d iid tid defn = Inr (Some i)"
  shows "\<exists>ix s. dget (db_index d) iid = Some ix \<and> index_ok i ix \<and>
           load_snapshot d iid = Some s \<and> sr_version s \<le> wi_version i \<and>
           wi_version i < sr_version s + SNAPSHOT_EVERY"
proof -
  have p: "fold_events (log_of d iid) None None = Inr i" "log_of d iid \<noteq> []"
    using assms by (simp_all add: get_instance_replay projected_Some)
  have "instance_ok d iid" using assms(1) by (simp add: store_ok_def)
  then show ?thesis using p fold_events_version [OF p(1)]
    by (auto simp: instance_ok_def log_of_def snapshot_ok_def load_snapshot_def base_version_def
        split: if_splits)
qed

lemma index_and_snapshot_current_witness:
  "\<exists>i ix s. get_instance sample_db ''i1'' ''t1'' None = Inr (Some i) \<and>
     dget (db_index sample_db) ''i1'' = Some ix \<and> index_ok i ix \<and> load_snapshot sample_db ''i1'' = Some s \<and>
     wi_version i < sr_version s + SNAPSHOT_EVERY"
proof -
  have "case get_instance sample_db ''i1'' ''t1'' None of Inr (Some i) \<Rightarrow> True | _ \<Rightarrow> False"
    by code_simp
  then obtain i where "get_instance sample_db ''i1'' ''t1'' None = Inr (Some i)"
    by (auto split: sum.splits option.splits)
  with index_and_snapshot_current [of sample_db "''i1''" "''t1''" None] sample_db_ok
  show ?thesis by blast
qed

end
