(* ===== verification/Leasing.thy ===== *)
theory Leasing
  imports EventStore_Props
begin

text \<open>
  \<open>core/leasing.py\<close>: leases over the index table, their fence tokens, and the guard that every
  append of a driver carries. \<open>acquire_runnable_tx\<close> takes the state its claiming query read
  and the state its upserts meet; \<open>acquire_runnable\<close> is the transaction run alone.
\<close>

section \<open>Definitions\<close>

definition RUNNABLE_STATUSES :: "string list" where
  "RUNNABLE_STATUSES = [''pending'', ''running'', ''retrying'']"

record lease =
  la_instance_id :: string
  la_tenant_id :: string
  la_workflow_id :: string
  la_workflow_version :: string
  la_worker_id :: string
  la_fence_token :: nat
  la_expires_at :: instant
  la_last_sequence :: nat

text \<open>The condition of the claiming query on one index row.\<close>

definition claimable :: "db \<Rightarrow> instant \<Rightarrow> index_row \<Rightarrow> bool" where
  "claimable d now r \<longleftrightarrow>
     ix_status r \<in> set RUNNABLE_STATUSES \<and>
     (case ix_next_wakeup_at r of None \<Rightarrow> True | Some t \<Rightarrow> t \<le> now) \<and>
     (case dget (db_leases d) (ix_instance_id r) of None \<Rightarrow> True | Some le \<Rightarrow> le_expires_at le < now)"

text \<open>The rows of the query; \<open>locked\<close> are the index rows other transactions hold.\<close>

definition claim :: "db \<Rightarrow> string set \<Rightarrow> int \<Rightarrow> instant \<Rightarrow> index_row list" where
  "claim d locked limit now =
     take (nat limit)
       (sort_key ix_updated_at
          (filter (\<lambda>r. claimable d now r \<and> ix_instance_id r \<notin> locked) (map snd (db_index d))))"

definition upsert_lease :: "db \<Rightarrow> string \<Rightarrow> instant \<Rightarrow> instant \<Rightarrow> index_row \<Rightarrow> nat \<times> db" where
  "upsert_lease d worker_id now expires_at row =
     (let iid = ix_instance_id row;
          le = (case dget (db_leases d) iid of
             None \<Rightarrow> \<lparr>le_instance_id = iid, le_tenant_id = ix_tenant_id row,
                      le_worker_id = worker_id, le_acquired_at = now, le_heartbeat_at = now,
                      le_expires_at = expires_at, le_fence_token = 1\<rparr>
           | Some le \<Rightarrow> le\<lparr>le_worker_id := worker_id, le_acquired_at := now,
                           le_heartbeat_at := now, le_expires_at := expires_at,
                           le_fence_token := le_fence_token le + 1\<rparr>)
      in (le_fence_token le, d\<lparr>db_leases := dset iid le (db_leases d)\<rparr>))"

fun acquire_rows ::
  "string \<Rightarrow> instant \<Rightarrow> int \<Rightarrow> index_row list \<Rightarrow> db \<Rightarrow> lease list \<times> db" where
  "acquire_rows worker_id now ttl [] d = ([], d)"
| "acquire_rows worker_id now ttl (row # rows) d =
     (case upsert_lease d worker_id now (now + ttl) row of (fence, d1) \<Rightarrow>
        case acquire_rows worker_id now ttl rows d1 of (leases, d2) \<Rightarrow>
          (\<lparr>la_instance_id = ix_instance_id row, la_tenant_id = ix_tenant_id row,
            la_workflow_id = ix_workflow_id row, la_workflow_version = ix_workflow_version row,
            la_worker_id = worker_id, la_fence_token = fence, la_expires_at = now + ttl,
            la_last_sequence = ix_last_sequence row\<rparr> # leases, d2))"

definition acquire_runnable_tx ::
  "db \<Rightarrow> string set \<Rightarrow> int \<Rightarrow> string \<Rightarrow> int \<Rightarrow> instant \<Rightarrow> (db, exn_class, lease list) eff" where
  "acquire_runnable_tx rd locked lease_seconds worker_id limit now d =
     (if limit \<le> 0 then (Inr [], d)
      else let rows = claim rd locked limit now
           in if rows \<noteq> [] \<and> \<not> fits [(128, worker_id)] then (Inl DbDataError, d)
              else case acquire_rows worker_id now (lease_seconds * 1000000) rows d of
                     (leases, d') \<Rightarrow> (Inr leases, d'))"

definition acquire_runnable ::
  "int \<Rightarrow> string \<Rightarrow> int \<Rightarrow> instant \<Rightarrow> (db, exn_class, lease list) eff" where
  "acquire_runnable lease_seconds worker_id limit now d =
     acquire_runnable_tx d {} lease_seconds worker_id limit now d"

definition heartbeat :: "int \<Rightarrow> string \<Rightarrow> string list \<Rightarrow> instant \<Rightarrow> db \<Rightarrow> string list \<times> db" where
  "heartbeat lease_seconds worker_id instance_ids now d =
     (if instance_ids = [] then ([], d)
      else let owned = (\<lambda>r. le_worker_id r = worker_id \<and> le_instance_id r \<in> set instance_ids)
           in (map le_instance_id (filter owned (map snd (db_leases d))),
               d\<lparr>db_leases := dupdate_where owned
                  (\<lambda>r. r\<lparr>le_heartbeat_at := now, le_expires_at := now + lease_seconds * 1000000\<rparr>)
                  (db_leases d)\<rparr>))"

definition release :: "string \<Rightarrow> string \<Rightarrow> db \<Rightarrow> db" where
  "release worker_id instance_id d =
     d\<lparr>db_leases := dupdate_where
        (\<lambda>r. le_worker_id r = worker_id \<and> le_instance_id r = instance_id)
        (\<lambda>r. r\<lparr>le_expires_at := le_heartbeat_at r - 1000000\<rparr>)
        (db_leases d)\<rparr>"

definition reclaim_expired :: "db \<Rightarrow> instant \<Rightarrow> string list" where
  "reclaim_expired d now =
     map le_instance_id (filter (\<lambda>r. le_expires_at r < now) (map snd (db_leases d)))"

definition make_guard :: "lease \<Rightarrow> guard" where
  "make_guard l d =
     (case dget (db_leases d) (la_instance_id l) of
        None \<Rightarrow> Inl LeaseLostError
      | Some row \<Rightarrow>
          if le_worker_id row \<noteq> la_worker_id l \<or> le_fence_token row \<noteq> la_fence_token l
          then Inl LeaseLostError else Inr ())"

section \<open>Fence tokens\<close>

text \<open>The fence of an instance: 0 before the first lease.\<close>

definition fence_of :: "db \<Rightarrow> string \<Rightarrow> nat" where
  "fence_of d iid = (case dget (db_leases d) iid of None \<Rightarrow> 0 | Some r \<Rightarrow> le_fence_token r)"

lemma make_guard_Inr:
  "make_guard l d = Inr () \<longleftrightarrow>
     (\<exists>row. dget (db_leases d) (la_instance_id l) = Some row \<and>
            le_worker_id row = la_worker_id l \<and> le_fence_token row = la_fence_token l)"
  by (auto simp: make_guard_def split: option.splits)

lemma make_guard_Inl: "make_guard l d \<noteq> Inr () \<Longrightarrow> make_guard l d = Inl LeaseLostError"
  by (auto simp: make_guard_def split: option.splits)

lemma make_guard_fence: "make_guard l d = Inr () \<Longrightarrow> la_fence_token l = fence_of d (la_instance_id l)"
  by (auto simp: make_guard_Inr fence_of_def)

lemma upsert_lease_props:
  assumes "upsert_lease d w now ex row = (f, d')"
  shows "f = fence_of d (ix_instance_id row) + 1"
    and "fence_of d' j = (if j = ix_instance_id row then f else fence_of d j)"
    and "\<exists>le. dget (db_leases d') (ix_instance_id row) = Some le \<and> le_worker_id le = w \<and>
           le_expires_at le = ex \<and> le_fence_token le = f"
    and "j \<noteq> ix_instance_id row \<Longrightarrow> dget (db_leases d') j = dget (db_leases d) j"
    and "\<exists>le. d' = d\<lparr>db_leases := le\<rparr>"
  using assms by (auto simp: upsert_lease_def fence_of_def Let_def split: option.splits)

lemma acquire_rows_props:
  assumes "acquire_rows w now ttl rows d = (ls, d')" "distinct (map ix_instance_id rows)"
  shows "map la_instance_id ls = map ix_instance_id rows \<and>
    (\<forall>l \<in> set ls. la_worker_id l = w \<and> la_expires_at l = now + ttl \<and>
       la_fence_token l = fence_of d (la_instance_id l) + 1 \<and> make_guard l d' = Inr ()) \<and>
    (\<forall>j. fence_of d' j = (if j \<in> ix_instance_id ` set rows then fence_of d j + 1 else fence_of d j)) \<and>
    (\<forall>j. j \<notin> ix_instance_id ` set rows \<longrightarrow> dget (db_leases d') j = dget (db_leases d) j) \<and>
    (\<exists>le. d' = d\<lparr>db_leases := le\<rparr>)"
  using assms
proof (induction rows arbitrary: d ls)
  case Nil
  then show ?case by (auto intro: exI [of _ "db_leases d"])
next
  case (Cons row rows)
  obtain f d1 where u: "upsert_lease d w now (now + ttl) row = (f, d1)" by fastforce
  obtain ls1 where r: "acquire_rows w now ttl rows d1 = (ls1, d')"
    and ls: "ls = \<lparr>la_instance_id = ix_instance_id row, la_tenant_id = ix_tenant_id row,
            la_workflow_id = ix_workflow_id row, la_workflow_version = ix_workflow_version row,
            la_worker_id = w, la_fence_token = f, la_expires_at = now + ttl,
            la_last_sequence = ix_last_sequence row\<rparr> # ls1"
    using Cons.prems(1) u by (auto split: prod.splits)
  note up = upsert_lease_props [OF u]
  note ih = Cons.IH [OF r]
  have notin: "ix_instance_id row \<notin> ix_instance_id ` set rows" using Cons.prems(2) by simp
  have ids: "map la_instance_id ls1 = map ix_instance_id rows" using ih Cons.prems(2) by simp
  have "la_instance_id l \<noteq> ix_instance_id row" if "l \<in> set ls1" for l
    using that notin arg_cong [OF ids, of set] by (metis image_eqI list.set_map)
  then show ?case using ih up notin Cons.prems(2) ls by (auto simp: make_guard_Inr)
qed


lemma claim_ids_distinct:
  assumes "store_ok d"
  shows "distinct (map ix_instance_id (claim d locked limit now))"
proof -
  have "ix_instance_id r = k" if "(k, r) \<in> set (db_index d)" for k r
  proof -
    have g: "dget (db_index d) k = Some r"
      using that assms in_dget by (fastforce simp: store_ok_def)
    have ok: "instance_ok d k" using assms by (simp add: store_ok_def)
    from ok g obtain i where "fold_events (log_of d k) None None = Inr i" "index_ok i r"
      by (rule instance_ok_index)
    then show ?thesis
      using fold_events_instance_id [OF _ instance_ok_log_ids [OF ok]] by (auto simp: index_ok_def)
  qed
  then have "map (\<lambda>x. ix_instance_id (snd x)) (db_index d) = dkeys (db_index d)"
    by (auto intro!: map_cong)
  moreover have "distinct (dkeys (db_index d))" using assms by (simp add: store_ok_def)
  ultimately have "distinct (map ix_instance_id (map snd (db_index d)))"
    by (simp only: map_map comp_def)
  then have "distinct (map ix_instance_id
      (filter (\<lambda>r. claimable d now r \<and> ix_instance_id r \<notin> locked) (map snd (db_index d))))"
    by (rule distinct_map_filter)
  then have "distinct (map ix_instance_id (sort_key ix_updated_at
      (filter (\<lambda>r. claimable d now r \<and> ix_instance_id r \<notin> locked) (map snd (db_index d)))))"
    by (simp add: distinct_map)
  then show ?thesis unfolding claim_def by (simp only: take_map [symmetric] distinct_take)
qed

lemma claim_in:
  "r \<in> set (claim d locked limit now) \<Longrightarrow>
     r \<in> set (map snd (db_index d)) \<and> claimable d now r \<and> ix_instance_id r \<notin> locked"
  unfolding claim_def by (auto dest: in_set_takeD)

lemma acquire_tx_Inr:
  assumes "store_ok rd" "acquire_runnable_tx rd locked secs w limit now d = (Inr ls, d')"
  shows "(\<forall>l \<in> set ls. la_worker_id l = w \<and> la_expires_at l = now + secs * 1000000 \<and>
            la_fence_token l = fence_of d (la_instance_id l) + 1 \<and> make_guard l d' = Inr ()) \<and>
         distinct (map la_instance_id ls) \<and> length ls \<le> nat limit \<and>
         (\<forall>j. fence_of d' j = (if j \<in> la_instance_id ` set ls then fence_of d j + 1 else fence_of d j)) \<and>
         (\<forall>j. j \<notin> la_instance_id ` set ls \<longrightarrow> dget (db_leases d') j = dget (db_leases d) j) \<and>
         (\<forall>l \<in> set ls. \<exists>r \<in> set (map snd (db_index rd)). claimable rd now r \<and>
            ix_instance_id r = la_instance_id l \<and> la_instance_id l \<notin> locked) \<and>
         (\<exists>le. d' = d\<lparr>db_leases := le\<rparr>)"
proof (cases "limit \<le> 0")
  case True
  then show ?thesis using assms(2)
    by (auto simp: acquire_runnable_tx_def intro: exI [of _ "db_leases d"])
next
  case False
  let ?rows = "claim rd locked limit now"
  from assms(2) False have a: "acquire_rows w now (secs * 1000000) ?rows d = (ls, d')"
    by (auto simp: acquire_runnable_tx_def Let_def split: if_splits prod.splits)
  note p = acquire_rows_props [OF a claim_ids_distinct [OF assms(1)]]
  have m: "map la_instance_id ls = map ix_instance_id ?rows" using p by (rule conjunct1)
  have ids: "la_instance_id ` set ls = ix_instance_id ` set ?rows"
    using arg_cong [OF m, of set] by simp
  have "length ls = length ?rows" using arg_cong [OF m, of length] by simp
  then have "length ls \<le> nat limit" by (simp add: claim_def)
  moreover have "distinct (map la_instance_id ls)" unfolding m by (rule claim_ids_distinct [OF assms(1)])
  moreover have "\<exists>r \<in> set (map snd (db_index rd)). claimable rd now r \<and>
      ix_instance_id r = la_instance_id l \<and> la_instance_id l \<notin> locked" if "l \<in> set ls" for l
  proof -
    have "la_instance_id l \<in> ix_instance_id ` set ?rows" using that ids by blast
    then obtain r where "r \<in> set ?rows" "ix_instance_id r = la_instance_id l" by auto
    then show ?thesis using claim_in [of r rd locked limit now] by auto
  qed
  ultimately show ?thesis using p unfolding ids by blast
qed

section \<open>Histories of leases\<close>

text \<open>
  The leases handed out so far, over any order of acquisitions, heartbeats, releases and
  appends. An acquisition may have read a state other than the one it writes to.
\<close>

inductive lease_run :: "db \<Rightarrow> lease list \<Rightarrow> bool" where
  lease_start: "db_leases d = [] \<Longrightarrow> lease_run d []"
| lease_acquire: "lease_run d issued \<Longrightarrow> store_ok rd \<Longrightarrow>
    acquire_runnable_tx rd locked secs w limit now d = (Inr ls, d') \<Longrightarrow> lease_run d' (issued @ ls)"
| lease_heartbeat: "lease_run d issued \<Longrightarrow> heartbeat secs w ids now d = (r, d') \<Longrightarrow> lease_run d' issued"
| lease_release: "lease_run d issued \<Longrightarrow> lease_run (release w iid d) issued"
| lease_append: "lease_run d issued \<Longrightarrow> append_new iid tid drafts v g wake d = (r, d') \<Longrightarrow>
    lease_run d' issued"

definition lease_key :: "lease \<Rightarrow> string \<times> nat" where
  "lease_key l = (la_instance_id l, la_fence_token l)"

definition leases_ok :: "db \<Rightarrow> lease list \<Rightarrow> bool" where
  "leases_ok d issued \<longleftrightarrow>
     distinct (map lease_key issued) \<and>
     (\<forall>l \<in> set issued. la_fence_token l \<le> fence_of d (la_instance_id l))"

lemma leases_ok_mono:
  "leases_ok d issued \<Longrightarrow> (\<And>j. fence_of d j \<le> fence_of d' j) \<Longrightarrow> leases_ok d' issued"
  unfolding leases_ok_def using le_trans by blast

lemma fence_of_heartbeat: "heartbeat secs w ids now d = (r, d') \<Longrightarrow> fence_of d' j = fence_of d j"
  by (auto simp: heartbeat_def fence_of_def Let_def split: if_splits option.splits)

lemma fence_of_release: "fence_of (release w iid d) j = fence_of d j"
  by (auto simp: release_def fence_of_def split: option.splits)

lemma lease_run_ok: "lease_run d issued \<Longrightarrow> leases_ok d issued"
proof (induction rule: lease_run.induct)
  case (lease_start d)
  then show ?case by (simp add: leases_ok_def)
next
  case (lease_acquire d issued rd locked secs w limit now ls d')
  note p = acquire_tx_Inr [OF lease_acquire.hyps(2,3)]
  have up: "fence_of d j \<le> fence_of d' j" for j using p by simp
  have new: "la_fence_token l = fence_of d' (la_instance_id l)" if "l \<in> set ls" for l
    using p that by auto
  have key: "lease_key l \<noteq> lease_key l'" if "l \<in> set issued" "l' \<in> set ls" for l l'
    using that p lease_acquire.IH by (auto simp: leases_ok_def lease_key_def)
  have "lease_key ` set issued \<inter> lease_key ` set ls = {}"
    using key by (blast elim!: imageE)
  moreover have "distinct (map lease_key ls)"
    using p by (auto simp: lease_key_def distinct_map inj_on_def)
  moreover have "leases_ok d' issued" using lease_acquire.IH up by (rule leases_ok_mono)
  ultimately show ?case using new by (auto simp: leases_ok_def)
next
  case (lease_heartbeat d issued secs w ids now r d')
  then show ?case using leases_ok_mono [OF lease_heartbeat.IH, of d'] fence_of_heartbeat by simp
next
  case (lease_release d issued w iid)
  then show ?case using leases_ok_mono [OF lease_release.IH] fence_of_release by simp
next
  case (lease_append d issued iid tid drafts v g wake r d')
  have "db_leases d' = db_leases d" using lease_append.hyps(2) by (rule append_new_leases)
  then show ?case using lease_append.IH by (simp add: leases_ok_def fence_of_def)
qed


section \<open>Properties\<close>

text \<open>
  C3: mutual exclusion. In any history of acquisitions, heartbeats, releases and appends, at
  most one of the leases ever issued for an instance passes its guard, and that one carries
  the instance's current fence token.
\<close>

theorem lease_exclusive:
  assumes "lease_run d issued" "l \<in> set issued" "l' \<in> set issued"
    and "la_instance_id l = la_instance_id l'"
    and "make_guard l d = Inr ()" "make_guard l' d = Inr ()"
  shows "l = l' \<and> la_fence_token l = fence_of d (la_instance_id l)"
proof -
  have "la_fence_token l = fence_of d (la_instance_id l)" "la_fence_token l' = fence_of d (la_instance_id l')"
    using make_guard_fence assms(5,6) by blast+
  moreover have "inj_on lease_key (set issued)"
    using lease_run_ok [OF assms(1)] by (simp add: leases_ok_def distinct_map)
  ultimately show ?thesis using assms(2-4) by (auto simp: lease_key_def inj_on_def)
qed

text \<open>
  C29: a lost lease cannot write. When the lease row names another worker or another fence
  token, an append under the old lease's guard raises \<open>LeaseLostError\<close> and leaves the database
  as it was.
\<close>

theorem lost_lease_cannot_append:
  assumes "make_guard l d \<noteq> Inr ()" "drafts \<noteq> []"
    and "list_all (\<lambda>e. ev_instance_id e = iid \<and> ev_tenant_id e = tid) drafts"
  shows "append_new iid tid drafts v (Some (make_guard l)) w d = (Inl LeaseLostError, d)"
proof -
  have "\<not> list_ex (\<lambda>ev. ev_instance_id ev \<noteq> iid \<or> ev_tenant_id ev \<noteq> tid) (sequenced v drafts)"
    using assms(3) sequenced_ids [of _ v drafts] by (fastforce simp: list_ex_iff list_all_iff)
  moreover have "commit_body d d iid tid (sequenced v drafts) v (Some (make_guard l)) w = Inl LeaseLostError"
    using make_guard_Inl [OF assms(1)] by (simp add: commit_body_def)
  ultimately show ?thesis by (simp add: append_new_def commit_def commit_tx_def)
qed

text \<open>The instances of an acquisition are those of the query, in its order.\<close>

lemma acquire_tx_ids:
  assumes "store_ok rd" "acquire_runnable_tx rd locked secs w limit now d = (Inr ls, d')" "0 < limit"
  shows "map la_instance_id ls = map ix_instance_id (claim rd locked limit now)"
proof -
  have "acquire_rows w now (secs * 1000000) (claim rd locked limit now) d = (ls, d')"
    using assms(2,3) by (auto simp: acquire_runnable_tx_def Let_def split: if_splits prod.splits)
  then show ?thesis using acquire_rows_props [OF _ claim_ids_distinct [OF assms(1)]] by blast
qed

lemma acquire_tx_complete:
  assumes "store_ok rd" "acquire_runnable_tx rd {} secs w limit now d = (Inr ls, d')" "length ls < nat limit"
    and "r \<in> set (map snd (db_index rd))" "claimable rd now r"
  shows "ix_instance_id r \<in> la_instance_id ` set ls"
proof -
  note ids = acquire_tx_ids [OF assms(1,2)]
  let ?rows = "sort_key ix_updated_at (filter (\<lambda>r. claimable rd now r \<and> ix_instance_id r \<notin> {}) (map snd (db_index rd)))"
  have m: "map la_instance_id ls = map ix_instance_id (take (nat limit) ?rows)"
    using ids assms(3) by (simp add: claim_def)
  have "length (map la_instance_id ls) = length (map ix_instance_id (take (nat limit) ?rows))" by (simp only: m)
  then have "length ?rows \<le> nat limit" using assms(3) by simp
  then have "take (nat limit) ?rows = ?rows" by (rule take_all)
  moreover have "r \<in> set ?rows" using assms(4,5) by simp
  ultimately have "ix_instance_id r \<in> set (map ix_instance_id (take (nat limit) ?rows))" by simp
  then show ?thesis unfolding m [symmetric] by simp
qed

text \<open>What a transaction of the event store writes does not depend on the leases.\<close>

lemma lease_free_ops:
  "insert_event iid tid d ev = Inr d1 \<Longrightarrow> insert_event iid tid (d\<lparr>db_leases := le\<rparr>) ev = Inr (d1\<lparr>db_leases := le\<rparr>)"
  "upsert_index d inst wake = Inr d1 \<Longrightarrow> upsert_index (d\<lparr>db_leases := le\<rparr>) inst wake = Inr (d1\<lparr>db_leases := le\<rparr>)"
  "write_snapshot (d\<lparr>db_leases := le\<rparr>) inst t = write_snapshot d inst t\<lparr>db_leases := le\<rparr>"
  "project (d\<lparr>db_leases := le\<rparr>) iid tid defn required = project d iid tid defn required"
  "load_snapshot (d\<lparr>db_leases := le\<rparr>) iid = load_snapshot d iid"
  by (auto simp: insert_event_def upsert_index_def write_snapshot_def event_row_of_def project_def load_snapshot_def
      split: if_splits option.splits)

lemma lease_free_escalation:
  "project_escalation d ev = Inr d1 \<Longrightarrow> project_escalation (d\<lparr>db_leases := le\<rparr>) ev = Inr (d1\<lparr>db_leases := le\<rparr>)"
  by (cases "ev_body ev") (auto simp: project_escalation_def split: if_splits option.splits)

lemma lease_free_fold:
  assumes "\<And>d ev d1. f d ev = Inr d1 \<Longrightarrow> f (d\<lparr>db_leases := le\<rparr>) ev = Inr (d1\<lparr>db_leases := le\<rparr>)"
  shows "rfoldl f d evs = Inr d1 \<Longrightarrow> rfoldl f (d\<lparr>db_leases := le\<rparr>) evs = Inr (d1\<lparr>db_leases := le\<rparr>)"
  by (induction evs arbitrary: d) (auto simp: rbind_eq_Inr dest: assms)

lemma lease_free_commit_body:
  assumes "commit_body rd d iid tid events v guard wake = Inr d1"
  shows "commit_body rd (d\<lparr>db_leases := le\<rparr>) iid tid events v guard wake = Inr (d1\<lparr>db_leases := le\<rparr>)"
proof -
  from assms obtain d2 inst d3 d4 where
    g: "(case guard of None \<Rightarrow> Inr () | Some g \<Rightarrow> g rd) = Inr ()" "max_sequence rd iid = v"
    and ops: "rfoldl (insert_event iid tid) d events = Inr d2" "project d2 iid tid None True = Inr inst"
      "upsert_index d2 (the inst) wake = Inr d3" "rfoldl project_escalation d3 events = Inr d4"
    and snap: "(let snap = load_snapshot d4 iid; base_version = (case snap of None \<Rightarrow> 0 | Some s \<Rightarrow> sr_version s)
               in if snap = None \<or> should_snapshot base_version (wi_version (the inst))
                  then (if events = [] then Inl PyIndexError
                        else Inr (write_snapshot d4 (the inst) (ev_occurred_at (last events))))
                  else Inr d4) = Inr d1"
    by (auto simp: commit_body_def rbind_eq_Inr split: if_splits)
  have "rfoldl (insert_event iid tid) (d\<lparr>db_leases := le\<rparr>) events = Inr (d2\<lparr>db_leases := le\<rparr>)"
    by (rule lease_free_fold [OF lease_free_ops(1) ops(1)])
  moreover have "rfoldl project_escalation (d3\<lparr>db_leases := le\<rparr>) events = Inr (d4\<lparr>db_leases := le\<rparr>)"
    by (rule lease_free_fold [OF lease_free_escalation ops(4)])
  ultimately show ?thesis
    using g ops(2) lease_free_ops(2) [OF ops(3)] snap
    by (auto simp: commit_body_def lease_free_ops(3-5) Let_def split: if_splits)
qed

text \<open>
  C30: acquisition. Every lease returned belongs to the worker and is for a distinct instance whose
  row was, in the state the query read, pending, running or retrying, without a wakeup time or with
  one that has passed, and without a lease or with one that had expired; there are at most \<open>limit\<close> of
  them, and if there are fewer, no such instance was passed over. Each lease's guard passes
  afterwards, and each acquisition increases the instance's fence token by one and touches no other
  lease.
\<close>

theorem acquire_runnable_sound:
  assumes "store_ok d" "acquire_runnable secs w limit now d = (Inr ls, d')"
  shows "distinct (map la_instance_id ls) \<and> length ls \<le> nat limit \<and>
    (\<forall>l \<in> set ls. la_worker_id l = w \<and> la_expires_at l = now + secs * 1000000 \<and> make_guard l d' = Inr () \<and>
       la_fence_token l = fence_of d (la_instance_id l) + 1 \<and>
       (\<exists>r \<in> set (map snd (db_index d)). ix_instance_id r = la_instance_id l \<and>
          ix_status r \<in> {''pending'', ''running'', ''retrying''} \<and>
          (\<forall>t. ix_next_wakeup_at r = Some t \<longrightarrow> t \<le> now) \<and>
          (\<forall>le. dget (db_leases d) (la_instance_id l) = Some le \<longrightarrow> le_expires_at le < now))) \<and>
    (\<forall>r \<in> set (map snd (db_index d)). length ls < nat limit \<and>
          ix_status r \<in> {''pending'', ''running'', ''retrying''} \<and>
          (\<forall>t. ix_next_wakeup_at r = Some t \<longrightarrow> t \<le> now) \<and>
          (\<forall>le. dget (db_leases d) (ix_instance_id r) = Some le \<longrightarrow> le_expires_at le < now) \<longrightarrow>
       ix_instance_id r \<in> la_instance_id ` set ls) \<and>
    (\<forall>j. j \<notin> la_instance_id ` set ls \<longrightarrow> dget (db_leases d') j = dget (db_leases d) j)"
proof -
  have c: "claimable d now r \<longleftrightarrow> ix_status r \<in> {''pending'', ''running'', ''retrying''} \<and>
      (\<forall>t. ix_next_wakeup_at r = Some t \<longrightarrow> t \<le> now) \<and>
      (\<forall>le. dget (db_leases d) (ix_instance_id r) = Some le \<longrightarrow> le_expires_at le < now)" for r
    by (simp add: claimable_def RUNNABLE_STATUSES_def split: option.splits)
  note a = assms(2) [unfolded acquire_runnable_def]
  note f = acquire_tx_Inr [OF assms(1) a, unfolded c]
  note g = acquire_tx_complete [OF assms(1) a, unfolded c]
  show ?thesis
  proof (intro conjI ballI impI; (elim conjE)?)
    fix l assume l: "l \<in> set ls"
    show "\<exists>r \<in> set (map snd (db_index d)). ix_instance_id r = la_instance_id l \<and>
          ix_status r \<in> {''pending'', ''running'', ''retrying''} \<and> (\<forall>t. ix_next_wakeup_at r = Some t \<longrightarrow> t \<le> now) \<and>
          (\<forall>le. dget (db_leases d) (la_instance_id l) = Some le \<longrightarrow> le_expires_at le < now)"
      using f l by metis
  qed (use f g in blast)+
qed

text \<open>
  C40: the guard and the write are separate statements of the transaction. Take an append that commits
  when nothing interferes, and let another worker take over the lease after the append's guard has
  passed and before it writes: the append still commits, with the same result and onto the same log,
  although its lease is lost by then. Begun after the takeover, it is refused.
\<close>

theorem stale_guard_window:
  assumes "store_ok d" "acquire_runnable_tx d {} secs w limit now d = (Inr ls, d')"
    and "la_instance_id l \<in> la_instance_id ` set ls"
    and "commit_tx d d (la_instance_id l) tid events v (Some (make_guard l)) wake = (Inr r, d1)"
    and "map ev_sequence events = [v + 1..<v + 1 + length events]"
  shows "make_guard l d' = Inl LeaseLostError \<and>
    (\<exists>d2. commit_tx d d' (la_instance_id l) tid events v (Some (make_guard l)) wake = (Inr r, d2) \<and>
       log_of d2 (la_instance_id l) = log_of d (la_instance_id l) @ events) \<and>
    commit_tx d' d' (la_instance_id l) tid events v (Some (make_guard l)) wake = (Inl LeaseLostError, d')"
proof -
  obtain n evs where r: "r = (n, evs)" by (cases r)
  note a = acquire_tx_Inr [OF assms(1,2)]
  obtain le where d': "d' = d\<lparr>db_leases := le\<rparr>" using a by blast
  have ok: "store_ok d'" using assms(1) store_ok_cong [of d' d] by (simp add: d')
  have g: "make_guard l d = Inr ()" using commit_tx_Inr [OF assms(1,5) assms(4) [unfolded r]] by simp
  have "fence_of d' (la_instance_id l) = fence_of d (la_instance_id l) + 1" using a assms(3) by simp
  then have "make_guard l d' \<noteq> Inr ()" using make_guard_fence [OF g] make_guard_fence [of l d'] by auto
  then have lost: "make_guard l d' = Inl LeaseLostError" using make_guard_Inl by blast
  note b = commit_tx_body [OF assms(4) [unfolded r]]
  obtain d3 where "commit_body d d (la_instance_id l) tid events v (Some (make_guard l)) wake = Inr d3" using b by blast
  from lease_free_commit_body [OF this, of le]
  have "\<exists>d2. commit_tx d d' (la_instance_id l) tid events v (Some (make_guard l)) wake = (Inr r, d2)"
    using assms(4) b by (auto simp: commit_tx_def d' Let_def split: if_splits sum.splits)
  then obtain d2 where c: "commit_tx d d' (la_instance_id l) tid events v (Some (make_guard l)) wake = (Inr (n, evs), d2)"
    unfolding r by blast
  have "log_of d2 (la_instance_id l) = log_of d (la_instance_id l) @ events"
    using commit_tx_Inr [OF ok assms(5) c] by (simp add: d' log_of_def)
  moreover have "commit_tx d' d' (la_instance_id l) tid events v (Some (make_guard l)) wake = (Inl LeaseLostError, d')"
    using lost assms(4) by (auto simp: commit_tx_def commit_body_def split: if_splits)
  ultimately show ?thesis using lost c unfolding r by blast
qed


section \<open>A concrete history\<close>

definition sample_lease :: "string \<Rightarrow> nat \<Rightarrow> instant \<Rightarrow> lease" where
  "sample_lease w fence expires =
     \<lparr>la_instance_id = ''i1'', la_tenant_id = ''t1'', la_workflow_id = ''wf'',
      la_workflow_version = ''1.0.0'', la_worker_id = w, la_fence_token = fence,
      la_expires_at = expires, la_last_sequence = 6\<rparr>"

text \<open>One worker leases the sample instance, and another takes it over after the expiry.\<close>

definition leased_db :: db where
  "leased_db = snd (acquire_runnable 30 ''w1'' 5 1000 sample_db)"

definition released_db :: db where
  "released_db = snd (acquire_runnable 30 ''w2'' 5 40000000 leased_db)"

lemma leased_db_acquire:
  "acquire_runnable 30 ''w1'' 5 1000 sample_db = (Inr [sample_lease ''w1'' 1 30001000], leased_db)"
proof -
  have "fst (acquire_runnable 30 ''w1'' 5 1000 sample_db) = Inr [sample_lease ''w1'' 1 30001000]"
    by code_simp
  then show ?thesis by (simp add: leased_db_def prod_eq_iff)
qed

lemma released_db_acquire:
  "acquire_runnable 30 ''w2'' 5 40000000 leased_db = (Inr [sample_lease ''w2'' 2 70000000], released_db)"
proof -
  have "fst (acquire_runnable 30 ''w2'' 5 40000000 leased_db) = Inr [sample_lease ''w2'' 2 70000000]"
    by code_simp
  then show ?thesis by (simp add: released_db_def prod_eq_iff)
qed

lemma leased_db_ok: "store_ok leased_db"
proof -
  obtain le where le: "leased_db = sample_db\<lparr>db_leases := le\<rparr>"
    using acquire_tx_Inr [OF conjunct1 [OF sample_db_ok] leased_db_acquire [unfolded acquire_runnable_def]]
    by blast
  have "store_ok leased_db = store_ok sample_db" by (rule store_ok_cong) (simp_all add: le)
  then show ?thesis using sample_db_ok by simp
qed

lemma sample_lease_run:
  "lease_run released_db [sample_lease ''w1'' 1 30001000, sample_lease ''w2'' 2 70000000]"
proof -
  have "lease_run sample_db []" by (rule lease_start) code_simp
  from lease_acquire [OF this conjunct1 [OF sample_db_ok] leased_db_acquire [unfolded acquire_runnable_def]]
  have "lease_run leased_db [sample_lease ''w1'' 1 30001000]" by simp
  from lease_acquire [OF this leased_db_ok released_db_acquire [unfolded acquire_runnable_def]]
  show ?thesis by simp
qed

theorem lease_exclusive_witness:
  "lease_run released_db [sample_lease ''w1'' 1 30001000, sample_lease ''w2'' 2 70000000] \<and>
   make_guard (sample_lease ''w2'' 2 70000000) released_db = Inr () \<and>
   la_fence_token (sample_lease ''w2'' 2 70000000) = fence_of released_db ''i1''"
proof -
  have g: "make_guard (sample_lease ''w2'' 2 70000000) released_db = Inr ()" by code_simp
  show ?thesis
    using lease_exclusive [OF sample_lease_run, of "sample_lease ''w2'' 2 70000000"
        "sample_lease ''w2'' 2 70000000"] g sample_lease_run
    by (simp add: sample_lease_def)
qed

theorem lost_lease_cannot_append_witness:
  "make_guard (sample_lease ''w1'' 1 30001000) released_db \<noteq> Inr () \<and>
   append_new ''i1'' ''t1'' [sample_event 7 (InstanceCompleted [])] 6
     (Some (make_guard (sample_lease ''w1'' 1 30001000))) None released_db =
   (Inl LeaseLostError, released_db)"
proof -
  have g: "make_guard (sample_lease ''w1'' 1 30001000) released_db \<noteq> Inr ()" by code_simp
  show ?thesis
    using lost_lease_cannot_append [OF g, of "[sample_event 7 (InstanceCompleted [])]" "''i1''" "''t1''" 6 None] g
    by (simp add: sample_event_def)
qed

theorem acquire_runnable_sound_witness:
  "acquire_runnable 30 ''w1'' 5 1000 sample_db = (Inr [sample_lease ''w1'' 1 30001000], leased_db) \<and>
   make_guard (sample_lease ''w1'' 1 30001000) leased_db = Inr () \<and>
   (\<exists>r \<in> set (map snd (db_index sample_db)). ix_instance_id r = ''i1'' \<and> ix_status r \<in> {''pending'', ''running'', ''retrying''})"
  using acquire_runnable_sound [OF conjunct1 [OF sample_db_ok] leased_db_acquire] leased_db_acquire
  by (auto simp: sample_lease_def)

definition sample_progress :: "event list" where
  "sample_progress = [sample_event 7 (StepStatusChanged ''b'' ST_PENDING ST_READY None)]"

theorem stale_guard_window_witness:
  "make_guard (sample_lease ''w1'' 1 30001000) leased_db = Inr () \<and>
   make_guard (sample_lease ''w1'' 1 30001000) released_db = Inl LeaseLostError \<and>
   (\<exists>d. commit_tx leased_db released_db ''i1'' ''t1'' sample_progress 6
          (Some (make_guard (sample_lease ''w1'' 1 30001000))) None = (Inr (7, sample_progress), d) \<and>
        log_of d ''i1'' = log_of leased_db ''i1'' @ sample_progress)"
proof -
  let ?l = "sample_lease ''w1'' 1 30001000"
  have g: "make_guard ?l leased_db = Inr ()" by code_simp
  have "fst (commit_tx leased_db leased_db ''i1'' ''t1'' sample_progress 6 (Some (make_guard ?l)) None) =
      Inr (7, sample_progress)" by code_simp
  then obtain d where c: "commit_tx leased_db leased_db ''i1'' ''t1'' sample_progress 6
      (Some (make_guard ?l)) None = (Inr (7, sample_progress), d)" by (metis prod.collapse)
  have sq: "map ev_sequence sample_progress = [6 + 1..<6 + 1 + length sample_progress]"
    by (simp add: sample_progress_def sample_event_def)
  have id: "la_instance_id ?l = ''i1''" "la_instance_id ?l \<in> la_instance_id ` set [sample_lease ''w2'' 2 70000000]"
    by (simp_all add: sample_lease_def)
  from stale_guard_window [OF leased_db_ok released_db_acquire [unfolded acquire_runnable_def] id(2)
      c [folded id(1)] sq, unfolded id(1)]
  show ?thesis using g by blast
qed

end
