(* ===== verification/Outbox.thy ===== *)
theory Outbox
  imports Tables
begin

text \<open>
  \<open>core/outbox.py\<close>: the outbox of the side-effect guard, in its Postgres and in-memory
  versions, and the interface both implement. An outbox entry is claimed by key before the
  effect is tried, and marked afterwards.
\<close>

section \<open>Entries\<close>

record outbox_entry =
  oe_idempotency_key :: string
  oe_instance_id :: string
  oe_tenant_id :: string
  oe_step_id :: string
  oe_effect_name :: string
  oe_provider :: string
  oe_params :: obj
  oe_guarantee :: string
  oe_status :: string
  oe_attempts :: int
  oe_result :: "obj option"
  oe_provider_ref :: "string option"
  oe_error :: "string option"
  oe_compensation_status :: "string option"

text \<open>The keyword arguments of \<open>mark\<close> that the guard passes.\<close>

datatype mark_field =
    MStatus string
  | MError "string option"
  | MResult "obj option"
  | MProviderRef "string option"
  | MCompensationStatus "string option"
  | MUpdatedAt instant

definition row_to_entry :: "outbox_row \<Rightarrow> outbox_entry" where
  "row_to_entry r =
     \<lparr>oe_idempotency_key = ob_idempotency_key r, oe_instance_id = ob_instance_id r,
      oe_tenant_id = ob_tenant_id r, oe_step_id = ob_step_id r,
      oe_effect_name = ob_effect_name r, oe_provider = ob_provider r, oe_params = ob_params r,
      oe_guarantee = ob_guarantee r, oe_status = ob_status r, oe_attempts = ob_attempts r,
      oe_result = ob_result r, oe_provider_ref = ob_provider_ref r, oe_error = ob_error r,
      oe_compensation_status = ob_compensation_status r\<rparr>"

section \<open>The Postgres store\<close>

definition pg_claim :: "outbox_entry \<Rightarrow> (db, pexn, outbox_entry) eff" where
  "pg_claim e d =
     (if \<not> fits [(64, oe_idempotency_key e), (36, oe_instance_id e), (64, oe_tenant_id e),
                 (128, oe_step_id e), (128, oe_effect_name e), (64, oe_provider e),
                 (32, oe_guarantee e)]
      then (Inl (PExn DbDataError ''value too long''), d)
      else let row = (case dget (db_outbox d) (oe_idempotency_key e) of
              None \<Rightarrow> \<lparr>ob_idempotency_key = oe_idempotency_key e,
                       ob_instance_id = oe_instance_id e, ob_tenant_id = oe_tenant_id e,
                       ob_step_id = oe_step_id e, ob_effect_name = oe_effect_name e,
                       ob_provider = oe_provider e, ob_params = oe_params e,
                       ob_guarantee = oe_guarantee e, ob_status = ''pending'', ob_attempts = 1,
                       ob_result = None, ob_provider_ref = None, ob_error = None,
                       ob_compensation_status = None, ob_created_at = db_clock d,
                       ob_updated_at = db_clock d\<rparr>
            | Some r \<Rightarrow> r\<lparr>ob_attempts := ob_attempts r + 1\<rparr>)
           in (Inr (row_to_entry row),
               d\<lparr>db_outbox := dset (oe_idempotency_key e) row (db_outbox d)\<rparr>))"

fun pg_set_field :: "mark_field \<Rightarrow> outbox_row \<Rightarrow> outbox_row" where
  "pg_set_field (MStatus s) r = r\<lparr>ob_status := s\<rparr>"
| "pg_set_field (MError e) r = r\<lparr>ob_error := e\<rparr>"
| "pg_set_field (MResult x) r = r\<lparr>ob_result := x\<rparr>"
| "pg_set_field (MProviderRef p) r = r\<lparr>ob_provider_ref := p\<rparr>"
| "pg_set_field (MCompensationStatus c) r = r\<lparr>ob_compensation_status := c\<rparr>"
| "pg_set_field (MUpdatedAt t) r = r\<lparr>ob_updated_at := t\<rparr>"

fun mark_field_fits :: "mark_field \<Rightarrow> bool" where
  "mark_field_fits (MStatus s) = (length s \<le> 32)"
| "mark_field_fits (MProviderRef p) = fits_opt 256 p"
| "mark_field_fits (MCompensationStatus c) = fits_opt 32 c"
| "mark_field_fits _ = True"

text \<open>An update that does not set \<open>updated_at\<close> itself stamps it with \<open>func.now()\<close>.\<close>

definition pg_mark :: "string \<Rightarrow> mark_field list \<Rightarrow> (db, pexn, unit) eff" where
  "pg_mark key fs d =
     (if dget (db_outbox d) key \<noteq> None \<and> \<not> list_all mark_field_fits fs
      then (Inl (PExn DbDataError ''value too long''), d)
      else (Inr (), d\<lparr>db_outbox := dadjust key
              (\<lambda>r. foldl (\<lambda>r f. pg_set_field f r) (r\<lparr>ob_updated_at := db_clock d\<rparr>) fs)
              (db_outbox d)\<rparr>))"

definition pg_entries :: "db \<Rightarrow> outbox_entry list" where
  "pg_entries d = map row_to_entry (sort_key ob_created_at (map snd (db_outbox d)))"

definition pg_list_for_instance ::
  "string \<Rightarrow> string \<Rightarrow> string option \<Rightarrow> (db, pexn, outbox_entry list) eff" where
  "pg_list_for_instance iid tid status d =
     (Inr (map row_to_entry
        (sort_key ob_created_at
           (filter (\<lambda>r. ob_instance_id r = iid \<and> ob_tenant_id r = tid \<and>
                        (status = None \<or> Some (ob_status r) = status))
              (map snd (db_outbox d))))), d)"

section \<open>The in-memory store\<close>

record mem_outbox =
  mo_rows :: "(string, outbox_entry) pydict"
  mo_order :: "string list"

definition mem_empty :: mem_outbox where
  "mem_empty = \<lparr>mo_rows = [], mo_order = []\<rparr>"

definition mem_claim :: "outbox_entry \<Rightarrow> (mem_outbox, pexn, outbox_entry) eff" where
  "mem_claim e m =
     (case dget (mo_rows m) (oe_idempotency_key e) of
        Some existing \<Rightarrow>
          let row = existing\<lparr>oe_attempts := oe_attempts existing + 1\<rparr>
          in (Inr row, m\<lparr>mo_rows := dset (oe_idempotency_key e) row (mo_rows m)\<rparr>)
      | None \<Rightarrow>
          let fresh = e\<lparr>oe_status := ''pending'', oe_attempts := 1\<rparr>
          in (Inr fresh, m\<lparr>mo_rows := dset (oe_idempotency_key e) fresh (mo_rows m),
                           mo_order := mo_order m @ [oe_idempotency_key e]\<rparr>))"

fun set_field :: "mark_field \<Rightarrow> outbox_entry \<Rightarrow> outbox_entry" where
  "set_field (MStatus s) r = r\<lparr>oe_status := s\<rparr>"
| "set_field (MError e) r = r\<lparr>oe_error := e\<rparr>"
| "set_field (MResult x) r = r\<lparr>oe_result := x\<rparr>"
| "set_field (MProviderRef p) r = r\<lparr>oe_provider_ref := p\<rparr>"
| "set_field (MCompensationStatus c) r = r\<lparr>oe_compensation_status := c\<rparr>"
| "set_field (MUpdatedAt t) r = r"

definition set_fields :: "mark_field list \<Rightarrow> outbox_entry \<Rightarrow> outbox_entry" where
  "set_fields fs r = foldl (\<lambda>r f. set_field f r) r fs"

definition mem_mark :: "string \<Rightarrow> mark_field list \<Rightarrow> (mem_outbox, pexn, unit) eff" where
  "mem_mark key fs m =
     (case dget (mo_rows m) key of
        None \<Rightarrow> (Inr (), m)
      | Some row \<Rightarrow> (Inr (), m\<lparr>mo_rows := dset key (set_fields fs row) (mo_rows m)\<rparr>))"

definition mem_entries :: "mem_outbox \<Rightarrow> outbox_entry list" where
  "mem_entries m = map (\<lambda>k. the (dget (mo_rows m) k)) (mo_order m)"

definition mem_list_for_instance ::
  "string \<Rightarrow> string \<Rightarrow> string option \<Rightarrow> (mem_outbox, pexn, outbox_entry list) eff" where
  "mem_list_for_instance iid tid status m =
     (if list_all (\<lambda>k. dget (mo_rows m) k \<noteq> None) (mo_order m)
      then (Inr (filter (\<lambda>e. oe_instance_id e = iid \<and> oe_tenant_id e = tid \<and>
                             (status = None \<or> Some (oe_status e) = status)) (mem_entries m)), m)
      else (Inl (PExn PyKeyError ''missing key''), m))"

section \<open>The interface\<close>

text \<open>
  Entries in the order they were first claimed. A claim adds a pending entry or counts one
  more attempt of the existing one; a mark sets fields of one entry; both may fail without
  changing the entries; a listing filters them.
\<close>

definition claimed :: "outbox_entry \<Rightarrow> outbox_entry list \<Rightarrow> outbox_entry list" where
  "claimed e es =
     (if oe_idempotency_key e \<in> oe_idempotency_key ` set es
      then map (\<lambda>x. if oe_idempotency_key x = oe_idempotency_key e
                    then x\<lparr>oe_attempts := oe_attempts x + 1\<rparr> else x) es
      else es @ [e\<lparr>oe_status := ''pending'', oe_attempts := 1\<rparr>])"

definition marked :: "string \<Rightarrow> mark_field list \<Rightarrow> outbox_entry list \<Rightarrow> outbox_entry list" where
  "marked key fs es =
     map (\<lambda>x. if oe_idempotency_key x = key then set_fields fs x else x) es"

definition entry_of :: "outbox_entry list \<Rightarrow> string \<Rightarrow> outbox_entry option" where
  "entry_of es key = List.find (\<lambda>x. oe_idempotency_key x = key) es"

lemma entry_of_Nil [simp]: "entry_of [] k = None"
  by (simp add: entry_of_def)

lemma entry_of_Cons [simp]:
  "entry_of (x # xs) k = (if oe_idempotency_key x = k then Some x else entry_of xs k)"
  by (simp add: entry_of_def)

lemma entry_of_append: "entry_of (xs @ ys) k = (case entry_of xs k of None \<Rightarrow> entry_of ys k | r \<Rightarrow> r)"
  by (induction xs) auto

lemma entry_of_map:
  "(\<And>x. oe_idempotency_key (f x) = oe_idempotency_key x) \<Longrightarrow>
   entry_of (map f xs) k = map_option f (entry_of xs k)"
  by (induction xs) auto

lemma entry_of_None: "entry_of xs k = None \<longleftrightarrow> k \<notin> oe_idempotency_key ` set xs"
  by (induction xs) auto

lemma entry_of_key: "entry_of xs k = Some x \<Longrightarrow> oe_idempotency_key x = k \<and> x \<in> set xs"
  by (induction xs) (auto split: if_splits)

lemma entry_of_claimed_eq:
  "entry_of (claimed e es) k =
     (if k = oe_idempotency_key e
      then Some (case entry_of es k of
         None \<Rightarrow> e\<lparr>oe_status := ''pending'', oe_attempts := 1\<rparr>
       | Some x \<Rightarrow> x\<lparr>oe_attempts := oe_attempts x + 1\<rparr>)
      else entry_of es k)"
proof (cases "entry_of es (oe_idempotency_key e)")
  case None
  then have "oe_idempotency_key e \<notin> oe_idempotency_key ` set es" by (simp only: entry_of_None not_False_eq_True)
  then show ?thesis using None by (auto simp: claimed_def entry_of_append split: option.splits)
next
  case (Some x)
  then have "oe_idempotency_key e \<in> oe_idempotency_key ` set es"
    using entry_of_None [of es "oe_idempotency_key e"] by force
  then show ?thesis using Some entry_of_key [of es k]
    by (cases "entry_of es k") (auto simp: claimed_def entry_of_map)
qed

locale outbox_store =
  fixes claim :: "outbox_entry \<Rightarrow> ('s, pexn, outbox_entry) eff"
    and mark :: "string \<Rightarrow> mark_field list \<Rightarrow> ('s, pexn, unit) eff"
    and list_entries :: "string \<Rightarrow> string \<Rightarrow> string option \<Rightarrow> ('s, pexn, outbox_entry list) eff"
    and entries :: "'s \<Rightarrow> outbox_entry list"
    and ok :: "'s \<Rightarrow> bool"
  assumes keys_distinct: "ok s \<Longrightarrow> distinct (map oe_idempotency_key (entries s))"
    and claim_ok: "ok s \<Longrightarrow> oe_result e = None \<Longrightarrow> oe_provider_ref e = None \<Longrightarrow> oe_error e = None \<Longrightarrow>
      oe_compensation_status e = None \<Longrightarrow> claim e s = (r, s') \<Longrightarrow>
      ok s' \<and> (case r of Inl _ \<Rightarrow> entries s' = entries s
       | Inr row \<Rightarrow> entries s' = claimed e (entries s) \<and>
                    entry_of (entries s') (oe_idempotency_key e) = Some row)"
    and mark_ok: "ok s \<Longrightarrow> mark key fs s = (m, s') \<Longrightarrow>
      ok s' \<and> (case m of Inl _ \<Rightarrow> entries s' = entries s
       | Inr _ \<Rightarrow> entries s' = marked key fs (entries s))"
    and list_ok: "ok s \<Longrightarrow> list_entries iid tid status s =
      (Inr (filter (\<lambda>e. oe_instance_id e = iid \<and> oe_tenant_id e = tid \<and>
                        (status = None \<or> Some (oe_status e) = status)) (entries s)), s)"
begin

lemma entry_of_claimed:
  assumes "ok s" "claim e s = (Inr row, s')" "oe_result e = None" "oe_provider_ref e = None"
    "oe_error e = None" "oe_compensation_status e = None"
  shows "row = (case entry_of (entries s) (oe_idempotency_key e) of
       None \<Rightarrow> e\<lparr>oe_status := ''pending'', oe_attempts := 1\<rparr>
     | Some x \<Rightarrow> x\<lparr>oe_attempts := oe_attempts x + 1\<rparr>)"
  using claim_ok [OF assms(1,3-6,2)] entry_of_claimed_eq [of e "entries s" "oe_idempotency_key e"]
  by auto

end


section \<open>Both stores implement it\<close>

lemma dadjust_other: "k \<notin> set (dkeys d) \<Longrightarrow> dadjust k f d = d"
  unfolding dadjust_def by (rule map_idI) force

lemma dset_dadjust:
  "distinct (dkeys d) \<Longrightarrow> dget d k = Some x \<Longrightarrow> dset k (f x) d = dadjust k f d"
proof (induction d)
  case (Cons y d)
  obtain a b where y: "y = (a, b)" by (cases y)
  show ?case
  proof (cases "a = k")
    case True
    then have "dadjust k f d = d" using Cons.prems(1) y by (intro dadjust_other) simp
    then show ?thesis using True Cons.prems(2) y by (simp add: dadjust_def)
  next
    case False
    then show ?thesis using Cons y by (simp add: dadjust_def)
  qed
qed simp

text \<open>Postgres: keys as stored, creation times in insertion order and not in the future.\<close>

definition pg_outbox_ok :: "db \<Rightarrow> bool" where
  "pg_outbox_ok d \<longleftrightarrow>
     distinct (dkeys (db_outbox d)) \<and>
     list_all (\<lambda>(k, r). ob_idempotency_key r = k \<and> ob_created_at r \<le> db_clock d) (db_outbox d) \<and>
     sorted (map (\<lambda>x. ob_created_at (snd x)) (db_outbox d))"

lemma row_to_entry_fields [simp]:
  "oe_idempotency_key (row_to_entry r) = ob_idempotency_key r"
  "oe_instance_id (row_to_entry r) = ob_instance_id r"
  "oe_tenant_id (row_to_entry r) = ob_tenant_id r"
  "oe_status (row_to_entry r) = ob_status r"
  "oe_attempts (row_to_entry r) = ob_attempts r"
  by (simp_all add: row_to_entry_def)

lemma row_to_entry_set: "row_to_entry (pg_set_field f r) = set_field f (row_to_entry r)"
  by (cases f) (simp_all add: row_to_entry_def)

lemma row_to_entry_set_fields:
  "row_to_entry (foldl (\<lambda>r f. pg_set_field f r) r fs) = set_fields fs (row_to_entry r)"
  unfolding set_fields_def by (induction fs arbitrary: r) (simp_all add: row_to_entry_set)

lemma set_field_key [simp]: "oe_idempotency_key (set_field f e) = oe_idempotency_key e"
  by (cases f) simp_all

lemma set_fields_key [simp]: "oe_idempotency_key (set_fields fs e) = oe_idempotency_key e"
  unfolding set_fields_def by (induction fs arbitrary: e) simp_all

lemma pg_set_fields_frame [simp]:
  "ob_idempotency_key (foldl (\<lambda>r f. pg_set_field f r) r fs) = ob_idempotency_key r"
  "ob_created_at (foldl (\<lambda>r f. pg_set_field f r) r fs) = ob_created_at r"
proof -
  have f: "ob_idempotency_key (pg_set_field f r) = ob_idempotency_key r"
    "ob_created_at (pg_set_field f r) = ob_created_at r" for f r by (cases f; simp)+
  show "ob_idempotency_key (foldl (\<lambda>r f. pg_set_field f r) r fs) = ob_idempotency_key r"
    "ob_created_at (foldl (\<lambda>r f. pg_set_field f r) r fs) = ob_created_at r"
    by (induction fs arbitrary: r) (simp_all add: f)
qed

lemma pg_entries_eq:
  assumes "pg_outbox_ok d"
  shows "pg_entries d = map (\<lambda>x. row_to_entry (snd x)) (db_outbox d)"
proof -
  have "sort_key ob_created_at (map snd (db_outbox d)) = map snd (db_outbox d)"
    using assms by (intro sort_key_id_if_sorted) (simp add: pg_outbox_ok_def comp_def)
  then show ?thesis by (simp add: pg_entries_def comp_def)
qed

lemma pg_entries_keys:
  assumes "pg_outbox_ok d"
  shows "map oe_idempotency_key (pg_entries d) = dkeys (db_outbox d)"
  using assms by (auto simp: pg_entries_eq pg_outbox_ok_def list_all_iff comp_def intro!: map_cong)

lemma pg_entry_of:
  assumes "pg_outbox_ok d"
  shows "entry_of (pg_entries d) key = map_option row_to_entry (dget (db_outbox d) key)"
proof -
  have "entry_of (map (\<lambda>x. row_to_entry (snd x)) rows) key = map_option row_to_entry (dget rows key)"
    if "list_all (\<lambda>(k, r). ob_idempotency_key r = k) rows" for rows :: "(string, outbox_row) pydict"
    using that by (induction rows) auto
  moreover have "list_all (\<lambda>(k, r). ob_idempotency_key r = k) (db_outbox d)"
    using assms by (auto simp: pg_outbox_ok_def list_all_iff)
  ultimately show ?thesis by (simp add: pg_entries_eq [OF assms])
qed

text \<open>Changing one row, its key and creation time apart.\<close>

lemma pg_outbox_adjust:
  assumes ok: "pg_outbox_ok d"
    and f: "\<And>v. ob_idempotency_key (f v) = ob_idempotency_key v" "\<And>v. ob_created_at (f v) = ob_created_at v"
    and g: "\<And>v. row_to_entry (f v) = g (row_to_entry v)"
    and d': "d' = d\<lparr>db_outbox := dadjust key f (db_outbox d)\<rparr>"
  shows "pg_outbox_ok d' \<and>
    pg_entries d' = map (\<lambda>x. if oe_idempotency_key x = key then g x else x) (pg_entries d)"
proof -
  have "map (\<lambda>x. ob_created_at (snd x)) (dadjust key f rows) = map (\<lambda>x. ob_created_at (snd x)) rows" for rows
    by (auto simp: dadjust_def f)
  moreover have "list_all (\<lambda>(k, r). ob_idempotency_key r = k \<and> ob_created_at r \<le> db_clock d)
      (dadjust key f (db_outbox d))"
    using ok by (auto simp: pg_outbox_ok_def list_all_iff dadjust_def f)
  ultimately have ok': "pg_outbox_ok d'" using ok by (simp add: pg_outbox_ok_def d')
  have keyed: "ob_idempotency_key v = k" if "(k, v) \<in> set (db_outbox d)" for k v
    using ok that by (auto simp: pg_outbox_ok_def list_all_iff)
  have "map (\<lambda>x. row_to_entry (snd x)) (dadjust key f (db_outbox d)) =
      map (\<lambda>x. if oe_idempotency_key x = key then g x else x) (map (\<lambda>x. row_to_entry (snd x)) (db_outbox d))"
    by (auto simp: dadjust_def keyed g)
  moreover have "db_outbox d' = dadjust key f (db_outbox d)" by (simp add: d')
  ultimately show ?thesis using ok' by (simp only: pg_entries_eq [OF ok'] pg_entries_eq [OF ok])
qed


lemma pg_claim_ok:
  assumes ok: "pg_outbox_ok d" and c: "pg_claim e d = (r, d')"
    and e: "oe_result e = None" "oe_provider_ref e = None" "oe_error e = None" "oe_compensation_status e = None"
  shows "pg_outbox_ok d' \<and> (case r of Inl _ \<Rightarrow> pg_entries d' = pg_entries d
       | Inr row \<Rightarrow> pg_entries d' = claimed e (pg_entries d) \<and>
                    entry_of (pg_entries d') (oe_idempotency_key e) = Some row)"
proof -
  let ?k = "oe_idempotency_key e"
  show ?thesis
  proof (cases r)
    case (Inl x)
    then have "d' = d" using c by (auto simp: pg_claim_def Let_def split: if_splits)
    then show ?thesis using ok Inl by simp
  next
    case (Inr row)
    then obtain rw where rw: "row = row_to_entry rw"
      "d' = d\<lparr>db_outbox := dset ?k rw (db_outbox d)\<rparr>"
      "rw = (case dget (db_outbox d) ?k of
              None \<Rightarrow> \<lparr>ob_idempotency_key = oe_idempotency_key e,
                       ob_instance_id = oe_instance_id e, ob_tenant_id = oe_tenant_id e,
                       ob_step_id = oe_step_id e, ob_effect_name = oe_effect_name e,
                       ob_provider = oe_provider e, ob_params = oe_params e,
                       ob_guarantee = oe_guarantee e, ob_status = ''pending'', ob_attempts = 1,
                       ob_result = None, ob_provider_ref = None, ob_error = None,
                       ob_compensation_status = None, ob_created_at = db_clock d,
                       ob_updated_at = db_clock d\<rparr>
            | Some r \<Rightarrow> r\<lparr>ob_attempts := ob_attempts r + 1\<rparr>)"
      using c by (auto simp: pg_claim_def Let_def split: if_splits)
    show ?thesis
    proof (cases "dget (db_outbox d) ?k")
      case None
      then have fresh: "?k \<notin> set (dkeys (db_outbox d))" by (simp only: dget_None_iff not_False_eq_True)
      have d': "db_outbox d' = db_outbox d @ [(?k, rw)]" using rw(2) dset_fresh [OF fresh] by simp
      have ok': "pg_outbox_ok d'"
        using ok fresh d' rw None
        by (auto simp: pg_outbox_ok_def sorted_append list_all_iff)
      have "?k \<notin> oe_idempotency_key ` set (pg_entries d)"
        using fresh arg_cong [OF pg_entries_keys [OF ok], of set] by simp
      moreover have "row_to_entry rw = e\<lparr>oe_status := ''pending'', oe_attempts := 1\<rparr>"
        using rw(3) None e by (cases e) (simp add: row_to_entry_def)
      ultimately have "pg_entries d' = claimed e (pg_entries d)"
        by (simp add: pg_entries_eq [OF ok'] d' claimed_def pg_entries_eq [OF ok])
      then show ?thesis
        using ok' Inr rw pg_entry_of [OF ok'] by simp
    next
      case (Some x)
      let ?f = "\<lambda>r. r\<lparr>ob_attempts := ob_attempts r + 1\<rparr>"
      have "distinct (dkeys (db_outbox d))" using ok by (simp add: pg_outbox_ok_def)
      from dset_dadjust [OF this Some, of ?f]
      have "d' = d\<lparr>db_outbox := dadjust ?k ?f (db_outbox d)\<rparr>" using rw(2,3) Some by simp
      then have adj: "pg_outbox_ok d' \<and> pg_entries d' =
          map (\<lambda>x. if oe_idempotency_key x = ?k then x\<lparr>oe_attempts := oe_attempts x + 1\<rparr> else x) (pg_entries d)"
        by (rule pg_outbox_adjust [OF ok, rotated 3]) (simp_all add: row_to_entry_def)
      then have ok': "pg_outbox_ok d'" by (rule conjunct1)
      have "?k \<in> set (dkeys (db_outbox d))" by (rule dget_in_keys [OF Some])
      then have "?k \<in> oe_idempotency_key ` set (pg_entries d)"
        using arg_cong [OF pg_entries_keys [OF ok], of set] by simp
      then have "pg_entries d' = claimed e (pg_entries d)" using adj by (simp add: claimed_def)
      moreover have "entry_of (pg_entries d') ?k = Some row"
        unfolding pg_entry_of [OF ok'] using rw(1,2) by simp
      ultimately show ?thesis using ok' Inr by simp
    qed
  qed
qed

lemma pg_mark_ok:
  assumes ok: "pg_outbox_ok d" and m: "pg_mark key fs d = (r, d')"
  shows "pg_outbox_ok d' \<and> (case r of Inl _ \<Rightarrow> pg_entries d' = pg_entries d
       | Inr _ \<Rightarrow> pg_entries d' = marked key fs (pg_entries d))"
proof (cases r)
  case (Inl x)
  then have "d' = d" using m by (auto simp: pg_mark_def split: if_splits)
  then show ?thesis using ok Inl by simp
next
  case (Inr u)
  let ?f = "\<lambda>r. foldl (\<lambda>r f. pg_set_field f r) (r\<lparr>ob_updated_at := db_clock d\<rparr>) fs"
  have d': "d' = d\<lparr>db_outbox := dadjust key ?f (db_outbox d)\<rparr>"
    using m Inr by (auto simp: pg_mark_def split: if_splits)
  have "row_to_entry (r\<lparr>ob_updated_at := t\<rparr>) = row_to_entry r" for r t by (simp add: row_to_entry_def)
  then have "pg_outbox_ok d' \<and> pg_entries d' =
      map (\<lambda>x. if oe_idempotency_key x = key then set_fields fs x else x) (pg_entries d)"
    by (intro pg_outbox_adjust [OF ok _ _ _ d']) (simp_all add: row_to_entry_set_fields)
  then show ?thesis using Inr by (simp add: marked_def)
qed

interpretation pg_outbox: outbox_store pg_claim pg_mark pg_list_for_instance pg_entries pg_outbox_ok
proof (unfold_locales, goal_cases)
  case (1 s)
  then show ?case using pg_entries_keys [OF 1] by (simp add: pg_outbox_ok_def)
next
  case (2 s e r s')
  then show ?case using pg_claim_ok by blast
next
  case (3 s key fs r s')
  then show ?case using pg_mark_ok by blast
next
  case (4 s iid tid status)
  let ?p = "\<lambda>r. ob_instance_id r = iid \<and> ob_tenant_id r = tid \<and> (status = None \<or> Some (ob_status r) = status)"
  have "sorted (map ob_created_at (map snd (db_outbox s)))"
    using 4 by (simp add: pg_outbox_ok_def comp_def)
  then have "sorted (map ob_created_at (filter ?p (map snd (db_outbox s))))"
    by (rule sorted_filter)
  then have "sort_key ob_created_at (filter ?p (map snd (db_outbox s))) = filter ?p (map snd (db_outbox s))"
    by (rule sort_key_id_if_sorted)
  then show ?case
    by (simp add: pg_list_for_instance_def pg_entries_eq [OF 4] filter_map comp_def)
qed


lemma mem_entry_of:
  assumes "list_all (\<lambda>k. case dget rows k of None \<Rightarrow> False | Some e \<Rightarrow> oe_idempotency_key e = k) ks"
  shows "entry_of (map (\<lambda>k. the (dget rows k)) ks) key = (if key \<in> set ks then dget rows key else None)"
  using assms by (induction ks) (auto split: option.splits)

definition mem_outbox_ok :: "mem_outbox \<Rightarrow> bool" where
  "mem_outbox_ok m \<longleftrightarrow>
     distinct (mo_order m) \<and> set (mo_order m) = set (dkeys (mo_rows m)) \<and>
     list_all (\<lambda>k. case dget (mo_rows m) k of None \<Rightarrow> False | Some e \<Rightarrow> oe_idempotency_key e = k) (mo_order m)"

lemma mem_ok_get:
  "mem_outbox_ok m \<Longrightarrow> k \<in> set (mo_order m) \<Longrightarrow>
     \<exists>e. dget (mo_rows m) k = Some e \<and> oe_idempotency_key e = k"
  by (auto simp: mem_outbox_ok_def list_all_iff split: option.splits)

lemma mem_entries_keys:
  assumes "mem_outbox_ok m"
  shows "map oe_idempotency_key (mem_entries m) = mo_order m"
proof -
  have "oe_idempotency_key (the (dget (mo_rows m) k)) = k" if "k \<in> set (mo_order m)" for k
    using mem_ok_get [OF assms that] by auto
  then show ?thesis by (simp add: mem_entries_def comp_def map_idI)
qed

text \<open>Replacing the row of a key that is present.\<close>

lemma mem_replace:
  assumes ok: "mem_outbox_ok m" and x: "dget (mo_rows m) k = Some x"
    and g: "oe_idempotency_key (g x) = oe_idempotency_key x"
    and m': "m' = m\<lparr>mo_rows := dset k (g x) (mo_rows m)\<rparr>"
  shows "mem_outbox_ok m' \<and> mem_entries m' =
    map (\<lambda>y. if oe_idempotency_key y = k then g y else y) (mem_entries m)"
proof -
  have kin: "k \<in> set (mo_order m)"
    using ok dget_in_keys [OF x] by (simp add: mem_outbox_ok_def)
  have kx: "oe_idempotency_key x = k" using mem_ok_get [OF ok kin] x by simp
  have keys: "set (dkeys (mo_rows m')) = set (dkeys (mo_rows m))"
    using dget_in_keys [OF x] by (auto simp: m')
  have "mem_outbox_ok m'"
    using ok keys kx g unfolding mem_outbox_ok_def by (auto simp: m' list_all_iff split: option.splits)
  moreover have "mem_entries m' = map (\<lambda>y. if oe_idempotency_key y = k then g y else y) (mem_entries m)"
  proof -
    have "the (dget (mo_rows m') j) =
        (let y = the (dget (mo_rows m) j) in if oe_idempotency_key y = k then g y else y)"
      if "j \<in> set (mo_order m)" for j
      using mem_ok_get [OF ok that] x by (auto simp: m')
    then show ?thesis by (auto simp: mem_entries_def m' Let_def)
  qed
  ultimately show ?thesis by simp
qed

lemma mem_claim_ok:
  assumes ok: "mem_outbox_ok m" and c: "mem_claim e m = (r, m')"
  shows "mem_outbox_ok m' \<and> (case r of Inl _ \<Rightarrow> mem_entries m' = mem_entries m
       | Inr row \<Rightarrow> mem_entries m' = claimed e (mem_entries m) \<and>
                    entry_of (mem_entries m') (oe_idempotency_key e) = Some row)"
proof (cases "dget (mo_rows m) (oe_idempotency_key e)")
  case None
  let ?k = "oe_idempotency_key e"
  let ?e = "e\<lparr>oe_status := ''pending'', oe_attempts := 1\<rparr>"
  have r: "r = Inr ?e" and m': "m' = m\<lparr>mo_rows := dset ?k ?e (mo_rows m), mo_order := mo_order m @ [?k]\<rparr>"
    using c unfolding mem_claim_def None option.case Let_def by auto
  have fresh: "?k \<notin> set (mo_order m)"
    using ok None dget_None_iff [of "mo_rows m" ?k] by (simp add: mem_outbox_ok_def)
  have ok': "mem_outbox_ok m'"
    using ok fresh unfolding mem_outbox_ok_def by (auto simp: m' list_all_iff split: option.splits)
  have "the (dget (mo_rows m') j) = the (dget (mo_rows m) j)" if "j \<in> set (mo_order m)" for j
    using that fresh by (auto simp: m')
  then have es: "mem_entries m' = mem_entries m @ [?e]" by (simp add: mem_entries_def m')
  have "?k \<notin> oe_idempotency_key ` set (mem_entries m)"
    using fresh arg_cong [OF mem_entries_keys [OF ok], of set] by simp
  then show ?thesis using ok' r es entry_of_claimed_eq [of e "mem_entries m" ?k]
    by (auto simp: claimed_def entry_of_append entry_of_None [symmetric])
next
  case (Some x)
  let ?k = "oe_idempotency_key e"
  let ?g = "\<lambda>x. x\<lparr>oe_attempts := oe_attempts x + 1\<rparr>"
  have r: "r = Inr (?g x)" and m': "m' = m\<lparr>mo_rows := dset ?k (?g x) (mo_rows m)\<rparr>"
    using c unfolding mem_claim_def Some option.case Let_def by auto
  have "mem_outbox_ok m' \<and> mem_entries m' =
      map (\<lambda>y. if oe_idempotency_key y = ?k then ?g y else y) (mem_entries m)"
    using m' by (intro mem_replace [OF ok Some]) simp_all
  moreover have "?k \<in> oe_idempotency_key ` set (mem_entries m)"
    using dget_in_keys [OF Some] ok arg_cong [OF mem_entries_keys [OF ok], of set]
    by (simp add: mem_outbox_ok_def)
  ultimately have ok': "mem_outbox_ok m'" and es: "mem_entries m' = claimed e (mem_entries m)"
    by (simp_all add: claimed_def)
  have "entry_of (mem_entries m') ?k = dget (mo_rows m') ?k"
    using mem_entry_of [of "mo_rows m'" "mo_order m'" ?k] ok' dget_in_keys [OF Some] ok
    by (simp add: mem_outbox_ok_def mem_entries_def m')
  then show ?thesis using ok' es r by (simp add: m')
qed

lemma mem_mark_ok:
  assumes ok: "mem_outbox_ok m" and c: "mem_mark key fs m = (r, m')"
  shows "mem_outbox_ok m' \<and> (case r of Inl _ \<Rightarrow> mem_entries m' = mem_entries m
       | Inr _ \<Rightarrow> mem_entries m' = marked key fs (mem_entries m))"
proof (cases "dget (mo_rows m) key")
  case None
  have "m' = m" "r = Inr ()" using c unfolding mem_mark_def None option.case by simp_all
  moreover have "key \<notin> set (dkeys (mo_rows m))" using None by (simp only: dget_None_iff not_False_eq_True)
  then have "key \<notin> oe_idempotency_key ` set (mem_entries m)"
    using ok arg_cong [OF mem_entries_keys [OF ok], of set] by (simp add: mem_outbox_ok_def)
  then have "marked key fs (mem_entries m) = mem_entries m"
    unfolding marked_def by (intro map_idI) force
  ultimately show ?thesis using ok by simp
next
  case (Some x)
  have "r = Inr ()" and m': "m' = m\<lparr>mo_rows := dset key (set_fields fs x) (mo_rows m)\<rparr>"
    using c unfolding mem_mark_def Some option.case by simp_all
  moreover have "mem_outbox_ok m' \<and> mem_entries m' =
      map (\<lambda>y. if oe_idempotency_key y = key then set_fields fs y else y) (mem_entries m)"
    using m' by (intro mem_replace [OF ok Some]) simp_all
  ultimately show ?thesis by (simp add: marked_def)
qed

interpretation mem_store: outbox_store mem_claim mem_mark mem_list_for_instance mem_entries mem_outbox_ok
proof (unfold_locales, goal_cases)
  case (1 s)
  then show ?case using mem_entries_keys [OF 1] by (simp add: mem_outbox_ok_def)
next
  case (2 s e r s')
  then show ?case using mem_claim_ok by blast
next
  case (3 s key fs m s')
  then show ?case using mem_mark_ok by blast
next
  case (4 s iid tid status)
  then have "list_all (\<lambda>k. dget (mo_rows s) k \<noteq> None) (mo_order s)"
    using mem_ok_get [OF 4] by (force simp: list_all_iff)
  then show ?case by (simp add: mem_list_for_instance_def)
qed

end
