(* ===== verification/DefinitionRepo.thy ===== *)
theory DefinitionRepo
  imports Tables EventStore_Props
    "HOL-Library.List_Lexorder" "HOL-Library.Product_Lexorder" "HOL-Library.Char_ord"
begin

text \<open>
  \<open>core/persistence/definition_repo.py\<close>: registering workflow definitions and looking them up.
  The checksum of a definition (a SHA-256 digest of its JSON dump) is a parameter. Definitions
  are validated when they are built, so reading a stored one back gives it unchanged.
\<close>

section \<open>Operations\<close>

definition defn_key_of :: "string \<Rightarrow> workflow_definition \<Rightarrow> defn_key" where
  "defn_key_of tenant_id d = (tenant_id, wd_workflow_id d, wd_version d)"

definition deactivate :: "string \<Rightarrow> string \<Rightarrow> instant \<Rightarrow> (defn_key, defn_row) pydict \<Rightarrow> (defn_key, defn_row) pydict" where
  "deactivate tenant_id name now =
     dupdate_where (\<lambda>r. dr_tenant_id r = tenant_id \<and> dr_name r = name)
       (\<lambda>r. r\<lparr>dr_is_active := False, dr_updated_at := now\<rparr>)"

definition defn_row_of :: "(workflow_definition \<Rightarrow> string) \<Rightarrow> string \<Rightarrow> bool \<Rightarrow> instant \<Rightarrow> workflow_definition \<Rightarrow> defn_row" where
  "defn_row_of checksum tenant_id activate now d =
     \<lparr>dr_tenant_id = tenant_id, dr_workflow_id = wd_workflow_id d, dr_version = wd_version d,
      dr_name = wd_name d, dr_description = wd_description d, dr_definition = d,
      dr_checksum = checksum d, dr_is_active = activate, dr_created_at = now, dr_updated_at = now\<rparr>"

text \<open>The insert of a new row: column lengths, and the unique key on tenant, name and version.\<close>

definition insert_defn :: "string \<Rightarrow> defn_row \<Rightarrow> (defn_key, defn_row) pydict \<Rightarrow> pexn + (defn_key, defn_row) pydict" where
  "insert_defn tenant_id row t =
     (if \<not> fits [(64, dr_tenant_id row), (64, dr_workflow_id row), (32, dr_version row), (256, dr_name row),
                 (64, dr_checksum row)]
      then Inl (PExn DbDataError ''value too long'')
      else if list_ex (\<lambda>(k, r). dr_tenant_id r = tenant_id \<and> dr_name r = dr_name row \<and> dr_version r = dr_version row) t
      then Inl (PExn DbIntegrityError ''uq_defn_name_version'')
      else Inr (dset (tenant_id, dr_workflow_id row, dr_version row) row t))"

definition defn_register ::
  "(workflow_definition \<Rightarrow> string) \<Rightarrow> workflow_definition \<Rightarrow> string \<Rightarrow> bool \<Rightarrow> (db, pexn, workflow_definition) eff" where
  "defn_register checksum d tenant_id activate s =
     (case dget (db_definitions s) (defn_key_of tenant_id d) of
        Some existing \<Rightarrow>
          if dr_checksum existing \<noteq> checksum d
          then (Inl (PExn ConfigurationError
                  (wd_workflow_id d @ '' v'' @ wd_version d @
                   '' already registered with different content - bump the version'')), s)
          else (Inr d, s)
      | None \<Rightarrow>
          let t = (if activate then deactivate tenant_id (wd_name d) (db_clock s) (db_definitions s)
                   else db_definitions s)
          in (case insert_defn tenant_id (defn_row_of checksum tenant_id activate (db_clock s) d) t of
                Inl e \<Rightarrow> (Inl e, s)
              | Inr t' \<Rightarrow> (Inr d, s\<lparr>db_definitions := t'\<rparr>)))"

definition defn_get :: "db \<Rightarrow> string \<Rightarrow> string \<Rightarrow> string \<Rightarrow> workflow_definition option" where
  "defn_get s workflow_id version tenant_id =
     map_option dr_definition (dget (db_definitions s) (tenant_id, workflow_id, version))"

definition defn_get_active :: "db \<Rightarrow> string \<Rightarrow> string \<Rightarrow> workflow_definition option" where
  "defn_get_active s name tenant_id =
     map_option (dr_definition \<circ> snd)
       (List.find (\<lambda>(k, r). dr_tenant_id r = tenant_id \<and> dr_name r = name \<and> dr_is_active r) (db_definitions s))"

definition defn_list :: "db \<Rightarrow> string \<Rightarrow> bool \<Rightarrow> workflow_definition list" where
  "defn_list s tenant_id active_only =
     map dr_definition (sort_key (\<lambda>r. (dr_name r, dr_version r))
       (filter (\<lambda>r. dr_tenant_id r = tenant_id \<and> (active_only \<longrightarrow> dr_is_active r)) (map snd (db_definitions s))))"

section \<open>Invariant\<close>

text \<open>
  Rows sit under their key, carry the checksum of their content, and at most one version of a
  name is active.
\<close>

definition defn_row_ok :: "(workflow_definition \<Rightarrow> string) \<Rightarrow> defn_key \<Rightarrow> defn_row \<Rightarrow> bool" where
  "defn_row_ok checksum k r \<longleftrightarrow>
     k = (dr_tenant_id r, dr_workflow_id r, dr_version r) \<and> dr_checksum r = checksum (dr_definition r) \<and>
     dr_workflow_id r = wd_workflow_id (dr_definition r) \<and> dr_version r = wd_version (dr_definition r) \<and>
     dr_name r = wd_name (dr_definition r)"

definition repo_ok :: "(workflow_definition \<Rightarrow> string) \<Rightarrow> (defn_key, defn_row) pydict \<Rightarrow> bool" where
  "repo_ok checksum t \<longleftrightarrow>
     (\<forall>k r. dget t k = Some r \<longrightarrow> defn_row_ok checksum k r) \<and>
     (\<forall>k1 r1 k2 r2. dget t k1 = Some r1 \<and> dget t k2 = Some r2 \<and> dr_is_active r1 \<and> dr_is_active r2 \<and>
        dr_tenant_id r1 = dr_tenant_id r2 \<and> dr_name r1 = dr_name r2 \<longrightarrow> k1 = k2) \<and> distinct (dkeys t)"

lemma repo_okI:
  assumes "\<And>k r. dget t k = Some r \<Longrightarrow> defn_row_ok checksum k r" "distinct (dkeys t)"
    and "\<And>k1 r1 k2 r2. dget t k1 = Some r1 \<Longrightarrow> dget t k2 = Some r2 \<Longrightarrow> dr_is_active r1 \<Longrightarrow> dr_is_active r2 \<Longrightarrow>
        dr_tenant_id r1 = dr_tenant_id r2 \<Longrightarrow> dr_name r1 = dr_name r2 \<Longrightarrow> k1 = k2"
  shows "repo_ok checksum t"
  using assms unfolding repo_ok_def by blast

lemma repo_okD:
  assumes "repo_ok checksum t"
  shows "dget t k = Some r \<Longrightarrow> defn_row_ok checksum k r" "distinct (dkeys t)"
    and "dget t k1 = Some r1 \<Longrightarrow> dget t k2 = Some r2 \<Longrightarrow> dr_is_active r1 \<Longrightarrow> dr_is_active r2 \<Longrightarrow>
        dr_tenant_id r1 = dr_tenant_id r2 \<Longrightarrow> dr_name r1 = dr_name r2 \<Longrightarrow> k1 = k2"
  using assms unfolding repo_ok_def by blast+

lemma dget_deactivate:
  assumes "dget (deactivate tenant_id name now t) k = Some r'"
  obtains r where "dget t k = Some r" "dr_tenant_id r' = dr_tenant_id r" "dr_workflow_id r' = dr_workflow_id r"
    "dr_version r' = dr_version r" "dr_name r' = dr_name r" "dr_definition r' = dr_definition r"
    "dr_checksum r' = dr_checksum r" "dr_is_active r' \<Longrightarrow> dr_is_active r"
    "dr_is_active r' \<Longrightarrow> \<not> (dr_tenant_id r = tenant_id \<and> dr_name r = name)"
proof -
  obtain r where "dget t k = Some r"
    "r' = (if dr_tenant_id r = tenant_id \<and> dr_name r = name then r\<lparr>dr_is_active := False, dr_updated_at := now\<rparr> else r)"
    using assms by (auto simp: deactivate_def)
  then show thesis by (intro that [of r]) (simp_all split: if_splits)
qed

lemma deactivate_ok:
  assumes "repo_ok checksum t"
  shows "repo_ok checksum (deactivate tenant_id name now t)"
proof (rule repo_okI)
  fix k r assume "dget (deactivate tenant_id name now t) k = Some r"
  then show "defn_row_ok checksum k r"
    by (rule dget_deactivate) (use repo_okD(1) [OF assms, of k] in \<open>simp add: defn_row_ok_def\<close>)
next
  fix k1 r1 k2 r2
  assume a: "dget (deactivate tenant_id name now t) k1 = Some r1" "dget (deactivate tenant_id name now t) k2 = Some r2"
    and act: "dr_is_active r1" "dr_is_active r2" and eq: "dr_tenant_id r1 = dr_tenant_id r2" "dr_name r1 = dr_name r2"
  obtain o1 where o1: "dget t k1 = Some o1" "dr_tenant_id o1 = dr_tenant_id r1" "dr_name o1 = dr_name r1" "dr_is_active o1"
    using a(1) by (rule dget_deactivate) (use act in auto)
  obtain o2 where o2: "dget t k2 = Some o2" "dr_tenant_id o2 = dr_tenant_id r2" "dr_name o2 = dr_name r2" "dr_is_active o2"
    using a(2) by (rule dget_deactivate) (use act in auto)
  show "k1 = k2" by (rule repo_okD(3) [OF assms o1(1) o2(1)]) (use o1 o2 eq in simp_all)
qed (use repo_okD(2) [OF assms] in \<open>simp add: deactivate_def\<close>)

lemma insert_defn_Inr:
  "insert_defn tenant_id row t = Inr t' \<Longrightarrow> t' = dset (tenant_id, dr_workflow_id row, dr_version row) row t"
  by (auto simp: insert_defn_def split: if_splits)

lemma insert_defn_ok:
  assumes ok: "repo_ok checksum t" and row: "defn_row_ok checksum (tenant_id, dr_workflow_id row, dr_version row) row"
    and act: "\<And>k r. dr_is_active row \<Longrightarrow> dget t k = Some r \<Longrightarrow> dr_tenant_id r = tenant_id \<Longrightarrow> dr_name r = dr_name row \<Longrightarrow>
           \<not> dr_is_active r"
    and ins: "insert_defn tenant_id row t = Inr t'"
  shows "repo_ok checksum t'"
  unfolding insert_defn_Inr [OF ins]
proof (rule repo_okI)
  let ?k = "(tenant_id, dr_workflow_id row, dr_version row)"
  have tid: "dr_tenant_id row = tenant_id" using row by (simp add: defn_row_ok_def)
  show "defn_row_ok checksum k r" if "dget (dset ?k row t) k = Some r" for k r
    using that row repo_okD(1) [OF ok, of k] by (cases "k = ?k") simp_all
  show "distinct (dkeys (dset ?k row t))" using repo_okD(2) [OF ok] by simp
  fix k1 r1 k2 r2
  assume a: "dget (dset ?k row t) k1 = Some r1" "dget (dset ?k row t) k2 = Some r2" "dr_is_active r1" "dr_is_active r2"
    "dr_tenant_id r1 = dr_tenant_id r2" "dr_name r1 = dr_name r2"
  consider "k1 = ?k" "k2 = ?k" | "k1 = ?k" "k2 \<noteq> ?k" | "k1 \<noteq> ?k" "k2 = ?k" | "k1 \<noteq> ?k" "k2 \<noteq> ?k" by blast
  then show "k1 = k2"
  proof cases
    case 2
    then show ?thesis using a act [of k2 r2] tid by simp
  next
    case 3
    then show ?thesis using a act [of k1 r1] tid by simp
  next
    case 4
    show ?thesis by (rule repo_okD(3) [OF ok _ _ a(3,4,5,6)]) (use a(1,2) 4 in simp_all)
  qed simp
qed

text \<open>What a registration that inserts does to the other rows.\<close>

lemma register_cases:
  assumes "defn_register checksum d tenant_id act s = (r, s')"
  obtains (raised) e where "r = Inl e" "s' = s"
    | (known) row where "r = Inr d" "s' = s" "dget (db_definitions s) (defn_key_of tenant_id d) = Some row"
        "dr_checksum row = checksum d"
    | (inserted) t t' where "r = Inr d" "s' = s\<lparr>db_definitions := t'\<rparr>"
        "dget (db_definitions s) (defn_key_of tenant_id d) = None"
        "t = (if act then deactivate tenant_id (wd_name d) (db_clock s) (db_definitions s) else db_definitions s)"
        "insert_defn tenant_id (defn_row_of checksum tenant_id act (db_clock s) d) t = Inr t'"
proof (cases "dget (db_definitions s) (defn_key_of tenant_id d)")
  case None
  show ?thesis
  proof (cases "insert_defn tenant_id (defn_row_of checksum tenant_id act (db_clock s) d)
      (if act then deactivate tenant_id (wd_name d) (db_clock s) (db_definitions s) else db_definitions s)")
    case (Inl e)
    show ?thesis by (rule raised [of e]) (use assms None Inl in \<open>simp_all add: defn_register_def Let_def\<close>)
  next
    case (Inr t')
    show ?thesis by (rule inserted [OF _ _ None refl Inr]) (use assms None Inr in \<open>simp_all add: defn_register_def Let_def\<close>)
  qed
next
  case (Some row)
  show ?thesis
  proof (cases "dr_checksum row = checksum d")
    case True
    show ?thesis by (rule known [OF _ _ Some True]) (use assms Some True in \<open>simp_all add: defn_register_def\<close>)
  next
    case False
    show ?thesis by (rule raised) (use assms Some False in \<open>auto simp: defn_register_def\<close>)
  qed
qed

lemma register_ok:
  assumes ok: "repo_ok checksum (db_definitions s)" and r: "defn_register checksum d tenant_id act s = (r, s')"
  shows "repo_ok checksum (db_definitions s')"
  using r
proof (cases rule: register_cases)
  case (inserted t t')
  let ?row = "defn_row_of checksum tenant_id act (db_clock s) d"
  have t: "repo_ok checksum t" using ok deactivate_ok inserted(4) by simp
  have row: "defn_row_ok checksum (tenant_id, dr_workflow_id ?row, dr_version ?row) ?row"
    by (simp add: defn_row_of_def defn_row_ok_def)
  have act: "\<not> dr_is_active r" if "dr_is_active ?row" "dget t k = Some r" "dr_tenant_id r = tenant_id"
    "dr_name r = dr_name ?row" for k r
  proof -
    have "act" using that(1) by (simp add: defn_row_of_def)
    then have "dget (deactivate tenant_id (wd_name d) (db_clock s) (db_definitions s)) k = Some r"
      using that(2) inserted(4) by simp
    then show ?thesis by (rule dget_deactivate) (use that(3,4) in \<open>auto simp: defn_row_of_def\<close>)
  qed
  have "repo_ok checksum t'" by (rule insert_defn_ok [OF t row act inserted(5)])
  then show ?thesis using inserted(2) by simp
qed (use ok in simp_all)

lemma register_kept:
  assumes r: "defn_register checksum d tenant_id act s = (r, s')" and old: "defn_get s wid v tid = Some x"
  shows "defn_get s' wid v tid = Some x"
  using r
proof (cases rule: register_cases)
  case (inserted t t')
  obtain row where row: "dget (db_definitions s) (tid, wid, v) = Some row" "dr_definition row = x"
    using old by (auto simp: defn_get_def)
  have "map_option dr_definition (dget t (tid, wid, v)) = Some x"
    using row by (simp add: inserted(4) deactivate_def)
  moreover have "(tid, wid, v) \<noteq> (tenant_id, wd_workflow_id d, wd_version d)"
    using row(1) inserted(3) by (auto simp: defn_key_of_def)
  ultimately show ?thesis
    using insert_defn_Inr [OF inserted(5)] inserted(2) by (auto simp: defn_get_def defn_row_of_def)
qed (use old in simp_all)

text \<open>The row with a property that only one key has.\<close>

lemma find_unique:
  assumes "dget t k = Some v" "P (k, v)" "distinct (dkeys t)" "\<And>k' v'. dget t k' = Some v' \<Longrightarrow> P (k', v') \<Longrightarrow> k' = k"
  shows "List.find P t = Some (k, v)"
proof (cases "List.find P t")
  case None
  then show ?thesis using assms(1,2) by (auto simp: find_None_iff dest: map_of_SomeD)
next
  case (Some y)
  obtain k' v' where y: "y = (k', v')" by (cases y)
  have "(k', v') \<in> set t" "P (k', v')" using Some y by (auto simp: find_Some_iff)
  then have "dget t k' = Some v'" using assms(3) by simp
  then have "k' = k" using assms(4) \<open>P (k', v')\<close> by blast
  then show ?thesis using Some y \<open>dget t k' = Some v'\<close> assms(1) by simp
qed

lemma register_active:
  assumes ok: "repo_ok checksum (db_definitions s)" and r: "defn_register checksum d tenant_id True s = (Inr x, s')"
    and new: "defn_get s (wd_workflow_id d) (wd_version d) tenant_id = None"
  shows "defn_get_active s' (wd_name d) tenant_id = Some d"
  using r
proof (cases rule: register_cases)
  case (inserted t t')
  let ?row = "defn_row_of checksum tenant_id True (db_clock s) d" and ?k = "(tenant_id, wd_workflow_id d, wd_version d)"
  have row: "dget (db_definitions s') ?k = Some ?row"
    using inserted(2) insert_defn_Inr [OF inserted(5)] by (simp add: defn_row_of_def)
  note ok' = register_ok [OF ok r]
  have "List.find (\<lambda>(k, r). dr_tenant_id r = tenant_id \<and> dr_name r = wd_name d \<and> dr_is_active r) (db_definitions s') =
      Some (?k, ?row)"
  proof (rule find_unique [OF row _ repo_okD(2) [OF ok']])
    show "k' = ?k" if "dget (db_definitions s') k' = Some v'"
      "case (k', v') of (k, r) \<Rightarrow> dr_tenant_id r = tenant_id \<and> dr_name r = wd_name d \<and> dr_is_active r" for k' v'
      by (rule repo_okD(3) [OF ok' that(1) row]) (use that(2) in \<open>simp_all add: defn_row_of_def\<close>)
  qed (simp add: defn_row_of_def)
  then show ?thesis by (simp add: defn_get_active_def defn_row_of_def)
qed (use new in \<open>simp_all add: defn_get_def defn_key_of_def\<close>)

lemma register_found:
  assumes ok: "repo_ok checksum (db_definitions s)" and r: "defn_register checksum d tenant_id act s = (Inr x, s')"
  shows "\<exists>x'. defn_get s' (wd_workflow_id d) (wd_version d) tenant_id = Some x' \<and> checksum x' = checksum d"
  using r
proof (cases rule: register_cases)
  case (known row)
  then show ?thesis using repo_okD(1) [OF ok known(3)] by (simp add: defn_get_def defn_key_of_def defn_row_ok_def)
next
  case (inserted t t')
  then show ?thesis using insert_defn_Inr [OF inserted(5)] by (simp add: defn_get_def defn_row_of_def)
qed simp

section \<open>Properties\<close>

text \<open>
  The registry of definitions. A registration keeps the invariant (rows under their keys with
  the checksum of their content, at most one active version of a name). It either raises and
  changes nothing, or returns its argument; then the version can be looked up and has the
  checksum of the argument, and every version registered before still has its old content. When
  the registration made the version and activated it, it is the active one of its name.
\<close>

lemma definition_registry_contract:
  assumes "repo_ok checksum (db_definitions s)"
    and "defn_register checksum d tenant_id act s = (r, s')"
  shows "repo_ok checksum (db_definitions s') \<and>
    (case r of
       Inl e \<Rightarrow> s' = s
     | Inr x \<Rightarrow> x = d \<and>
         (\<exists>x'. defn_get s' (wd_workflow_id d) (wd_version d) tenant_id = Some x' \<and> checksum x' = checksum d) \<and>
         (\<forall>wid v tid old. defn_get s wid v tid = Some old \<longrightarrow> defn_get s' wid v tid = Some old) \<and>
         (defn_get s (wd_workflow_id d) (wd_version d) tenant_id = None \<and> act \<longrightarrow>
            defn_get_active s' (wd_name d) tenant_id = Some d))"
proof (cases r)
  case (Inl e)
  have "s' = s" using assms(2) Inl by (cases rule: register_cases) simp_all
  then show ?thesis using assms(1) Inl by simp
next
  case (Inr x)
  have "x = d" using assms(2) Inr by (cases rule: register_cases) simp_all
  moreover have "defn_get_active s' (wd_name d) tenant_id = Some d"
    if "defn_get s (wd_workflow_id d) (wd_version d) tenant_id = None" "act"
    by (rule register_active [OF assms(1) _ that(1)]) (use assms(2) Inr that(2) in simp)
  ultimately show ?thesis
    using Inr register_ok [OF assms] register_kept [OF assms(2)] register_found [OF assms(1)] assms(2) by simp
qed

lemma definition_registry_contract_witness:
  "\<exists>s'. repo_ok wd_name (db_definitions (empty_db 5)) \<and>
     defn_register wd_name sample_definition ''t1'' True (empty_db 5) = (Inr sample_definition, s') \<and>
     repo_ok wd_name (db_definitions s') \<and> defn_get_active s' ''Sample'' ''t1'' = Some sample_definition"
proof -
  have ok: "repo_ok wd_name (db_definitions (empty_db 5))" by (simp add: repo_ok_def empty_db_def)
  have "fst (defn_register wd_name sample_definition ''t1'' True (empty_db 5)) = Inr sample_definition"
    by code_simp
  then obtain s' where r: "defn_register wd_name sample_definition ''t1'' True (empty_db 5) = (Inr sample_definition, s')"
    by (metis prod.collapse)
  have "defn_get (empty_db 5) (wd_workflow_id sample_definition) (wd_version sample_definition) ''t1'' = None"
    "wd_name sample_definition = ''Sample''"
    by code_simp+
  then show ?thesis using definition_registry_contract [OF ok r] ok r by (intro exI [of _ s']) simp
qed

end
