(* ===== verification/Ports.thy ===== *)
theory Ports
  imports Fold_Props
begin

text \<open>
  \<open>core/ports.py\<close>: the clock and the id generator that the engine is given, and the way
  every service builds an event draft from them. Both read a shared state; drawing an id
  changes it. Also the notifications a service may send.
\<close>

section \<open>Clocks and ids\<close>

record 's ports =
  pt_now :: "'s \<Rightarrow> instant"
  pt_new_id :: "'s \<Rightarrow> string \<times> 's"

definition new_id :: "'s ports \<Rightarrow> ('s, pexn, string) eff" where
  "new_id pt s = (case pt_new_id pt s of (i, s') \<Rightarrow> (Inr i, s'))"

definition now_of :: "'s ports \<Rightarrow> ('s, pexn, instant) eff" where
  "now_of pt s = (Inr (pt_now pt s), s)"

text \<open>\<open>FixedClock\<close> and \<open>SequentialIdGenerator\<close>, together the ports of a deterministic run.\<close>

record fixed_ports =
  fx_now :: instant
  fx_prefix :: string
  fx_counter :: nat

definition fixed_clock_tick :: "rat \<Rightarrow> fixed_ports \<Rightarrow> fixed_ports" where
  "fixed_clock_tick seconds f = f\<lparr>fx_now := fx_now f + timedelta_seconds seconds\<rparr>"

definition fixed_clock_set :: "instant \<Rightarrow> fixed_ports \<Rightarrow> fixed_ports" where
  "fixed_clock_set t f = f\<lparr>fx_now := t\<rparr>"

definition sequential_new_id :: "fixed_ports \<Rightarrow> string \<times> fixed_ports" where
  "sequential_new_id f =
     (fx_prefix f @ ''-'' @ show_nat (fx_counter f + 1), f\<lparr>fx_counter := fx_counter f + 1\<rparr>)"

definition fixed_ports_of :: "fixed_ports ports" where
  "fixed_ports_of = \<lparr>pt_now = fx_now, pt_new_id = sequential_new_id\<rparr>"

section \<open>Drafts\<close>

text \<open>
  An event draft: a fresh id, the current time and the placeholder sequence 1. Pydantic refuses a
  payload outside its field constraints.
\<close>

definition new_event ::
  "'s ports \<Rightarrow> string \<Rightarrow> string \<Rightarrow> instant option \<Rightarrow> event_body \<Rightarrow> ('s, pexn, event) eff" where
  "new_event pt iid tid at_time body s =
     (case pt_new_id pt s of (i, s') \<Rightarrow>
        if body_fields body
        then (Inr \<lparr>ev_event_id = i, ev_instance_id = iid, ev_tenant_id = tid, ev_sequence = 1,
                   ev_occurred_at = (case at_time of Some t \<Rightarrow> t | None \<Rightarrow> pt_now pt s'),
                   ev_body = body\<rparr>, s')
        else (Inl (PExn PydanticValidationError []), s'))"

text \<open>Running a list of computations in order.\<close>

fun esequence :: "('s, 'e, 'a) eff list \<Rightarrow> ('s, 'e, 'a list) eff" where
  "esequence [] = ereturn []"
| "esequence (m # ms) = ebind m (\<lambda>x. ebind (esequence ms) (\<lambda>xs. ereturn (x # xs)))"

text \<open>An exception known by its class, as one with an empty text; and a value that may raise.\<close>

definition lift_exn :: "('s, exn_class, 'a) eff \<Rightarrow> ('s, pexn, 'a) eff" where
  "lift_exn m s = (case m s of (Inl c, s') \<Rightarrow> (Inl (PExn c []), s') | (Inr x, s') \<Rightarrow> (Inr x, s'))"

definition lift_res :: "'a res \<Rightarrow> ('s, pexn, 'a) eff" where
  "lift_res r s = (case r of Inl c \<Rightarrow> (Inl (PExn c []), s) | Inr x \<Rightarrow> (Inr x, s))"

lemma lift_res_simps [simp]:
  "lift_res (Inr x) s = (Inr x, s)" "lift_res (Inl c) s = (Inl (PExn c []), s)"
  by (simp_all add: lift_res_def)

text \<open>What a draft is: its ids, its body, and nothing else of the state than an id drawn.\<close>

lemma new_event_Inr:
  assumes "new_event pt iid tid t body s = (Inr e, s')"
  shows "ev_instance_id e = iid \<and> ev_tenant_id e = tid \<and> ev_body e = body \<and> body_fields body"
  using assms by (auto simp: new_event_def split: prod.splits if_splits)

lemma esequence_Inr:
  assumes "esequence ms s = (Inr xs, s')"
  shows "length xs = length ms \<and>
    (\<forall>x \<in> set xs. \<exists>m \<in> set ms. \<exists>s1 s2. m s1 = (Inr x, s2))"
  using assms
proof (induction ms arbitrary: xs s)
  case (Cons m ms)
  then obtain x s1 ys where "m s = (Inr x, s1)" "esequence ms s1 = (Inr ys, s')" "xs = x # ys"
    by (auto simp: ebind_eq_Inr)
  then show ?case using Cons.IH by fastforce
qed auto

lemma esequence_map_Inr:
  assumes "esequence (map f bs) s = (Inr xs, s')"
  shows "list_all2 (\<lambda>b x. \<exists>s1 s2. f b s1 = (Inr x, s2)) bs xs"
  using assms
proof (induction bs arbitrary: xs s)
  case (Cons b bs)
  then obtain x s1 ys where "f b s = (Inr x, s1)" "esequence (map f bs) s1 = (Inr ys, s')" "xs = x # ys"
    by (auto simp: ebind_eq_Inr)
  then show ?case using Cons.IH by fastforce
qed auto

section \<open>Notifications\<close>

record notification =
  nt_channel :: string
  nt_subject :: string
  nt_body :: string
  nt_metadata :: obj

type_synonym 's notifier = "notification \<Rightarrow> ('s, pexn, unit) eff"

text \<open>\<open>MultiNotifier\<close>: an exception of one notifier does not stop the others.\<close>

fun multi_notify :: "'s notifier list \<Rightarrow> 's notifier" where
  "multi_notify [] note s = (Inr (), s)"
| "multi_notify (n # ns) note s =
     (case n note s of
        (Inl e, s') \<Rightarrow> if pexn_class e = PyCancelledError then (Inl e, s') else multi_notify ns note s'
      | (Inr _, s') \<Rightarrow> multi_notify ns note s')"

text \<open>\<open>WebhookNotifier\<close> over an HTTP client that may raise.\<close>

definition webhook_notify ::
  "(string, string) pydict \<Rightarrow> (string \<Rightarrow> obj \<Rightarrow> ('s, pexn, unit) eff) \<Rightarrow> 's notifier" where
  "webhook_notify endpoints post note s =
     (case dget endpoints (nt_channel note) of
        None \<Rightarrow> (Inr (), s)
      | Some url \<Rightarrow>
          (case post url [(''channel'', JStr (nt_channel note)), (''subject'', JStr (nt_subject note)),
                          (''body'', JStr (nt_body note)), (''metadata'', JObj (nt_metadata note))] s of
             (Inl e, s') \<Rightarrow> if pexn_class e = PyCancelledError then (Inl e, s') else (Inr (), s')
           | (Inr _, s') \<Rightarrow> (Inr (), s')))"

end
