(* ===== verification/Event_Effects.thy ===== *)
theory Event_Effects
  imports Fold_Props
begin

text \<open>
  What events do to the parts of the projection that planning reads: the
  workflow status, and the status, attempts and retry time of each step.
\<close>

type_synonym step_core = "step_status \<times> int \<times> instant option"

definition core_at :: "workflow_instance \<Rightarrow> string \<Rightarrow> step_core" where
  "core_at i sid = (ss_status (st_at i sid), ss_attempts (st_at i sid), ss_next_retry_at (st_at i sid))"

fun body_core :: "event_body \<Rightarrow> string \<Rightarrow> step_core \<Rightarrow> step_core" where
  "body_core (StepStatusChanged s f t r) sid (st, a, n) = (if s = sid then (t, a, n) else (st, a, n))"
| "body_core (StepStarted s att w m) sid (st, a, n) = (if s = sid then (ST_RUNNING, att, None) else (st, a, n))"
| "body_core (StepCompleted s att out m c tin tout ms) sid (st, a, n) = (if s = sid then (ST_COMPLETED, a, n) else (st, a, n))"
| "body_core (StepFailed s att et em b) sid (st, a, n) = (if s = sid then (ST_FAILED, a, n) else (st, a, n))"
| "body_core (StepRetryScheduled s att t) sid (st, a, n) = (if s = sid then (st, a, Some t) else (st, a, n))"
| "body_core (StepSkipped s r) sid (st, a, n) = (if s = sid then (ST_SKIPPED, a, n) else (st, a, n))"
| "body_core (StepCompensated s r) sid (st, a, n) = (if s = sid then (ST_COMPENSATED, a, n) else (st, a, n))"
| "body_core (EscalationRaised e s r rec cf op dl aa) sid (st, a, n) =
     (if s = sid \<and> s \<noteq> [] then (ST_WAITING_APPROVAL, a, n) else (st, a, n))"
| "body_core (WorkflowRequeued s b q) sid (st, a, n) = (if s = Some sid then (ST_READY, 0, None) else (st, a, n))"
| "body_core _ sid c = c"

fun body_status :: "event_body \<Rightarrow> workflow_status \<Rightarrow> workflow_status" where
  "body_status (InstanceStatusChanged f t r) w = t"
| "body_status (InstanceCompleted out) w = WF_COMPLETED"
| "body_status (InstanceFailed et em) w = WF_FAILED"
| "body_status (WorkflowRequeued s b q) w = WF_RUNNING"
| "body_status _ w = w"

lemma handler_core:
  assumes "handler defn i ev = Inr j"
  shows "core_at j sid = body_core (ev_body ev) sid (core_at i sid)"
  using assms
  by (cases "ev_body ev")
     (auto simp: core_at_def handler_def handler_nf handler_plain_defs Let_def py_simps
        set_workflow_status_Inr truthy_str_Some st_at_seed split: if_splits option.splits)

lemma handler_body_status:
  assumes "handler defn i ev = Inr j"
  shows "wi_status j = body_status (ev_body ev) (wi_status i)"
  using assms
  by (cases "ev_body ev")
     (auto simp: handler_def handler_nf handler_plain_defs Let_def py_simps
        set_workflow_status_Inr truthy_str_Some split: if_splits option.splits)

text \<open>The projection of a list of events with the given bodies onto an instance.\<close>

definition applies :: "workflow_definition option \<Rightarrow> workflow_instance \<Rightarrow> event_body list \<Rightarrow> workflow_instance \<Rightarrow> bool" where
  "applies d i bodies j \<longleftrightarrow> (\<exists>evs. map ev_body evs = bodies \<and> fold_events evs d (Some i) = Inr j)"

lemma applies_core:
  assumes "applies d i bodies j"
  shows "core_at j sid = foldl (\<lambda>c b. body_core b sid c) (core_at i sid) bodies"
proof -
  obtain evs where e: "map ev_body evs = bodies" "fold_events evs d (Some i) = Inr j"
    using assms by (auto simp: applies_def)
  have stamp: "core_at (k\<lparr>wi_updated_at := u, wi_version := v\<rparr>) sid = core_at k sid" for k u v
    by (simp add: core_at_def)
  have "core_at j sid = foldl (\<lambda>c b. body_core b sid c) (core_at i sid) (map ev_body evs)"
    by (rule fold_events_rel [OF e(2), where
          R = "\<lambda>es k. core_at k sid = foldl (\<lambda>c b. body_core b sid c) (core_at i sid) (map ev_body es)"])
      (auto dest: handler_core [where sid = sid] simp: stamp)
  then show ?thesis using e(1) by simp
qed

lemma applies_status:
  assumes "applies d i bodies j"
  shows "wi_status j = foldl (\<lambda>w b. body_status b w) (wi_status i) bodies"
proof -
  obtain evs where e: "map ev_body evs = bodies" "fold_events evs d (Some i) = Inr j"
    using assms by (auto simp: applies_def)
  have "wi_status j = foldl (\<lambda>w b. body_status b w) (wi_status i) (map ev_body evs)"
    by (rule fold_events_rel [OF e(2), where
          R = "\<lambda>es k. wi_status k = foldl (\<lambda>w b. body_status b w) (wi_status i) (map ev_body es)"])
      (auto dest: handler_body_status)
  then show ?thesis using e(1) by simp
qed

lemma applies_ids:
  "applies d i bodies j \<Longrightarrow> wi_instance_id j = wi_instance_id i \<and> wi_tenant_id j = wi_tenant_id i"
  by (auto simp: applies_def dest: fold_events_ids)

lemma applies_keys:
  "applies d i bodies j \<Longrightarrow> fst ` set (wi_step_states i) \<subseteq> fst ` set (wi_step_states j)"
  by (auto simp: applies_def dest!: fold_events_keys_grow)

lemma applies_Nil [simp]: "applies d i [] j \<longleftrightarrow> j = i"
  by (auto simp: applies_def)

lemma applies_append:
  assumes "applies d i b1 j" "applies d j b2 k"
  shows "applies d i (b1 @ b2) k"
proof -
  obtain e1 e2 where "map ev_body e1 = b1" "fold_events e1 d (Some i) = Inr j"
    "map ev_body e2 = b2" "fold_events e2 d (Some j) = Inr k"
    using assms by (auto simp: applies_def)
  then show ?thesis unfolding applies_def
    by (intro exI [of _ "e1 @ e2"]) (simp add: fold_events_append)
qed

text \<open>The escalations of a projection.\<close>

fun body_escs :: "event_body \<Rightarrow> escalation_ref list \<Rightarrow> escalation_ref list" where
  "body_escs (EscalationRaised e s r rec cf op dl aa) es =
     es @ [\<lparr>esc_escalation_id = e, esc_step_id = s, esc_reason = r, esc_deadline = dl, esc_resolved = False\<rparr>]"
| "body_escs (EscalationResolved e s r b m) es =
     map (\<lambda>x. if esc_escalation_id x = e then x\<lparr>esc_resolved := True\<rparr> else x) es"
| "body_escs (EscalationTimedOut e s a) es =
     map (\<lambda>x. if esc_escalation_id x = e then x\<lparr>esc_resolved := True\<rparr> else x) es"
| "body_escs _ es = es"

lemma handler_escs:
  assumes "handler defn i ev = Inr j"
  shows "wi_escalations j = body_escs (ev_body ev) (wi_escalations i)"
  using assms
  by (cases "ev_body ev")
     (auto simp: handler_def handler_nf handler_plain_defs Let_def py_simps resolve_escalation_def
        set_workflow_status_Inr truthy_str_Some split: if_splits option.splits)

lemma applies_escs:
  assumes "applies d i bodies j"
  shows "wi_escalations j = foldl (\<lambda>es b. body_escs b es) (wi_escalations i) bodies"
proof -
  obtain evs where e: "map ev_body evs = bodies" "fold_events evs d (Some i) = Inr j"
    using assms by (auto simp: applies_def)
  have "wi_escalations j = foldl (\<lambda>es b. body_escs b es) (wi_escalations i) (map ev_body evs)"
    by (rule fold_events_rel [OF e(2), where
          R = "\<lambda>es k. wi_escalations k = foldl (\<lambda>es b. body_escs b es) (wi_escalations i) (map ev_body es)"])
      (auto dest: handler_escs)
  then show ?thesis using e(1) by simp
qed

end
