(* ===== verification/Journal.thy ===== *)
theory Journal
  imports EventStore_Props Ports Event_Effects
begin

text \<open>
  Clients of an event journal (\<open>persistence/protocols.py\<close>): the driver, the escalation
  controller, the dead-letter queue and the operator controls all read a projection, draft
  events with fresh ids and append them at the version they read. The locale states what they
  rely on and shows what such an append does.
\<close>

section \<open>Sequences of drafts\<close>

lemma esequence_triple:
  assumes "list_all2 (\<lambda>m V. triple P m (\<lambda>r s. P s \<and> (\<forall>x. r = Inr x \<longrightarrow> V x))) ms Vs"
  shows "triple P (esequence ms) (\<lambda>r s. P s \<and> (\<forall>xs. r = Inr xs \<longrightarrow> list_all2 (\<lambda>V x. V x) Vs xs))"
  using assms
proof (induction rule: list_all2_induct)
  case Nil
  then show ?case by (auto simp: triple_def)
next
  case (Cons m ms V Vs)
  show ?case
  proof (rule tripleI)
    fix s r s' assume P: "P s" and run: "esequence (m # ms) s = (r, s')"
    from run have "ebind m (\<lambda>x. ebind (esequence ms) (\<lambda>xs. ereturn (x # xs))) s = (r, s')" by simp
    then show "P s' \<and> (\<forall>xs. r = Inr xs \<longrightarrow> list_all2 (\<lambda>V x. V x) (V # Vs) xs)"
    proof (cases rule: ebind_cases)
      case (raised e)
      then show ?thesis using tripleD [OF Cons(1) P] by auto
    next
      case (returned x t)
      have x: "P t" "V x" using tripleD [OF Cons(1) P returned(1)] by auto
      from returned(2) show ?thesis
      proof (cases rule: ebind_cases)
        case (raised e)
        then show ?thesis using tripleD [OF Cons(3) x(1)] by auto
      next
        case (returned xs u)
        then show ?thesis using tripleD [OF Cons(3) x(1) returned(1)] x(2) by auto
      qed
    qed
  qed
qed

lemma ebind_assoc: "ebind (ebind m f) k = ebind m (\<lambda>x. ebind (f x) k)"
  by (rule ext) (simp add: ebind_def split: prod.splits sum.splits)

lemma lift_res_triple:
  "(\<And>x. r = Inr x \<Longrightarrow> triple P (f x) Q) \<Longrightarrow> (\<And>c s. r = Inl c \<Longrightarrow> P s \<Longrightarrow> Q (Inl (PExn c [])) s) \<Longrightarrow>
   triple P (ebind (lift_res r) f) Q"
  by (cases r) (auto simp: triple_def ebind_def lift_res_def)

lemma now_ebind_triple:
  "(\<And>now. triple P (f now) Q) \<Longrightarrow> triple P (ebind (now_of pt) f) Q"
  by (auto simp: triple_def ebind_def now_of_def)

lemma list_all2_maps: "(\<And>x. P (f x) (g x)) \<Longrightarrow> list_all2 P (map f xs) (map g xs)"
  by (induction xs) simp_all

lemma sequenced_bodies: "map ev_body (sequenced v drafts) = map ev_body drafts"
  by (induction drafts arbitrary: v) (simp_all add: sequenced_Cons)

section \<open>What a client relies on\<close>

definition same_journal ::
  "('s \<Rightarrow> string \<Rightarrow> string \<Rightarrow> workflow_definition option \<Rightarrow> workflow_instance option res) \<Rightarrow>
   ('s \<Rightarrow> string \<Rightarrow> event list) \<Rightarrow> ('s \<Rightarrow> bool) \<Rightarrow> 's \<Rightarrow> 's \<Rightarrow> bool" where
  "same_journal get lg ok s s' \<longleftrightarrow> (ok s \<longrightarrow> ok s') \<and> lg s' = lg s \<and> get s' = get s"

definition extends :: "(string \<Rightarrow> event list) \<Rightarrow> (string \<Rightarrow> event list) \<Rightarrow> string \<Rightarrow> bool" where
  "extends L M iid \<longleftrightarrow> (\<exists>evs. M iid = L iid @ evs) \<and> (\<forall>j. j \<noteq> iid \<longrightarrow> M j = L j)"

fun created_body :: "event_body \<Rightarrow> bool" where
  "created_body (InstanceCreated _ _ _ _ _ _) = True"
| "created_body _ = False"

lemma is_created_body: "is_created e = created_body (ev_body e)"
  by (cases "ev_body e") (simp_all add: is_created_def)

lemma extends_refl [simp]: "extends L L iid"
  by (simp add: extends_def)

locale journal_client =
  event_journal append get lg ok
  for append :: "string \<Rightarrow> string \<Rightarrow> event list \<Rightarrow> nat \<Rightarrow> 'g option \<Rightarrow> instant option \<Rightarrow>
                 ('s, exn_class, nat \<times> event list) eff"
    and get :: "'s \<Rightarrow> string \<Rightarrow> string \<Rightarrow> workflow_definition option \<Rightarrow> workflow_instance option res"
    and lg :: "'s \<Rightarrow> string \<Rightarrow> event list" and ok :: "'s \<Rightarrow> bool" +
  fixes pt :: "'s ports"
  assumes get_id: "ok s \<Longrightarrow> get s iid tid defn = Inr (Some i) \<Longrightarrow> wi_instance_id i = iid"
    and ids_keep: "pt_new_id pt s = (i0, s') \<Longrightarrow> same_journal get lg ok s s'"
begin

text \<open>
  \<open>synced\<close>: the carried projection is the stored one and the logs grew only at the end of
  this instance's. \<open>consistent\<close>: what survives an exception.
\<close>

definition synced ::
  "workflow_definition option \<Rightarrow> string \<Rightarrow> string \<Rightarrow> (string \<Rightarrow> event list) \<Rightarrow> workflow_instance \<Rightarrow> 's \<Rightarrow> bool" where
  "synced d iid tid L i s \<longleftrightarrow> ok s \<and> get s iid tid d = Inr (Some i) \<and> extends L (lg s) iid"

definition consistent :: "string \<Rightarrow> (string \<Rightarrow> event list) \<Rightarrow> 's \<Rightarrow> bool" where
  "consistent iid L s \<longleftrightarrow> ok s \<and> extends L (lg s) iid"

lemma synced_consistent: "synced d iid tid L i s \<Longrightarrow> consistent iid L s"
  by (simp add: synced_def consistent_def)

lemma synced_same: "same_journal get lg ok s s' \<Longrightarrow> synced d iid tid L i s \<Longrightarrow> synced d iid tid L i s'"
  by (simp add: same_journal_def synced_def)

lemma synced_ids: "synced d iid tid L i s \<Longrightarrow> wi_instance_id i = iid \<and> wi_tenant_id i = tid"
  using get_id get_version by (auto simp: synced_def)

text \<open>Operations that keep the journal keep everything said about it.\<close>

lemma frame:
  assumes "\<And>s r s'. m s = (r, s') \<Longrightarrow> same_journal get lg ok s s'"
  shows "triple (synced d iid tid L i) m (\<lambda>r. synced d iid tid L i)"
  using assms synced_same unfolding triple_def by blast

lemma frame_ebind:
  assumes "\<And>s r s'. m s = (r, s') \<Longrightarrow> same_journal get lg ok s s'"
    and "\<And>x. triple (synced d iid tid L i) (f x) Q"
    and "\<And>e s. synced d iid tid L i s \<Longrightarrow> Q (Inl e) s"
  shows "triple (synced d iid tid L i) (ebind m f) Q"
  by (rule triple_ebind [where R = "\<lambda>_. synced d iid tid L i"])
    (rule triple_conseq [OF frame [OF assms(1)]], auto split: sum.splits simp: assms(2,3))

lemma new_id_triple: "triple (synced d iid tid L i) (new_id pt) (\<lambda>r. synced d iid tid L i)"
  by (rule frame) (auto simp: new_id_def split: prod.splits intro: ids_keep)

lemma now_triple: "triple (synced d iid tid L i) (now_of pt) (\<lambda>r. synced d iid tid L i)"
  by (rule frame) (auto simp: now_of_def same_journal_def)

lemma new_event_triple:
  "triple (synced d iid tid L i) (new_event pt j t when body)
     (\<lambda>r s. synced d iid tid L i s \<and> (\<forall>e. r = Inr e \<longrightarrow> ev_body e = body))"
proof (rule tripleI)
  fix s r s' assume i: "synced d iid tid L i s" and r: "new_event pt j t when body s = (r, s')"
  obtain x where "pt_new_id pt s = (x, s')"
    using r by (auto simp: new_event_def split: prod.splits if_splits)
  then have "synced d iid tid L i s'" using ids_keep synced_same i by blast
  moreover have "\<forall>e. r = Inr e \<longrightarrow> ev_body e = body" using r new_event_Inr by fastforce
  ultimately show "synced d iid tid L i s' \<and> (\<forall>e. r = Inr e \<longrightarrow> ev_body e = body)" by blast
qed

lemma new_events_triple:
  "triple (synced d iid tid L i) (esequence (map (new_event pt j t when) bodies))
     (\<lambda>r s. synced d iid tid L i s \<and> (\<forall>drafts. r = Inr drafts \<longrightarrow> map ev_body drafts = bodies))"
proof -
  have "list_all2 (\<lambda>m V. triple (synced d iid tid L i) m (\<lambda>r s. synced d iid tid L i s \<and> (\<forall>x. r = Inr x \<longrightarrow> V x)))
      (map (new_event pt j t when) bodies) (map (\<lambda>b e. ev_body e = b) bodies)"
    by (rule list_all2_maps) (rule new_event_triple)
  from esequence_triple [OF this] show ?thesis
    by (rule triple_conseq) (auto simp: list.rel_map list_all2_map1 list.rel_eq [symmetric] list_all2_conv_all_nth intro!: nth_equalityI)
qed

text \<open>A new projection reached by events with given bodies, or an exception.\<close>

definition moves ::
  "workflow_definition option \<Rightarrow> string \<Rightarrow> string \<Rightarrow> (string \<Rightarrow> event list) \<Rightarrow>
   (workflow_instance \<Rightarrow> bool) \<Rightarrow> pexn + workflow_instance \<Rightarrow> 's \<Rightarrow> bool" where
  "moves d iid tid L P r s \<longleftrightarrow>
     (case r of Inl e \<Rightarrow> consistent iid L s | Inr j \<Rightarrow> synced d iid tid L j s \<and> P j)"

lemma moves_mono:
  "(\<And>j. P j \<Longrightarrow> P' j) \<Longrightarrow> moves d iid tid L P r s \<Longrightarrow> moves d iid tid L P' r s"
  by (auto simp: moves_def split: sum.splits)

lemma moves_ebind:
  assumes "triple (synced d iid tid L i) m (moves d iid tid L P)"
    and "\<And>j. P j \<Longrightarrow> triple (synced d iid tid L j) (f j) Q"
    and "\<And>e s. consistent iid L s \<Longrightarrow> Q (Inl e) s"
  shows "triple (synced d iid tid L i) (ebind m f) Q"
proof (rule triple_ebind [where R = "\<lambda>j s. synced d iid tid L j s \<and> P j"])
  show "triple (synced d iid tid L i) m
      (\<lambda>r s. case r of Inl e \<Rightarrow> Q (Inl e) s | Inr j \<Rightarrow> synced d iid tid L j s \<and> P j)"
    by (rule triple_conseq [OF assms(1)]) (auto simp: moves_def assms(3) split: sum.splits)
  show "triple (\<lambda>s. synced d iid tid L j s \<and> P j) (f j) Q" for j
    using assms(2) [of j] by (auto simp: triple_def)
qed

text \<open>
  An append at the version of the stored projection: refused with nothing changed, or folded
  without error onto the projection that is stored then.
\<close>

lemma append_at_version:
  assumes sy: "synced d iid tid L i s" and dr: "drafts \<noteq> []" "list_all (\<lambda>e. \<not> is_created e) drafts"
    and ap: "append iid tid drafts (wi_version i) g w s = (r, s')"
  shows "case r of Inl e \<Rightarrow> s' = s
     | Inr (n, evs) \<Rightarrow> lg s' iid = lg s iid @ evs \<and> length evs = length drafts \<and>
         (\<exists>j. fold_events evs d (Some i) = Inr j \<and> synced d iid tid L j s' \<and> applies d i (map ev_body drafts) j)"
proof (cases r)
  case (Inl e)
  then show ?thesis using append_error [OF dr(1)] ap by simp
next
  case (Inr x)
  obtain n evs where x: "x = (n, evs)" by (cases x)
  have okg: "ok s" "get s iid tid d = Inr (Some i)" "extends L (lg s) iid" using sy by (auto simp: synced_def)
  have dok: "drafts_ok (wi_version i) drafts" using dr by (cases drafts) (auto simp: drafts_ok_def)
  note a = ap [unfolded Inr x]
  note law = append_ok [OF okg(1) dok a]
  obtain j where j: "fold_events evs d (Some i) = Inr j" "get s' iid tid d = Inr (Some j)"
    using get_extends [OF okg(1) dok okg(2) a] by blast
  have "map ev_body evs = map ev_body drafts" using law by (simp add: sequenced_bodies)
  then have "applies d i (map ev_body drafts) j" using j(1) unfolding applies_def by blast
  moreover have "extends L (lg s') iid" using law okg(3) by (auto simp: extends_def)
  ultimately show ?thesis using Inr x j law by (simp add: synced_def)
qed

end

end
