(* ===== verification/Actions.thy ===== *)
theory Actions
  imports Outbox
begin

text \<open>
  \<open>integrations/actions\<close>: what a side effect asks of an action provider, the provider
  protocol with its defaults, the registry and the no-op provider. A provider acts on the
  outside world, a state of any type, and may raise.
\<close>

record effect_request =
  rq_effect_name :: string
  rq_params :: obj
  rq_idempotency_key :: string
  rq_instance_id :: string
  rq_tenant_id :: string
  rq_step_id :: string

record effect_result =
  ef_ok :: bool
  ef_data :: obj
  ef_provider_ref :: "string option"
  ef_error :: "string option"

record 'w action_provider =
  ap_supports_idempotency_key :: "string \<Rightarrow> bool"
  ap_execute :: "effect_request \<Rightarrow> ('w, pexn, effect_result) eff"
  ap_reconcile :: "effect_request \<Rightarrow> ('w, pexn, effect_result option) eff"
  ap_compensate :: "effect_request \<Rightarrow> effect_result \<Rightarrow> ('w, pexn, effect_result option) eff"

text \<open>\<open>BaseActionProvider\<close>: the defaults a provider inherits.\<close>

definition base_action_provider :: "'w action_provider" where
  "base_action_provider =
     \<lparr>ap_supports_idempotency_key = (\<lambda>_. False),
      ap_execute = (\<lambda>_. ethrow (PExn (OtherException ''NotImplementedError'') '''')),
      ap_reconcile = (\<lambda>_. ereturn None),
      ap_compensate = (\<lambda>_ _. ereturn None)\<rparr>"

type_synonym 'w provider_registry = "(string, 'w action_provider) pydict"

definition register_provider ::
  "string \<Rightarrow> 'w action_provider \<Rightarrow> 'w provider_registry \<Rightarrow> 'w provider_registry" where
  "register_provider name p reg = dset name p reg"

definition get_provider :: "'w provider_registry \<Rightarrow> string \<Rightarrow> pexn + 'w action_provider" where
  "get_provider reg name =
     (case dget reg name of
        Some p \<Rightarrow> Inr p
      | None \<Rightarrow> Inl (PExn ConfigurationError
                  (''no action provider registered as '' @ py_repr name)))"

text \<open>\<open>NoopActionProvider\<close>: its world is the list of calls it has recorded.\<close>

definition noop_action_provider :: "effect_request list action_provider" where
  "noop_action_provider = base_action_provider
     \<lparr>ap_supports_idempotency_key := (\<lambda>_. True),
      ap_execute := (\<lambda>req calls.
        (Inr \<lparr>ef_ok = True, ef_data = [(''noop'', JBool True)],
              ef_provider_ref = Some (rq_idempotency_key req), ef_error = None\<rparr>,
         calls @ [req]))\<rparr>"

text \<open>
  What the guard relies on, as \<open>ActionProvider\<close> documents it. \<open>landed k w\<close> counts how often the
  action with key \<open>k\<close> has happened in the world. An execution acts at most once and only
  for its own key, does nothing when the provider honours keys and the action has already
  happened, and has happened when the provider says so. Reconciling and compensating do not
  perform the action again. A result of \<open>reconcile\<close> that says ok means that the action has
  happened; \<open>None\<close> means unknown, and nothing is assumed of it.
\<close>

locale effect_provider =
  fixes landed :: "string \<Rightarrow> 'w \<Rightarrow> nat"
    and p :: "'w action_provider"
  assumes execute_law: "ap_execute p req w = (r, w') \<Longrightarrow>
      landed k w' =
        landed k w \<or>
      k = rq_idempotency_key req \<and> landed k w' = Suc (landed k w) \<and>
        \<not> (ap_supports_idempotency_key p (rq_effect_name req) \<and> 0 < landed k w)"
    and execute_ok: "ap_execute p req w = (Inr x, w') \<Longrightarrow> ef_ok x \<Longrightarrow>
      0 < landed (rq_idempotency_key req) w'"
    and reconcile_law: "ap_reconcile p req w = (q, w') \<Longrightarrow> landed k w' = landed k w"
    and reconcile_found: "ap_reconcile p req w = (Inr (Some z), w') \<Longrightarrow> ef_ok z \<Longrightarrow>
      0 < landed (rq_idempotency_key req) w"
    and compensate_law: "ap_compensate p req ex w = (c, w') \<Longrightarrow> landed k w' = landed k w"

text \<open>The no-op provider: an action has happened once its key has been recorded.\<close>

definition noop_landed :: "string \<Rightarrow> effect_request list \<Rightarrow> nat" where
  "noop_landed k calls = (if k \<in> rq_idempotency_key ` set calls then 1 else 0)"

interpretation noop: effect_provider noop_landed noop_action_provider
  by unfold_locales
    (auto simp: noop_action_provider_def base_action_provider_def noop_landed_def split: option.splits)

end
