(* ===== verification/SideEffects.thy ===== *)
theory SideEffects
  imports Actions
begin

text \<open>
  \<open>core/side_effects.py\<close>: the guard that claims an outbox entry, calls the provider and
  records the result. The state is a pair of the outbox state and the outside world, so a
  provider cannot touch the outbox. \<open>execute\<close> is cut at its awaits (claim, call, record), which
  is where a process can die.
\<close>

datatype effect_status = EffPending | EffExecuted | EffFailed | EffCompensated

fun effect_status_value :: "effect_status \<Rightarrow> string" where
  "effect_status_value EffPending = ''pending''"
| "effect_status_value EffExecuted = ''executed''"
| "effect_status_value EffFailed = ''failed''"
| "effect_status_value EffCompensated = ''compensated''"

record effect_outcome =
  eo_idempotency_key :: string
  eo_effect_name :: string
  eo_step_id :: string
  eo_params :: obj
  eo_result :: effect_result
  eo_deduplicated :: bool
  eo_guarantee :: string

text \<open>The guard's collaborators. The digest (SHA-256 over canonical JSON) is a parameter.\<close>

record ('o, 'w) side_effect_guard =
  sg_claim :: "outbox_entry \<Rightarrow> ('o, pexn, outbox_entry) eff"
  sg_mark :: "string \<Rightarrow> mark_field list \<Rightarrow> ('o, pexn, unit) eff"
  sg_list :: "string \<Rightarrow> string \<Rightarrow> string option \<Rightarrow> ('o, pexn, outbox_entry list) eff"
  sg_providers :: "'w provider_registry"
  sg_digest :: "json \<Rightarrow> string"
  sg_now :: "'o \<Rightarrow> instant"

text \<open>The arguments of \<open>execute\<close>.\<close>

record effect_args =
  ea_instance_id :: string
  ea_tenant_id :: string
  ea_step_id :: string
  ea_effect_name :: string
  ea_params :: obj
  ea_provider_name :: string

definition on_outbox :: "('o, 'e, 'a) eff \<Rightarrow> ('o \<times> 'w, 'e, 'a) eff" where
  "on_outbox m s = (case m (fst s) of (r, o') \<Rightarrow> (r, (o', snd s)))"

definition on_world :: "('w, 'e, 'a) eff \<Rightarrow> ('o \<times> 'w, 'e, 'a) eff" where
  "on_world m s = (case m (snd s) of (r, w') \<Rightarrow> (r, (fst s, w')))"

definition idempotency_key ::
  "(json \<Rightarrow> string) \<Rightarrow> string \<Rightarrow> string \<Rightarrow> string \<Rightarrow> obj \<Rightarrow> string" where
  "idempotency_key dig instance_id step_id effect_name params =
     dig (JObj [(''instance_id'', JStr instance_id), (''step_id'', JStr step_id),
                (''effect_name'', JStr effect_name), (''params'', JObj params)])"

definition key_of :: "('o, 'w) side_effect_guard \<Rightarrow> effect_args \<Rightarrow> string" where
  "key_of g a = idempotency_key (sg_digest g) (ea_instance_id a) (ea_step_id a)
     (ea_effect_name a) (ea_params a)"

definition request_of :: "('o, 'w) side_effect_guard \<Rightarrow> effect_args \<Rightarrow> effect_request" where
  "request_of g a =
     \<lparr>rq_effect_name = ea_effect_name a, rq_params = ea_params a,
      rq_idempotency_key = key_of g a, rq_instance_id = ea_instance_id a,
      rq_tenant_id = ea_tenant_id a, rq_step_id = ea_step_id a\<rparr>"

definition guarantee_of :: "bool \<Rightarrow> string" where
  "guarantee_of supports_key = (if supports_key then ''exactly_once'' else ''at_least_once_dedup'')"

section \<open>Execution\<close>

definition claim_entry :: "('o, 'w) side_effect_guard \<Rightarrow> effect_args \<Rightarrow> bool \<Rightarrow> outbox_entry" where
  "claim_entry g a supports_key =
     \<lparr>oe_idempotency_key = key_of g a, oe_instance_id = ea_instance_id a,
      oe_tenant_id = ea_tenant_id a, oe_step_id = ea_step_id a,
      oe_effect_name = ea_effect_name a, oe_provider = ea_provider_name a,
      oe_params = ea_params a, oe_guarantee = guarantee_of supports_key,
      oe_status = ''pending'', oe_attempts = 0, oe_result = None, oe_provider_ref = None,
      oe_error = None, oe_compensation_status = None\<rparr>"

definition dedup_outcome :: "('o, 'w) side_effect_guard \<Rightarrow> effect_args \<Rightarrow> outbox_entry \<Rightarrow> effect_outcome" where
  "dedup_outcome g a row =
     \<lparr>eo_idempotency_key = key_of g a, eo_effect_name = ea_effect_name a,
      eo_step_id = ea_step_id a, eo_params = ea_params a,
      eo_result = \<lparr>ef_ok = True, ef_data = (case oe_result row of None \<Rightarrow> [] | Some x \<Rightarrow> x),
                   ef_provider_ref = oe_provider_ref row, ef_error = None\<rparr>,
      eo_deduplicated = True, eo_guarantee = oe_guarantee row\<rparr>"

text \<open>Reconcile first when an earlier attempt may have landed, then execute.\<close>

definition call_provider ::
  "'w action_provider \<Rightarrow> effect_request \<Rightarrow> bool \<Rightarrow> ('w, pexn, effect_result) eff" where
  "call_provider p req resuming =
     ebind (if resuming \<and> \<not> ap_supports_idempotency_key p (rq_effect_name req)
            then ap_reconcile p req else ereturn None)
       (\<lambda>result. case result of None \<Rightarrow> ap_execute p req | Some x \<Rightarrow> ereturn x)"

text \<open>\<open>except Exception\<close> lets a cancellation through.\<close>

definition is_exception :: "pexn \<Rightarrow> bool" where
  "is_exception e \<longleftrightarrow> pexn_class e \<noteq> PyCancelledError"

definition record_outcome ::
  "('o, 'w) side_effect_guard \<Rightarrow> effect_args \<Rightarrow> bool \<Rightarrow> pexn + effect_result \<Rightarrow>
   ('o, pexn, effect_outcome) eff" where
  "record_outcome g a supports_key res s =
     (case res of
        Inl exc \<Rightarrow>
          if is_exception exc then
            ebind (sg_mark g (key_of g a)
                     [MStatus ''failed'', MError (Some (pexn_text exc)), MUpdatedAt (sg_now g s)])
              (\<lambda>_. ethrow (PExn SideEffectError
                     (''effect '' @ ea_effect_name a @ '' raised: '' @ pexn_text exc))) s
          else (Inl exc, s)
      | Inr result \<Rightarrow>
          if \<not> ef_ok result then
            ebind (sg_mark g (key_of g a)
                     [MStatus ''failed'', MError (ef_error result), MUpdatedAt (sg_now g s)])
              (\<lambda>_. ethrow (PExn SideEffectError
                     (''effect '' @ ea_effect_name a @ '' returned not-ok: '' @ show_opt (ef_error result)))) s
          else
            ebind (sg_mark g (key_of g a)
                     [MStatus ''executed'', MResult (Some (ef_data result)),
                      MProviderRef (ef_provider_ref result), MError None, MUpdatedAt (sg_now g s)])
              (\<lambda>_. ereturn
                 \<lparr>eo_idempotency_key = key_of g a, eo_effect_name = ea_effect_name a,
                  eo_step_id = ea_step_id a, eo_params = ea_params a, eo_result = result,
                  eo_deduplicated = False, eo_guarantee = guarantee_of supports_key\<rparr>) s)"

definition after_claim ::
  "('o, 'w) side_effect_guard \<Rightarrow> effect_args \<Rightarrow> 'w action_provider \<Rightarrow> outbox_entry \<Rightarrow>
   ('o \<times> 'w, pexn, effect_outcome) eff" where
  "after_claim g a p row =
     (if oe_status row = ''executed'' then ereturn (dedup_outcome g a row)
      else if oe_status row = ''compensated'' then
        ethrow (PExn SideEffectError (''effect '' @ ea_effect_name a @ '' ('' @ key_of g a @
          '') was already compensated''))
      else ebind (etry (on_world (call_provider p (request_of g a) (1 < oe_attempts row))))
             (\<lambda>res. on_outbox (record_outcome g a
                (ap_supports_idempotency_key p (ea_effect_name a)) res)))"

definition execute ::
  "('o, 'w) side_effect_guard \<Rightarrow> effect_args \<Rightarrow> ('o \<times> 'w, pexn, effect_outcome) eff" where
  "execute g a =
     (case get_provider (sg_providers g) (ea_provider_name a) of
        Inl e \<Rightarrow> ethrow e
      | Inr p \<Rightarrow>
          ebind (on_outbox (sg_claim g (claim_entry g a (ap_supports_idempotency_key p (ea_effect_name a)))))
            (after_claim g a p))"

section \<open>Compensation\<close>

definition compensate_request :: "string \<Rightarrow> string \<Rightarrow> outbox_entry \<Rightarrow> effect_request" where
  "compensate_request instance_id tenant_id row =
     \<lparr>rq_effect_name = oe_effect_name row, rq_params = oe_params row,
      rq_idempotency_key = oe_idempotency_key row, rq_instance_id = instance_id,
      rq_tenant_id = tenant_id, rq_step_id = oe_step_id row\<rparr>"

definition compensated_outcome :: "outbox_entry \<Rightarrow> effect_result option \<Rightarrow> effect_outcome" where
  "compensated_outcome row undo =
     \<lparr>eo_idempotency_key = oe_idempotency_key row, eo_effect_name = oe_effect_name row,
      eo_step_id = oe_step_id row, eo_params = oe_params row,
      eo_result = (case undo of Some c \<Rightarrow> c
        | None \<Rightarrow> \<lparr>ef_ok = True, ef_data = [], ef_provider_ref = None, ef_error = None\<rparr>),
      eo_deduplicated = False, eo_guarantee = oe_guarantee row\<rparr>"

definition compensate_row ::
  "('o, 'w) side_effect_guard \<Rightarrow> string \<Rightarrow> string \<Rightarrow> outbox_entry \<Rightarrow>
   ('o \<times> 'w, pexn, effect_outcome) eff" where
  "compensate_row g instance_id tenant_id row =
     (case get_provider (sg_providers g) (oe_provider row) of
        Inl e \<Rightarrow> ethrow e
      | Inr p \<Rightarrow>
          ebind (etry (on_world (ap_compensate p (compensate_request instance_id tenant_id row)
              \<lparr>ef_ok = True, ef_data = (case oe_result row of None \<Rightarrow> [] | Some x \<Rightarrow> x),
               ef_provider_ref = oe_provider_ref row, ef_error = None\<rparr>)))
            (\<lambda>res. on_outbox (\<lambda>s. case res of
                Inl exc \<Rightarrow>
                  if is_exception exc then
                    ebind (sg_mark g (oe_idempotency_key row)
                        [MCompensationStatus (Some ''failed''), MError (Some (pexn_text exc)),
                         MUpdatedAt (sg_now g s)])
                      (\<lambda>_. ethrow (PExn CompensationError
                        (''compensation for '' @ oe_effect_name row @ '' failed: '' @ pexn_text exc))) s
                  else (Inl exc, s)
              | Inr undo \<Rightarrow>
                  ebind (sg_mark g (oe_idempotency_key row)
                      [MStatus ''compensated'', MCompensationStatus (Some ''done''),
                       MUpdatedAt (sg_now g s)])
                    (\<lambda>_. ereturn (compensated_outcome row undo)) s)))"

fun compensate_rows ::
  "('o, 'w) side_effect_guard \<Rightarrow> string \<Rightarrow> string \<Rightarrow> outbox_entry list \<Rightarrow> effect_outcome list \<Rightarrow>
   ('o \<times> 'w, pexn, effect_outcome list) eff" where
  "compensate_rows g iid tid [] undone = ereturn undone"
| "compensate_rows g iid tid (row # rows) undone =
     ebind (compensate_row g iid tid row) (\<lambda>out. compensate_rows g iid tid rows (undone @ [out]))"

definition compensate_instance ::
  "('o, 'w) side_effect_guard \<Rightarrow> string \<Rightarrow> string \<Rightarrow>
   ('o \<times> 'w, pexn, effect_outcome list) eff" where
  "compensate_instance g instance_id tenant_id =
     ebind (on_outbox (sg_list g instance_id tenant_id (Some ''executed'')))
       (\<lambda>rows. compensate_rows g instance_id tenant_id (rev rows) [])"

definition list_effects ::
  "('o, 'w) side_effect_guard \<Rightarrow> string \<Rightarrow> string \<Rightarrow> ('o \<times> 'w, pexn, outbox_entry list) eff" where
  "list_effects g instance_id tenant_id = on_outbox (sg_list g instance_id tenant_id None)"

section \<open>Attempts that may die\<close>

text \<open>
  Sequences of guard operations, each of which runs to its end or dies at one of its awaits:
  right after the claim, after reconciling, after the provider was called and before the
  outcome is recorded, or part way through a compensation. A later operation starts from what
  was left behind.
\<close>

definition claim_step ::
  "('o, 'w) side_effect_guard \<Rightarrow> effect_args \<Rightarrow> 'w action_provider \<Rightarrow> ('o \<times> 'w, pexn, outbox_entry) eff" where
  "claim_step g a p =
     on_outbox (sg_claim g (claim_entry g a (ap_supports_idempotency_key p (ea_effect_name a))))"

inductive effect_run :: "('o, 'w) side_effect_guard \<Rightarrow> 'o \<times> 'w \<Rightarrow> 'o \<times> 'w \<Rightarrow> bool"
  for g :: "('o, 'w) side_effect_guard" and s0 :: "'o \<times> 'w" where
  start: "effect_run g s0 s0"
| ran: "effect_run g s0 s \<Longrightarrow> execute g a s = (r, s') \<Longrightarrow> effect_run g s0 s'"
| died_after_claim: "effect_run g s0 s \<Longrightarrow> get_provider (sg_providers g) (ea_provider_name a) = Inr p \<Longrightarrow>
    claim_step g a p s = (r', s') \<Longrightarrow> effect_run g s0 s'"
| died_after_reconcile: "effect_run g s0 s \<Longrightarrow> get_provider (sg_providers g) (ea_provider_name a) = Inr p \<Longrightarrow>
    claim_step g a p s = (Inr row, s1) \<Longrightarrow> on_world (ap_reconcile p (request_of g a)) s1 = (q, s') \<Longrightarrow>
    effect_run g s0 s'"
| died_after_call: "effect_run g s0 s \<Longrightarrow> get_provider (sg_providers g) (ea_provider_name a) = Inr p \<Longrightarrow>
    claim_step g a p s = (Inr row, s1) \<Longrightarrow> oe_status row \<noteq> ''executed'' \<Longrightarrow>
    oe_status row \<noteq> ''compensated'' \<Longrightarrow>
    on_world (call_provider p (request_of g a) (1 < oe_attempts row)) s1 = (c, s') \<Longrightarrow>
    effect_run g s0 s'"
| compensated: "effect_run g s0 s \<Longrightarrow> on_outbox (sg_list g iid tid (Some ''executed'')) s = (Inr rows, s1) \<Longrightarrow>
    compensate_rows g iid tid (take n (rev rows)) [] s1 = (u, s') \<Longrightarrow> effect_run g s0 s'"
| died_compensating: "effect_run g s0 s \<Longrightarrow> get_provider (sg_providers g) name = Inr p \<Longrightarrow>
    on_world (ap_compensate p req ex) s = (v, s') \<Longrightarrow> effect_run g s0 s'"

text \<open>
  An action whose repetition the guard can always prevent: every provider that may be asked for it
  honours idempotency keys for it, or never answers an attempt to reconcile it with unknown after it
  has happened. The second is more than a provider has to promise.
\<close>

definition safely_resumed :: "(string \<Rightarrow> 'w \<Rightarrow> nat) \<Rightarrow> ('o, 'w) side_effect_guard \<Rightarrow> string \<Rightarrow> bool" where
  "safely_resumed landed g k \<longleftrightarrow>
     (\<forall>a p. key_of g a = k \<longrightarrow> get_provider (sg_providers g) (ea_provider_name a) = Inr p \<longrightarrow>
        ap_supports_idempotency_key p (ea_effect_name a) \<or>
        (\<forall>w w'. ap_reconcile p (request_of g a) w = (Inr None, w') \<longrightarrow> landed k w = 0))"

text \<open>
  No action has happened more often than it was tried, and one that was never claimed has not
  happened; one recorded as executed has. An entry has been tried at least once. An action whose
  repetition can be prevented has not happened twice.
\<close>

definition entry_once :: "(string \<Rightarrow> bool) \<Rightarrow> (string \<Rightarrow> nat) \<Rightarrow> outbox_entry list \<Rightarrow> string \<Rightarrow> bool" where
  "entry_once once n es k \<longleftrightarrow> (once k \<longrightarrow> n k \<le> 1) \<and>
     (case entry_of es k of None \<Rightarrow> n k = 0
      | Some e \<Rightarrow> 1 \<le> oe_attempts e \<and> int (n k) \<le> oe_attempts e \<and> (oe_status e = ''executed'' \<longrightarrow> 0 < n k))"

text \<open>A guard over a store: what compensation does to the entries, whatever the providers do.\<close>

definition undone_entry :: "outbox_entry \<Rightarrow> outbox_entry" where
  "undone_entry e = e\<lparr>oe_status := ''compensated'', oe_compensation_status := Some ''done''\<rparr>"

definition undo_keys :: "string set \<Rightarrow> outbox_entry list \<Rightarrow> outbox_entry list" where
  "undo_keys ks es = map (\<lambda>e. if oe_idempotency_key e \<in> ks then undone_entry e else e) es"

lemma undone_entry_key [simp]: "oe_idempotency_key (undone_entry e) = oe_idempotency_key e"
  by (simp add: undone_entry_def)

lemma undone_entry_twice [simp]: "undone_entry (undone_entry e) = undone_entry e"
  by (simp add: undone_entry_def)

lemma undo_keys_insert: "undo_keys ks (undo_keys {k} es) = undo_keys (insert k ks) es"
  by (simp add: undo_keys_def)

locale guarded_outbox =
  outbox_store "sg_claim g" "sg_mark g" "sg_list g" entries ok
  for g :: "('o, 'w) side_effect_guard" and entries :: "'o \<Rightarrow> outbox_entry list" and ok :: "'o \<Rightarrow> bool"
begin

lemma compensate_row_entries:
  assumes "ok (fst s)" "compensate_row g iid tid row s = (Inr out, s')"
  shows "ok (fst s') \<and> entries (fst s') = undo_keys {oe_idempotency_key row} (entries (fst s)) \<and>
    eo_idempotency_key out = oe_idempotency_key row"
proof -
  let ?key = "oe_idempotency_key row"
  from assms(2) obtain p undo w o' where
    m: "sg_mark g ?key [MStatus ''compensated'', MCompensationStatus (Some ''done''),
        MUpdatedAt (sg_now g (fst s))] (fst s) = (Inr (), o')"
    and s': "s' = (o', w)" and out: "out = compensated_outcome row undo"
    by (auto simp: compensate_row_def on_world_def on_outbox_def ebind_eq_Inr etry_def ebind_def
        split: sum.splits prod.splits if_splits)
  have "ok o' \<and> entries o' = marked ?key [MStatus ''compensated'', MCompensationStatus (Some ''done''),
        MUpdatedAt (sg_now g (fst s))] (entries (fst s))"
    using mark_ok [OF assms(1) m] by simp
  moreover have "marked ?key [MStatus ''compensated'', MCompensationStatus (Some ''done''),
        MUpdatedAt t] es = undo_keys {?key} es" for t es
    by (simp add: marked_def undo_keys_def set_fields_def undone_entry_def)
  ultimately show ?thesis using s' out by (simp add: compensated_outcome_def)
qed

lemma compensate_rows_entries:
  assumes "ok (fst s)" "compensate_rows g iid tid rows undone s = (Inr outs, s')"
  shows "ok (fst s') \<and> entries (fst s') = undo_keys (oe_idempotency_key ` set rows) (entries (fst s)) \<and>
    map eo_idempotency_key outs = map eo_idempotency_key undone @ map oe_idempotency_key rows"
  using assms
proof (induction rows arbitrary: undone s)
  case Nil
  then show ?case by (auto simp: undo_keys_def)
next
  case (Cons row rows)
  then obtain out t where
    r: "compensate_row g iid tid row s = (Inr out, t)"
      "compensate_rows g iid tid rows (undone @ [out]) t = (Inr outs, s')"
    by (auto simp: ebind_eq_Inr)
  from compensate_row_entries [OF Cons.prems(1) r(1)] Cons.IH [OF _ r(2)]
  show ?case by (simp add: undo_keys_insert)
qed

lemma compensate_entries:
  assumes "ok (fst s)" "compensate_instance g iid tid s = (Inr outs, s')"
    and es: "es = filter (\<lambda>e. oe_instance_id e = iid \<and> oe_tenant_id e = tid \<and> oe_status e = ''executed'') (entries (fst s))"
  shows "ok (fst s')" "map eo_idempotency_key outs = rev (map oe_idempotency_key es)"
    "entries (fst s') = map (\<lambda>e. if e \<in> set es then undone_entry e else e) (entries (fst s))"
proof -
  let ?rows = "rev es"
  have "compensate_rows g iid tid ?rows [] s = (Inr outs, s')"
    using assms(2) list_ok [OF assms(1), of iid tid "Some ''executed''"] es
    by (simp add: compensate_instance_def ebind_def on_outbox_def)
  note r = compensate_rows_entries [OF assms(1) this]
  show "ok (fst s')" using r by blast
  show "map eo_idempotency_key outs = rev (map oe_idempotency_key es)" using r by (simp add: rev_map)
  have "oe_idempotency_key e \<in> oe_idempotency_key ` set es \<longleftrightarrow> e \<in> set es" if "e \<in> set (entries (fst s))" for e
    using keys_distinct [OF assms(1)] that es by (auto simp: distinct_map dest: inj_onD)
  then show "entries (fst s') = map (\<lambda>e. if e \<in> set es then undone_entry e else e) (entries (fst s))"
    using r by (auto simp: undo_keys_def)
qed

end

text \<open>What the stores and the providers promise, taken together.\<close>

locale effect_guard = guarded_outbox g entries ok
  for g :: "('o, 'w) side_effect_guard" and entries :: "'o \<Rightarrow> outbox_entry list" and ok :: "'o \<Rightarrow> bool" +
  fixes landed :: "string \<Rightarrow> 'w \<Rightarrow> nat"
  assumes providers: "(n, p) \<in> set (sg_providers g) \<Longrightarrow> effect_provider landed p"
begin

lemma provider_once: "get_provider (sg_providers g) name = Inr p \<Longrightarrow> effect_provider landed p"
  using providers by (auto simp: get_provider_def dest!: dget_Some_in split: option.splits)

text \<open>One call of a provider: what it may do to the key of its request, and when it may not act at all.\<close>

lemma call_provider_landed:
  assumes p: "effect_provider landed p" and c: "call_provider p req resuming w = (r, w')"
    and fresh: "\<not> resuming \<Longrightarrow> landed (rq_idempotency_key req) w = 0"
  shows "j \<noteq> rq_idempotency_key req \<Longrightarrow> landed j w' = landed j w"
    and "landed (rq_idempotency_key req) w' \<le> Suc (landed (rq_idempotency_key req) w)"
    and "landed (rq_idempotency_key req) w \<le> landed (rq_idempotency_key req) w'"
    and "r = Inr x \<Longrightarrow> ef_ok x \<Longrightarrow> 0 < landed (rq_idempotency_key req) w'"
    and "landed (rq_idempotency_key req) w \<le> 1 \<Longrightarrow> ap_supports_idempotency_key p (rq_effect_name req) \<or>
      (\<forall>w w'. ap_reconcile p req w = (Inr None, w') \<longrightarrow> landed (rq_idempotency_key req) w = 0) \<Longrightarrow>
      landed (rq_idempotency_key req) w' \<le> 1"
proof -
  let ?k = "rq_idempotency_key req" and ?sup = "ap_supports_idempotency_key p (rq_effect_name req)"
  let ?sure = "?sup \<or> (\<forall>w w'. ap_reconcile p req w = (Inr None, w') \<longrightarrow> landed ?k w = 0)"
  let ?goal = "\<lambda>v. (j \<noteq> ?k \<longrightarrow> landed j w' = landed j v) \<and> landed ?k w' \<le> Suc (landed ?k v) \<and> landed ?k v \<le> landed ?k w' \<and>
      (r = Inr x \<longrightarrow> ef_ok x \<longrightarrow> 0 < landed ?k w')"
  have run: "?goal v \<and> (landed ?k v \<le> 1 \<longrightarrow> ?sup \<or> landed ?k v = 0 \<longrightarrow> landed ?k w' \<le> 1)"
    if "ap_execute p req v = (r, w')" for v
  proof -
    have "landed ?k w' = landed ?k v \<or> landed ?k w' = Suc (landed ?k v) \<and> \<not> (?sup \<and> 0 < landed ?k v)"
      using effect_provider.execute_law [OF p that, of ?k] by blast
    moreover have "j \<noteq> ?k \<longrightarrow> landed j w' = landed j v"
      using effect_provider.execute_law [OF p that, of j] by blast
    moreover have "r = Inr x \<longrightarrow> ef_ok x \<longrightarrow> 0 < landed ?k w'"
      using effect_provider.execute_ok [OF p] that by blast
    ultimately show ?thesis by auto
  qed
  have "?goal w \<and> (landed ?k w \<le> 1 \<longrightarrow> ?sure \<longrightarrow> landed ?k w' \<le> 1)"
  proof (cases "resuming \<and> \<not> ?sup")
    case False
    then have "ap_execute p req w = (r, w')" using c unfolding call_provider_def if_not_P [OF False] by simp
    then show ?thesis using run [of w] False fresh by auto
  next
    case True
    then have "ebind (ap_reconcile p req)
        (\<lambda>result. case result of None \<Rightarrow> ap_execute p req | Some x \<Rightarrow> ereturn x) w = (r, w')"
      using c True by (simp add: call_provider_def)
    then show ?thesis
    proof (cases rule: ebind_cases)
      case (raised e)
      then show ?thesis using effect_provider.reconcile_law [OF p raised(1)] by simp
    next
      case (returned y v)
      have same: "landed i v = landed i w" for i by (rule effect_provider.reconcile_law [OF p returned(1)])
      show ?thesis
      proof (cases y)
        case None
        then have ex: "ap_execute p req v = (r, w')" using returned(2) by simp
        have "?sure \<longrightarrow> ?sup \<or> landed ?k w = 0" using returned(1) unfolding None by metis
        then show ?thesis using run [OF ex] same by auto
      next
        case (Some z)
        then have "r = Inr z" "w' = v" using returned(2) by simp_all
        then show ?thesis using effect_provider.reconcile_found [OF p] returned(1) same Some by auto
      qed
    qed
  qed
  then show "j \<noteq> ?k \<Longrightarrow> landed j w' = landed j w" "landed ?k w' \<le> Suc (landed ?k w)" "landed ?k w \<le> landed ?k w'"
    "r = Inr x \<Longrightarrow> ef_ok x \<Longrightarrow> 0 < landed ?k w'" "landed ?k w \<le> 1 \<Longrightarrow> ?sure \<Longrightarrow> landed ?k w' \<le> 1"
    by blast+
qed

text \<open>The invariant of a run.\<close>

abbreviation inv :: "'o \<times> 'w \<Rightarrow> bool" where
  "inv s \<equiv> ok (fst s) \<and> (\<forall>k. entry_once (safely_resumed landed g) (\<lambda>k. landed k (snd s)) (entries (fst s)) k)"

lemma claim_inv:
  assumes i: "inv s" and c: "claim_step g a p s = (r, s')"
  shows "inv s'" "snd s' = snd s"
    "r = Inr row \<Longrightarrow> entry_of (entries (fst s')) (key_of g a) = Some row"
    "r = Inr row \<Longrightarrow> int (landed (key_of g a) (snd s')) < oe_attempts row"
proof -
  let ?e = "claim_entry g a (ap_supports_idempotency_key p (ea_effect_name a))"
  have key: "oe_idempotency_key ?e = key_of g a" by (simp add: claim_entry_def)
  obtain o' where c': "sg_claim g ?e (fst s) = (r, o')" and s': "s' = (o', snd s)"
    using c by (auto simp: claim_step_def on_outbox_def split: prod.splits)
  have law: "ok o' \<and> (case r of Inl _ \<Rightarrow> entries o' = entries (fst s)
       | Inr row \<Rightarrow> entries o' = claimed ?e (entries (fst s)) \<and> entry_of (entries o') (key_of g a) = Some row)"
    using claim_ok [OF conjunct1 [OF i] _ _ _ _ c', unfolded key] by (simp add: claim_entry_def)
  have old: "entry_once (safely_resumed landed g) (\<lambda>k. landed k (snd s)) (entries (fst s)) k" for k using i by blast
  have "entry_once (safely_resumed landed g) (\<lambda>k. landed k (snd s)) (entries o') k" for k
  proof (cases r)
    case (Inr row)
    then show ?thesis using law old [of k]
      by (auto simp: entry_once_def entry_of_claimed_eq claim_entry_def split: option.splits)
  qed (use law old in simp)
  then show "inv s'" using law s' by simp
  show "snd s' = snd s" by (simp add: s')
  show "r = Inr row \<Longrightarrow> entry_of (entries (fst s')) (key_of g a) = Some row"
    using law s' by (auto split: sum.splits)
  assume "r = Inr row"
  then show "int (landed (key_of g a) (snd s')) < oe_attempts row"
    using law old [of "key_of g a"] s'
    by (auto simp: entry_once_def entry_of_claimed_eq key split: option.splits)
qed

text \<open>A call made for a claimed entry that is neither executed nor compensated.\<close>

lemma call_inv:
  assumes i: "inv s1" and row: "entry_of (entries (fst s1)) (key_of g a) = Some row"
    and st: "oe_status row \<noteq> ''executed''"
    and tried: "int (landed (key_of g a) (snd s1)) < oe_attempts row"
    and p: "get_provider (sg_providers g) (ea_provider_name a) = Inr p"
    and c: "on_world (call_provider p (request_of g a) (1 < oe_attempts row)) s1 = (r, s2)"
  shows "inv s2" "fst s2 = fst s1" "r = Inr x \<Longrightarrow> ef_ok x \<Longrightarrow> 0 < landed (key_of g a) (snd s2)"
proof -
  obtain w where w: "call_provider p (request_of g a) (1 < oe_attempts row) (snd s1) = (r, w)"
    and s2: "s2 = (fst s1, w)"
    using c by (auto simp: on_world_def split: prod.splits)
  have req: "rq_idempotency_key (request_of g a) = key_of g a" "rq_effect_name (request_of g a) = ea_effect_name a"
    by (simp_all add: request_of_def)
  have fresh: "\<not> 1 < oe_attempts row \<Longrightarrow> landed (key_of g a) (snd s1) = 0" using tried by linarith
  note cl = call_provider_landed [OF provider_once [OF p] w, unfolded req, OF fresh]
  have "entry_once (safely_resumed landed g) (\<lambda>k. landed k w) (entries (fst s1)) k" for k
  proof (cases "k = key_of g a")
    case True
    have old: "entry_once (safely_resumed landed g) (\<lambda>k. landed k (snd s1)) (entries (fst s1)) (key_of g a)" using i by blast
    have "landed (key_of g a) w \<le> 1" if "safely_resumed landed g (key_of g a)"
      by (rule cl(5)) (use old that p in \<open>auto simp: entry_once_def safely_resumed_def\<close>)
    moreover have "int (landed (key_of g a) w) \<le> oe_attempts row" using cl(2) tried by linarith
    ultimately show ?thesis using old row st True by (simp add: entry_once_def)
  next
    case False
    have "entry_once (safely_resumed landed g) (\<lambda>k. landed k (snd s1)) (entries (fst s1)) k" using i by blast
    moreover have "landed k w = landed k (snd s1)" by (rule cl(1)) (use False in simp_all)
    ultimately show ?thesis unfolding entry_once_def by (simp cong: option.case_cong)
  qed
  then show "inv s2" using i s2 by simp
  show "fst s2 = fst s1" by (simp add: s2)
  show "r = Inr x \<Longrightarrow> ef_ok x \<Longrightarrow> 0 < landed (key_of g a) (snd s2)" using cl(4) s2 by simp
qed

text \<open>Marking an entry keeps the invariant unless it says executed for what has not happened.\<close>

lemma mark_inv:
  assumes i: "inv s" and m: "on_outbox (sg_mark g key fs) s = (r, s')"
    and fs: "\<And>e. oe_attempts (set_fields fs e) = oe_attempts e"
    and ex: "\<And>e. oe_status (set_fields fs e) = ''executed'' \<Longrightarrow>
      oe_status e = ''executed'' \<or> 0 < landed key (snd s)"
  shows "inv s'" "snd s' = snd s"
proof -
  obtain o' where m': "sg_mark g key fs (fst s) = (r, o')" and s': "s' = (o', snd s)"
    using m by (auto simp: on_outbox_def split: prod.splits)
  have law: "ok o' \<and> (case r of Inl _ \<Rightarrow> entries o' = entries (fst s)
       | Inr _ \<Rightarrow> entries o' = marked key fs (entries (fst s)))"
    using mark_ok [OF conjunct1 [OF i] m'] .
  have old: "entry_once (safely_resumed landed g) (\<lambda>k. landed k (snd s)) (entries (fst s)) k" for k using i by blast
  have ent: "entry_of (marked key fs es) k = map_option (\<lambda>x. if oe_idempotency_key x = key then set_fields fs x else x) (entry_of es k)" for es k
    unfolding marked_def by (rule entry_of_map) simp
  have "entry_once (safely_resumed landed g) (\<lambda>k. landed k (snd s)) (entries o') k" for k
  proof (cases r)
    case (Inr u)
    then show ?thesis using law old [of k] fs ex entry_of_key [of "entries (fst s)" k]
      by (cases "entry_of (entries (fst s)) k") (auto simp: entry_once_def ent)
  qed (use law old in simp)
  then show "inv s'" using law s' by simp
  show "snd s' = snd s" by (simp add: s')
qed

lemma set_fields_attempts [simp]:
  "oe_attempts (set_fields fs e) = oe_attempts e"
proof -
  have f: "oe_attempts (set_field f e) = oe_attempts e" for f e by (cases f) simp_all
  show ?thesis unfolding set_fields_def by (induction fs arbitrary: e) (simp_all add: f)
qed

lemma record_inv:
  assumes i: "inv s" and m: "on_outbox (record_outcome g a supports res) s = (r, s')"
    and x: "\<And>x. res = Inr x \<Longrightarrow> ef_ok x \<Longrightarrow> 0 < landed (key_of g a) (snd s)"
  shows "inv s' \<and> snd s' = snd s \<and> (\<forall>y. r = Inr y \<longrightarrow> 0 < landed (key_of g a) (snd s'))"
proof -
  have marks: "inv s' \<and> snd s' = snd s \<and> (\<forall>y. r = Inr y \<longrightarrow> (\<exists>y'. f () (fst s') = (Inr y', fst s')))"
    if "on_outbox (ebind (sg_mark g (key_of g a) fs) f) s = (r, s')"
      "\<And>o'. snd (f () o') = o'"
      "\<And>e. oe_status (set_fields fs e) = ''executed'' \<Longrightarrow> 0 < landed (key_of g a) (snd s)" for fs and f :: "unit \<Rightarrow> _"
  proof -
    obtain r' o' where m: "sg_mark g (key_of g a) fs (fst s) = (r', o')" by fastforce
    then have on: "on_outbox (sg_mark g (key_of g a) fs) s = (r', (o', snd s))"
      by (simp add: on_outbox_def)
    have "s' = (o', snd s)" "\<forall>y. r = Inr y \<longrightarrow> f () o' = (Inr y, o')"
      using that(1,2) m by (cases r'; auto simp: on_outbox_def split: prod.splits; metis snd_conv)+
    then show ?thesis using mark_inv [OF i on] that(3) by auto
  qed
  show ?thesis
  proof (cases res)
    case (Inl exc)
    show ?thesis
    proof (cases "is_exception exc")
      case True
      let ?f = "\<lambda>_. ethrow (PExn SideEffectError (''effect '' @ ea_effect_name a @ '' raised: '' @ pexn_text exc))"
      have "on_outbox (ebind (sg_mark g (key_of g a) [MStatus ''failed'', MError (Some (pexn_text exc)),
          MUpdatedAt (sg_now g (fst s))]) ?f) s = (r, s')"
        using m Inl True by (simp add: record_outcome_def on_outbox_def)
      from marks [OF this] show ?thesis by (auto simp: set_fields_def)
    next
      case False
      then show ?thesis using m Inl i by (auto simp: record_outcome_def on_outbox_def)
    qed
  next
    case (Inr x)
    show ?thesis
    proof (cases "ef_ok x")
      case False
      let ?f = "\<lambda>_. ethrow (PExn SideEffectError (''effect '' @ ea_effect_name a @ '' returned not-ok: '' @ show_opt (ef_error x)))"
      have "on_outbox (ebind (sg_mark g (key_of g a) [MStatus ''failed'', MError (ef_error x),
          MUpdatedAt (sg_now g (fst s))]) ?f) s = (r, s')"
        using m Inr False by (simp add: record_outcome_def on_outbox_def)
      from marks [OF this] show ?thesis by (auto simp: set_fields_def)
    next
      case True
      let ?f = "\<lambda>_. ereturn \<lparr>eo_idempotency_key = key_of g a, eo_effect_name = ea_effect_name a,
                  eo_step_id = ea_step_id a, eo_params = ea_params a, eo_result = x,
                  eo_deduplicated = False, eo_guarantee = guarantee_of supports\<rparr>"
      have "on_outbox (ebind (sg_mark g (key_of g a) [MStatus ''executed'', MResult (Some (ef_data x)),
                      MProviderRef (ef_provider_ref x), MError None, MUpdatedAt (sg_now g (fst s))]) ?f) s = (r, s')"
        using m Inr True by (simp add: record_outcome_def on_outbox_def)
      from marks [OF this] show ?thesis using x [OF Inr True] by (auto simp: set_fields_def)
    qed
  qed
qed

lemma execute_inv:
  assumes i: "inv s" and e: "execute g a s = (r, s')"
  shows "inv s' \<and> (\<forall>y. r = Inr y \<longrightarrow> 0 < landed (key_of g a) (snd s'))"
proof (cases "get_provider (sg_providers g) (ea_provider_name a)")
  case (Inl x)
  then show ?thesis using i e by (auto simp: execute_def)
next
  case (Inr p)
  then have "ebind (claim_step g a p) (after_claim g a p) s = (r, s')"
    using e by (simp add: execute_def claim_step_def)
  then show ?thesis
  proof (cases rule: ebind_cases)
    case (raised x)
    then show ?thesis using claim_inv(1) [OF i raised(1)] by simp
  next
    case (returned row s1)
    note cl = claim_inv [OF i returned(1)]
    have ent: "entry_of (entries (fst s1)) (key_of g a) = Some row" by (rule cl(3)) simp
    consider (ex) "oe_status row = ''executed''" | (com) "oe_status row = ''compensated''"
      | (run) "oe_status row \<noteq> ''executed''" "oe_status row \<noteq> ''compensated''" by blast
    then show ?thesis
    proof cases
      case ex
      have "entry_once (safely_resumed landed g) (\<lambda>k. landed k (snd s1)) (entries (fst s1)) (key_of g a)" using cl(1) by blast
      then have "0 < landed (key_of g a) (snd s1)" using ent ex by (simp add: entry_once_def)
      then show ?thesis using ex returned(2) cl(1) by (simp add: after_claim_def)
    next
      case com
      then show ?thesis using returned(2) cl(1) by (auto simp: after_claim_def)
    next
      case run
      obtain res s2 where call: "on_world (call_provider p (request_of g a) (1 < oe_attempts row)) s1 = (res, s2)"
        by (meson surj_pair)
      have "on_outbox (record_outcome g a (ap_supports_idempotency_key p (ea_effect_name a)) res) s2 = (r, s')"
        using returned(2) run call by (simp add: after_claim_def)
      moreover note ci = call_inv [OF cl(1) ent run(1) cl(4) [OF refl] Inr call]
      ultimately show ?thesis using record_inv [OF ci(1)] ci(3) by blast
    qed
  qed
qed

lemma compensate_row_inv:
  assumes i: "inv s" and c: "compensate_row g iid tid row s = (r, s')"
  shows "inv s'"
proof (cases "get_provider (sg_providers g) (oe_provider row)")
  case (Inl x)
  then show ?thesis using i c by (auto simp: compensate_row_def)
next
  case (Inr p)
  let ?ex = "\<lparr>ef_ok = True, ef_data = (case oe_result row of None \<Rightarrow> [] | Some x \<Rightarrow> x),
               ef_provider_ref = oe_provider_ref row, ef_error = None\<rparr>"
  obtain res w where w: "ap_compensate p (compensate_request iid tid row) ?ex (snd s) = (res, w)"
    by fastforce
  have "landed k w = landed k (snd s)" for k
    by (rule effect_provider.compensate_law [OF provider_once [OF Inr] w])
  then have i1: "inv (fst s, w)" using i by simp
  let ?key = "oe_idempotency_key row"
  have marks: "inv s'" if "on_outbox (ebind (sg_mark g ?key fs) f) (fst s, w) = (r, s')"
      "\<And>o'. snd (f () o') = o'"
      "\<And>e. oe_status (set_fields fs e) = ''executed'' \<Longrightarrow> oe_status e = ''executed''" for fs and f :: "unit \<Rightarrow> _"
  proof -
    obtain r' o' where m: "sg_mark g ?key fs (fst s) = (r', o')" by fastforce
    then have on: "on_outbox (sg_mark g ?key fs) (fst s, w) = (r', (o', w))"
      by (simp add: on_outbox_def)
    have "s' = (o', w)"
      using that(1,2) m by (cases r'; auto simp: on_outbox_def split: prod.splits; metis snd_conv)
    then show ?thesis using mark_inv [OF i1 on] that(3) by auto
  qed
  show ?thesis
  proof (cases res)
    case (Inl exc)
    show ?thesis
    proof (cases "is_exception exc")
      case True
      show ?thesis
        by (rule marks [of "[MCompensationStatus (Some ''failed''), MError (Some (pexn_text exc)),
              MUpdatedAt (sg_now g (fst s))]"])
          (use c Inr w Inl True in \<open>auto simp: compensate_row_def on_world_def on_outbox_def set_fields_def\<close>)
    next
      case False
      then show ?thesis using c Inr w Inl i1 by (auto simp: compensate_row_def on_world_def on_outbox_def)
    qed
  next
    case (Inr undo)
    show ?thesis
      by (rule marks [of "[MStatus ''compensated'', MCompensationStatus (Some ''done''),
            MUpdatedAt (sg_now g (fst s))]"])
        (use c \<open>get_provider _ _ = Inr p\<close> w Inr in \<open>auto simp: compensate_row_def on_world_def on_outbox_def set_fields_def\<close>)
  qed
qed

lemma compensate_rows_inv:
  "inv s \<Longrightarrow> compensate_rows g iid tid rows undone s = (r, s') \<Longrightarrow> inv s'"
proof (induction rows arbitrary: undone s)
  case (Cons row rows)
  from Cons.prems(2)
  have "ebind (compensate_row g iid tid row) (\<lambda>out. compensate_rows g iid tid rows (undone @ [out])) s = (r, s')"
    by simp
  then show ?case
  proof (cases rule: ebind_cases)
    case (raised e)
    then show ?thesis using compensate_row_inv [OF Cons.prems(1)] by blast
  next
    case (returned x t)
    then show ?thesis using compensate_row_inv [OF Cons.prems(1) returned(1)] Cons.IH by blast
  qed
qed auto

lemma run_inv: "effect_run g s0 s \<Longrightarrow> inv s0 \<Longrightarrow> inv s"
proof (induction rule: effect_run.induct)
  case (ran s a r s')
  then show ?case using execute_inv by blast
next
  case (died_after_claim s a p r' s')
  then show ?case using claim_inv(1) by blast
next
  case (died_after_reconcile s a p row s1 q s')
  then have i: "inv s1" using claim_inv(1) by blast
  obtain w where w: "ap_reconcile p (request_of g a) (snd s1) = (q, w)" "s' = (fst s1, w)"
    using died_after_reconcile.hyps(4) by (auto simp: on_world_def split: prod.splits)
  then show ?case
    using i effect_provider.reconcile_law [OF provider_once [OF died_after_reconcile.hyps(2)] w(1)] by simp
next
  case (died_after_call s a p row s1 c s')
  then have "inv s" by blast
  note cl = claim_inv [OF this died_after_call.hyps(3)]
  show ?case
    by (rule call_inv(1) [OF cl(1) _ died_after_call.hyps(4) cl(4) [OF refl]
          died_after_call.hyps(2) died_after_call.hyps(6)])
      (use cl(3) in auto)
next
  case (compensated s iid tid rows s1 n u s')
  then have "inv s" by blast
  moreover have "s1 = s"
    using compensated.hyps(2) list_ok [of "fst s" iid tid "Some ''executed''"] \<open>inv s\<close>
    by (auto simp: on_outbox_def)
  ultimately show ?case using compensate_rows_inv compensated.hyps(3) by blast
next
  case (died_compensating s name p req ex v s')
  then obtain w where w: "ap_compensate p req ex (snd s) = (v, w)" "s' = (fst s, w)"
    by (auto simp: on_world_def split: prod.splits)
  then show ?case
    using died_compensating effect_provider.compensate_law [OF provider_once [OF died_compensating.hyps(2)] w(1)]
    by simp
qed

end

section \<open>The wired guards\<close>

text \<open>The guard over Postgres, as the engine wires it, and the one over the in-memory store.\<close>

definition pg_guard :: "'w provider_registry \<Rightarrow> (json \<Rightarrow> string) \<Rightarrow> (db, 'w) side_effect_guard" where
  "pg_guard provs dig =
     \<lparr>sg_claim = pg_claim, sg_mark = pg_mark, sg_list = pg_list_for_instance,
      sg_providers = provs, sg_digest = dig, sg_now = db_clock\<rparr>"

definition mem_guard ::
  "'w provider_registry \<Rightarrow> (json \<Rightarrow> string) \<Rightarrow> instant \<Rightarrow> (mem_outbox, 'w) side_effect_guard" where
  "mem_guard provs dig now =
     \<lparr>sg_claim = mem_claim, sg_mark = mem_mark, sg_list = mem_list_for_instance,
      sg_providers = provs, sg_digest = dig, sg_now = (\<lambda>_. now)\<rparr>"

interpretation pg_guarded: guarded_outbox "pg_guard provs dig" pg_entries pg_outbox_ok for provs dig
  unfolding guarded_outbox_def by (simp add: pg_guard_def pg_outbox.outbox_store_axioms)

interpretation mem_guarded: guarded_outbox "mem_guard provs dig now" mem_entries mem_outbox_ok
  for provs dig now
  unfolding guarded_outbox_def by (simp add: mem_guard_def mem_store.outbox_store_axioms)

interpretation noop_guard: effect_guard "pg_guard [(''noop'', noop_action_provider)] dig"
  pg_entries pg_outbox_ok noop_landed for dig
  by (intro effect_guard.intro effect_guard_axioms.intro pg_guarded.guarded_outbox_axioms)
    (simp add: pg_guard_def noop.effect_provider_axioms)

lemma pg_effect_guard:
  "(\<And>n p. (n, p) \<in> set provs \<Longrightarrow> effect_provider landed p) \<Longrightarrow>
   effect_guard (pg_guard provs dig) pg_entries pg_outbox_ok landed"
  by (intro effect_guard.intro effect_guard_axioms.intro pg_guarded.guarded_outbox_axioms)
    (simp add: pg_guard_def)

section \<open>Correctness\<close>

text \<open>
  C5: how often side effects happen. Start from an outbox that accounts for what has happened
  (\<open>entry_once\<close>; an empty one does when nothing has). Run any sequence of guarded effects and
  compensations, each of which may die between its awaits, with registered providers that do what
  \<open>ActionProvider\<close> documents (\<open>effect_provider\<close>, in which an answer of \<open>None\<close> to \<open>reconcile\<close> means
  nothing). Then an action has happened no more often than the outbox counts attempts at it, and not
  at all if it has no entry, and an execution that returns an outcome leaves its action performed at
  least once. If moreover every provider that may be asked for the action honours idempotency keys for
  it, or reconciles it without ever reporting unknown after it has happened, then it has happened at
  most once, and exactly once when an execution of it returns.
\<close>

theorem effect_lands_once:
  assumes "effect_run (pg_guard provs dig) s0 s"
    and provs: "\<And>n p. (n, p) \<in> set provs \<Longrightarrow> effect_provider landed p"
    and "pg_outbox_ok (fst s0)"
    and "\<And>k. entry_once (safely_resumed landed (pg_guard provs dig)) (\<lambda>k. landed k (snd s0)) (pg_entries (fst s0)) k"
  shows "(case entry_of (pg_entries (fst s)) k of None \<Rightarrow> landed k (snd s) = 0
     | Some e \<Rightarrow> int (landed k (snd s)) \<le> oe_attempts e) \<and>
    ((\<forall>b p. key_of (pg_guard provs dig) b = k \<longrightarrow> get_provider provs (ea_provider_name b) = Inr p \<longrightarrow>
        ap_supports_idempotency_key p (ea_effect_name b) \<or>
        (\<forall>w w'. ap_reconcile p (request_of (pg_guard provs dig) b) w = (Inr None, w') \<longrightarrow> landed k w = 0)) \<longrightarrow>
     landed k (snd s) \<le> 1 \<and>
     (execute (pg_guard provs dig) a s = (Inr out, s') \<and> key_of (pg_guard provs dig) a = k \<longrightarrow> landed k (snd s') = 1)) \<and>
    (execute (pg_guard provs dig) a s = (Inr out, s') \<longrightarrow> 0 < landed (key_of (pg_guard provs dig) a) (snd s'))"
proof -
  let ?g = "pg_guard provs dig"
  have guard: "effect_guard ?g pg_entries pg_outbox_ok landed"
    by (rule pg_effect_guard) (rule provs)
  have inv: "pg_outbox_ok (fst s) \<and>
      (\<forall>k. entry_once (safely_resumed landed ?g) (\<lambda>k. landed k (snd s)) (pg_entries (fst s)) k)"
    using effect_guard.run_inv [OF guard assms(1)] assms(3,4) by blast
  have once: "landed k (snd t) \<le> 1" if "safely_resumed landed ?g k"
    "\<forall>k. entry_once (safely_resumed landed ?g) (\<lambda>k. landed k (snd t)) (pg_entries (fst t)) k" for t
    using that by (auto simp: entry_once_def)
  have ex: "(\<forall>k. entry_once (safely_resumed landed ?g) (\<lambda>k. landed k (snd s')) (pg_entries (fst s')) k) \<and>
      0 < landed (key_of ?g a) (snd s')" if "execute ?g a s = (Inr out, s')"
    using effect_guard.execute_inv [OF guard inv that] by blast
  have "landed k (snd s) \<le> 1 \<and> (execute ?g a s = (Inr out, s') \<and> key_of ?g a = k \<longrightarrow> landed k (snd s') = 1)"
    if "safely_resumed landed ?g k"
    using once [OF that] inv ex by fastforce
  moreover have "case entry_of (pg_entries (fst s)) k of None \<Rightarrow> landed k (snd s) = 0
     | Some e \<Rightarrow> int (landed k (snd s)) \<le> oe_attempts e"
    using conjunct2 [OF inv, THEN spec, of k] by (auto simp: entry_once_def split: option.splits)
  moreover have "sg_providers ?g = provs" by (simp add: pg_guard_def)
  ultimately show ?thesis using ex unfolding safely_resumed_def by simp
qed

text \<open>An effect that dies after its claim and is run again.\<close>

definition sample_digest :: "json \<Rightarrow> string" where
  "sample_digest j = (case j of JObj kvs \<Rightarrow>
     concat (map (\<lambda>(k, v). case v of JStr x \<Rightarrow> x @ ''/'' | _ \<Rightarrow> []) kvs) | _ \<Rightarrow> ''none'')"

definition sample_effect :: effect_args where
  "sample_effect = \<lparr>ea_instance_id = ''i1'', ea_tenant_id = ''t1'', ea_step_id = ''send'',
     ea_effect_name = ''email'', ea_params = [], ea_provider_name = ''noop''\<rparr>"

definition sample_guard :: "(db, effect_request list) side_effect_guard" where
  "sample_guard = pg_guard [(''noop'', noop_action_provider)] sample_digest"

definition sample_claimed :: "db \<times> effect_request list" where
  "sample_claimed = snd (claim_step sample_guard sample_effect noop_action_provider (empty_db 500, []))"

lemma sample_claim_run: "effect_run sample_guard (empty_db 500, []) sample_claimed"
proof -
  have "get_provider (sg_providers sample_guard) (ea_provider_name sample_effect) = Inr noop_action_provider"
    by (simp add: sample_guard_def pg_guard_def get_provider_def sample_effect_def)
  then show ?thesis
    unfolding sample_claimed_def
    by (rule effect_run.died_after_claim [OF effect_run.start]) (rule prod.collapse [symmetric])
qed

theorem effect_lands_once_witness:
  "\<exists>s out s'. effect_run sample_guard (empty_db 500, []) s \<and> execute sample_guard sample_effect s = (Inr out, s') \<and>
     noop_landed (key_of sample_guard sample_effect) (snd s') = 1"
proof -
  let ?r = "execute sample_guard sample_effect sample_claimed"
  have "(case ?r of (Inr out, s') \<Rightarrow> True | _ \<Rightarrow> False)" by code_simp
  then obtain out s' where r: "?r = (Inr out, s')" by (auto split: prod.splits sum.splits)
  have keys: "ap_supports_idempotency_key p n" if "get_provider [(''noop'', noop_action_provider)] name = Inr p" for name p n
    using that by (auto simp: get_provider_def noop_action_provider_def base_action_provider_def split: if_splits)
  have "noop_landed (key_of sample_guard sample_effect) (snd s') = 1"
    using effect_lands_once [of "[(''noop'', noop_action_provider)]" sample_digest "(empty_db 500, [])"
        sample_claimed noop_landed "key_of sample_guard sample_effect" sample_effect out s', folded sample_guard_def]
      r sample_claim_run keys
    by (simp add: noop.effect_provider_axioms entry_once_def noop_landed_def pg_outbox_ok_def pg_entries_def
        empty_db_def)
  then show ?thesis using sample_claim_run r by blast
qed

text \<open>
  C31: a compensation that returns has undone exactly the effects of the instance that were
  executed, the most recently claimed first, and has marked exactly those entries as
  compensated. Entries of other instances and tenants, and entries in any other status, are
  as before.
\<close>

theorem compensation_complete:
  assumes "pg_outbox_ok (fst s)"
    and "compensate_instance (pg_guard provs dig) iid tid s = (Inr outs, s')"
    and "es = filter (\<lambda>e. oe_instance_id e = iid \<and> oe_tenant_id e = tid \<and> oe_status e = ''executed'')
               (pg_entries (fst s))"
  shows "map eo_idempotency_key outs = rev (map oe_idempotency_key es) \<and>
    pg_entries (fst s') = map (\<lambda>e. if e \<in> set es
       then e\<lparr>oe_status := ''compensated'', oe_compensation_status := Some ''done''\<rparr> else e)
       (pg_entries (fst s))"
  using pg_guarded.compensate_entries(2,3) [OF assms] by (simp add: undone_entry_def)

definition sample_executed :: "db \<times> effect_request list" where
  "sample_executed = snd (execute sample_guard sample_effect sample_claimed)"

theorem compensation_complete_witness:
  "\<exists>outs s'. compensate_instance sample_guard ''i1'' ''t1'' sample_executed = (Inr outs, s') \<and>
     map eo_idempotency_key outs = [key_of sample_guard sample_effect] \<and>
     map oe_status (pg_entries (fst s')) = [''compensated'']"
proof -
  let ?r = "compensate_instance sample_guard ''i1'' ''t1'' sample_executed"
  let ?es = "filter (\<lambda>e. oe_instance_id e = ''i1'' \<and> oe_tenant_id e = ''t1'' \<and> oe_status e = ''executed'')
               (pg_entries (fst sample_executed))"
  have "(case ?r of (Inr out, s') \<Rightarrow> True | _ \<Rightarrow> False)" by code_simp
  then obtain outs s' where r: "?r = (Inr outs, s')" by (auto split: prod.splits sum.splits)
  have "pg_outbox_ok (fst sample_executed)" by code_simp
  from compensation_complete [OF this r [unfolded sample_guard_def] refl]
  have c: "map eo_idempotency_key outs = rev (map oe_idempotency_key ?es)"
    "pg_entries (fst s') = map (\<lambda>e. if e \<in> set ?es
       then e\<lparr>oe_status := ''compensated'', oe_compensation_status := Some ''done''\<rparr> else e)
       (pg_entries (fst sample_executed))" by blast+
  have "rev (map oe_idempotency_key ?es) = [key_of sample_guard sample_effect]" by code_simp
  moreover have "\<exists>e. pg_entries (fst sample_executed) = [e] \<and> ?es = [e]"
  proof -
    have "length (pg_entries (fst sample_executed)) = 1" "length ?es = 1" by code_simp+
    then show ?thesis by (auto simp: length_Suc_conv split: if_splits)
  qed
  ultimately show ?thesis using r c by auto
qed

text \<open>
  Once an effect is recorded as executed, running it again answers with the recorded
  result and the deduplicated flag, and calls neither the provider's execution nor its
  reconciliation: the world stays as it is.
\<close>

lemma executed_effect_is_deduplicated:
  assumes "pg_outbox_ok d" "entry_of (pg_entries d) (key_of (pg_guard provs dig) a) = Some row"
    and "oe_status row = ''executed''"
    and "execute (pg_guard provs dig) a (d, w) = (Inr out, s')"
  shows "snd s' = w \<and> eo_deduplicated out \<and>
    ef_data (eo_result out) = (case oe_result row of None \<Rightarrow> [] | Some x \<Rightarrow> x) \<and>
    ef_provider_ref (eo_result out) = oe_provider_ref row \<and> eo_guarantee out = oe_guarantee row"
proof -
  let ?g = "pg_guard provs dig"
  from assms(4) obtain p where "execute ?g a = ebind (claim_step ?g a p) (after_claim ?g a p)"
    by (auto simp: execute_def claim_step_def split: sum.splits)
  with assms(4) obtain rw s1 where c: "claim_step ?g a p (d, w) = (Inr rw, s1)"
    and a: "after_claim ?g a p rw s1 = (Inr out, s')"
    by (auto simp: ebind_eq_Inr)
  let ?e = "claim_entry ?g a (ap_supports_idempotency_key p (ea_effect_name a))"
  obtain d1 where d1: "pg_claim ?e d = (Inr rw, d1)" "s1 = (d1, w)"
    using c by (auto simp: claim_step_def on_outbox_def pg_guard_def split: prod.splits)
  have "oe_idempotency_key ?e = key_of ?g a" by (simp add: claim_entry_def)
  then have "rw = row\<lparr>oe_attempts := oe_attempts row + 1\<rparr>"
    using pg_outbox.entry_of_claimed [OF assms(1) d1(1)] assms(2) by (simp add: claim_entry_def)
  then show ?thesis using a assms(3) d1(2) by (auto simp: after_claim_def dedup_outcome_def)
qed

lemma executed_effect_is_deduplicated_witness:
  "\<exists>out s'. execute sample_guard sample_effect sample_executed = (Inr out, s') \<and>
     eo_deduplicated out \<and> snd s' = snd sample_executed"
proof -
  let ?r = "execute sample_guard sample_effect sample_executed"
  have "(case ?r of (Inr out, s') \<Rightarrow> True | _ \<Rightarrow> False)" by code_simp
  then obtain out s' where r: "?r = (Inr out, s')" by (auto split: prod.splits sum.splits)
  have e: "case entry_of (pg_entries (fst sample_executed)) (key_of sample_guard sample_effect) of
      None \<Rightarrow> False | Some e \<Rightarrow> oe_status e = ''executed''" by code_simp
  then obtain row where row: "entry_of (pg_entries (fst sample_executed)) (key_of sample_guard sample_effect) = Some row"
    "oe_status row = ''executed''" by (auto split: option.splits)
  have ok: "pg_outbox_ok (fst sample_executed)" by code_simp
  have r': "execute sample_guard sample_effect (fst sample_executed, snd sample_executed) = (Inr out, s')"
    using r by simp
  show ?thesis
    using executed_effect_is_deduplicated [OF ok row(1) [unfolded sample_guard_def] row(2) r' [unfolded sample_guard_def]] r
    by blast
qed

end
