(* ===== verification/PgJournal.thy ===== *)
theory PgJournal
  imports Journal SideEffects
begin

text \<open>
  The event store as the journal of the services: the shared state is the database together with
  the world outside it (clock, ids, providers).
\<close>

abbreviation on_db :: "(db, 'e, 'a) eff \<Rightarrow> (db \<times> 'w, 'e, 'a) eff" where
  "on_db \<equiv> on_outbox"

definition pg_append ::
  "string \<Rightarrow> string \<Rightarrow> event list \<Rightarrow> nat \<Rightarrow> guard option \<Rightarrow> instant option \<Rightarrow>
   (db \<times> 'w, exn_class, nat \<times> event list) eff" where
  "pg_append iid tid drafts v g w = on_db (append_new iid tid drafts v g w)"

definition pg_get ::
  "db \<times> 'w \<Rightarrow> string \<Rightarrow> string \<Rightarrow> workflow_definition option \<Rightarrow> workflow_instance option res" where
  "pg_get s = get_instance (fst s)"

abbreviation pg_log :: "db \<times> 'w \<Rightarrow> string \<Rightarrow> event list" where
  "pg_log s \<equiv> log_of (fst s)"

definition pg_ok :: "db \<times> 'w \<Rightarrow> bool" where
  "pg_ok s \<longleftrightarrow> store_ok (fst s) \<and> created_once (fst s)"

text \<open>The clock and the ids of the world.\<close>

definition world_ports :: "'w ports \<Rightarrow> (db \<times> 'w) ports" where
  "world_ports pt =
     \<lparr>pt_now = (\<lambda>s. pt_now pt (snd s)),
      pt_new_id = (\<lambda>s. case pt_new_id pt (snd s) of (i, w) \<Rightarrow> (i, (fst s, w)))\<rparr>"

text \<open>The journal lives in three tables.\<close>

lemma rows_of_cong: "db_events d' = db_events d \<Longrightarrow> rows_of d' iid = rows_of d iid"
  by (simp add: rows_of_def)

lemma same_tables:
  assumes "db_events (fst s') = db_events (fst s)" "db_snapshots (fst s') = db_snapshots (fst s)"
    "db_index (fst s') = db_index (fst s)"
  shows "same_journal pg_get pg_log pg_ok s s'"
proof -
  have rows: "rows_of (fst s') iid = rows_of (fst s) iid" for iid using assms(1) by (rule rows_of_cong)
  then have "log_of (fst s') = log_of (fst s)" by (auto simp: log_of_def)
  moreover have "instance_ok (fst s') iid = instance_ok (fst s) iid" for iid
    by (rule instance_ok_cong) (simp_all add: rows assms)
  moreover have "get_instance (fst s') = get_instance (fst s)"
    by (intro ext) (simp add: get_instance_def project_def load_snapshot_def rows assms)
  ultimately show ?thesis
    by (simp add: same_journal_def pg_get_def pg_ok_def store_ok_def created_once_def assms(3))
qed

lemma pg_get_of_log: "pg_ok s \<Longrightarrow> pg_get s iid tid d = projected (pg_log s iid) tid False"
  by (simp add: pg_get_def pg_ok_def get_instance_replay)

lemma fold_events_new_ids:
  assumes "fold_events (e # evs) defn None = Inr i"
  shows "wi_instance_id i = ev_instance_id e"
proof -
  obtain b j where b: "open_instance e = Inr b" "handler defn b e = Inr j"
    and f: "fold_events evs defn (Some (j\<lparr>wi_updated_at := Some (ev_occurred_at e), wi_version := ev_sequence e\<rparr>)) = Inr i"
    using assms by (auto simp: fold_events_Cons_None rbind_eq_Inr split: if_splits)
  show ?thesis
    using fold_events_ids [OF f] handler_ids [OF b(2)] b(1)
    by (auto simp: open_instance_def new_instance_def split: event_body.splits)
qed

lemma pg_get_id:
  assumes "pg_ok s" "pg_get s iid tid d = Inr (Some i)"
  shows "wi_instance_id i = iid"
proof -
  have p: "projected (log_of (fst s) iid) tid False = Inr (Some i)"
    using assms pg_get_of_log by metis
  then obtain e evs where log: "log_of (fst s) iid = e # evs"
    by (cases "log_of (fst s) iid") (auto simp: projected_def)
  have "instance_ok (fst s) iid" using assms(1) by (simp add: pg_ok_def store_ok_def)
  moreover have "\<exists>r \<in> set (rows_of (fst s) iid). wr_payload r = e"
    using log by (auto simp: log_of_def map_eq_Cons_conv)
  ultimately have "ev_instance_id e = iid" by (auto simp: instance_ok_def)
  then show ?thesis using p log fold_events_new_ids by (auto simp: projected_Some)
qed

interpretation pg_world: journal_client pg_append pg_get pg_log pg_ok "world_ports pt" for pt
proof (unfold_locales, goal_cases)
  case (1 s v drafts iid tid g w n evs s')
  then show ?case using pg.append_ok [of "fst s" v drafts iid tid g w n evs "fst s'"]
    by (auto simp: pg_append_def on_outbox_def pg_ok_def split: prod.splits)
next
  case (2 drafts iid tid v g w s e s')
  then show ?case using pg.append_error [of drafts iid tid v g w "fst s" e "fst s'"]
    by (auto simp: pg_append_def on_outbox_def split: prod.splits)
next
  case (3 s iid tid defn i)
  then show ?case using pg.get_version [of "fst s"] by (auto simp: pg_get_def pg_ok_def)
next
  case (4 s v drafts iid tid defn i g w n evs s')
  then show ?case using pg.get_extends [of "fst s" v drafts iid tid defn i g w n evs "fst s'"]
    by (auto simp: pg_append_def pg_get_def pg_ok_def on_outbox_def split: prod.splits)
next
  case (5 s iid tid defn i)
  then show ?case by (rule pg_get_id)
next
  case (6 s i0 s')
  then show ?case by (intro same_tables) (auto simp: world_ports_def split: prod.splits)
qed

text \<open>What an append leaves alone.\<close>

lemma append_new_frame:
  assumes "append_new iid tid drafts v guard w d = (r, d')"
  shows "db_leases d' = db_leases d \<and> db_definitions d' = db_definitions d \<and>
    db_dead_letters d' = db_dead_letters d \<and> db_next_dead_letter d' = db_next_dead_letter d \<and>
    db_outbox d' = db_outbox d \<and> db_ledger d' = db_ledger d \<and> db_api_keys d' = db_api_keys d \<and>
    db_clock d' = db_clock d"
proof (cases "commit_body d d iid tid (sequenced v drafts) v guard w")
  case (Inl e)
  then show ?thesis using assms
    by (auto simp: append_new_def commit_def commit_tx_def split: if_splits)
next
  case (Inr d1)
  then show ?thesis using assms commit_body_frame [OF Inr]
    by (auto simp: append_new_def commit_def commit_tx_def Let_def split: if_splits)
qed

lemma pg_append_frame:
  assumes "pg_append iid tid drafts v g w s = (r, s')"
  shows "snd s' = snd s \<and> db_leases (fst s') = db_leases (fst s) \<and> db_definitions (fst s') = db_definitions (fst s) \<and>
    db_dead_letters (fst s') = db_dead_letters (fst s) \<and> db_outbox (fst s') = db_outbox (fst s) \<and>
    db_ledger (fst s') = db_ledger (fst s) \<and> db_clock (fst s') = db_clock (fst s)"
proof -
  obtain d' where "append_new iid tid drafts v g w (fst s) = (r, d')" "s' = (d', snd s)"
    using assms by (auto simp: pg_append_def on_outbox_def split: prod.splits)
  then show ?thesis using append_new_frame by fastforce
qed

lemma new_event_world:
  assumes "new_event (world_ports pt) iid tid t body s = (r, s')"
  shows "fst s' = fst s \<and> (\<forall>e. r = Inr e \<longrightarrow> ev_body e = body)"
  using assms by (auto simp: new_event_def world_ports_def split: prod.splits if_splits)

text \<open>An append at the version that was read, and what follows it.\<close>

lemma append_step:
  assumes ok: "pg_ok s" and get: "get_instance (fst s) iid tid None = Inr (Some i)"
    and dr: "drafts \<noteq> []" "list_all (\<lambda>e. \<not> is_created e) drafts"
    and run: "ebind (lift_exn (pg_append iid tid drafts (wi_version i) None None)) k s = (r, s')"
  obtains (refused) e where "r = Inl e" "s' = s"
    | (appended) evs x s1 j where "k x s1 = (r, s')" "log_of (fst s1) iid = log_of (fst s) iid @ evs"
        "length evs = length drafts" "pg_ok s1" "get_instance (fst s1) iid tid None = Inr (Some j)"
        "applies None i (map ev_body drafts) j"
        "pg_append iid tid drafts (wi_version i) None None s = (Inr x, s1)"
proof -
  obtain q s1 where q: "pg_append iid tid drafts (wi_version i) None None s = (q, s1)" by (meson surj_pair)
  have "pg_world.synced None iid tid (pg_log s) i s"
    using ok get by (simp add: pg_world.synced_def pg_get_def)
  note law = pg_world.append_at_version [OF this dr q]
  show ?thesis
  proof (cases q)
    case (Inl c)
    show ?thesis by (rule refused [of "PExn c []"]) (use run q law Inl in \<open>simp_all add: ebind_def lift_exn_def\<close>)
  next
    case (Inr x)
    obtain n evs where x: "x = (n, evs)" by (cases x)
    then obtain j where j: "pg_world.synced None iid tid (pg_log s) j s1" "applies None i (map ev_body drafts) j"
      "pg_log s1 iid = pg_log s iid @ evs" "length evs = length drafts"
      using law Inr by auto
    show ?thesis
      by (rule appended [of x s1 evs j])
        (use run q Inr j in \<open>simp_all add: ebind_def lift_exn_def pg_world.synced_def pg_get_def\<close>)
  qed
qed

lemma append_one:
  assumes ok: "store_ok (fst s)" "created_once (fst s)"
    and get: "get_instance (fst s) iid tid None = Inr (Some i)"
    and run: "ebind (new_event (world_ports pt) iid tid None body) (\<lambda>ev.
        ebind (lift_exn (pg_append iid tid [ev] (wi_version i) None None)) k) s = (r, s')"
    and body: "\<not> created_body body"
  obtains (raised) e where "r = Inl e" "fst s' = fst s"
    | (appended) ev x s1 j where "k x s1 = (r, s')" "log_of (fst s1) iid = log_of (fst s) iid @ [ev]" "pg_ok s1"
        "get_instance (fst s1) iid tid None = Inr (Some j)" "applies None i [body] j"
        "db_dead_letters (fst s1) = db_dead_letters (fst s)"
  using run
proof (cases rule: ebind_cases)
  case (raised e)
  then show ?thesis using new_event_world [OF raised(1)] that(1) by simp
next
  case (returned ev s0)
  note ne = new_event_world [OF returned(1)]
  have "pg_ok s0" "get_instance (fst s0) iid tid None = Inr (Some i)" using ok get ne by (simp_all add: pg_ok_def)
  moreover have "[ev] \<noteq> []" "list_all (\<lambda>e. \<not> is_created e) [ev]" using body ne by (simp_all add: is_created_body)
  ultimately show ?thesis using returned(2)
  proof (cases rule: append_step)
    case (refused e)
    then show ?thesis using ne that(1) by simp
  next
    case (appended evs x s1 j)
    obtain e' where e': "evs = [e']" using appended(3) by (auto simp: length_Suc_conv)
    show ?thesis
      by (rule that(2) [of x s1 e' j]) (use appended e' ne pg_append_frame [OF appended(7)] in simp_all)
  qed
qed

end
