(* ===== verification/DeadLetter.thy ===== *)
theory DeadLetter
  imports PgJournal
begin

text \<open>
  \<open>core/dead_letter.py\<close>: the dead-letter queue. The driver records instances that gave up; an
  operator lists the entries and puts an instance back to work.
\<close>

section \<open>Operations\<close>

definition last_error :: "workflow_instance \<Rightarrow> error_record option" where
  "last_error i = (if wi_error_history i = [] then None else Some (last (wi_error_history i)))"

definition dlq_record :: "workflow_instance \<Rightarrow> string option \<Rightarrow> string \<Rightarrow> (db, pexn, unit) eff" where
  "dlq_record i step_id reason d =
     (if \<not> fits [(36, wi_instance_id i), (64, wi_tenant_id i), (256, reason)] \<or> \<not> fits_opt 128 step_id \<or>
         \<not> fits_opt 128 (map_option er_error_type (last_error i))
      then (Inl (PExn DbDataError ''value too long''), d)
      else (Inr (), d\<lparr>db_dead_letters := db_dead_letters d @
               [\<lparr>dl_id = db_next_dead_letter d, dl_instance_id = wi_instance_id i, dl_tenant_id = wi_tenant_id i,
                 dl_step_id = step_id, dl_reason = reason,
                 dl_error_type = map_option er_error_type (last_error i),
                 dl_error_message = map_option er_error_message (last_error i),
                 dl_at_version = wi_version i, dl_resolved = False, dl_created_at = db_clock d,
                 dl_resolved_at = None\<rparr>],
             db_next_dead_letter := db_next_dead_letter d + 1\<rparr>))"

definition dlq_list :: "db \<Rightarrow> string \<Rightarrow> bool \<Rightarrow> nat \<Rightarrow> dead_letter_row list" where
  "dlq_list d tenant_id resolved limit =
     take limit (sort_key (\<lambda>r. - dl_created_at r)
       (filter (\<lambda>r. dl_tenant_id r = tenant_id \<and> dl_resolved r = resolved) (db_dead_letters d)))"

text \<open>
  A transaction of its own, after that of the append in \<open>requeue\<close>; a failure of the database between the
  two, after which the requeued entry would still be unresolved, is not modelled.
\<close>

definition mark_resolved :: "nat \<Rightarrow> string \<Rightarrow> instant \<Rightarrow> (db, pexn, unit) eff" where
  "mark_resolved dlq_id tenant_id now d =
     (Inr (), d\<lparr>db_dead_letters := map (\<lambda>r. if dl_id r = dlq_id \<and> dl_tenant_id r = tenant_id
                  then r\<lparr>dl_resolved := True, dl_resolved_at := Some now\<rparr> else r) (db_dead_letters d)\<rparr>)"

definition dlq_get :: "nat \<Rightarrow> db \<Rightarrow> dead_letter_row option" where
  "dlq_get dlq_id d = List.find (\<lambda>r. dl_id r = dlq_id) (db_dead_letters d)"

definition config_error :: "string \<Rightarrow> pexn" where
  "config_error msg = PExn ConfigurationError msg"

text \<open>The checks of \<open>requeue\<close>: the entry and the instance it is about, or the exception raised.\<close>

definition requeue_checks :: "nat \<Rightarrow> string \<Rightarrow> db \<Rightarrow> pexn + dead_letter_row \<times> workflow_instance" where
  "requeue_checks dlq_id tenant_id d =
     (case dlq_get dlq_id d of
        None \<Rightarrow> Inl (config_error (''dead-letter entry '' @ show_nat dlq_id @ '' not found''))
      | Some row \<Rightarrow>
          if dl_tenant_id row \<noteq> tenant_id
          then Inl (config_error (''dead-letter entry '' @ show_nat dlq_id @ '' not found''))
          else if dl_resolved row
          then Inl (config_error (''dead-letter entry '' @ show_nat dlq_id @ '' already resolved''))
          else (case get_instance d (dl_instance_id row) tenant_id None of
             Inl c \<Rightarrow> Inl (PExn c [])
           | Inr None \<Rightarrow> Inl (config_error (''instance '' @ dl_instance_id row @ '' not found''))
           | Inr (Some i) \<Rightarrow>
               if wi_status i \<noteq> WF_DEAD_LETTERED
               then Inl (config_error (''instance '' @ dl_instance_id row @ '' is '' @ wf_value (wi_status i) @
                       '', not dead_lettered''))
               else Inr (row, i)))"

definition requeue ::
  "'w ports \<Rightarrow> nat \<Rightarrow> string \<Rightarrow> string \<Rightarrow> (db \<times> 'w, pexn, string) eff" where
  "requeue pt dlq_id tenant_id requeued_by s =
     (case requeue_checks dlq_id tenant_id (fst s) of
        Inl e \<Rightarrow> (Inl e, s)
      | Inr (row, i) \<Rightarrow>
          ebind (new_event (world_ports pt) (dl_instance_id row) tenant_id None
             (WorkflowRequeued (dl_step_id row) requeued_by (Some (int dlq_id)))) (\<lambda>ev.
          ebind (lift_exn (pg_append (dl_instance_id row) tenant_id [ev] (wi_version i) None None)) (\<lambda>_.
          ebind (now_of (world_ports pt)) (\<lambda>now.
          ebind (on_db (mark_resolved dlq_id tenant_id now)) (\<lambda>_.
            ereturn (dl_instance_id row))))) s)"

section \<open>Correctness\<close>

lemma mark_resolved_tables:
  "mark_resolved n t now d = (r, d') \<Longrightarrow>
   db_events d' = db_events d \<and> db_snapshots d' = db_snapshots d \<and> db_index d' = db_index d"
  by (auto simp: mark_resolved_def)

lemma dlq_record_tables:
  "dlq_record i sid reason d = (r, d') \<Longrightarrow>
   db_events d' = db_events d \<and> db_snapshots d' = db_snapshots d \<and> db_index d' = db_index d"
  by (auto simp: dlq_record_def split: if_splits)

lemma dlq_get_resolved:
  assumes "dlq_get n d = Some row" "dl_tenant_id row = t" "mark_resolved n t now d = (r, d')"
  shows "dlq_get n d' = Some (row\<lparr>dl_resolved := True, dl_resolved_at := Some now\<rparr>)"
proof -
  have "List.find (\<lambda>r. dl_id r = n) (map (\<lambda>r. if dl_id r = n \<and> dl_tenant_id r = t
      then r\<lparr>dl_resolved := True, dl_resolved_at := Some now\<rparr> else r) rows) =
    map_option (\<lambda>r. if dl_id r = n \<and> dl_tenant_id r = t
      then r\<lparr>dl_resolved := True, dl_resolved_at := Some now\<rparr> else r) (List.find (\<lambda>r. dl_id r = n) rows)" for rows
    by (induction rows) auto
  then show ?thesis using assms by (auto simp: dlq_get_def mark_resolved_def find_Some_iff)
qed

lemma requeue_checks_Inr:
  assumes "requeue_checks dlq_id tid d = Inr (row, i)"
  shows "dlq_get dlq_id d = Some row \<and> dl_tenant_id row = tid \<and> \<not> dl_resolved row \<and>
    get_instance d (dl_instance_id row) tid None = Inr (Some i) \<and> wi_status i = WF_DEAD_LETTERED"
  using assms by (simp add: requeue_checks_def split: option.splits if_splits sum.splits)

text \<open>
  C37: putting a dead-lettered instance back to work. A requeue either raises and leaves the
  database as it was, or returns the instance of an unresolved entry of its tenant whose stored
  instance is dead-lettered. Then exactly one event was added at the end of that log, the stored
  instance is running, the entry's step is ready with no attempts and no retry time, the other
  steps are as before, and the entry is resolved.
\<close>

theorem requeue_restarts:
  assumes "store_ok (fst s)" "created_once (fst s)"
    and "requeue pt dlq_id tid by_whom s = (r, s')"
  shows "case r of
      Inl e \<Rightarrow> fst s' = fst s
    | Inr iid \<Rightarrow> \<exists>row i j ev now. dlq_get dlq_id (fst s) = Some row \<and> dl_tenant_id row = tid \<and> \<not> dl_resolved row \<and>
        dl_instance_id row = iid \<and> get_instance (fst s) iid tid None = Inr (Some i) \<and>
        wi_status i = WF_DEAD_LETTERED \<and> log_of (fst s') iid = log_of (fst s) iid @ [ev] \<and>
        get_instance (fst s') iid tid None = Inr (Some j) \<and> wi_status j = WF_RUNNING \<and>
        (\<forall>sid. core_at j sid = (if dl_step_id row = Some sid then (ST_READY, 0, None) else core_at i sid)) \<and>
        dlq_get dlq_id (fst s') = Some (row\<lparr>dl_resolved := True, dl_resolved_at := Some now\<rparr>)"
proof (cases "requeue_checks dlq_id tid (fst s)")
  case (Inl e)
  then show ?thesis using assms(3) by (auto simp: requeue_def)
next
  case (Inr x)
  obtain row i where x: "x = (row, i)" by (cases x)
  note c = requeue_checks_Inr [OF Inr [unfolded x]]
  let ?body = "WorkflowRequeued (dl_step_id row) by_whom (Some (int dlq_id))"
  have tl: "ebind (new_event (world_ports pt) (dl_instance_id row) tid None ?body) (\<lambda>ev.
      ebind (lift_exn (pg_append (dl_instance_id row) tid [ev] (wi_version i) None None)) (\<lambda>_.
      ebind (now_of (world_ports pt)) (\<lambda>now.
      ebind (on_db (mark_resolved dlq_id tid now)) (\<lambda>_. ereturn (dl_instance_id row))))) s = (r, s')"
    using assms(3) Inr x by (simp add: requeue_def)
  have i: "get_instance (fst s) (dl_instance_id row) tid None = Inr (Some i)" and nb: "\<not> created_body ?body"
    using c by simp_all
  show ?thesis
  proof (rule append_one [OF assms(1,2) i tl nb], goal_cases)
    case (1 e)
    then show ?case by simp
  next
    case appended: (2 ev x s1 j)
    define now where "now = pt_now pt (snd s1)"
    define d' where "d' = snd (mark_resolved dlq_id tid now (fst s1))"
    have m: "mark_resolved dlq_id tid now (fst s1) = (Inr (), d')" by (simp add: d'_def mark_resolved_def)
    have "(Inr (dl_instance_id row), (d', snd s1)) = (r, s')"
      using appended(1) by (simp add: ebind_def now_of_def on_outbox_def world_ports_def m now_def [symmetric])
    then have r: "r = Inr (dl_instance_id row)" and s': "fst s' = d'" by auto
    have "same_journal pg_get pg_log pg_ok s1 (d', snd s1)"
      using mark_resolved_tables [OF m] by (intro same_tables) auto
    then have j: "log_of d' = log_of (fst s1)" "get_instance d' = get_instance (fst s1)"
      by (auto simp: same_journal_def pg_get_def)
    have "dlq_get dlq_id (fst s1) = Some row" using c appended(6) by (simp add: dlq_get_def)
    then have res: "dlq_get dlq_id d' = Some (row\<lparr>dl_resolved := True, dl_resolved_at := Some now\<rparr>)"
      by (rule dlq_get_resolved) (use c m in simp_all)
    have run: "wi_status j = WF_RUNNING" using applies_status [OF appended(5)] by simp
    have core: "core_at j sid = (if dl_step_id row = Some sid then (ST_READY, 0, None) else core_at i sid)" for sid
      using applies_core [OF appended(5), of sid] by (cases "core_at i sid") simp
    have lg: "log_of (fst s') (dl_instance_id row) = log_of (fst s) (dl_instance_id row) @ [ev]"
      "get_instance (fst s') (dl_instance_id row) tid None = Inr (Some j)"
      using j s' appended(2,4) by simp_all
    show ?thesis unfolding r sum.case
      by (rule exI [of _ row], rule exI [of _ i], rule exI [of _ j], rule exI [of _ ev], rule exI [of _ now])
        (simp only: c lg run core res [folded s'] simp_thms)
  qed
qed

text \<open>The sample instance after it was dead-lettered, with its entry in the queue.\<close>

definition sample_given_up :: "event list" where
  "sample_given_up = [sample_event 7 (InstanceStatusChanged WF_RUNNING WF_DEAD_LETTERED None)]"

definition sample_parked :: db where
  "sample_parked = snd (append_new ''i1'' ''t1'' sample_given_up 6 None None sample_db)"

definition sample_dead :: db where
  "sample_dead = snd (dlq_record sample_instance (Some ''a'') ''step a failed'' sample_parked)"

lemma sample_parked_ok: "store_ok sample_parked \<and> created_once sample_parked"
proof -
  have "fst (append_new ''i1'' ''t1'' sample_given_up 6 None None sample_db) = Inr (7, sample_given_up)" by code_simp
  then have "append_new ''i1'' ''t1'' sample_given_up 6 None None sample_db = (Inr (7, sample_given_up), sample_parked)"
    by (simp add: sample_parked_def prod_eq_iff)
  moreover have "drafts_ok 6 sample_given_up" by code_simp
  ultimately show ?thesis using pg.append_ok [OF sample_db_ok] by blast
qed

lemma sample_dead_ok: "store_ok sample_dead \<and> created_once sample_dead"
proof -
  obtain r where r: "dlq_record sample_instance (Some ''a'') ''step a failed'' sample_parked = (r, sample_dead)"
    by (simp add: sample_dead_def prod_eq_iff)
  have "same_journal pg_get pg_log pg_ok (sample_parked, ()) (sample_dead, ())"
    using dlq_record_tables [OF r] by (intro same_tables) simp_all
  then show ?thesis using sample_parked_ok by (simp add: same_journal_def pg_ok_def)
qed

theorem requeue_restarts_witness:
  "\<exists>s' j. store_ok sample_dead \<and> created_once sample_dead \<and>
     requeue fixed_ports_of 1 ''t1'' ''ops'' (sample_dead, \<lparr>fx_now = 9000, fx_prefix = ''id'', fx_counter = 0\<rparr>) =
       (Inr ''i1'', s') \<and>
     get_instance (fst s') ''i1'' ''t1'' None = Inr (Some j) \<and> wi_status j = WF_RUNNING \<and>
     core_at j ''a'' = (ST_READY, 0, None)"
proof -
  let ?s = "(sample_dead, \<lparr>fx_now = 9000, fx_prefix = ''id'', fx_counter = 0\<rparr>)"
  have "fst (requeue fixed_ports_of 1 ''t1'' ''ops'' ?s) = Inr ''i1''" by code_simp
  then obtain s' where r: "requeue fixed_ports_of 1 ''t1'' ''ops'' ?s = (Inr ''i1'', s')"
    by (simp add: prod_eq_iff)
  have row: "map_option dl_step_id (dlq_get 1 sample_dead) = Some (Some ''a'')" by code_simp
  have ok: "store_ok (fst ?s)" "created_once (fst ?s)" using sample_dead_ok by simp_all
  from requeue_restarts [OF ok r] obtain row j where "dlq_get 1 sample_dead = Some row"
    "get_instance (fst s') ''i1'' ''t1'' None = Inr (Some j)" "wi_status j = WF_RUNNING"
    "\<forall>sid. dl_step_id row = Some sid \<longrightarrow> core_at j sid = (ST_READY, 0, None)"
    by auto
  then show ?thesis using r row sample_dead_ok by auto
qed

end
