(* ===== verification/Control.thy ===== *)
theory Control
  imports DeadLetter
begin

text \<open>
  \<open>core/control.py\<close>: pause, resume and abort by an operator, who holds no lease. Other writers
  may append between the steps of the loop; \<open>others\<close> says what they append, each number being
  one such moment.
\<close>

section \<open>Operations\<close>

definition RETRIES :: nat where
  "RETRIES = 5"

type_synonym append_call = "string \<times> string \<times> event list \<times> nat \<times> guard option \<times> instant option"

definition foreign :: "append_call list \<Rightarrow> db \<times> 'w \<Rightarrow> db \<times> 'w" where
  "foreign calls s = foldl (\<lambda>s (iid, tid, drafts, v, g, w). snd (pg_append iid tid drafts v g w s)) s calls"

text \<open>The checks of one round on the instance that was read: go on, stop here, or raise.\<close>

definition control_check :: "string \<Rightarrow> workflow_instance option \<Rightarrow> workflow_status \<Rightarrow> pexn + bool" where
  "control_check iid inst to =
     (case inst of
        None \<Rightarrow> Inl (config_error (''instance '' @ iid @ '' not found''))
      | Some i \<Rightarrow>
          if wi_status i \<in> TERMINAL_WORKFLOW_STATUSES
          then Inl (config_error (''instance '' @ iid @ '' is '' @ wf_value (wi_status i) @ '' (terminal)''))
          else if wi_status i = to then Inr False
          else if \<not> workflow_transition_allowed (wi_status i) to
          then Inl (config_error (''cannot move '' @ wf_value (wi_status i) @ '' -> '' @ wf_value to))
          else Inr True)"

text \<open>One attempt to append the status change, others writing in between.\<close>

definition control_apply ::
  "'w ports \<Rightarrow> append_call list \<Rightarrow> string \<Rightarrow> string \<Rightarrow> workflow_status \<Rightarrow> string \<Rightarrow> workflow_instance \<Rightarrow>
   (db \<times> 'w, pexn, nat \<times> event list) eff" where
  "control_apply pt calls iid tid to reason i =
     ebind (new_event (world_ports pt) iid tid None (InstanceStatusChanged (wi_status i) to (Some reason))) (\<lambda>ev.
     ebind (\<lambda>s. (Inr (), foreign calls s)) (\<lambda>_.
       lift_exn (pg_append iid tid [ev] (wi_version i) None None)))"

fun control_transition ::
  "nat \<Rightarrow> 'w ports \<Rightarrow> (nat \<Rightarrow> append_call list) \<Rightarrow> string \<Rightarrow> string \<Rightarrow> workflow_status \<Rightarrow> string \<Rightarrow>
   (db \<times> 'w, pexn, unit) eff" where
  "control_transition 0 pt others iid tid to reason s =
     (Inl (PExn ConflictError (''instance '' @ iid @ '': could not apply '' @ wf_value to @ '' after '' @
        show_nat RETRIES @ '' tries'')), s)"
| "control_transition (Suc n) pt others iid tid to reason s0 =
     (let s = foreign (others (2 * n + 1)) s0 in
      case pg_get s iid tid None of
        Inl c \<Rightarrow> (Inl (PExn c []), s)
      | Inr inst \<Rightarrow>
          (case control_check iid inst to of
             Inl e \<Rightarrow> (Inl e, s)
           | Inr go \<Rightarrow>
               if \<not> go then (Inr (), s)
               else
                 (case control_apply pt (others (2 * n)) iid tid to reason (the inst) s of
                    (Inr _, s') \<Rightarrow> (Inr (), s')
                  | (Inl e, s') \<Rightarrow>
                      if is_conflict (pexn_class e) then control_transition n pt others iid tid to reason s'
                      else (Inl e, s'))))"

definition control_pause :: "'w ports \<Rightarrow> (nat \<Rightarrow> append_call list) \<Rightarrow> string \<Rightarrow> string \<Rightarrow> string \<Rightarrow> (db \<times> 'w, pexn, unit) eff" where
  "control_pause pt others iid tid by_whom =
     control_transition RETRIES pt others iid tid WF_PAUSED (''paused by '' @ by_whom)"

definition control_resume :: "'w ports \<Rightarrow> (nat \<Rightarrow> append_call list) \<Rightarrow> string \<Rightarrow> string \<Rightarrow> string \<Rightarrow> (db \<times> 'w, pexn, unit) eff" where
  "control_resume pt others iid tid by_whom =
     control_transition RETRIES pt others iid tid WF_RUNNING (''resumed by '' @ by_whom)"

definition control_abort :: "'w ports \<Rightarrow> (nat \<Rightarrow> append_call list) \<Rightarrow> string \<Rightarrow> string \<Rightarrow> string \<Rightarrow> (db \<times> 'w, pexn, unit) eff" where
  "control_abort pt others iid tid by_whom =
     control_transition RETRIES pt others iid tid WF_FAILED (''aborted by '' @ by_whom)"

section \<open>Interference\<close>

fun call_drafts :: "append_call \<Rightarrow> event list" where
  "call_drafts (iid, tid, drafts, v, g, w) = drafts"

text \<open>Others append events of running instances: no call is empty or creates one.\<close>

definition foreign_ok :: "append_call list \<Rightarrow> bool" where
  "foreign_ok calls \<longleftrightarrow> list_all (\<lambda>c. call_drafts c \<noteq> [] \<and> list_all (\<lambda>e. \<not> is_created e) (call_drafts c)) calls"

definition foreign_bodies :: "append_call list \<Rightarrow> event_body set" where
  "foreign_bodies calls = (\<Union>c \<in> set calls. ev_body ` set (call_drafts c))"

definition grown :: "event_body set \<Rightarrow> string \<Rightarrow> db \<times> 'w \<Rightarrow> db \<times> 'w \<Rightarrow> bool" where
  "grown B iid s s' \<longleftrightarrow> pg_ok s' \<and> (\<exists>fs. log_of (fst s') iid = log_of (fst s) iid @ fs \<and> ev_body ` set fs \<subseteq> B)"

lemma grown_refl: "pg_ok s \<Longrightarrow> grown B iid s s"
  by (simp add: grown_def)

lemma grown_trans: "grown B iid s t \<Longrightarrow> grown B iid t u \<Longrightarrow> grown B iid s u"
  unfolding grown_def by (metis append.assoc image_Un le_sup_iff set_append)

lemma grown_mono: "grown B iid s t \<Longrightarrow> B \<subseteq> B' \<Longrightarrow> grown B' iid s t"
  unfolding grown_def by blast

lemma call_grown:
  assumes ok: "pg_ok s" and dr: "drafts \<noteq> []" "list_all (\<lambda>e. \<not> is_created e) drafts"
    and ap: "pg_append j tid drafts v g w s = (r, s')"
  shows "grown (ev_body ` set drafts) iid s s'"
proof (cases r)
  case (Inl e)
  then show ?thesis using pg_world.append_error [OF dr(1)] ap ok grown_refl by blast
next
  case (Inr x)
  obtain n evs where x: "x = (n, evs)" by (cases x)
  have "drafts_ok v drafts" using dr by (cases drafts) (auto simp: drafts_ok_def)
  from pg_world.append_ok [OF ok this ap [unfolded Inr x]]
  have law: "pg_ok s'" "evs = sequenced v drafts" "pg_log s' iid = (if iid = j then pg_log s j @ evs else pg_log s iid)"
    by auto
  have "ev_body ` set evs = ev_body ` set drafts"
    using sequenced_bodies [of v drafts] law(2) by (metis image_set)
  then show ?thesis using law unfolding grown_def by (cases "iid = j") auto
qed

lemma foreign_grown:
  assumes "pg_ok s" "foreign_ok calls"
  shows "grown (foreign_bodies calls) iid s (foreign calls s)"
  using assms
proof (induction calls arbitrary: s)
  case Nil
  then show ?case by (simp add: foreign_def grown_refl)
next
  case (Cons c calls)
  obtain j tid drafts v g w where c: "c = (j, tid, drafts, v, g, w)" by (metis prod_cases6)
  obtain r s1 where a: "pg_append j tid drafts v g w s = (r, s1)" by (meson surj_pair)
  have first: "grown (ev_body ` set drafts) iid s s1"
    by (rule call_grown [OF Cons.prems(1) _ _ a]) (use Cons.prems(2) c in \<open>simp_all add: foreign_ok_def\<close>)
  have "grown (foreign_bodies calls) iid s1 (foreign calls s1)"
    using first Cons.prems(2) by (intro Cons.IH) (simp_all add: grown_def foreign_ok_def)
  moreover have "foreign (c # calls) s = foreign calls s1" using a c by (simp add: foreign_def)
  ultimately show ?case
    using grown_trans [OF grown_mono [OF first] grown_mono] c by (auto simp: foreign_bodies_def)
qed

section \<open>Correctness\<close>

text \<open>How a control operation ends; \<open>t\<close> is the state in which it decides.\<close>

definition control_ends ::
  "event_body set \<Rightarrow> string \<Rightarrow> string \<Rightarrow> workflow_status \<Rightarrow> string \<Rightarrow> db \<times> 'w \<Rightarrow> pexn + unit \<Rightarrow> db \<times> 'w \<Rightarrow> bool" where
  "control_ends B iid tid to reason s r s' \<longleftrightarrow>
     (case r of
        Inl e \<Rightarrow> grown B iid s s'
      | Inr _ \<Rightarrow> \<exists>t i. grown B iid s t \<and> get_instance (fst t) iid tid None = Inr (Some i) \<and>
          (wi_status i = to \<and> s' = t \<or>
           workflow_transition_allowed (wi_status i) to \<and> pg_ok s' \<and>
           (\<exists>ev j. log_of (fst s') iid = log_of (fst t) iid @ [ev] \<and>
              ev_body ev = InstanceStatusChanged (wi_status i) to (Some reason) \<and>
              get_instance (fst s') iid tid None = Inr (Some j) \<and> wi_status j = to)))"

lemma control_ends_later:
  "grown B iid s t \<Longrightarrow> control_ends B iid tid to reason t r s' \<Longrightarrow> control_ends B iid tid to reason s r s'"
  unfolding control_ends_def by (cases r) (simp, blast intro: grown_trans)+

lemma control_check_Inr:
  "control_check iid inst to = Inr go \<Longrightarrow>
   \<exists>i. inst = Some i \<and> (if go then workflow_transition_allowed (wi_status i) to else wi_status i = to)"
  by (auto simp: control_check_def split: option.splits if_splits)

text \<open>An append at the version read, after others may have written, succeeds only if they did not.\<close>

lemma append_after_others:
  assumes ok: "pg_ok s" "pg_ok t" and lg: "log_of (fst t) iid = log_of (fst s) iid @ fs"
    and get: "get_instance (fst s) iid tid None = Inr (Some i)" and ev: "\<not> created_body (ev_body ev)"
    and ap: "pg_append iid tid [ev] (wi_version i) None None t = (Inr x, t')"
  shows "fs = [] \<and> get_instance (fst t) iid tid None = Inr (Some i) \<and> pg_ok t' \<and>
    (\<exists>e' j. log_of (fst t') iid = log_of (fst t) iid @ [e'] \<and> ev_body e' = ev_body ev \<and>
       get_instance (fst t') iid tid None = Inr (Some j) \<and> applies None i [ev_body ev] j)"
proof -
  obtain n evs where x: "x = (n, evs)" by (cases x)
  have dr: "drafts_ok (wi_version i) [ev]" "[ev] \<noteq> []" "list_all (\<lambda>e. \<not> is_created e) [ev]"
    using ev by (simp_all add: drafts_ok_def is_created_body)
  note law = pg_world.append_ok [OF ok(2) dr(1) ap [unfolded x]]
  have "wi_version i = length (log_of (fst s) iid)"
    using pg_world.get_version [OF ok(1)] get by (simp add: pg_get_def)
  then have fs: "fs = []" using law lg by simp
  then have get': "get_instance (fst t) iid tid None = Inr (Some i)"
    using pg_get_of_log [OF ok(1), of iid tid None] pg_get_of_log [OF ok(2), of iid tid None] get lg
    by (simp add: pg_get_def)
  have sy: "pg_world.synced None iid tid (pg_log t) i t"
    using ok get' by (simp add: pg_world.synced_def pg_get_def)
  obtain j where j: "pg_world.synced None iid tid (pg_log t) j t'" "applies None i [ev_body ev] j"
    using pg_world.append_at_version [OF sy dr(2,3) ap] x by auto
  have "evs = [ev\<lparr>ev_sequence := Suc (wi_version i)\<rparr>]" using law by (simp add: sequenced_Cons)
  then show ?thesis using fs get' j law
    by (auto simp: pg_world.synced_def pg_get_def intro!: exI [of _ "ev\<lparr>ev_sequence := Suc (wi_version i)\<rparr>"])
qed

lemma control_apply_ends:
  assumes okt: "pg_ok t" and calls: "foreign_ok calls" "foreign_bodies calls \<subseteq> B"
    and gi: "get_instance (fst t) iid tid None = Inr (Some i)" and go: "workflow_transition_allowed (wi_status i) to"
    and run: "control_apply pt calls iid tid to reason i t = (r, s')"
  shows "case r of Inl e \<Rightarrow> grown B iid t s' | Inr _ \<Rightarrow> control_ends B iid tid to reason t (Inr ()) s'"
proof -
  let ?body = "InstanceStatusChanged (wi_status i) to (Some reason)"
  obtain q u where ne: "new_event (world_ports pt) iid tid None ?body t = (q, u)" by (meson surj_pair)
  note neq = new_event_world [OF ne]
  show ?thesis
  proof (cases q)
    case (Inl e)
    then have "r = Inl e" "s' = u" using run ne by (simp_all add: control_apply_def ebind_def)
    then show ?thesis using okt neq by (simp add: grown_def pg_ok_def)
  next
    case ev: (Inr ev)
    define v where "v = foreign calls u"
    have "pg_ok u" using okt neq by (simp add: pg_ok_def)
    then have "grown B iid u v"
      using grown_mono [OF foreign_grown calls(2)] calls(1) by (simp add: v_def)
    then have tv: "grown B iid t v" using neq by (simp add: grown_def)
    have bd: "ev_body ev = ?body" using neq ev by simp
    obtain z s2 where ap: "pg_append iid tid [ev] (wi_version i) None None v = (z, s2)" by (meson surj_pair)
    have run': "lift_exn (pg_append iid tid [ev] (wi_version i) None None) v = (r, s')"
      using run ne ev by (simp add: control_apply_def ebind_def v_def)
    show ?thesis
    proof (cases z)
      case (Inl c)
      then have "s2 = v" using pg_world.append_error [OF _ ap [unfolded Inl]] by simp
      then show ?thesis using run' ap Inl tv by (auto simp: lift_exn_def)
    next
      case (Inr x)
      then have rs: "r = Inr x" "s' = s2" using run' ap by (simp_all add: lift_exn_def)
      obtain fs where fs: "log_of (fst v) iid = log_of (fst t) iid @ fs" and okv: "pg_ok v"
        using tv by (auto simp: grown_def)
      have "\<not> created_body (ev_body ev)" using bd by simp
      from append_after_others [OF okt okv fs gi this ap [unfolded Inr]]
      obtain e' j where res: "get_instance (fst v) iid tid None = Inr (Some i)" "pg_ok s2"
        "log_of (fst s2) iid = log_of (fst v) iid @ [e']" "ev_body e' = ?body"
        "get_instance (fst s2) iid tid None = Inr (Some j)" "applies None i [?body] j"
        using bd by auto
      moreover have "wi_status j = to" using applies_status [OF res(6)] by simp
      ultimately show ?thesis unfolding rs control_ends_def sum.case using tv go by blast
    qed
  qed
qed

lemma control_round:
  assumes t: "grown B iid s t" "pg_ok t" and calls: "foreign_ok calls" "foreign_bodies calls \<subseteq> B"
    and gi: "get_instance (fst t) iid tid None = Inr (Some i)" "workflow_transition_allowed (wi_status i) to"
    and run: "(case control_apply pt calls iid tid to reason i t of
         (Inr _, s') \<Rightarrow> (Inr (), s')
       | (Inl e, s') \<Rightarrow> if is_conflict (pexn_class e) then again s' else (Inl e, s')) = (r, s')"
    and again: "\<And>u. pg_ok u \<Longrightarrow> again u = (r, s') \<Longrightarrow> control_ends B iid tid to reason u r s'"
  shows "control_ends B iid tid to reason s r s'"
proof -
  obtain q u where q: "control_apply pt calls iid tid to reason i t = (q, u)" by (meson surj_pair)
  note law = control_apply_ends [OF t(2) calls gi q]
  show ?thesis
  proof (cases q)
    case (Inr x)
    then have "r = Inr ()" "s' = u" using run q by simp_all
    then show ?thesis using law Inr control_ends_later [OF t(1)] by simp
  next
    case (Inl e)
    then have tu: "grown B iid s u" using grown_trans [OF t(1)] law by simp
    show ?thesis
    proof (cases "is_conflict (pexn_class e)")
      case True
      then have "again u = (r, s')" using run q Inl by simp
      moreover have "pg_ok u" using tu by (simp add: grown_def)
      ultimately show ?thesis using again control_ends_later [OF tu] by blast
    next
      case False
      then have "r = Inl e" "s' = u" using run q Inl by simp_all
      then show ?thesis using tu by (simp add: control_ends_def)
    qed
  qed
qed

lemma control_transition_ends:
  assumes "pg_ok s" "\<And>m. foreign_ok (others m)" "\<And>m. foreign_bodies (others m) \<subseteq> B"
    and "control_transition n pt others iid tid to reason s = (r, s')"
  shows "control_ends B iid tid to reason s r s'"
  using assms(1,4)
proof (induction n arbitrary: s)
  case 0
  then show ?case by (auto simp: control_ends_def grown_refl)
next
  case (Suc n)
  define t where "t = foreign (others (2 * n + 1)) s"
  have t: "grown B iid s t"
    using grown_mono [OF foreign_grown [OF Suc.prems(1) assms(2)] assms(3)] by (simp add: t_def)
  then have okt: "pg_ok t" by (simp add: grown_def)
  have fail: "control_ends B iid tid to reason s (Inl e) t" for e
    using t by (simp add: control_ends_def)
  note run = Suc.prems(2) [unfolded control_transition.simps Let_def, folded t_def]
  show ?case
  proof (cases "case pg_get t iid tid None of Inl c \<Rightarrow> Inl (PExn c []) | Inr inst \<Rightarrow> control_check iid inst to")
    case (Inl e)
    then have "s' = t \<and> (\<exists>e. r = Inl e)" using run by (auto split: sum.splits)
    then show ?thesis using fail by blast
  next
    case chk: (Inr go)
    then obtain inst where inst: "pg_get t iid tid None = Inr inst" "control_check iid inst to = Inr go"
      by (auto split: sum.splits)
    then obtain i where i: "pg_get t iid tid None = Inr (Some i)" "control_check iid (Some i) to = Inr go"
      "if go then workflow_transition_allowed (wi_status i) to else wi_status i = to"
      using control_check_Inr by blast
    have gi: "get_instance (fst t) iid tid None = Inr (Some i)" using i(1) by (simp add: pg_get_def)
    show ?thesis
    proof (cases go)
      case False
      then have rs: "r = Inr ()" "s' = t" and to: "wi_status i = to" using run i by simp_all
      show ?thesis unfolding rs control_ends_def sum.case using t gi to by blast
    next
      case go: True
      have allowed: "workflow_transition_allowed (wi_status i) to" using i(3) go by simp
      show ?thesis by (rule control_round [OF t okt assms(2,3) gi allowed _ Suc.IH]) (use run i go in simp_all)
    qed
  qed
qed

text \<open>
  C36: operator control under concurrent writers. Other writers may append any events of existing
  instances before each read and between each read and the append that follows. When the
  operation raises, nothing of its own was appended. When it returns, there was a state in which
  the stored instance either already had the wanted status, or allowed the transition; in the
  second case the next and last event of the log is the operator's status change from exactly
  the status stored then, and the stored status is the wanted one. No event of another writer is
  ever lost.
\<close>

theorem control_no_lost_update:
  assumes "store_ok (fst s)" "created_once (fst s)" "\<And>m. foreign_ok (others m)"
    and "control_transition n pt others iid tid to reason s = (r, s')"
  shows "case r of
       Inl e \<Rightarrow> grown (\<Union>m. foreign_bodies (others m)) iid s s'
     | Inr _ \<Rightarrow> \<exists>t i. grown (\<Union>m. foreign_bodies (others m)) iid s t \<and>
          get_instance (fst t) iid tid None = Inr (Some i) \<and>
          (wi_status i = to \<and> s' = t \<or>
           workflow_transition_allowed (wi_status i) to \<and> pg_ok s' \<and>
           (\<exists>ev j. log_of (fst s') iid = log_of (fst t) iid @ [ev] \<and>
              ev_body ev = InstanceStatusChanged (wi_status i) to (Some reason) \<and>
              get_instance (fst s') iid tid None = Inr (Some j) \<and> wi_status j = to))"
  using control_transition_ends [OF _ assms(3) _ assms(4), of "\<Union>m. foreign_bodies (others m)"] assms(1,2)
  by (auto simp: control_ends_def pg_ok_def)

text \<open>A pause of the sample instance that meets a charge in its first round.\<close>

definition sample_charge :: "nat \<Rightarrow> append_call list" where
  "sample_charge m = (if m = 8 then [(''i1'', ''t1'', [sample_event 7 (CostCharged None (1/4) None 0 0)], 6, None, None)] else [])"

theorem control_no_lost_update_witness:
  "\<exists>s'. store_ok sample_db \<and> created_once sample_db \<and> (\<forall>m. foreign_ok (sample_charge m)) \<and>
     control_transition 5 fixed_ports_of sample_charge ''i1'' ''t1'' WF_PAUSED ''paused by op''
       (sample_db, \<lparr>fx_now = 9000, fx_prefix = ''id'', fx_counter = 0\<rparr>) = (Inr (), s') \<and> pg_ok s' \<and>
     (\<exists>t i. grown (\<Union>m. foreign_bodies (sample_charge m)) ''i1'' (sample_db, \<lparr>fx_now = 9000, fx_prefix = ''id'', fx_counter = 0\<rparr>) t \<and>
        get_instance (fst t) ''i1'' ''t1'' None = Inr (Some i))"
proof -
  let ?s = "(sample_db, \<lparr>fx_now = 9000, fx_prefix = ''id'', fx_counter = 0\<rparr>)"
  have "fst (control_transition 5 fixed_ports_of sample_charge ''i1'' ''t1'' WF_PAUSED ''paused by op'' ?s) = Inr ()"
    by code_simp
  then obtain s' where r: "control_transition 5 fixed_ports_of sample_charge ''i1'' ''t1'' WF_PAUSED ''paused by op'' ?s = (Inr (), s')"
    by (simp add: prod_eq_iff)
  have calls: "foreign_ok (sample_charge m)" for m by (simp add: sample_charge_def foreign_ok_def sample_event_def is_created_def)
  have ok: "store_ok (fst ?s)" "created_once (fst ?s)" using sample_db_ok by simp_all
  from control_no_lost_update [OF ok calls r] obtain t i where
    t: "grown (\<Union>m. foreign_bodies (sample_charge m)) ''i1'' ?s t" "get_instance (fst t) ''i1'' ''t1'' None = Inr (Some i)"
      "s' = t \<or> pg_ok s'" by auto
  then have "pg_ok s'" by (auto simp: grown_def)
  then show ?thesis using r calls t sample_db_ok by blast
qed

end
