(* ===== verification/Cost.thy ===== *)
theory Cost
  imports Tables
begin

text \<open>
  \<open>core/cost\<close>: token estimation, the model registry, the cost-aware router and the budgets. A
  price or a score is a rational. Python's \<open>str\<close> of a value that is not a string, its
  \<open>repr\<close> of a float and pydantic's construction of a model from parsed YAML are parameters.
\<close>

section \<open>Token estimation\<close>

definition CHARS_PER_TOKEN :: int where
  "CHARS_PER_TOKEN = 4"

definition PER_MESSAGE_OVERHEAD :: int where
  "PER_MESSAGE_OVERHEAD = 4"

definition estimate_text_tokens :: "string \<Rightarrow> int" where
  "estimate_text_tokens txt = - ((- int (length txt)) div CHARS_PER_TOKEN)"

definition str_of :: "(json \<Rightarrow> string) \<Rightarrow> json \<Rightarrow> string" where
  "str_of py_str j = (case j of JStr s \<Rightarrow> s | _ \<Rightarrow> py_str j)"

text \<open>One message: a string content, or a list of blocks each with an optional text.\<close>

fun block_tokens :: "(json \<Rightarrow> string) \<Rightarrow> json \<Rightarrow> int res" where
  "block_tokens py_str (JObj kvs) =
     Inr (estimate_text_tokens (str_of py_str
       (case dget kvs ''text'' of Some t \<Rightarrow> t | None \<Rightarrow> JObj kvs)))"
| "block_tokens py_str _ = Inl (OtherException ''AttributeError'')"

fun content_tokens :: "(json \<Rightarrow> string) \<Rightarrow> json \<Rightarrow> int res" where
  "content_tokens py_str (JStr s) = Inr (estimate_text_tokens s)"
| "content_tokens py_str (JArr blocks) =
     rfoldl (\<lambda>total b. rbind (block_tokens py_str b) (\<lambda>n. Inr (total + n))) 0 blocks"
| "content_tokens py_str (JObj kvs) =
     (if kvs = [] then Inr 0 else Inl (OtherException ''AttributeError''))"
| "content_tokens py_str _ = Inl (OtherException ''TypeError'')"

definition estimate_message_tokens ::
  "(json \<Rightarrow> string) \<Rightarrow> obj list \<Rightarrow> string option \<Rightarrow> json list option \<Rightarrow> int res" where
  "estimate_message_tokens py_str messages sys tools =
     rbind (rfoldl (\<lambda>total msg.
         rbind (content_tokens py_str (case dget msg ''content'' of Some c \<Rightarrow> c | None \<Rightarrow> JStr []))
           (\<lambda>n. Inr (total + n + PER_MESSAGE_OVERHEAD)))
       (case sys of None \<Rightarrow> 0 | Some s \<Rightarrow> if s = [] then 0 else estimate_text_tokens s) messages)
     (\<lambda>total. Inr (total + (case tools of None \<Rightarrow> 0
        | Some ts \<Rightarrow> sum_list (map (\<lambda>t. estimate_text_tokens (str_of py_str t)) ts))))"

text \<open>Rounding up: the smallest number of tokens of four characters that covers the text.\<close>

lemma estimate_text_tokens_ceil:
  "int (length txt) \<le> 4 * estimate_text_tokens txt"
  "4 * estimate_text_tokens txt < int (length txt) + 4"
  unfolding estimate_text_tokens_def CHARS_PER_TOKEN_def by linarith+

section \<open>Model registry\<close>

record model_config =
  mc_key :: string
  mc_model_id :: string
  mc_provider :: string
  mc_input_per_mtok :: rat
  mc_output_per_mtok :: rat
  mc_context_window :: int
  mc_max_output_tokens :: int
  mc_avg_latency_ms :: int
  mc_reliability_score :: rat
  mc_supports_tools :: bool
  mc_supports_vision :: bool
  mc_tiers :: "cost_tier list"

text \<open>The field constraints pydantic enforces.\<close>

definition model_valid :: "model_config \<Rightarrow> bool" where
  "model_valid m \<longleftrightarrow> 0 \<le> mc_input_per_mtok m \<and> 0 \<le> mc_output_per_mtok m \<and>
     0 < mc_context_window m \<and> 0 < mc_max_output_tokens m \<and> 0 \<le> mc_avg_latency_ms m \<and>
     0 \<le> mc_reliability_score m \<and> mc_reliability_score m \<le> 1"

definition model_cost_usd :: "model_config \<Rightarrow> int \<Rightarrow> int \<Rightarrow> usd" where
  "model_cost_usd m input_tokens output_tokens =
     of_int input_tokens / 1000000 * mc_input_per_mtok m +
     of_int output_tokens / 1000000 * mc_output_per_mtok m"

record model_registry =
  mr_models :: "(string, model_config) pydict"
  mr_chains :: "(cost_tier, string list) pydict"

definition get_model :: "model_registry \<Rightarrow> string \<Rightarrow> pexn + model_config" where
  "get_model reg key =
     (case dget (mr_models reg) key of
        Some m \<Rightarrow> Inr m
      | None \<Rightarrow> Inl (PExn ConfigurationError (''unknown model '' @ py_repr key)))"

definition all_models :: "model_registry \<Rightarrow> model_config list" where
  "all_models reg = map snd (mr_models reg)"

definition for_tier :: "model_registry \<Rightarrow> cost_tier \<Rightarrow> model_config list" where
  "for_tier reg tier =
     sort_key (\<lambda>m. model_cost_usd m 1000000 1000000)
       (filter (\<lambda>m. tier \<in> set (mc_tiers m)) (map snd (mr_models reg)))"

definition fallback_chain :: "model_registry \<Rightarrow> cost_tier \<Rightarrow> string list" where
  "fallback_chain reg tier = (case dget (mr_chains reg) tier of None \<Rightarrow> [] | Some ks \<Rightarrow> ks)"

fun tier_of :: "string \<Rightarrow> cost_tier option" where
  "tier_of s = List.find (\<lambda>t. tier_value t = s) [CHEAP, STANDARD, PREMIUM, CRITICAL]"

text \<open>
  \<open>from_dict\<close> on the parsed YAML: the \<open>models\<close> section as named specifications, the
  \<open>fallback_chains\<close> section as lists of names per tier. \<open>mk\<close> is \<open>ModelConfig(key=key, **spec)\<close>.
\<close>

definition build_models ::
  "(string \<Rightarrow> obj \<Rightarrow> pexn + model_config) \<Rightarrow> (string \<times> obj) list \<Rightarrow>
   pexn + (string, model_config) pydict" where
  "build_models mk raw =
     rfoldl (\<lambda>ms (key, spec). rbind (mk key spec) (\<lambda>m. Inr (dset key m ms))) [] raw"

definition add_chain ::
  "(string, model_config) pydict \<Rightarrow> (cost_tier, string list) pydict \<Rightarrow> string \<times> string list \<Rightarrow>
   pexn + (cost_tier, string list) pydict" where
  "add_chain models chs x = (case x of (tier_name, ks) \<Rightarrow>
     (case tier_of tier_name of
        None \<Rightarrow> Inl (PExn (OtherException ''ValueError'')
                  (py_repr tier_name @ '' is not a valid CostTier''))
      | Some tier \<Rightarrow>
          (case List.find (\<lambda>k. dget models k = None) ks of
             Some k \<Rightarrow> Inl (PExn ConfigurationError (''fallback_chains['' @ tier_name @
                         ''] references unknown model '' @ py_repr k))
           | None \<Rightarrow> Inr (dset tier ks chs))))"

definition from_dict ::
  "(string \<Rightarrow> obj \<Rightarrow> pexn + model_config) \<Rightarrow> (string \<times> obj) list \<Rightarrow> (string \<times> string list) list \<Rightarrow>
   pexn + model_registry" where
  "from_dict mk models_raw chains_raw =
     (if models_raw = [] then Inl (PExn ConfigurationError (''model registry has no '' @ py_repr ''models''))
      else rbind (build_models mk models_raw) (\<lambda>models.
             rbind (rfoldl (add_chain models) [] chains_raw) (\<lambda>chs.
               Inr \<lparr>mr_models = models, mr_chains = chs\<rparr>)))"

text \<open>\<open>reload\<close>: a configuration that does not load leaves the registry as it was.\<close>

definition reload :: "pexn + model_registry \<Rightarrow> (model_registry, pexn, unit) eff" where
  "reload fresh reg = (case fresh of Inl e \<Rightarrow> (Inl e, reg) | Inr r \<Rightarrow> (Inr (), r))"

definition registry_ok :: "model_registry \<Rightarrow> bool" where
  "registry_ok reg \<longleftrightarrow>
     list_all (\<lambda>(k, m). mc_key m = k \<and> model_valid m) (mr_models reg) \<and>
     list_all (\<lambda>(t, ks). list_all (\<lambda>k. dget (mr_models reg) k \<noteq> None) ks) (mr_chains reg)"

section \<open>Budgets\<close>

record budget_view =
  bv_remaining_workflow_usd :: "usd option"
  bv_remaining_tenant_daily_usd :: "usd option"

definition allows :: "budget_view \<Rightarrow> usd \<Rightarrow> bool" where
  "allows v projected =
     list_all (\<lambda>l. case l of None \<Rightarrow> True | Some x \<Rightarrow> projected \<le> x)
       [bv_remaining_workflow_usd v, bv_remaining_tenant_daily_usd v]"

definition tightest_remaining :: "budget_view \<Rightarrow> usd option" where
  "tightest_remaining v =
     (case List.map_filter id [bv_remaining_workflow_usd v, bv_remaining_tenant_daily_usd v] of
        [] \<Rightarrow> None | x # xs \<Rightarrow> Some (foldl min x xs))"

lemma allows_iff_tightest:
  "allows v x \<longleftrightarrow> (case tightest_remaining v of None \<Rightarrow> True | Some t \<Rightarrow> x \<le> t)"
  by (cases "bv_remaining_workflow_usd v"; cases "bv_remaining_tenant_daily_usd v")
    (simp_all add: allows_def tightest_remaining_def List.map_filter_def)

text \<open>\<open>now.date()\<close> of an aware UTC datetime.\<close>

definition date_of :: "instant \<Rightarrow> int" where
  "date_of t = t div 86400000000"

definition pg_spent_today :: "string \<Rightarrow> int \<Rightarrow> (db, pexn, usd) eff" where
  "pg_spent_today tenant_id day d =
     (Inr (case dget (db_ledger d) (tenant_id, day) of None \<Rightarrow> 0 | Some r \<Rightarrow> lg_cost_usd r), d)"

definition pg_record :: "string \<Rightarrow> int \<Rightarrow> usd \<Rightarrow> (db, pexn, unit) eff" where
  "pg_record tenant_id day amount d =
     (if amount \<le> 0 then (Inr (), d)
      else if \<not> fits [(64, tenant_id)] then (Inl (PExn DbDataError ''value too long''), d)
      else (Inr (), d\<lparr>db_ledger := dset (tenant_id, day)
             (case dget (db_ledger d) (tenant_id, day) of
                None \<Rightarrow> \<lparr>lg_tenant_id = tenant_id, lg_day = day, lg_cost_usd = amount,
                         lg_updated_at = db_clock d\<rparr>
              | Some r \<Rightarrow> r\<lparr>lg_cost_usd := lg_cost_usd r + amount\<rparr>) (db_ledger d)\<rparr>))"

type_synonym mem_ledger = "(string \<times> int, usd) pydict"

definition mem_spent_today :: "string \<Rightarrow> int \<Rightarrow> (mem_ledger, pexn, usd) eff" where
  "mem_spent_today tenant_id day m =
     (Inr (case dget m (tenant_id, day) of None \<Rightarrow> 0 | Some x \<Rightarrow> x), m)"

definition mem_record :: "string \<Rightarrow> int \<Rightarrow> usd \<Rightarrow> (mem_ledger, pexn, unit) eff" where
  "mem_record tenant_id day amount m =
     (if amount \<le> 0 then (Inr (), m)
      else (Inr (), dset (tenant_id, day)
             ((case dget m (tenant_id, day) of None \<Rightarrow> 0 | Some x \<Rightarrow> x) + amount) m))"

text \<open>The ledger the budget service and the driver rely on.\<close>

locale budget_ledger =
  fixes spent_today :: "string \<Rightarrow> int \<Rightarrow> ('s, pexn, usd) eff"
    and ledger_record :: "string \<Rightarrow> int \<Rightarrow> usd \<Rightarrow> ('s, pexn, unit) eff"
    and spent :: "'s \<Rightarrow> string \<Rightarrow> int \<Rightarrow> usd"
  assumes spent_read: "spent_today t day s = (Inr (spent s t day), s)"
    and record_law: "ledger_record t day x s = (r, s') \<Longrightarrow>
      (case r of Inl _ \<Rightarrow> s' = s
       | Inr _ \<Rightarrow> spent s' t' day' =
           spent s t' day' + (if t' = t \<and> day' = day then max 0 x else 0))"
begin

text \<open>Recording a series of charges adds up, and never lowers what was spent.\<close>

fun record_all :: "string \<Rightarrow> int \<Rightarrow> usd list \<Rightarrow> ('s, pexn, unit) eff" where
  "record_all t day [] = ereturn ()"
| "record_all t day (x # xs) = ebind (ledger_record t day x) (\<lambda>_. record_all t day xs)"

lemma record_all_spent:
  "record_all t day xs s = (Inr (), s') \<Longrightarrow>
   spent s' t' day' = spent s t' day' + (if t' = t \<and> day' = day then sum_list (map (max 0) xs) else 0)"
proof (induction xs arbitrary: s)
  case (Cons x xs)
  then obtain s1 where r: "ledger_record t day x s = (Inr (), s1)" "record_all t day xs s1 = (Inr (), s')"
    by (auto simp: ebind_eq_Inr)
  show ?case using record_law [OF r(1), of t' day'] Cons.IH [OF r(2)] by auto
qed simp

lemma record_monotone: "ledger_record t day x s = (r, s') \<Longrightarrow> spent s t' day' \<le> spent s' t' day'"
  using record_law [of t day x s r s' t' day'] by (cases r) auto

end

definition pg_spent :: "db \<Rightarrow> string \<Rightarrow> int \<Rightarrow> usd" where
  "pg_spent d t day = (case dget (db_ledger d) (t, day) of None \<Rightarrow> 0 | Some r \<Rightarrow> lg_cost_usd r)"

definition mem_spent :: "mem_ledger \<Rightarrow> string \<Rightarrow> int \<Rightarrow> usd" where
  "mem_spent m t day = (case dget m (t, day) of None \<Rightarrow> 0 | Some x \<Rightarrow> x)"

interpretation pg_ledger: budget_ledger pg_spent_today pg_record pg_spent
  by unfold_locales
    (auto simp: pg_spent_today_def pg_record_def pg_spent_def max_def split: option.splits if_splits)

interpretation memory_ledger: budget_ledger mem_spent_today mem_record mem_spent
  by unfold_locales
    (auto simp: mem_spent_today_def mem_record_def mem_spent_def max_def split: option.splits if_splits)

record 's budget_service =
  bs_spent_today :: "string \<Rightarrow> int \<Rightarrow> ('s, pexn, usd) eff"
  bs_record :: "string \<Rightarrow> int \<Rightarrow> usd \<Rightarrow> ('s, pexn, unit) eff"
  bs_daily_limit :: "usd option"

definition daily_limit :: "usd option \<Rightarrow> usd option \<Rightarrow> usd option" where
  "daily_limit given configured = (case given of Some x \<Rightarrow> Some x | None \<Rightarrow> configured)"

definition budget_view_of ::
  "'s budget_service \<Rightarrow> workflow_instance \<Rightarrow> instant \<Rightarrow> ('s, pexn, budget_view) eff" where
  "budget_view_of b i now =
     (case bs_daily_limit b of
        None \<Rightarrow> ereturn \<lparr>bv_remaining_workflow_usd = remaining_budget_usd i,
                         bv_remaining_tenant_daily_usd = None\<rparr>
      | Some limit \<Rightarrow>
          ebind (bs_spent_today b (wi_tenant_id i) (date_of now)) (\<lambda>spent.
            ereturn \<lparr>bv_remaining_workflow_usd = remaining_budget_usd i,
                     bv_remaining_tenant_daily_usd = Some (limit - spent)\<rparr>))"

definition record_spend ::
  "'s budget_service \<Rightarrow> string \<Rightarrow> usd \<Rightarrow> instant \<Rightarrow> ('s, pexn, unit) eff" where
  "record_spend b tenant_id amount now = bs_record b tenant_id (date_of now) amount"

section \<open>Routing\<close>

record route_request =
  rr_cost_tier :: cost_tier
  rr_task_type :: string
  rr_estimated_input_tokens :: int
  rr_expected_output_tokens :: int
  rr_needs_tools :: bool
  rr_needs_vision :: bool
  rr_reliability_floor :: rat
  rr_max_latency_ms :: "int option"
  rr_exclude :: "string set"

record route_decision =
  rd_model_key :: string
  rd_model :: model_config
  rd_projected_cost_usd :: usd
  rd_projected_input_tokens :: int
  rd_projected_output_tokens :: int
  rd_fallback_chain :: "string list"

definition capable :: "route_request \<Rightarrow> model_config \<Rightarrow> bool" where
  "capable req m \<longleftrightarrow>
     mc_key m \<notin> rr_exclude req \<and>
     (rr_needs_tools req \<longrightarrow> mc_supports_tools m) \<and>
     (rr_needs_vision req \<longrightarrow> mc_supports_vision m) \<and>
     rr_reliability_floor req \<le> mc_reliability_score m \<and>
     (case rr_max_latency_ms req of None \<Rightarrow> True | Some ms \<Rightarrow> mc_avg_latency_ms m \<le> ms) \<and>
     rr_estimated_input_tokens req + rr_expected_output_tokens req \<le> mc_context_window m \<and>
     rr_expected_output_tokens req \<le> mc_max_output_tokens m"

definition eligible :: "model_registry \<Rightarrow> route_request \<Rightarrow> model_config list" where
  "eligible reg req = filter (capable req) (for_tier reg (rr_cost_tier req))"

definition projected_cost :: "route_request \<Rightarrow> model_config \<Rightarrow> usd" where
  "projected_cost req m =
     model_cost_usd m (rr_estimated_input_tokens req) (rr_expected_output_tokens req)"

definition show_bool :: "bool \<Rightarrow> string" where
  "show_bool b = (if b then ''True'' else ''False'')"

definition select_model ::
  "(rat \<Rightarrow> string) \<Rightarrow> model_registry \<Rightarrow> route_request \<Rightarrow> budget_view option \<Rightarrow>
   pexn + route_decision" where
  "select_model py_float reg req budget =
     (case sort_key (projected_cost req) (eligible reg req) of
        [] \<Rightarrow> Inl (PExn NoEligibleModelError
               (''no model satisfies tier='' @ tier_value (rr_cost_tier req) @
                '' tools='' @ show_bool (rr_needs_tools req) @
                '' vision='' @ show_bool (rr_needs_vision req) @
                '' reliability>='' @ py_float (rr_reliability_floor req)))
      | m # _ \<Rightarrow>
          if (case budget of None \<Rightarrow> False | Some b \<Rightarrow> \<not> allows b (projected_cost req m))
          then Inl (PExn BudgetExceededError
                 (''projected $'' @ fmt4 (projected_cost req m) @ '' for '' @ mc_key m @
                  '' exceeds remaining budget $'' @
                  fmt4 (the (tightest_remaining (the budget)))))
          else Inr \<lparr>rd_model_key = mc_key m, rd_model = m,
                    rd_projected_cost_usd = projected_cost req m,
                    rd_projected_input_tokens = rr_estimated_input_tokens req,
                    rd_projected_output_tokens = rr_expected_output_tokens req,
                    rd_fallback_chain = filter (\<lambda>k. k \<noteq> mc_key m \<and> k \<notin> rr_exclude req)
                      (fallback_chain reg (rr_cost_tier req))\<rparr>)"

section \<open>Correctness\<close>

lemma build_models_ok:
  assumes "\<And>k spec m. mk k spec = Inr m \<Longrightarrow> mc_key m = k \<and> model_valid m"
    and "build_models mk raw = Inr ms"
  shows "list_all (\<lambda>(k, m). mc_key m = k \<and> model_valid m) ms"
proof -
  let ?P = "\<lambda>ms :: (string, model_config) pydict. \<forall>(k, m) \<in> set ms. mc_key m = k \<and> model_valid m"
  have "?P ms"
  proof (rule rfoldl_inv [where P = ?P, OF assms(2) [unfolded build_models_def]])
    fix s s' x assume P: "?P s"
      and step: "(\<lambda>ms (key, spec). rbind (mk key spec) (\<lambda>m. Inr (dset key m ms))) s x = Inr s'"
    obtain k spec where x: "x = (k, spec)" by (cases x)
    with step obtain m where m: "mk k spec = Inr m" "s' = dset k m s"
      by (auto simp: rbind_eq_Inr)
    then show "?P s'" using P assms(1) [OF m(1)] set_dset_subset [of k m s] by fastforce
  qed simp
  then show ?thesis by (simp add: list_all_iff)
qed

lemma add_chain_ok:
  assumes "list_all (\<lambda>(t, ks). list_all (\<lambda>k. dget ms k \<noteq> None) ks) chs"
    and "add_chain ms chs x = Inr chs'"
  shows "list_all (\<lambda>(t, ks). list_all (\<lambda>k. dget ms k \<noteq> None) ks) chs'"
proof -
  obtain n ks t where x: "x = (n, ks)" "chs' = dset t ks chs"
    "List.find (\<lambda>k. dget ms k = None) ks = None"
    using assms(2) by (auto simp: add_chain_def split: prod.splits option.splits)
  let ?Q = "\<lambda>(t, ks). list_all (\<lambda>k. dget ms k \<noteq> None) ks"
  have "?Q (t, ks)" using x(3) by (auto simp: find_None_iff list_all_iff)
  then have "?Q y" if "y \<in> set chs'" for y
    using that assms(1) set_dset_subset [of t ks chs] x(2) unfolding list_all_iff by blast
  then show ?thesis unfolding list_all_iff by blast
qed

text \<open>
  A registry that loads is well formed. Given that the model constructor keeps its
  field constraints, every model is stored under its own key with valid prices and limits,
  and every name in a fallback chain resolves, so a later lookup of a chain member cannot
  raise.
\<close>

lemma registry_well_formed:
  assumes "\<And>k spec m. mk k spec = Inr m \<Longrightarrow> mc_key m = k \<and> model_valid m"
    and "from_dict mk models_raw chains_raw = Inr reg"
  shows "registry_ok reg \<and> mr_models reg \<noteq> [] \<and>
    (\<forall>tier. \<forall>k \<in> set (fallback_chain reg tier). \<exists>m. get_model reg k = Inr m \<and> mc_key m = k)"
proof -
  obtain models chs where b: "build_models mk models_raw = Inr models"
    "rfoldl (add_chain models) [] chains_raw = Inr chs"
    "reg = \<lparr>mr_models = models, mr_chains = chs\<rparr>" "models_raw \<noteq> []"
    using assms(2) by (auto simp: from_dict_def rbind_eq_Inr split: if_splits)
  have ms: "list_all (\<lambda>(k, m). mc_key m = k \<and> model_valid m) models"
    by (rule build_models_ok [OF assms(1) b(1)])
  have ch: "list_all (\<lambda>(t, ks). list_all (\<lambda>k. dget models k \<noteq> None) ks) chs"
    by (rule rfoldl_inv [OF b(2)]) (simp, rule add_chain_ok)
  have "models \<noteq> []"
  proof -
    obtain key spec rest where "models_raw = (key, spec) # rest" using b(4) by (cases models_raw) auto
    then obtain m where "rfoldl (\<lambda>ms (key, spec). rbind (mk key spec) (\<lambda>m. Inr (dset key m ms)))
        (dset key m []) rest = Inr models"
      using b(1) by (auto simp: build_models_def rbind_eq_Inr)
    then show ?thesis
      by (rule rfoldl_inv [where P = "\<lambda>ms. ms \<noteq> []"]) (auto simp: rbind_eq_Inr dest: arg_cong [of _ _ dkeys])
  qed
  moreover have "\<exists>m. get_model reg k = Inr m \<and> mc_key m = k" if inchain: "k \<in> set (fallback_chain reg tier)" for tier k
  proof -
    obtain ks where ks: "(tier, ks) \<in> set chs" "k \<in> set ks"
      using inchain b(3) dget_Some_in [of chs tier]
      by (cases "dget chs tier") (auto simp: fallback_chain_def)
    then have "dget models k \<noteq> None" using ch unfolding list_all_iff by blast
    then obtain m where m: "dget models k = Some m" by blast
    then have "mc_key m = k" using ms dget_Some_in [OF m] unfolding list_all_iff by blast
    then show ?thesis using m b(3) by (simp add: get_model_def)
  qed
  ultimately show ?thesis using ms ch b(3) by (simp add: registry_ok_def)
qed

text \<open>A registry with two models.\<close>

definition sample_make :: "string \<Rightarrow> obj \<Rightarrow> pexn + model_config" where
  "sample_make key spec = (case dget spec ''price'' of
     Some (JInt n) \<Rightarrow>
       if n < 0 then Inl (PExn PydanticValidationError ''price'')
       else Inr \<lparr>mc_key = key, mc_model_id = key, mc_provider = ''p'', mc_input_per_mtok = of_int n,
              mc_output_per_mtok = of_int n, mc_context_window = 100000, mc_max_output_tokens = 4096,
              mc_avg_latency_ms = 10, mc_reliability_score = 9 / 10, mc_supports_tools = True,
              mc_supports_vision = False, mc_tiers = [CHEAP, STANDARD]\<rparr>
   | _ \<Rightarrow> Inl (PExn PydanticValidationError ''price''))"

definition sample_raw :: "(string \<times> obj) list" where
  "sample_raw = [(''big'', [(''price'', JInt 30)]), (''small'', [(''price'', JInt 3)])]"

definition sample_registry :: model_registry where
  "sample_registry = (case from_dict sample_make sample_raw [(''standard'', [''small'', ''big''])] of
     Inr r \<Rightarrow> r | Inl _ \<Rightarrow> \<lparr>mr_models = [], mr_chains = []\<rparr>)"

lemma sample_registry_loads:
  "from_dict sample_make sample_raw [(''standard'', [''small'', ''big''])] = Inr sample_registry"
proof -
  have "case from_dict sample_make sample_raw [(''standard'', [''small'', ''big''])] of
      Inr r \<Rightarrow> True | Inl _ \<Rightarrow> False" by code_simp
  then show ?thesis by (auto simp: sample_registry_def split: sum.splits)
qed

lemma registry_well_formed_witness:
  "registry_ok sample_registry \<and> fallback_chain sample_registry STANDARD = [''small'', ''big''] \<and>
   (\<exists>m. get_model sample_registry ''big'' = Inr m \<and> mc_key m = ''big'')"
proof -
  have mk: "mc_key m = k \<and> model_valid m" if "sample_make k spec = Inr m" for k spec m
    using that by (auto simp: sample_make_def model_valid_def split: option.splits json.splits if_splits)
  have w: "registry_ok sample_registry \<and> mr_models sample_registry \<noteq> [] \<and>
     (\<forall>tier. \<forall>k \<in> set (fallback_chain sample_registry tier).
        \<exists>m. get_model sample_registry k = Inr m \<and> mc_key m = k)"
    by (rule registry_well_formed [OF _ sample_registry_loads]) (rule mk)
  have chain: "fallback_chain sample_registry STANDARD = [''small'', ''big'']" by code_simp
  then have "''big'' \<in> set (fallback_chain sample_registry STANDARD)" by simp
  then have "\<exists>m. get_model sample_registry ''big'' = Inr m \<and> mc_key m = ''big''" using w by blast
  then show ?thesis using w chain by blast
qed

lemma in_for_tier: "m \<in> set (for_tier reg t) \<longleftrightarrow> m \<in> set (all_models reg) \<and> t \<in> set (mc_tiers m)"
  by (auto simp: for_tier_def all_models_def)

lemma sort_key_hd_le: "sort_key f xs = y # ys \<Longrightarrow> x \<in> set xs \<Longrightarrow> f y \<le> f x"
proof -
  assume s: "sort_key f xs = y # ys" and x: "x \<in> set xs"
  have "sorted (map f (sort_key f xs))" by (rule sorted_sort_key)
  moreover have "x \<in> set (sort_key f xs)" using x by simp
  ultimately show "f y \<le> f x" unfolding s by auto
qed

text \<open>
  C32: the router picks the cheapest capable model of the tier and refuses to overspend. A
  decision names a registered model of the requested tier that meets every requirement, is
  cheapest among all that do, and fits both budgets. It raises \<open>NoEligibleModelError\<close> only
  when no model of the tier is capable, and \<open>BudgetExceededError\<close> only when every capable model
  of the tier is over budget.
\<close>

theorem router_selects_cheapest:
  shows "case select_model py_float reg req budget of
     Inr dec \<Rightarrow>
       rd_model dec \<in> set (all_models reg) \<and> rr_cost_tier req \<in> set (mc_tiers (rd_model dec)) \<and>
       capable req (rd_model dec) \<and>
       rd_projected_cost_usd dec = projected_cost req (rd_model dec) \<and>
       (\<forall>m \<in> set (all_models reg). rr_cost_tier req \<in> set (mc_tiers m) \<longrightarrow> capable req m \<longrightarrow>
          rd_projected_cost_usd dec \<le> projected_cost req m) \<and>
       (\<forall>b. budget = Some b \<longrightarrow> allows b (rd_projected_cost_usd dec))
   | Inl e \<Rightarrow>
       pexn_class e = NoEligibleModelError \<and>
         (\<forall>m \<in> set (all_models reg). rr_cost_tier req \<in> set (mc_tiers m) \<longrightarrow> \<not> capable req m) \<or>
       pexn_class e = BudgetExceededError \<and> (\<exists>b. budget = Some b \<and>
         (\<forall>m \<in> set (all_models reg). rr_cost_tier req \<in> set (mc_tiers m) \<longrightarrow> capable req m \<longrightarrow>
            \<not> allows b (projected_cost req m)))"
proof -
  have el: "m \<in> set (eligible reg req) \<longleftrightarrow>
      m \<in> set (all_models reg) \<and> rr_cost_tier req \<in> set (mc_tiers m) \<and> capable req m" for m
    by (auto simp: eligible_def in_for_tier)
  show ?thesis
  proof (cases "sort_key (projected_cost req) (eligible reg req)")
    case Nil
    then have "eligible reg req = []" by (metis length_0_conv length_sort)
    then show ?thesis using el Nil by (simp add: select_model_def)
  next
    case (Cons m ms)
    have m: "m \<in> set (eligible reg req)"
      using arg_cong [OF Cons, of set] by simp
    have le: "projected_cost req m \<le> projected_cost req x" if "x \<in> set (eligible reg req)" for x
      by (rule sort_key_hd_le [OF Cons that])
    have mono: "allows b x \<Longrightarrow> y \<le> x \<Longrightarrow> allows b y" for b x y
      by (auto simp: allows_def split: option.splits)
    show ?thesis
    proof (cases budget)
      case None
      then show ?thesis using m le el by (simp add: select_model_def Cons)
    next
      case (Some b)
      then show ?thesis using m le el mono
        by (cases "allows b (projected_cost req m)") (auto simp: select_model_def Cons)
    qed
  qed
qed

definition sample_route :: route_request where
  "sample_route = \<lparr>rr_cost_tier = STANDARD, rr_task_type = ''general'', rr_estimated_input_tokens = 1000,
     rr_expected_output_tokens = 500, rr_needs_tools = True, rr_needs_vision = False,
     rr_reliability_floor = 1 / 2, rr_max_latency_ms = None, rr_exclude = {}\<rparr>"

theorem router_selects_cheapest_witness:
  "\<exists>dec. select_model (\<lambda>_. ''0.5'') sample_registry sample_route None = Inr dec \<and>
     rd_model_key dec = ''small'' \<and>
     (\<forall>m \<in> set (all_models sample_registry). STANDARD \<in> set (mc_tiers m) \<longrightarrow> capable sample_route m \<longrightarrow>
        rd_projected_cost_usd dec \<le> projected_cost sample_route m)"
proof -
  have "case select_model (\<lambda>_. ''0.5'') sample_registry sample_route None of
      Inr dec \<Rightarrow> rd_model_key dec = ''small'' | Inl _ \<Rightarrow> False" by code_simp
  then obtain dec where d: "select_model (\<lambda>_. ''0.5'') sample_registry sample_route None = Inr dec"
    "rd_model_key dec = ''small''" by (auto split: sum.splits)
  have "rr_cost_tier sample_route = STANDARD" by (simp add: sample_route_def)
  then show ?thesis
    using router_selects_cheapest [where py_float = "\<lambda>_. ''0.5''" and reg = sample_registry and req = sample_route and budget = None] d by auto
qed

end
