(* ===== verification/LLM.thy ===== *)
theory LLM
  imports Cost
begin

text \<open>
  \<open>integrations/llm/base.py\<close> and \<open>core/llm_client.py\<close>: the provider surface for one
  completion, its registry, and the client that routes a call, walks the fallback chain on
  retryable failures and prices the answer. A provider acts on a world of any type. Metrics,
  spans and log lines are left out.
\<close>

section \<open>Providers\<close>

record llm_message =
  lm_role :: string
  lm_content :: string

record llm_request =
  lq_model_id :: string
  lq_messages :: "llm_message list"
  lq_system :: "string option"
  lq_tools :: "json list"
  lq_max_tokens :: int

definition as_dicts :: "llm_message list \<Rightarrow> obj list" where
  "as_dicts ms = map (\<lambda>m. [(''role'', JStr (lm_role m)), (''content'', JStr (lm_content m))]) ms"

record tool_call =
  tc_id :: string
  tc_name :: string
  tc_arguments :: obj

record llm_response =
  lp_model_id :: string
  lp_text :: string
  lp_tool_calls :: "tool_call list"
  lp_tokens_input :: int
  lp_tokens_output :: int
  lp_stop_reason :: "string option"
  lp_raw :: obj

type_synonym 'w llm_provider = "llm_request \<Rightarrow> ('w, pexn, llm_response) eff"
type_synonym 'w llm_provider_registry = "(string, 'w llm_provider) pydict"

definition register_llm_provider ::
  "string \<Rightarrow> 'w llm_provider \<Rightarrow> 'w llm_provider_registry \<Rightarrow> 'w llm_provider_registry" where
  "register_llm_provider name p reg = dset name p reg"

definition get_llm_provider :: "'w llm_provider_registry \<Rightarrow> string \<Rightarrow> pexn + 'w llm_provider" where
  "get_llm_provider reg name =
     (case dget reg name of
        Some p \<Rightarrow> Inr p
      | None \<Rightarrow> Inl (PExn ConfigurationError (''no LLM provider registered as '' @ py_repr name)))"

section \<open>The client\<close>

text \<open>The arguments of \<open>complete\<close>.\<close>

record llm_call =
  ca_messages :: "llm_message list"
  ca_system :: "string option"
  ca_tools :: "json list option"
  ca_max_tokens :: int
  ca_tier :: cost_tier
  ca_task_type :: string
  ca_needs_vision :: bool
  ca_reliability_floor :: rat
  ca_expected_output_tokens :: "int option"

record llm_completion =
  cp_response :: llm_response
  cp_decision :: route_decision
  cp_cost_usd :: usd
  cp_models_tried :: "string list"

record 'w llm_client =
  lc_registry :: model_registry
  lc_providers :: "'w llm_provider_registry"
  lc_py_str :: "json \<Rightarrow> string"
  lc_py_float :: "rat \<Rightarrow> string"

definition retryable_llm :: "pexn \<Rightarrow> bool" where
  "retryable_llm e \<longleftrightarrow> pexn_class e \<in> {LLMTimeoutError, RateLimitError, MalformedOutputError}"

definition provider_request :: "model_config \<Rightarrow> llm_call \<Rightarrow> llm_request" where
  "provider_request m c =
     \<lparr>lq_model_id = mc_model_id m, lq_messages = ca_messages c, lq_system = ca_system c,
      lq_tools = (case ca_tools c of None \<Rightarrow> [] | Some ts \<Rightarrow> ts), lq_max_tokens = ca_max_tokens c\<rparr>"

text \<open>The loop over the chain: models tried so far, and the last retryable error.\<close>

fun try_models ::
  "'w llm_client \<Rightarrow> llm_call \<Rightarrow> route_decision \<Rightarrow> string list \<Rightarrow> string list \<Rightarrow> pexn option \<Rightarrow>
   ('w, pexn, llm_completion) eff" where
  "try_models lc c dec [] tried last_exc w =
     (Inl (case last_exc of Some e \<Rightarrow> e
           | None \<Rightarrow> PExn LLMError ''every model in the fallback chain failed''), w)"
| "try_models lc c dec (model_key # chain) tried last_exc w =
     (case get_model (lc_registry lc) model_key of
        Inl e \<Rightarrow> (Inl e, w)
      | Inr m \<Rightarrow>
          (case get_llm_provider (lc_providers lc) (mc_provider m) of
             Inl e \<Rightarrow> (Inl e, w)
           | Inr provider \<Rightarrow>
               (case provider (provider_request m c) w of
                  (Inl e, w') \<Rightarrow>
                    if retryable_llm e
                    then try_models lc c dec chain (tried @ [model_key]) (Some e) w'
                    else (Inl e, w')
                | (Inr resp, w') \<Rightarrow>
                    (Inr \<lparr>cp_response = resp, cp_decision = dec,
                          cp_cost_usd = model_cost_usd m (lp_tokens_input resp) (lp_tokens_output resp),
                          cp_models_tried = tried @ [model_key]\<rparr>, w'))))"

definition route_of :: "llm_call \<Rightarrow> int \<Rightarrow> route_request" where
  "route_of c est_input =
     \<lparr>rr_cost_tier = ca_tier c, rr_task_type = ca_task_type c,
      rr_estimated_input_tokens = est_input,
      rr_expected_output_tokens =
        (if truthy_int (ca_expected_output_tokens c) then the (ca_expected_output_tokens c)
         else min (ca_max_tokens c) 1024),
      rr_needs_tools = (case ca_tools c of None \<Rightarrow> False | Some ts \<Rightarrow> ts \<noteq> []),
      rr_needs_vision = ca_needs_vision c, rr_reliability_floor = ca_reliability_floor c,
      rr_max_latency_ms = None, rr_exclude = {}\<rparr>"

definition complete ::
  "'w llm_client \<Rightarrow> llm_call \<Rightarrow> budget_view option \<Rightarrow> ('w, pexn, llm_completion) eff" where
  "complete lc c budget w =
     (case estimate_message_tokens (lc_py_str lc) (as_dicts (ca_messages c)) (ca_system c) (ca_tools c) of
        Inl e \<Rightarrow> (Inl (PExn e []), w)
      | Inr est_input \<Rightarrow>
          (case select_model (lc_py_float lc) (lc_registry lc) (route_of c est_input) budget of
             Inl e \<Rightarrow> (Inl e, w)
           | Inr dec \<Rightarrow>
               try_models lc c dec (rd_model_key dec # rd_fallback_chain dec) [] None w))"

section \<open>Correctness\<close>

text \<open>
  The models \<open>ks\<close> were called in this order, each once, and each failed with a timeout, a rate limit
  or malformed output; \<open>exc\<close> is the failure of the last of them.
\<close>

inductive failed_over :: "'w llm_client \<Rightarrow> llm_call \<Rightarrow> string list \<Rightarrow> 'w \<Rightarrow> 'w \<Rightarrow> pexn option \<Rightarrow> bool" for lc c where
  no_failure: "failed_over lc c [] w w None"
| next_failure: "failed_over lc c ks w w1 exc \<Longrightarrow> get_model (lc_registry lc) k = Inr m \<Longrightarrow>
    get_llm_provider (lc_providers lc) (mc_provider m) = Inr provider \<Longrightarrow>
    provider (provider_request m c) w1 = (Inl e, w2) \<Longrightarrow>
    pexn_class e = LLMTimeoutError \<or> pexn_class e = RateLimitError \<or> pexn_class e = MalformedOutputError \<Longrightarrow>
    failed_over lc c (ks @ [k]) w w2 (Some e)"

inductive_cases failed_over_NilE: "failed_over lc c [] w w' exc"

text \<open>
  How the walk over a chain of models ends: with an answer, priced by the model that gave it; with an
  error that is none of the three; at a model that is not registered or whose provider is not; or
  behind the last model, with its failure. The world is what the last call made has left.
\<close>

inductive walk_ends ::
  "'w llm_client \<Rightarrow> llm_call \<Rightarrow> route_decision \<Rightarrow> string list \<Rightarrow> 'w \<Rightarrow> pexn + llm_completion \<Rightarrow> 'w \<Rightarrow> bool" for lc c dec where
  walk_answered: "failed_over lc c failed w w1 exc \<Longrightarrow> get_model (lc_registry lc) k = Inr m \<Longrightarrow>
    get_llm_provider (lc_providers lc) (mc_provider m) = Inr provider \<Longrightarrow>
    provider (provider_request m c) w1 = (Inr resp, w') \<Longrightarrow>
    walk_ends lc c dec (failed @ k # rest) w
      (Inr \<lparr>cp_response = resp, cp_decision = dec,
            cp_cost_usd = model_cost_usd m (lp_tokens_input resp) (lp_tokens_output resp),
            cp_models_tried = failed @ [k]\<rparr>) w'"
| walk_refused: "failed_over lc c failed w w1 exc \<Longrightarrow> get_model (lc_registry lc) k = Inr m \<Longrightarrow>
    get_llm_provider (lc_providers lc) (mc_provider m) = Inr provider \<Longrightarrow>
    provider (provider_request m c) w1 = (Inl e, w') \<Longrightarrow>
    pexn_class e \<noteq> LLMTimeoutError \<Longrightarrow> pexn_class e \<noteq> RateLimitError \<Longrightarrow> pexn_class e \<noteq> MalformedOutputError \<Longrightarrow>
    walk_ends lc c dec (failed @ k # rest) w (Inl e) w'"
| walk_unregistered: "failed_over lc c failed w w1 exc \<Longrightarrow> get_model (lc_registry lc) k = Inl e \<or>
      (\<exists>m. get_model (lc_registry lc) k = Inr m \<and> get_llm_provider (lc_providers lc) (mc_provider m) = Inl e) \<Longrightarrow>
    walk_ends lc c dec (failed @ k # rest) w (Inl e) w1"
| walk_exhausted: "failed_over lc c failed w w1 (Some e) \<Longrightarrow> walk_ends lc c dec failed w (Inl e) w1"

inductive_cases walk_ends_InrE: "walk_ends lc c dec chain w (Inr cp) w'"

lemma try_models_ends:
  assumes "failed_over lc c tried w0 w last_exc" "try_models lc c dec chain tried last_exc w = (r, w')"
    and "tried @ chain \<noteq> []"
  shows "walk_ends lc c dec (tried @ chain) w0 r w'"
  using assms
proof (induction chain arbitrary: tried last_exc w)
  case Nil
  then obtain e where "last_exc = Some e" by (cases rule: failed_over.cases) auto
  then show ?case using Nil walk_exhausted by auto
next
  case (Cons k chain)
  note fo = Cons.prems(1)
  show ?case
  proof (cases "get_model (lc_registry lc) k")
    case (Inl e)
    then have "r = Inl e" "w' = w" using Cons.prems(2) by simp_all
    then show ?thesis using walk_unregistered [OF fo, of k e] Inl by simp
  next
    case m: (Inr m)
    show ?thesis
    proof (cases "get_llm_provider (lc_providers lc) (mc_provider m)")
      case (Inl e)
      then have "r = Inl e" "w' = w" using Cons.prems(2) m by simp_all
      then show ?thesis using walk_unregistered [OF fo, of k e] m Inl by simp
    next
      case p: (Inr provider)
      obtain x w1 where x: "provider (provider_request m c) w = (x, w1)" by (meson surj_pair)
      show ?thesis
      proof (cases x)
        case (Inr resp)
        then show ?thesis using Cons.prems(2) m p x walk_answered [OF fo m p x [unfolded Inr]] by auto
      next
        case (Inl e)
        show ?thesis
        proof (cases "retryable_llm e")
          case True
          have "failed_over lc c (tried @ [k]) w0 w1 (Some e)"
            by (rule next_failure [OF fo m p x [unfolded Inl]]) (use True in \<open>simp add: retryable_llm_def\<close>)
          moreover have "try_models lc c dec chain (tried @ [k]) (Some e) w1 = (r, w')"
            using Cons.prems(2) m p x Inl True by simp
          ultimately show ?thesis using Cons.IH [of "tried @ [k]" w1 "Some e"] by simp
        next
          case False
          then show ?thesis using Cons.prems(2) m p x Inl walk_refused [OF fo m p x [unfolded Inl]]
            by (auto simp: retryable_llm_def)
        qed
      qed
    qed
  qed
qed

text \<open>
  C33: how a completion goes. Unless the estimate or the router refuses the call, in which case no
  provider is called, the routed model and then its fallback chain are called in order, each at most
  once, past every model that fails with a timeout, a rate limit or malformed output. The first model
  that answers gives the result, priced at its own rates for the tokens it reported, with the models
  tried; the first that fails with any other error ends the call with that error, and no later model is
  called; so does a model that is not registered or whose provider is not. If all of them fail, the
  call ends with the failure of the last.
\<close>

theorem completion_walks_chain:
  assumes "complete lc c budget w = (r, w')"
  shows "(\<exists>e. r = Inl e \<and> w' = w \<and>
       ((\<exists>x. estimate_message_tokens (lc_py_str lc) (as_dicts (ca_messages c)) (ca_system c) (ca_tools c) = Inl x) \<or>
        (\<exists>est. select_model (lc_py_float lc) (lc_registry lc) (route_of c est) budget = Inl e))) \<or>
    (\<exists>est dec. select_model (lc_py_float lc) (lc_registry lc) (route_of c est) budget = Inr dec \<and>
       walk_ends lc c dec (rd_model_key dec # rd_fallback_chain dec) w r w')"
proof (cases "estimate_message_tokens (lc_py_str lc) (as_dicts (ca_messages c)) (ca_system c) (ca_tools c)")
  case (Inl x)
  then show ?thesis using assms by (auto simp: complete_def)
next
  case est: (Inr est)
  show ?thesis
  proof (cases "select_model (lc_py_float lc) (lc_registry lc) (route_of c est) budget")
    case (Inl e)
    then show ?thesis using assms est by (auto simp: complete_def)
  next
    case (Inr dec)
    have "try_models lc c dec (rd_model_key dec # rd_fallback_chain dec) [] None w = (r, w')"
      using assms est Inr by (simp add: complete_def)
    from try_models_ends [OF no_failure this]
    have "walk_ends lc c dec (rd_model_key dec # rd_fallback_chain dec) w r w'" by simp
    then show ?thesis using Inr by blast
  qed
qed

text \<open>A provider that refuses the small model for its rate and serves the other one.\<close>

definition sample_provider :: "nat llm_provider" where
  "sample_provider req n =
     (if lq_model_id req = ''small'' then (Inl (PExn RateLimitError ''slow down''), Suc n)
      else (Inr \<lparr>lp_model_id = lq_model_id req, lp_text = ''hello'', lp_tool_calls = [],
                 lp_tokens_input = 1000, lp_tokens_output = 500, lp_stop_reason = None, lp_raw = []\<rparr>, Suc n))"

definition sample_client :: "nat llm_client" where
  "sample_client = \<lparr>lc_registry = sample_registry, lc_providers = [(''p'', sample_provider)],
     lc_py_str = (\<lambda>_. []), lc_py_float = (\<lambda>_. [])\<rparr>"

definition sample_call :: llm_call where
  "sample_call = \<lparr>ca_messages = [\<lparr>lm_role = ''user'', lm_content = ''hi''\<rparr>], ca_system = None,
     ca_tools = None, ca_max_tokens = 4096, ca_tier = STANDARD, ca_task_type = ''general'',
     ca_needs_vision = False, ca_reliability_floor = 0, ca_expected_output_tokens = None\<rparr>"

definition sample_budget :: budget_view where
  "sample_budget = \<lparr>bv_remaining_workflow_usd = Some (1 / 100), bv_remaining_tenant_daily_usd = None\<rparr>"

text \<open>The small model is rate limited and the other one answers.\<close>

theorem completion_walks_chain_witness:
  "\<exists>cp w1 e. complete sample_client sample_call (Some sample_budget) 0 = (Inr cp, 2) \<and>
     failed_over sample_client sample_call [''small''] 0 w1 (Some e) \<and> pexn_class e = RateLimitError \<and>
     cp_models_tried cp = [''small'', ''big'']"
proof -
  have "case complete sample_client sample_call (Some sample_budget) 0 of
      (Inr cp, n) \<Rightarrow> cp_models_tried cp = [''small'', ''big''] \<and> n = 2 | _ \<Rightarrow> False" by code_simp
  then obtain cp where c: "complete sample_client sample_call (Some sample_budget) 0 = (Inr cp, 2)"
    "cp_models_tried cp = [''small'', ''big'']" by (auto split: prod.splits sum.splits)
  from completion_walks_chain [OF c(1)] obtain dec where
    "walk_ends sample_client sample_call dec (rd_model_key dec # rd_fallback_chain dec) 0 (Inr cp) 2" by auto
  then obtain failed w1 exc k where
    f: "failed_over sample_client sample_call failed 0 w1 exc" "cp_models_tried cp = failed @ [k]"
    by (elim walk_ends_InrE) auto
  have fl: "failed = [''small'']" using f(2) c(2) by simp
  from f(1) [unfolded fl] obtain m provider e where e: "exc = Some e"
    "get_model (lc_registry sample_client) ''small'' = Inr m"
    "get_llm_provider (lc_providers sample_client) (mc_provider m) = Inr provider"
    "provider (provider_request m sample_call) 0 = (Inl e, w1)"
    by (cases rule: failed_over.cases) (auto elim: failed_over_NilE)
  have "provider = sample_provider" using e(3)
    by (auto simp: sample_client_def get_llm_provider_def split: if_splits)
  then have "pexn_class e = RateLimitError" using e(4) by (auto simp: sample_provider_def split: if_splits)
  then show ?thesis using c f(1) fl e(1) by blast
qed

text \<open>
  C35: a budget decides whether a call is made, never what it may cost. For every call that can be
  routed, a budget that admits the projected cost of the routed model changes nothing: the completion
  goes exactly as it would without a budget, fallbacks included, so what the answering model costs is
  compared with no limit. A budget that does not admit it refuses the call before any provider is
  called.
\<close>

theorem budget_gates_routing_only:
  assumes "estimate_message_tokens (lc_py_str lc) (as_dicts (ca_messages c)) (ca_system c) (ca_tools c) = Inr est"
    and "select_model (lc_py_float lc) (lc_registry lc) (route_of c est) None = Inr dec"
  shows "(allows b (rd_projected_cost_usd dec) \<longrightarrow> complete lc c (Some b) w = complete lc c None w) \<and>
    (\<not> allows b (rd_projected_cost_usd dec) \<longrightarrow>
       (\<exists>msg. complete lc c (Some b) w = (Inl (PExn BudgetExceededError msg), w)))"
  using assms by (auto simp: complete_def select_model_def simp del: try_models.simps split: list.splits if_splits)

theorem budget_gates_routing_only_witness:
  "\<exists>dec cp. select_model (lc_py_float sample_client) (lc_registry sample_client) (route_of sample_call 5) None = Inr dec \<and>
     allows sample_budget (rd_projected_cost_usd dec) \<and>
     complete sample_client sample_call (Some sample_budget) 0 = (Inr cp, 2) \<and>
     complete sample_client sample_call None 0 = (Inr cp, 2) \<and> \<not> allows sample_budget (cp_cost_usd cp)"
proof -
  have e: "estimate_message_tokens (lc_py_str sample_client) (as_dicts (ca_messages sample_call))
      (ca_system sample_call) (ca_tools sample_call) = Inr 5" by code_simp
  have "case select_model (lc_py_float sample_client) (lc_registry sample_client) (route_of sample_call 5) None of
      Inr dec \<Rightarrow> allows sample_budget (rd_projected_cost_usd dec) | Inl _ \<Rightarrow> False" by code_simp
  then obtain dec where d: "select_model (lc_py_float sample_client) (lc_registry sample_client) (route_of sample_call 5) None = Inr dec"
    "allows sample_budget (rd_projected_cost_usd dec)" by (auto split: sum.splits)
  have "case complete sample_client sample_call None 0 of
      (Inr cp, n) \<Rightarrow> \<not> allows sample_budget (cp_cost_usd cp) \<and> n = 2 | _ \<Rightarrow> False" by code_simp
  then obtain cp where cp: "complete sample_client sample_call None 0 = (Inr cp, 2)" "\<not> allows sample_budget (cp_cost_usd cp)"
    by (auto split: prod.splits sum.splits)
  then show ?thesis using budget_gates_routing_only [OF e d(1), of sample_budget 0] d by auto
qed

end
