(* ===== verification/Runners.thy ===== *)
theory Runners
  imports SideEffects LLM
begin

text \<open>
  \<open>core/runners.py\<close>: what a step may do through its context, and step runners as programs.
  A runner is a tree of the calls it makes on its context, branching on their answers, that
  ends by returning a result or raising. The services behind the context act on a shared
  state of any type.
\<close>

section \<open>The context of one attempt\<close>

record cost_entry =
  ce_amount_usd :: usd
  ce_model :: "string option"
  ce_tokens_input :: int
  ce_tokens_output :: int

record review_request =
  rv_reason :: string
  rv_confidence :: rat
  rv_recommendation :: string
  rv_options :: "obj list"
  rv_auto_action :: string
  rv_timeout_seconds :: "int option"

record step_context =
  sc_instance_id :: string
  sc_tenant_id :: string
  sc_step_id :: string
  sc_agent_type :: string
  sc_attempt :: int
  sc_inputs :: obj
  sc_instance_context :: obj
  sc_budget :: "budget_view option"
  sc_replay_llm :: "llm_recording list"
  sc_charges :: "cost_entry list"
  sc_effects :: "effect_outcome list"
  sc_review :: "review_request option"
  sc_llm_index :: nat
  sc_llm_recordings :: "llm_recording list"

text \<open>The collaborators of a context: guard and model client may be absent.\<close>

record 's step_services =
  sv_guard :: "(effect_args \<Rightarrow> ('s, pexn, effect_outcome) eff) option"
  sv_llm :: "(llm_call \<Rightarrow> budget_view option \<Rightarrow> ('s, pexn, llm_completion) eff) option"
  sv_await :: "string \<Rightarrow> ('s, pexn, json) eff"
  sv_now :: "'s \<Rightarrow> instant"
  sv_digest :: "json \<Rightarrow> string"

section \<open>Recorded model calls\<close>

definition recording_from_response :: "llm_response \<Rightarrow> obj" where
  "recording_from_response r =
     [(''model_id'', JStr (lp_model_id r)), (''text'', JStr (lp_text r)),
      (''tokens_input'', JInt (lp_tokens_input r)), (''tokens_output'', JInt (lp_tokens_output r)),
      (''stop_reason'', case lp_stop_reason r of None \<Rightarrow> JNull | Some x \<Rightarrow> JStr x),
      (''tool_calls'', JArr (map (\<lambda>tc. JObj [(''id'', JStr (tc_id tc)), (''name'', JStr (tc_name tc)),
          (''arguments'', JObj (tc_arguments tc))]) (lp_tool_calls r)))]"

text \<open>
  Reading a recording back. A missing required key raises; a value of another type than the
  one recorded is reported as a type error, since the record fields are typed here.
\<close>

fun as_str :: "json option \<Rightarrow> pexn + string" where
  "as_str (Some (JStr s)) = Inr s"
| "as_str None = Inl (PExn PyKeyError ''missing key'')"
| "as_str _ = Inl (PExn (OtherException ''TypeError'') ''not a string'')"

fun as_int_or_0 :: "json option \<Rightarrow> pexn + int" where
  "as_int_or_0 (Some (JInt n)) = Inr n"
| "as_int_or_0 None = Inr 0"
| "as_int_or_0 _ = Inl (PExn (OtherException ''TypeError'') ''not an int'')"

fun as_opt_str :: "json option \<Rightarrow> pexn + string option" where
  "as_opt_str (Some (JStr s)) = Inr (Some s)"
| "as_opt_str (Some JNull) = Inr None"
| "as_opt_str None = Inr None"
| "as_opt_str _ = Inl (PExn (OtherException ''TypeError'') ''not a string'')"

fun as_tool_call :: "json \<Rightarrow> pexn + tool_call" where
  "as_tool_call (JObj kvs) =
     (case (dget kvs ''id'', dget kvs ''name'', dget kvs ''arguments'') of
        (Some (JStr i), Some (JStr n), Some (JObj a)) \<Rightarrow>
          if length kvs = 3 then Inr \<lparr>tc_id = i, tc_name = n, tc_arguments = a\<rparr>
          else Inl (PExn (OtherException ''TypeError'') ''unexpected keyword'')
      | _ \<Rightarrow> Inl (PExn (OtherException ''TypeError'') ''missing argument''))"
| "as_tool_call _ = Inl (PExn (OtherException ''TypeError'') ''not a mapping'')"

fun as_tool_calls :: "json list \<Rightarrow> pexn + tool_call list" where
  "as_tool_calls [] = Inr []"
| "as_tool_calls (j # js) =
     rbind (as_tool_call j) (\<lambda>tc. rbind (as_tool_calls js) (\<lambda>tcs. Inr (tc # tcs)))"

definition REPLAYED :: obj where
  "REPLAYED = [(''replayed'', JBool True)]"

definition response_from_recording :: "obj \<Rightarrow> pexn + llm_response" where
  "response_from_recording rec =
     rbind (as_str (dget rec ''model_id'')) (\<lambda>mid.
     rbind (as_str (dget rec ''text'')) (\<lambda>txt.
     rbind (case dget rec ''tool_calls'' of
              None \<Rightarrow> Inr [] | Some (JArr js) \<Rightarrow> as_tool_calls js
            | Some _ \<Rightarrow> Inl (PExn (OtherException ''TypeError'') ''not a list'')) (\<lambda>tcs.
     rbind (as_int_or_0 (dget rec ''tokens_input'')) (\<lambda>tin.
     rbind (as_int_or_0 (dget rec ''tokens_output'')) (\<lambda>tout.
     rbind (as_opt_str (dget rec ''stop_reason'')) (\<lambda>stop.
       Inr \<lparr>lp_model_id = mid, lp_text = txt, lp_tool_calls = tcs, lp_tokens_input = tin,
            lp_tokens_output = tout, lp_stop_reason = stop, lp_raw = REPLAYED\<rparr>))))))"

definition digest_messages :: "(json \<Rightarrow> string) \<Rightarrow> llm_message list \<Rightarrow> string option \<Rightarrow> string" where
  "digest_messages dig messages sys =
     dig (JArr [JStr (case sys of None \<Rightarrow> [] | Some x \<Rightarrow> x),
                JArr (map (\<lambda>m. JArr [JStr (lm_role m), JStr (lm_content m)]) messages)])"

section \<open>What a step may do\<close>

definition request_review :: "review_request \<Rightarrow> step_context \<Rightarrow> step_context" where
  "request_review rv ctx = ctx\<lparr>sc_review := Some rv\<rparr>"

definition charge :: "cost_entry \<Rightarrow> step_context \<Rightarrow> step_context" where
  "charge c ctx = ctx\<lparr>sc_charges := sc_charges ctx @ [c]\<rparr>"

definition execute_effect ::
  "'s step_services \<Rightarrow> string \<Rightarrow> obj \<Rightarrow> string \<Rightarrow> (step_context \<times> 's, pexn, effect_result) eff" where
  "execute_effect sv effect_name params provider cs =
     (case cs of (ctx, s) \<Rightarrow>
        (case sv_guard sv of
           None \<Rightarrow> (Inl (PExn ConfigurationError
                     ''step attempted a side effect but no SideEffectGuard is wired''), (ctx, s))
         | Some run \<Rightarrow>
             (case run \<lparr>ea_instance_id = sc_instance_id ctx, ea_tenant_id = sc_tenant_id ctx,
                        ea_step_id = sc_step_id ctx, ea_effect_name = effect_name,
                        ea_params = params, ea_provider_name = provider\<rparr> s of
                (Inl e, s') \<Rightarrow> (Inl e, (ctx, s'))
              | (Inr out, s') \<Rightarrow>
                  (Inr (eo_result out), (ctx\<lparr>sc_effects := sc_effects ctx @ [out]\<rparr>, s')))))"

definition llm ::
  "'s step_services \<Rightarrow> llm_call \<Rightarrow> (step_context \<times> 's, pexn, llm_response) eff" where
  "llm sv c cs =
     (case cs of (ctx, s) \<Rightarrow>
        let idx = sc_llm_index ctx; ctx1 = ctx\<lparr>sc_llm_index := Suc idx\<rparr> in
        if idx < length (sc_replay_llm ctx)
        then (response_from_recording (lr_response (sc_replay_llm ctx ! idx)), (ctx1, s))
        else (case sv_llm sv of
           None \<Rightarrow> (Inl (PExn ConfigurationError
                     ''step attempted an LLM call but no LLMClient is wired''), (ctx1, s))
         | Some run \<Rightarrow>
             (case run (c\<lparr>ca_task_type := (if ca_task_type c = [] then sc_agent_type ctx else ca_task_type c)\<rparr>)
                     (sc_budget ctx) s of
                (Inl e, s') \<Rightarrow> (Inl e, (ctx1, s'))
              | (Inr cp, s') \<Rightarrow>
                  let r = cp_response cp in
                  (Inr r,
                   ((charge \<lparr>ce_amount_usd = cp_cost_usd cp, ce_model = Some (lp_model_id r),
                            ce_tokens_input = lp_tokens_input r, ce_tokens_output = lp_tokens_output r\<rparr> ctx1)
                    \<lparr>sc_llm_recordings := sc_llm_recordings ctx1 @
                       [\<lparr>lr_request_digest = digest_messages (sv_digest sv) (ca_messages c) (ca_system c),
                         lr_model = lp_model_id r, lr_response = recording_from_response r,
                         lr_tokens_input = lp_tokens_input r, lr_tokens_output = lp_tokens_output r,
                         lr_cost_usd = cp_cost_usd cp\<rparr>]\<rparr>, s')))))"

section \<open>Runners\<close>

record step_result =
  sr_output :: obj
  sr_model_used :: "string option"

datatype runner_prog =
    Return step_result
  | Raise pexn
  | Charge cost_entry runner_prog
  | RequestReview review_request runner_prog
  | ExecuteEffect string obj string "pexn + effect_result \<Rightarrow> runner_prog"
  | CallLLM llm_call "pexn + llm_response \<Rightarrow> runner_prog"
  | Await string "pexn + json \<Rightarrow> runner_prog"

type_synonym step_runner = "step_context \<Rightarrow> runner_prog"

text \<open>
  One awaited call under the attempt's deadline. At the deadline the attempt is cancelled:
  the answer is not delivered and nothing is added to the context, though what the call had
  done by then stays done. A cancellation from outside passes through.
\<close>

definition deliver ::
  "'s step_services \<Rightarrow> instant \<Rightarrow> (step_context \<times> 's, pexn, 'a) eff \<Rightarrow>
   (pexn + 'a \<Rightarrow> (step_context \<times> 's, pexn, 'b) eff) \<Rightarrow> (step_context \<times> 's, pexn, 'b) eff" where
  "deliver sv deadline m k cs =
     (case m cs of (r, (ctx', s')) \<Rightarrow>
        if deadline \<le> sv_now sv s' then (Inl (PExn PyTimeoutError []), (fst cs, s'))
        else (case r of
                Inl e \<Rightarrow> if is_exception e then k r (ctx', s') else (Inl e, (ctx', s'))
              | Inr _ \<Rightarrow> k r (ctx', s')))"

primrec run_prog ::
  "'s step_services \<Rightarrow> instant \<Rightarrow> runner_prog \<Rightarrow> (step_context \<times> 's, pexn, step_result) eff" where
  "run_prog sv dl (Return res) = ereturn res"
| "run_prog sv dl (Raise e) = ethrow e"
| "run_prog sv dl (Charge c p) = (\<lambda>cs. run_prog sv dl p (charge c (fst cs), snd cs))"
| "run_prog sv dl (RequestReview rv p) = (\<lambda>cs. run_prog sv dl p (request_review rv (fst cs), snd cs))"
| "run_prog sv dl (ExecuteEffect name params provider k) =
     deliver sv dl (execute_effect sv name params provider) (\<lambda>r. run_prog sv dl (k r))"
| "run_prog sv dl (CallLLM c k) =
     (\<lambda>cs. if sc_llm_index (fst cs) < length (sc_replay_llm (fst cs))
           then (case llm sv c cs of (r, cs') \<Rightarrow> run_prog sv dl (k r) cs')
           else deliver sv dl (llm sv c) (\<lambda>r. run_prog sv dl (k r)) cs)"
| "run_prog sv dl (Await what k) =
     deliver sv dl (\<lambda>(ctx, s). case sv_await sv what s of (r, s') \<Rightarrow> (r, (ctx, s')))
       (\<lambda>r. run_prog sv dl (k r))"

text \<open>\<open>EchoRunner\<close> and \<open>FunctionRunner\<close> over a function that returns a dictionary.\<close>

definition echo_runner :: step_runner where
  "echo_runner ctx = Return \<lparr>sr_output = [(''inputs'', JObj (sc_inputs ctx)), (''attempt'', JInt (sc_attempt ctx))],
     sr_model_used = None\<rparr>"

definition function_runner :: "(step_context \<Rightarrow> obj + step_result) \<Rightarrow> step_runner" where
  "function_runner fn ctx = (case fn ctx of
     Inr res \<Rightarrow> Return res | Inl out \<Rightarrow> Return \<lparr>sr_output = out, sr_model_used = None\<rparr>)"

type_synonym step_registry = "(string, step_runner) pydict"

definition register_runner :: "string \<Rightarrow> step_runner \<Rightarrow> step_registry \<Rightarrow> step_registry" where
  "register_runner agent_type r reg = dset agent_type r reg"

definition get_runner :: "step_registry \<Rightarrow> string \<Rightarrow> pexn + step_runner" where
  "get_runner reg agent_type =
     (case dget reg agent_type of
        Some r \<Rightarrow> Inr r
      | None \<Rightarrow> Inl (PExn ConfigurationError
                  (''no step runner registered for agent_type '' @ py_repr agent_type)))"

definition default_registry :: step_registry where
  "default_registry = register_runner ''echo_agent'' echo_runner []"

section \<open>Correctness\<close>

lemma as_tool_calls_recorded:
  "as_tool_calls (map (\<lambda>tc. JObj [(''id'', JStr (tc_id tc)), (''name'', JStr (tc_name tc)),
      (''arguments'', JObj (tc_arguments tc))]) tcs) = Inr tcs"
  by (induction tcs) simp_all

lemma recording_roundtrip_aux:
  "response_from_recording (recording_from_response r) = Inr (r\<lparr>lp_raw := REPLAYED\<rparr>)"
  by (cases "lp_stop_reason r")
    (simp_all add: response_from_recording_def recording_from_response_def as_tool_calls_recorded)

text \<open>
  A recorded model response reads back as the response that was recorded, marked as
  replayed.
\<close>

lemma recording_roundtrip:
  "response_from_recording (recording_from_response r) = Inr (r\<lparr>lp_raw := REPLAYED\<rparr>)"
  by (rule recording_roundtrip_aux)

text \<open>
  Runners whose only awaits are model calls, and that do not look at the raw provider payload.
\<close>

primrec llm_only :: "runner_prog \<Rightarrow> bool" where
  "llm_only (Return res) = True"
| "llm_only (Raise e) = True"
| "llm_only (Charge c p) = llm_only p"
| "llm_only (RequestReview rv p) = llm_only p"
| "llm_only (ExecuteEffect name params provider k) = False"
| "llm_only (CallLLM c k) = ((\<forall>r. llm_only (k r)) \<and> (\<forall>r x. k (Inr (r\<lparr>lp_raw := x\<rparr>)) = k (Inr r)))"
| "llm_only (Await what k) = False"

text \<open>One model call of the first run, its answer recorded, and the same call replayed.\<close>

lemma llm_recorded:
  assumes "sc_replay_llm ctx = []" "llm sv c (ctx, s) = (r, (ctx', s'))"
  shows "sc_replay_llm ctx' = []" "sc_llm_index ctx' = Suc (sc_llm_index ctx)"
    "sc_review ctx' = sc_review ctx"
    "case r of Inl _ \<Rightarrow> sc_llm_recordings ctx' = sc_llm_recordings ctx
     | Inr x \<Rightarrow> \<exists>rc. sc_llm_recordings ctx' = sc_llm_recordings ctx @ [rc] \<and>
                      lr_response rc = recording_from_response x"
  using assms
  by (auto simp: llm_def Let_def charge_def split: option.splits prod.splits sum.splits if_splits)

text \<open>
  In a first run recordings are only added, and the calls outnumber the recordings by the calls
  that failed.
\<close>

lemma run_prog_counts:
  assumes "sc_replay_llm (fst cs) = []" "llm_only p" "run_prog sv dl p cs = (r, cs')"
  shows "(\<exists>ys. sc_llm_recordings (fst cs') = sc_llm_recordings (fst cs) @ ys) \<and>
    length (sc_llm_recordings (fst cs')) + sc_llm_index (fst cs) \<le>
      length (sc_llm_recordings (fst cs)) + sc_llm_index (fst cs')"
  using assms
proof (induction p arbitrary: cs)
  case (CallLLM c k)
  obtain ctx s where cs: "cs = (ctx, s)" by (cases cs)
  obtain q ctx1 s1 where q: "llm sv c (ctx, s) = (q, (ctx1, s1))" by (metis surj_pair)
  have ctx: "sc_replay_llm ctx = []" using CallLLM.prems(1) cs by simp
  note rec = llm_recorded [OF ctx q]
  have le: "(\<exists>ys. sc_llm_recordings ctx1 = sc_llm_recordings ctx @ ys) \<and>
      length (sc_llm_recordings ctx1) + sc_llm_index ctx \<le> length (sc_llm_recordings ctx) + sc_llm_index ctx1"
    using rec(2,4) by (auto split: sum.splits)
  have run: "deliver sv dl (llm sv c) (\<lambda>r. run_prog sv dl (k r)) (ctx, s) = (r, cs')"
    using CallLLM.prems(3) ctx cs by simp
  consider (stop) "fst cs' = ctx \<or> fst cs' = ctx1" | (go) "run_prog sv dl (k q) (ctx1, s1) = (r, cs')"
    using run q by (auto simp: deliver_def split: if_splits sum.splits)
  then show ?case
  proof cases
    case stop
    then show ?thesis using le cs by auto
  next
    case go
    from CallLLM.IH [OF _ _ _ go] rec(1) CallLLM.prems(2) le cs show ?thesis by auto
  qed
next
  case (Charge c p)
  then show ?case using Charge.IH [of "(charge c (fst cs), snd cs)"] by (simp add: charge_def)
next
  case (RequestReview rv p)
  then show ?case using RequestReview.IH [of "(request_review rv (fst cs), snd cs)"] by (simp add: request_review_def)
qed auto

lemma replay_prog:
  assumes "llm_only p" "run_prog sv dl p (ctx, s) = (Inr res, (ctx', s'))"
    and "sc_replay_llm ctx = []" "sc_llm_index ctx = length (sc_llm_recordings ctx)"
    and "sc_llm_index ctx' = length (sc_llm_recordings ctx')"
    and "sc_replay_llm rx = sc_llm_recordings ctx'" "sc_llm_index rx = sc_llm_index ctx"
    and "sc_review rx = sc_review ctx"
  shows "\<exists>rx'. run_prog sv2 dl2 p (rx, t) = (Inr res, (rx', t)) \<and> sc_review rx' = sc_review ctx' \<and>
     sc_llm_recordings rx' = sc_llm_recordings rx \<and>
     length (sc_charges rx') + length (sc_charges ctx) + length (sc_llm_recordings ctx') =
       length (sc_charges rx) + length (sc_charges ctx') + length (sc_llm_recordings ctx)"
  using assms
proof (induction p arbitrary: ctx s rx)
  case (CallLLM c k)
  obtain q ctx1 s1 where q: "llm sv c (ctx, s) = (q, (ctx1, s1))" by (metis surj_pair)
  note rec = llm_recorded [OF CallLLM.prems(3) q]
  have run: "deliver sv dl (llm sv c) (\<lambda>r. run_prog sv dl (k r)) (ctx, s) = (Inr res, (ctx', s'))"
    using CallLLM.prems(2,3) by simp
  then have go: "run_prog sv dl (k q) (ctx1, s1) = (Inr res, (ctx', s'))"
    using q by (auto simp: deliver_def split: if_splits sum.splits)
  have only: "llm_only (k q)" using CallLLM.prems(1) by simp
  have cnt: "(\<exists>ys. sc_llm_recordings ctx' = sc_llm_recordings ctx1 @ ys) \<and>
      length (sc_llm_recordings ctx') + sc_llm_index ctx1 \<le> length (sc_llm_recordings ctx1) + sc_llm_index ctx'"
    using run_prog_counts [of "(ctx1, s1)" "k q" sv dl "Inr res" "(ctx', s')"] rec(1) only go by simp
  obtain x rc where x: "q = Inr x" and rc: "sc_llm_recordings ctx1 = sc_llm_recordings ctx @ [rc]"
    "lr_response rc = recording_from_response x"
  proof (cases q)
    case (Inl e)
    then have False using cnt rec(2,4) CallLLM.prems(4,5) by simp
    then show ?thesis by blast
  next
    case (Inr x)
    then show ?thesis using rec(4) that by auto
  qed
  let ?i = "sc_llm_index ctx"
  have rep: "?i < length (sc_replay_llm rx)" "sc_replay_llm rx ! ?i = rc"
    using cnt rc(1) CallLLM.prems(4,6) by (auto simp: nth_append)
  let ?rx1 = "rx\<lparr>sc_llm_index := Suc ?i\<rparr>"
  have "llm sv2 c (rx, t) = (Inr (x\<lparr>lp_raw := REPLAYED\<rparr>), (?rx1, t))"
    using rep CallLLM.prems(7) rc(2) by (simp add: llm_def Let_def recording_roundtrip_aux)
  moreover have "k (Inr (x\<lparr>lp_raw := REPLAYED\<rparr>)) = k q" using CallLLM.prems(1) x by simp
  ultimately have step: "run_prog sv2 dl2 (CallLLM c k) (rx, t) = run_prog sv2 dl2 (k q) (?rx1, t)"
    using rep CallLLM.prems(7) by simp
  have "\<exists>rx'. run_prog sv2 dl2 (k q) (?rx1, t) = (Inr res, (rx', t)) \<and> sc_review rx' = sc_review ctx' \<and>
     sc_llm_recordings rx' = sc_llm_recordings ?rx1 \<and>
     length (sc_charges rx') + length (sc_charges ctx1) + length (sc_llm_recordings ctx') =
       length (sc_charges ?rx1) + length (sc_charges ctx') + length (sc_llm_recordings ctx1)"
    by (rule CallLLM.IH [OF _ only go rec(1)]) (use rec(2,3) rc CallLLM.prems in simp_all)
  moreover have "length (sc_charges ctx1) = Suc (length (sc_charges ctx))"
    using q x CallLLM.prems(3)
    by (auto simp: llm_def Let_def charge_def split: option.splits prod.splits sum.splits if_splits)
  ultimately show ?case using step rc(1) by auto
next
  case (Charge c p)
  have "\<exists>rx'. run_prog sv2 dl2 p (charge c rx, t) = (Inr res, (rx', t)) \<and> sc_review rx' = sc_review ctx' \<and>
     sc_llm_recordings rx' = sc_llm_recordings (charge c rx) \<and>
     length (sc_charges rx') + length (sc_charges (charge c ctx)) + length (sc_llm_recordings ctx') =
       length (sc_charges (charge c rx)) + length (sc_charges ctx') + length (sc_llm_recordings (charge c ctx))"
    by (rule Charge.IH [where s = s]) (use Charge.prems in \<open>simp_all add: charge_def\<close>)
  then show ?case by (auto simp: charge_def)
next
  case (RequestReview rv p)
  have "\<exists>rx'. run_prog sv2 dl2 p (request_review rv rx, t) = (Inr res, (rx', t)) \<and> sc_review rx' = sc_review ctx' \<and>
     sc_llm_recordings rx' = sc_llm_recordings (request_review rv rx) \<and>
     length (sc_charges rx') + length (sc_charges (request_review rv ctx)) + length (sc_llm_recordings ctx') =
       length (sc_charges (request_review rv rx)) + length (sc_charges ctx') + length (sc_llm_recordings (request_review rv ctx))"
    by (rule RequestReview.IH [where s = s]) (use RequestReview.prems in \<open>simp_all add: request_review_def\<close>)
  then show ?case by (auto simp: request_review_def)
qed simp_all

text \<open>
  C34: replaying the recorded model calls of an attempt reproduces it. Take a runner that only
  awaits model calls and does not look at the raw provider payload, and a first attempt of it
  that returned and in which no call failed. Run it again with the recordings of that attempt,
  under any services and any deadline: it returns the same result and asks for the same review,
  leaves the world untouched, records nothing new, and is charged exactly once less for each
  recorded call.
\<close>

theorem replay_reproduces:
  assumes "llm_only p" "run_prog sv dl p (ctx, s) = (Inr res, (ctx', s'))"
    and "sc_replay_llm ctx = []" "sc_llm_index ctx = 0" "sc_llm_recordings ctx = []" "sc_charges ctx = []"
    and "sc_llm_index ctx' = length (sc_llm_recordings ctx')"
  shows "\<exists>rx'. run_prog sv2 dl2 p (ctx\<lparr>sc_replay_llm := sc_llm_recordings ctx'\<rparr>, t) = (Inr res, (rx', t)) \<and>
     sc_review rx' = sc_review ctx' \<and> sc_llm_recordings rx' = [] \<and>
     length (sc_charges rx') + length (sc_llm_recordings ctx') = length (sc_charges ctx')"
proof -
  have "\<exists>rx'. run_prog sv2 dl2 p (ctx\<lparr>sc_replay_llm := sc_llm_recordings ctx'\<rparr>, t) = (Inr res, (rx', t)) \<and>
     sc_review rx' = sc_review ctx' \<and>
     sc_llm_recordings rx' = sc_llm_recordings (ctx\<lparr>sc_replay_llm := sc_llm_recordings ctx'\<rparr>) \<and>
     length (sc_charges rx') + length (sc_charges ctx) + length (sc_llm_recordings ctx') =
       length (sc_charges (ctx\<lparr>sc_replay_llm := sc_llm_recordings ctx'\<rparr>)) + length (sc_charges ctx') +
       length (sc_llm_recordings ctx)"
    by (rule replay_prog [OF assms(1,2)]) (use assms in simp_all)
  then show ?thesis using assms(5,6) by auto
qed

definition sample_context :: step_context where
  "sample_context = \<lparr>sc_instance_id = ''i1'', sc_tenant_id = ''t1'', sc_step_id = ''a'', sc_agent_type = ''writer'',
     sc_attempt = 1, sc_inputs = [], sc_instance_context = [], sc_budget = None, sc_replay_llm = [],
     sc_charges = [], sc_effects = [], sc_review = None, sc_llm_index = 0, sc_llm_recordings = []\<rparr>"

definition sample_services :: "nat step_services" where
  "sample_services = \<lparr>sv_guard = None, sv_llm = Some (complete sample_client),
     sv_await = (\<lambda>_ n. (Inr JNull, n)), sv_now = (\<lambda>n. int n), sv_digest = sample_digest\<rparr>"

definition sample_runner :: runner_prog where
  "sample_runner = CallLLM sample_call (\<lambda>r. case r of
     Inl e \<Rightarrow> Raise e
   | Inr x \<Rightarrow> Return \<lparr>sr_output = [(''text'', JStr (lp_text x))], sr_model_used = Some (lp_model_id x)\<rparr>)"

theorem replay_reproduces_witness:
  "\<exists>res ctx' s' rx'. run_prog sample_services 100 sample_runner (sample_context, 0) = (Inr res, (ctx', s')) \<and>
     sc_llm_recordings ctx' \<noteq> [] \<and>
     run_prog (sample_services\<lparr>sv_llm := None\<rparr>) 100 sample_runner
       (sample_context\<lparr>sc_replay_llm := sc_llm_recordings ctx'\<rparr>, 7) = (Inr res, (rx', 7))"
proof -
  have "case run_prog sample_services 100 sample_runner (sample_context, 0) of
      (Inr res, (ctx', s')) \<Rightarrow> sc_llm_index ctx' = length (sc_llm_recordings ctx') \<and> sc_llm_recordings ctx' \<noteq> []
    | _ \<Rightarrow> False" by code_simp
  then obtain res ctx' s' where
    run: "run_prog sample_services 100 sample_runner (sample_context, 0) = (Inr res, (ctx', s'))"
    and rec: "sc_llm_index ctx' = length (sc_llm_recordings ctx')" "sc_llm_recordings ctx' \<noteq> []"
    by (auto split: prod.splits sum.splits)
  have only: "llm_only sample_runner" by (simp add: sample_runner_def split: sum.splits)
  show ?thesis
    using replay_reproduces [OF only run _ _ _ _ rec(1), of "sample_services\<lparr>sv_llm := None\<rparr>" 100 7] run rec(2)
    by (auto simp: sample_context_def)
qed

text \<open>
  A runner that falls back to a second call when the first one fails, and services that fail
  the first call.
\<close>

definition fallback_runner :: runner_prog where
  "fallback_runner = CallLLM (sample_call\<lparr>ca_max_tokens := 1\<rparr>) (\<lambda>r. case r of
     Inr x \<Rightarrow> Return \<lparr>sr_output = [(''first'', JStr (lp_text x))], sr_model_used = None\<rparr>
   | Inl _ \<Rightarrow> CallLLM sample_call (\<lambda>q. case q of
       Inr y \<Rightarrow> Return \<lparr>sr_output = [(''second'', JStr (lp_text y))], sr_model_used = None\<rparr>
     | Inl e \<Rightarrow> Raise e))"

definition failing_services :: "nat step_services" where
  "failing_services = sample_services\<lparr>sv_llm := Some (\<lambda>c b n.
     if ca_max_tokens c = 1 then (Inl (PExn LLMError ''refused''), Suc n)
     else complete sample_client c b n)\<rparr>"

text \<open>
  A failed model call shifts the replay. A failed call advances the call index but leaves
  no recording, so a replay answers the first call with the recording of the second: the
  attempt below takes its second branch, and its replay the first.
\<close>

lemma failed_call_shifts_replay:
  "case run_prog failing_services 100 fallback_runner (sample_context, 0) of
     (Inr res, (ctx', s')) \<Rightarrow>
       dkeys (sr_output res) = [''second''] \<and>
       (case run_prog failing_services 100 fallback_runner
               (sample_context\<lparr>sc_replay_llm := sc_llm_recordings ctx'\<rparr>, s') of
          (Inr res2, _) \<Rightarrow> dkeys (sr_output res2) = [''first''] | _ \<Rightarrow> False)
   | (Inl _, _) \<Rightarrow> False"
  by code_simp

end
