(* ===== verification/Executor.thy ===== *)
theory Executor
  imports Runners
begin

text \<open>
  \<open>core/executor.py\<close>: one attempt of a step under its timeout, and the classification of
  its outcome. An exception of the runner becomes a failure value; only an unknown agent type
  and a cancellation from outside are raised.
\<close>

datatype step_outcome =
    StepSuccess (so_output: obj) (so_model_used: "string option") (so_charges: "cost_entry list")
      (so_effects: "effect_outcome list") (so_review: "review_request option")
      (so_recordings: "llm_recording list")
  | StepFailure (so_error_type: string) (so_error_message: string) (so_retryable: bool)
      (so_charges: "cost_entry list") (so_effects: "effect_outcome list")
      (so_recordings: "llm_recording list")

definition so_ok :: "step_outcome \<Rightarrow> bool" where
  "so_ok o' = (case o' of StepSuccess _ _ _ _ _ _ \<Rightarrow> True | StepFailure _ _ _ _ _ _ \<Rightarrow> False)"

lemma so_ok_simps [simp]:
  "so_ok (StepSuccess a b c d e f)" "\<not> so_ok (StepFailure g h i c d f)"
  by (simp_all add: so_ok_def)

text \<open>\<open>_classify\<close>.\<close>

definition classify :: "exn_class \<Rightarrow> bool" where
  "classify c = (if is_agentforge_error c then retryable c else class_name c \<in> RETRYABLE_BY_NAME)"

definition run_attempt ::
  "step_registry \<Rightarrow> 's step_services \<Rightarrow> step_context \<Rightarrow> int \<Rightarrow> ('s, pexn, step_outcome) eff" where
  "run_attempt reg sv ctx timeout_seconds s =
     (case get_runner reg (sc_agent_type ctx) of
        Inl e \<Rightarrow> (Inl e, s)
      | Inr runner \<Rightarrow>
          (case run_prog sv (sv_now sv s + timeout_seconds * 1000000) (runner ctx) (ctx, s) of
             (Inr res, (ctx', s')) \<Rightarrow>
               (Inr (StepSuccess (sr_output res) (sr_model_used res) (sc_charges ctx') (sc_effects ctx')
                  (sc_review ctx') (sc_llm_recordings ctx')), s')
           | (Inl e, (ctx', s')) \<Rightarrow>
               if pexn_class e = PyTimeoutError then
                 (Inr (StepFailure ''StepTimeoutError''
                    (''step exceeded '' @ show_int timeout_seconds @ ''s'') True
                    (sc_charges ctx') (sc_effects ctx') []), s')
               else if pexn_class e = PyCancelledError then (Inl e, s')
               else
                 (Inr (StepFailure (class_name (pexn_class e))
                    (if pexn_text e = [] then class_name (pexn_class e) else pexn_text e)
                    (classify (pexn_class e)) (sc_charges ctx') (sc_effects ctx')
                    (sc_llm_recordings ctx')), s')))"

text \<open>
  An attempt of a registered runner always yields an outcome, unless it is cancelled from
  outside. The outcome is a success exactly when the runner returned; it carries every charge
  and every effect the runner made, also when it failed or ran out of time; and a failure is
  retryable exactly when it is a timeout, an engine error of a retryable class, or an outside
  error with a retryable name.
\<close>

lemma attempt_outcome:
  assumes "get_runner reg (sc_agent_type ctx) = Inr runner"
    and "run_prog sv (sv_now sv s + timeout * 1000000) (runner ctx) (ctx, s) = (r, (ctx', s'))"
    and "\<And>e. r = Inl e \<Longrightarrow> pexn_class e \<noteq> PyCancelledError"
  shows "\<exists>out. run_attempt reg sv ctx timeout s = (Inr out, s') \<and>
     so_ok out = (\<exists>res. r = Inr res) \<and> so_charges out = sc_charges ctx' \<and> so_effects out = sc_effects ctx' \<and>
     (\<forall>res. r = Inr res \<longrightarrow> so_output out = sr_output res \<and> so_review out = sc_review ctx') \<and>
     (\<forall>e. r = Inl e \<longrightarrow> (so_retryable out \<longleftrightarrow> pexn_class e = PyTimeoutError \<or> classify (pexn_class e)))"
  using assms by (cases r) (auto simp: run_attempt_def)

lemma attempt_outcome_witness:
  "\<exists>out s'. run_attempt [(''writer'', \<lambda>_. sample_runner)] sample_services sample_context 30 0 = (Inr out, s') \<and>
     so_ok out \<and> length (so_charges out) = 1"
proof -
  let ?m = "run_prog sample_services (sv_now sample_services 0 + 30 * 1000000) sample_runner (sample_context, 0)"
  have "case ?m of (Inr res, (ctx', s')) \<Rightarrow> length (sc_charges ctx') = 1 | _ \<Rightarrow> False" by code_simp
  then obtain res ctx' s' where m: "?m = (Inr res, (ctx', s'))" "length (sc_charges ctx') = 1"
    by (auto split: prod.splits sum.splits)
  have reg: "get_runner [(''writer'', \<lambda>_. sample_runner)] (sc_agent_type sample_context) = Inr (\<lambda>_. sample_runner)"
    by (simp add: get_runner_def sample_context_def)
  show ?thesis using attempt_outcome [OF reg m(1)] m(2) by auto
qed

end
