(* ===== verification/Driver.thy ===== *)
theory Driver
  imports Executor Leasing Ports
begin

text \<open>
  \<open>core/driver.py\<close>: the driver that advances one leased instance as far as it will go.
  Its collaborators are a record of operations on a shared state of any type, the in-memory
  projection is passed along, and every append folds the stored events onto it. The attempts
  of one wave, which the code gathers concurrently, run one after another in dispatch order.
  Spans, metrics and log lines are left out.
\<close>

section \<open>Collaborators and results\<close>

record ('s, 'g) driver =
  dv_append_new :: "string \<Rightarrow> string \<Rightarrow> event list \<Rightarrow> nat \<Rightarrow> 'g option \<Rightarrow> instant option \<Rightarrow>
                    ('s, exn_class, nat \<times> event list) eff"
  dv_get_instance :: "'s \<Rightarrow> string \<Rightarrow> string \<Rightarrow> workflow_definition option \<Rightarrow> workflow_instance option res"
  dv_get_definition :: "'s \<Rightarrow> string \<Rightarrow> string \<Rightarrow> string \<Rightarrow> workflow_definition option"
  dv_run_attempt :: "bool \<Rightarrow> step_context \<Rightarrow> int \<Rightarrow> ('s, pexn, step_outcome) eff"
    \<comment> \<open>whether the context carries the model client, the context, the timeout\<close>
  dv_dead_letter :: "workflow_instance \<Rightarrow> string option \<Rightarrow> string \<Rightarrow> ('s, pexn, unit) eff"
  dv_compensate :: "(string \<Rightarrow> string \<Rightarrow> ('s, pexn, effect_outcome list) eff) option"
  dv_budget :: "'s budget_service option"
  dv_notifier :: "'s notifier option"
  dv_ports :: "'s ports"

datatype drive_result =
    DR_COMPLETED | DR_PAUSED | DR_DEAD_LETTERED | DR_ROLLED_BACK | DR_PARKED
  | DR_WAITING_APPROVAL | DR_LEASE_LOST | DR_IDLE

record drive_report =
  rep_instance_id :: string
  rep_result :: drive_result
  rep_next_wakeup_at :: "instant option"

definition report :: "workflow_instance \<Rightarrow> drive_result \<Rightarrow> drive_report" where
  "report i r = \<lparr>rep_instance_id = wi_instance_id i, rep_result = r, rep_next_wakeup_at = None\<rparr>"

record plan =
  pl_dispatch :: "(string \<times> int) list"
  pl_approval_needed :: "string list"
  pl_terminal_failure :: "(string \<times> string) option"
  pl_retry_wakeup :: "instant option"
  pl_all_settled :: bool
  pl_budget_blocked_step :: "string option"

definition empty_plan :: plan where
  "empty_plan = \<lparr>pl_dispatch = [], pl_approval_needed = [], pl_terminal_failure = None,
     pl_retry_wakeup = None, pl_all_settled = False, pl_budget_blocked_step = None\<rparr>"

definition DONE :: "step_status set" where
  "DONE = {ST_COMPLETED, ST_SKIPPED}"

definition SETTLED :: "step_status set" where
  "SETTLED = {ST_COMPLETED, ST_SKIPPED, ST_COMPENSATED}"

definition MAX_DRIVE_ITERATIONS :: nat where
  "MAX_DRIVE_ITERATIONS = 1000"

section \<open>Append plumbing\<close>

definition driver_event :: "('s, 'g) driver \<Rightarrow> workflow_instance \<Rightarrow> event_body \<Rightarrow> ('s, pexn, event) eff" where
  "driver_event dv i body =
     new_event (dv_ports dv) (wi_instance_id i) (wi_tenant_id i) None body"

definition append_drafts ::
  "('s, 'g) driver \<Rightarrow> workflow_instance \<Rightarrow> workflow_definition \<Rightarrow> event list \<Rightarrow> 'g \<Rightarrow> instant option \<Rightarrow>
   ('s, pexn, workflow_instance) eff" where
  "append_drafts dv i d drafts g wakeup =
     (if drafts = [] then ereturn i
      else ebind (lift_exn (dv_append_new dv (wi_instance_id i) (wi_tenant_id i) drafts (wi_version i)
                    (Some g) wakeup))
             (\<lambda>(_, events). lift_res (fold_events events (Some d) (Some i))))"

definition transition ::
  "('s, 'g) driver \<Rightarrow> workflow_instance \<Rightarrow> workflow_definition \<Rightarrow> workflow_status \<Rightarrow> workflow_status \<Rightarrow>
   'g \<Rightarrow> string option \<Rightarrow> instant option \<Rightarrow> ('s, pexn, workflow_instance) eff" where
  "transition dv i d frm to g reason wakeup =
     ebind (driver_event dv i (InstanceStatusChanged frm to reason))
       (\<lambda>draft. append_drafts dv i d [draft] g wakeup)"

text \<open>The bodies of a batch, then the append of their drafts.\<close>

definition append_bodies ::
  "('s, 'g) driver \<Rightarrow> workflow_instance \<Rightarrow> workflow_definition \<Rightarrow> event_body list \<Rightarrow> 'g \<Rightarrow>
   ('s, pexn, workflow_instance) eff" where
  "append_bodies dv i d bodies g =
     ebind (esequence (map (driver_event dv i) bodies))
       (\<lambda>drafts. append_drafts dv i d drafts g None)"

definition notify :: "('s, 'g) driver \<Rightarrow> workflow_instance \<Rightarrow> string \<Rightarrow> string \<Rightarrow> ('s, pexn, unit) eff" where
  "notify dv i reason detail s =
     (case dv_notifier dv of
        None \<Rightarrow> (Inr (), s)
      | Some send \<Rightarrow>
          (case send \<lparr>nt_channel = ''escalations'',
                      nt_subject = ''Approval needed: '' @ reason @ '' on '' @ wi_instance_id i,
                      nt_body = detail,
                      nt_metadata = [(''instance_id'', JStr (wi_instance_id i)),
                                     (''tenant_id'', JStr (wi_tenant_id i)), (''reason'', JStr reason)]\<rparr> s of
             (Inl e, s') \<Rightarrow> if is_exception e then (Inr (), s') else (Inl e, s')
           | (Inr _, s') \<Rightarrow> (Inr (), s')))"

section \<open>Planning\<close>

text \<open>\<open>all(step_states[d].status in _DONE for d in deps)\<close>: stops at the first that is not done.\<close>

fun deps_done :: "workflow_instance \<Rightarrow> string list \<Rightarrow> bool res" where
  "deps_done i [] = Inr True"
| "deps_done i (dep # deps) =
     rbind (step_of i dep) (\<lambda>st. if ss_status st \<in> DONE then deps_done i deps else Inr False)"

record scan =
  sn_candidates :: "(string \<times> int) list"
  sn_terminal :: "(string \<times> string) option"
  sn_wakeup :: "instant option"

definition scan_step :: "workflow_instance \<Rightarrow> instant \<Rightarrow> scan \<Rightarrow> workflow_step \<Rightarrow> scan res" where
  "scan_step i now sn step =
     rbind (step_of i (ws_step_id step)) (\<lambda>st.
     rbind (deps_done i (ws_dependencies step)) (\<lambda>ready.
       if ss_status st \<in> {ST_PENDING, ST_READY} then
         Inr (if ready then sn\<lparr>sn_candidates := sn_candidates sn @ [(ws_step_id step, ss_attempts st + 1)]\<rparr>
              else sn)
       else if ss_status st = ST_FAILED then
         (case ss_next_retry_at st of
            None \<Rightarrow>
              Inr (sn\<lparr>sn_terminal := (case sn_terminal sn of Some t \<Rightarrow> Some t
                 | None \<Rightarrow> Some (ws_step_id step,
                     ''step '' @ ws_step_id step @ '' failed: '' @ show_opt (ss_error_message st)))\<rparr>)
          | Some t \<Rightarrow>
              if t \<le> now
              then Inr (sn\<lparr>sn_candidates := sn_candidates sn @ [(ws_step_id step, ss_attempts st + 1)]\<rparr>)
              else Inr (sn\<lparr>sn_wakeup := Some (case sn_wakeup sn of None \<Rightarrow> t | Some w \<Rightarrow> min w t)\<rparr>))
       else Inr sn))"

definition open_escalations :: "workflow_instance \<Rightarrow> string set" where
  "open_escalations i = esc_step_id ` set (filter (\<lambda>e. \<not> esc_resolved e) (wi_escalations i))"

definition approval_granted :: "workflow_instance \<Rightarrow> string \<Rightarrow> bool" where
  "approval_granted i sid = list_ex (\<lambda>e. esc_step_id e = sid \<and> esc_resolved e) (wi_escalations i)"

definition running_steps :: "workflow_instance \<Rightarrow> nat" where
  "running_steps i = length (filter (\<lambda>(k, st). ss_status st = ST_RUNNING) (wi_step_states i))"

definition budget_out :: "workflow_instance \<Rightarrow> bool" where
  "budget_out i = (case remaining_budget_usd i of None \<Rightarrow> False | Some x \<Rightarrow> x \<le> 0)"

text \<open>The candidates that need a sign-off nobody has given or been asked for.\<close>

fun approvals_needed :: "workflow_instance \<Rightarrow> workflow_definition \<Rightarrow> (string \<times> int) list \<Rightarrow> string list res" where
  "approvals_needed i d [] = Inr []"
| "approvals_needed i d ((sid, att) # cs) =
     rbind (find_step d sid) (\<lambda>step.
     rbind (approvals_needed i d cs) (\<lambda>rest.
       Inr (if ws_requires_approval step \<and> sid \<notin> open_escalations i \<and> \<not> approval_granted i sid
            then sid # rest else rest)))"

fun all_settled :: "workflow_instance \<Rightarrow> workflow_step list \<Rightarrow> bool res" where
  "all_settled i [] = Inr True"
| "all_settled i (step # steps) =
     rbind (step_of i (ws_step_id step)) (\<lambda>st.
       if ss_status st \<in> SETTLED then all_settled i steps else Inr False)"

definition make_plan :: "workflow_instance \<Rightarrow> workflow_definition \<Rightarrow> instant \<Rightarrow> plan res" where
  "make_plan i d now =
     rbind (rfoldl (scan_step i now) \<lparr>sn_candidates = [], sn_terminal = None, sn_wakeup = None\<rparr> (wd_steps d))
       (\<lambda>sn. let p = empty_plan\<lparr>pl_retry_wakeup := sn_wakeup sn\<rparr> in
        if sn_terminal sn \<noteq> None then Inr (p\<lparr>pl_terminal_failure := sn_terminal sn\<rparr>)
        else rbind (approvals_needed i d (sn_candidates sn)) (\<lambda>needed.
          if needed \<noteq> [] then Inr (p\<lparr>pl_approval_needed := needed\<rparr>)
          else
            let dispatchable = filter (\<lambda>c. fst c \<notin> open_escalations i) (sn_candidates sn) in
            if dispatchable \<noteq> [] \<and> budget_out i
            then Inr (p\<lparr>pl_budget_blocked_step := Some (fst (hd dispatchable))\<rparr>)
            else
              let free = nat (max (wd_max_concurrent_steps d - int (running_steps i)) 0);
                  p = p\<lparr>pl_dispatch := take free dispatchable\<rparr> in
              if pl_dispatch p = [] \<and> pl_retry_wakeup p = None \<and> running_steps i = 0
              then rbind (all_settled i (wd_steps d)) (\<lambda>b. Inr (p\<lparr>pl_all_settled := b\<rparr>))
              else Inr p))"

section \<open>Dispatch\<close>

definition resolve_inputs :: "workflow_instance \<Rightarrow> workflow_step \<Rightarrow> obj" where
  "resolve_inputs i step =
     foldl (\<lambda>inputs dep. dset dep
        (JObj (case dget (wi_step_states i) dep of None \<Rightarrow> []
               | Some st \<Rightarrow> (case ss_output st of None \<Rightarrow> [] | Some out \<Rightarrow> out))) inputs)
       (wi_context i) (ws_dependencies step)"

text \<open>The events that start a wave: a pending step becomes ready first.\<close>

fun started_bodies :: "workflow_instance \<Rightarrow> string \<Rightarrow> (string \<times> int) list \<Rightarrow> event_body list res" where
  "started_bodies i worker [] = Inr []"
| "started_bodies i worker ((sid, att) # cs) =
     rbind (step_of i sid) (\<lambda>st.
     rbind (started_bodies i worker cs) (\<lambda>rest.
       Inr ((if ss_status st = ST_PENDING
             then [StepStatusChanged sid ST_PENDING ST_READY (Some ''dependencies satisfied'')] else []) @
            StepStarted sid att worker None # rest)))"

definition step_context_of ::
  "workflow_instance \<Rightarrow> workflow_step \<Rightarrow> string \<Rightarrow> int \<Rightarrow> budget_view option \<Rightarrow> llm_recording list \<Rightarrow> step_context" where
  "step_context_of i step sid att budget replay =
     \<lparr>sc_instance_id = wi_instance_id i, sc_tenant_id = wi_tenant_id i, sc_step_id = sid,
      sc_agent_type = ws_agent_type step, sc_attempt = att, sc_inputs = resolve_inputs i step,
      sc_instance_context = wi_context i, sc_budget = budget, sc_replay_llm = replay,
      sc_charges = [], sc_effects = [], sc_review = None, sc_llm_index = 0, sc_llm_recordings = []\<rparr>"

type_synonym attempt_result = "string \<times> int \<times> workflow_step \<times> step_outcome"

definition run_one ::
  "('s, 'g) driver \<Rightarrow> workflow_instance \<Rightarrow> workflow_definition \<Rightarrow> budget_view option \<Rightarrow> string \<times> int \<Rightarrow>
   ('s, pexn, attempt_result) eff" where
  "run_one dv i d budget c = (case c of (sid, att) \<Rightarrow>
     ebind (lift_res (find_step d sid)) (\<lambda>step.
     ebind (lift_res (step_of i sid)) (\<lambda>st.
     ebind (dv_run_attempt dv True (step_context_of i step sid att budget (ss_recorded_llm_calls st))
              (ws_timeout_seconds step))
       (\<lambda>outcome. ereturn (sid, att, step, outcome)))))"

text \<open>What one outcome adds to the log: recordings, charges, effects, then the step's end.\<close>

definition effect_bodies :: "string \<Rightarrow> effect_outcome \<Rightarrow> event_body list" where
  "effect_bodies sid eff =
     (if eo_deduplicated eff then []
      else [SideEffectIntentRecorded sid (eo_effect_name eff) (eo_idempotency_key eff) (eo_params eff)
              (eo_guarantee eff)]) @
     [SideEffectExecuted sid (eo_idempotency_key eff) (ef_data (eo_result eff)) (eo_deduplicated eff)]"

definition end_body :: "string \<Rightarrow> int \<Rightarrow> step_outcome \<Rightarrow> event_body" where
  "end_body sid att out =
     (if so_ok out then StepCompleted sid att (so_output out) (so_model_used out) 0 0 0 0
      else StepFailed sid att (so_error_type out) (so_error_message out) (so_retryable out))"

definition outcome_bodies :: "attempt_result \<Rightarrow> event_body list" where
  "outcome_bodies r = (case r of (sid, att, step, out) \<Rightarrow>
     map (\<lambda>rc. LLMCallRecorded sid att (lr_request_digest rc) (lr_model rc) (lr_response rc)
                 (lr_tokens_input rc) (lr_tokens_output rc) (lr_cost_usd rc)) (so_recordings out) @
     map (\<lambda>c. CostCharged (Some sid) (ce_amount_usd c) (ce_model c) (ce_tokens_input c) (ce_tokens_output c))
       (so_charges out) @
     concat (map (effect_bodies sid) (so_effects out)) @
     [end_body sid att out])"

definition spent_of :: "attempt_result list \<Rightarrow> usd" where
  "spent_of results = sum_list (concat (map (\<lambda>(sid, att, step, out). map ce_amount_usd (so_charges out)) results))"

definition retry_bodies :: "instant \<Rightarrow> attempt_result list \<Rightarrow> event_body list" where
  "retry_bodies now results =
     concat (map (\<lambda>(sid, att, step, out).
       if \<not> so_ok out \<and> so_retryable out \<and> att \<le> rp_max_retries (ws_retry_policy step)
       then [StepRetryScheduled sid (att + 1)
               (now + timedelta_seconds (backoff_delay (ws_retry_policy step) att))]
       else []) results)"

definition reviews_of :: "attempt_result list \<Rightarrow> (string \<times> review_request) list" where
  "reviews_of results =
     concat (map (\<lambda>(sid, att, step, out). case out of
         StepSuccess _ _ _ _ (Some rv) _ \<Rightarrow> [(sid, rv)] | _ \<Rightarrow> []) results)"

text \<open>An escalation draws its own id before the event's.\<close>

definition escalation_event ::
  "('s, 'g) driver \<Rightarrow> workflow_instance \<Rightarrow> string \<Rightarrow> string \<Rightarrow> string \<Rightarrow> rat \<Rightarrow> obj list \<Rightarrow> instant option \<Rightarrow>
   string \<Rightarrow> ('s, pexn, event) eff" where
  "escalation_event dv i sid reason recommendation confidence options deadline auto_action =
     ebind (new_id (dv_ports dv))
       (\<lambda>eid. driver_event dv i
          (EscalationRaised eid sid reason recommendation confidence options deadline auto_action))"

definition raise_review_escalations ::
  "('s, 'g) driver \<Rightarrow> workflow_instance \<Rightarrow> workflow_definition \<Rightarrow> (string \<times> review_request) list \<Rightarrow> 'g \<Rightarrow>
   ('s, pexn, workflow_instance) eff" where
  "raise_review_escalations dv i d reviews g =
     ebind (now_of (dv_ports dv)) (\<lambda>now.
     ebind (esequence (map (\<lambda>(sid, rv).
         escalation_event dv i sid (rv_reason rv) (rv_recommendation rv) (rv_confidence rv) (rv_options rv)
           (if truthy_int (rv_timeout_seconds rv)
            then Some (now + the (rv_timeout_seconds rv) * 1000000) else None)
           (rv_auto_action rv)) reviews @
         [driver_event dv i (InstanceStatusChanged WF_RUNNING WF_WAITING_APPROVAL
            (Some (''review requested: '' @ join '', '' (map fst reviews))))])) (\<lambda>drafts.
     ebind (append_drafts dv i d drafts g None) (\<lambda>i.
     ebind (notify dv i (join '', '' (sort (remdups (map (rv_reason \<circ> snd) reviews))))
              (''steps awaiting review: '' @ join '', '' (map fst reviews)))
       (\<lambda>_. ereturn i))))"

text \<open>After a wave's outcomes are in the log: the tenant's ledger, the retries, the reviews.\<close>

definition record_wave_spend ::
  "('s, 'g) driver \<Rightarrow> workflow_instance \<Rightarrow> attempt_result list \<Rightarrow> ('s, pexn, unit) eff" where
  "record_wave_spend dv i results =
     (case dv_budget dv of
        None \<Rightarrow> ereturn ()
      | Some b \<Rightarrow>
          if 0 < spent_of results
          then ebind (now_of (dv_ports dv)) (record_spend b (wi_tenant_id i) (spent_of results))
          else ereturn ())"

definition budget_of :: "('s, 'g) driver \<Rightarrow> workflow_instance \<Rightarrow> ('s, pexn, budget_view option) eff" where
  "budget_of dv i =
     (case dv_budget dv of
        None \<Rightarrow> ereturn None
      | Some b \<Rightarrow> ebind (now_of (dv_ports dv)) (\<lambda>now.
                   ebind (budget_view_of b i now) (\<lambda>v. ereturn (Some v))))"

definition settle_wave ::
  "('s, 'g) driver \<Rightarrow> workflow_instance \<Rightarrow> workflow_definition \<Rightarrow> attempt_result list \<Rightarrow> 'g \<Rightarrow>
   ('s, pexn, workflow_instance) eff" where
  "settle_wave dv i d results g =
     ebind (append_bodies dv i d (concat (map outcome_bodies results)) g) (\<lambda>i.
     ebind (record_wave_spend dv i results) (\<lambda>_.
     ebind (now_of (dv_ports dv)) (\<lambda>now.
     ebind (append_bodies dv i d (retry_bodies now results) g) (\<lambda>i.
       if reviews_of results \<noteq> [] then raise_review_escalations dv i d (reviews_of results) g
       else ereturn i))))"

definition dispatch_wave ::
  "('s, 'g) driver \<Rightarrow> workflow_instance \<Rightarrow> workflow_definition \<Rightarrow> (string \<times> int) list \<Rightarrow> lease \<Rightarrow> 'g \<Rightarrow>
   ('s, pexn, workflow_instance) eff" where
  "dispatch_wave dv i d dispatch l g =
     ebind (lift_res (started_bodies i (la_worker_id l) dispatch)) (\<lambda>bodies.
     ebind (append_bodies dv i d bodies g) (\<lambda>i.
     ebind (budget_of dv i) (\<lambda>budget.
     ebind (esequence (map (run_one dv i d budget) dispatch)) (\<lambda>results.
       settle_wave dv i d results g))))"

section \<open>Ends of a drive\<close>

definition completed_outputs :: "workflow_instance \<Rightarrow> obj" where
  "completed_outputs i =
     map (\<lambda>(sid, st). (sid, JObj (the (ss_output st))))
       (filter (\<lambda>(sid, st). ss_status st = ST_COMPLETED \<and> ss_output st \<noteq> None) (wi_step_states i))"

definition complete_instance ::
  "('s, 'g) driver \<Rightarrow> workflow_instance \<Rightarrow> workflow_definition \<Rightarrow> 'g \<Rightarrow> ('s, pexn, drive_report) eff" where
  "complete_instance dv i d g =
     ebind (append_bodies dv i d
         [InstanceStatusChanged WF_RUNNING WF_COMPLETED None, InstanceCompleted (completed_outputs i)] g)
       (\<lambda>_. ereturn (report i DR_COMPLETED))"

text \<open>An escalation that parks the whole instance.\<close>

definition park_with_escalation ::
  "('s, 'g) driver \<Rightarrow> workflow_instance \<Rightarrow> workflow_definition \<Rightarrow> string \<Rightarrow> string \<Rightarrow> string \<Rightarrow> string \<Rightarrow>
   string \<Rightarrow> 'g \<Rightarrow> ('s, pexn, drive_report) eff" where
  "park_with_escalation dv i d sid kind recommendation reason detail g =
     ebind (esequence
         [escalation_event dv i sid kind recommendation 0 [] None ''abort'',
          driver_event dv i (InstanceStatusChanged WF_RUNNING WF_WAITING_APPROVAL (Some reason))]) (\<lambda>drafts.
     ebind (append_drafts dv i d drafts g None) (\<lambda>_.
     ebind (notify dv i kind detail) (\<lambda>_. ereturn (report i DR_WAITING_APPROVAL))))"

definition escalate_max_retries ::
  "('s, 'g) driver \<Rightarrow> workflow_instance \<Rightarrow> workflow_definition \<Rightarrow> string \<Rightarrow> string \<Rightarrow> 'g \<Rightarrow>
   ('s, pexn, drive_report) eff" where
  "escalate_max_retries dv i d sid reason g =
     park_with_escalation dv i d sid ''max_retries''
       (''step '' @ sid @ '' exhausted its retries: '' @
        (case dget (wi_step_states i) sid of Some st \<Rightarrow> show_opt (ss_error_message st) | None \<Rightarrow> reason) @
        ''. resolve with retry / skip / abort.'')
       reason reason g"

definition escalate_cost_threshold ::
  "('s, 'g) driver \<Rightarrow> workflow_instance \<Rightarrow> workflow_definition \<Rightarrow> string \<Rightarrow> 'g \<Rightarrow>
   ('s, pexn, drive_report) eff" where
  "escalate_cost_threshold dv i d sid g =
     park_with_escalation dv i d sid ''cost_threshold''
       ''raise the workflow / tenant budget, then resume'' ''budget exceeded (pre-flight)''
       (''a step'' @ [CHR 39] @ ''s projected cost exceeds the budget'') g"

definition escalate_compensation_failure ::
  "('s, 'g) driver \<Rightarrow> workflow_instance \<Rightarrow> workflow_definition \<Rightarrow> string \<Rightarrow> 'g \<Rightarrow>
   ('s, pexn, drive_report) eff" where
  "escalate_compensation_failure dv i d detail g =
     park_with_escalation dv i d [] ''compensation_failed'' detail
       ''compensation failed - needs a human'' detail g"

definition block_on_budget ::
  "('s, 'g) driver \<Rightarrow> workflow_instance \<Rightarrow> workflow_definition \<Rightarrow> string \<Rightarrow> 'g \<Rightarrow>
   ('s, pexn, drive_report) eff" where
  "block_on_budget dv i d sid g =
     ebind (append_bodies dv i d
         [BudgetExceeded sid 0 (case remaining_budget_usd i of None \<Rightarrow> 0 | Some x \<Rightarrow> x) ''workflow'',
          InstanceStatusChanged WF_RUNNING WF_PAUSED (Some ''budget exhausted'')] g)
       (\<lambda>_. ereturn (report i DR_PAUSED))"

fun approval_drafts ::
  "('s, 'g) driver \<Rightarrow> workflow_instance \<Rightarrow> workflow_definition \<Rightarrow> instant \<Rightarrow> string list \<Rightarrow>
   ('s, pexn, event) eff list res" where
  "approval_drafts dv i d now [] = Inr []"
| "approval_drafts dv i d now (sid # sids) =
     rbind (find_step d sid) (\<lambda>step.
     rbind (step_of i sid) (\<lambda>st.
     rbind (approval_drafts dv i d now sids) (\<lambda>rest.
       Inr ((if ss_status st = ST_PENDING
             then [driver_event dv i (StepStatusChanged sid ST_PENDING ST_READY (Some ''dependencies satisfied''))]
             else []) @
            escalation_event dv i sid ''explicit_approval'' [] 0 []
              (if truthy_int (ws_approval_timeout_seconds step)
               then Some (now + the (ws_approval_timeout_seconds step) * 1000000) else None)
              (ws_approval_auto_action step) # rest))))"

definition escalate_for_approval ::
  "('s, 'g) driver \<Rightarrow> workflow_instance \<Rightarrow> workflow_definition \<Rightarrow> string list \<Rightarrow> 'g \<Rightarrow>
   ('s, pexn, drive_report) eff" where
  "escalate_for_approval dv i d sids g =
     ebind (now_of (dv_ports dv)) (\<lambda>now.
     ebind (lift_res (approval_drafts dv i d now sids)) (\<lambda>makers.
     ebind (esequence (makers @
         [driver_event dv i (InstanceStatusChanged WF_RUNNING WF_WAITING_APPROVAL
            (Some (''approval required: '' @ join '', '' sids)))])) (\<lambda>drafts.
     ebind (append_drafts dv i d drafts g None) (\<lambda>_.
     ebind (notify dv i ''explicit_approval'' (''steps awaiting sign-off: '' @ join '', '' sids))
       (\<lambda>_. ereturn (report i DR_WAITING_APPROVAL))))))"

section \<open>Rollback\<close>

definition run_step_compensation ::
  "('s, 'g) driver \<Rightarrow> workflow_instance \<Rightarrow> workflow_step \<Rightarrow> ('s, pexn, unit) eff" where
  "run_step_compensation dv i step =
     ebind (lift_res (step_of i (ws_step_id step))) (\<lambda>st.
     ebind (dv_run_attempt dv False
         \<lparr>sc_instance_id = wi_instance_id i, sc_tenant_id = wi_tenant_id i, sc_step_id = ws_step_id step,
          sc_agent_type = (case ws_compensation_action step of None \<Rightarrow> [] | Some a \<Rightarrow> a), sc_attempt = 1,
          sc_inputs = [(''output'', JObj (case ss_output st of None \<Rightarrow> [] | Some x \<Rightarrow> x))],
          sc_instance_context = wi_context i, sc_budget = None, sc_replay_llm = [], sc_charges = [],
          sc_effects = [], sc_review = None, sc_llm_index = 0, sc_llm_recordings = []\<rparr>
         (ws_timeout_seconds step)) (\<lambda>out.
       if so_ok out then ereturn () else ethrow (PExn CompensationError (so_error_message out))))"

fun steps_to_compensate :: "workflow_instance \<Rightarrow> workflow_step list \<Rightarrow> workflow_step list res" where
  "steps_to_compensate i [] = Inr []"
| "steps_to_compensate i (step # steps) =
     (if truthy_str (ws_compensation_action step)
      then rbind (step_of i (ws_step_id step)) (\<lambda>st.
           rbind (steps_to_compensate i steps) (\<lambda>rest.
             Inr (if ss_status st = ST_COMPLETED then step # rest else rest)))
      else steps_to_compensate i steps)"

text \<open>The handlers in order; the first that raises ends the loop with its text.\<close>

fun compensate_steps ::
  "('s, 'g) driver \<Rightarrow> workflow_instance \<Rightarrow> workflow_step list \<Rightarrow> ('s, pexn, string option) eff" where
  "compensate_steps dv i [] s = (Inr None, s)"
| "compensate_steps dv i (step # steps) s =
     (case run_step_compensation dv i step s of
        (Inl e, s') \<Rightarrow>
          if is_exception e
          then (Inr (Some (''compensation for step '' @ ws_step_id step @ '' failed: '' @ pexn_text e)), s')
          else (Inl e, s')
      | (Inr _, s') \<Rightarrow> compensate_steps dv i steps s')"

definition rollback_bodies :: "effect_outcome list \<Rightarrow> workflow_step list \<Rightarrow> string \<Rightarrow> event_body list" where
  "rollback_bodies undone steps reason =
     map (\<lambda>eff. SideEffectCompensated (eo_step_id eff) (eo_idempotency_key eff) (ef_data (eo_result eff))) undone @
     map (\<lambda>step. StepCompensated (ws_step_id step)
            (case ws_compensation_action step of None \<Rightarrow> [] | Some a \<Rightarrow> a)) steps @
     [InstanceStatusChanged WF_RUNNING WF_ROLLED_BACK (Some reason)]"

definition undo_effects :: "('s, 'g) driver \<Rightarrow> workflow_instance \<Rightarrow> ('s, pexn, effect_outcome list) eff" where
  "undo_effects dv i =
     (case dv_compensate dv of
        None \<Rightarrow> ereturn []
      | Some f \<Rightarrow> f (wi_instance_id i) (wi_tenant_id i))"

definition rollback ::
  "('s, 'g) driver \<Rightarrow> workflow_instance \<Rightarrow> workflow_definition \<Rightarrow> string \<Rightarrow> 'g \<Rightarrow>
   ('s, pexn, drive_report) eff" where
  "rollback dv i d reason g =
     ebind (etry (undo_effects dv i)) (\<lambda>res. case res of
         Inl e \<Rightarrow>
           if pexn_class e = CompensationError
           then escalate_compensation_failure dv i d (pexn_text e) g else ethrow e
       | Inr undone \<Rightarrow>
           ebind (lift_res (steps_to_compensate i (rev (wd_steps d)))) (\<lambda>steps.
           ebind (compensate_steps dv i steps) (\<lambda>failed. case failed of
               Some detail \<Rightarrow> escalate_compensation_failure dv i d detail g
             | None \<Rightarrow>
                 ebind (append_bodies dv i d (rollback_bodies undone steps reason) g)
                   (\<lambda>_. ereturn (report i DR_ROLLED_BACK)))))"

definition apply_failure_policy ::
  "('s, 'g) driver \<Rightarrow> workflow_instance \<Rightarrow> workflow_definition \<Rightarrow> string \<times> string \<Rightarrow> 'g \<Rightarrow>
   ('s, pexn, drive_report) eff" where
  "apply_failure_policy dv i d failure g = (case failure of (sid, reason) \<Rightarrow>
     if (case dget (wi_step_states i) sid of None \<Rightarrow> False
         | Some st \<Rightarrow> ss_error_type st = Some ''BudgetExceededError'')
     then escalate_cost_threshold dv i d sid g
     else case wd_on_failure d of
         OF_ESCALATE \<Rightarrow> escalate_max_retries dv i d sid reason g
       | OF_ROLLBACK \<Rightarrow> rollback dv i d reason g
       | OF_DEAD_LETTER \<Rightarrow>
           ebind (transition dv i d WF_RUNNING WF_DEAD_LETTERED g (Some reason) None) (\<lambda>i.
           ebind (dv_dead_letter dv i (Some sid) reason) (\<lambda>_.
             ereturn (report i DR_DEAD_LETTERED)))
       | OF_PAUSE \<Rightarrow>
           ebind (transition dv i d WF_RUNNING WF_PAUSED g (Some reason) None)
             (\<lambda>_. ereturn (report i DR_PAUSED)))"

section \<open>The loop\<close>

definition recover_in_flight ::
  "('s, 'g) driver \<Rightarrow> workflow_instance \<Rightarrow> workflow_definition \<Rightarrow> 'g \<Rightarrow> ('s, pexn, workflow_instance) eff" where
  "recover_in_flight dv i d g =
     append_bodies dv i d
       (map (\<lambda>(sid, st). StepStatusChanged sid ST_RUNNING ST_READY (Some ''worker-recovered''))
          (filter (\<lambda>(sid, st). ss_status st = ST_RUNNING) (wi_step_states i))) g"

text \<open>What a status alone decides.\<close>

fun parked_result :: "workflow_status \<Rightarrow> drive_result option" where
  "parked_result WF_COMPLETED = Some DR_COMPLETED"
| "parked_result WF_ROLLED_BACK = Some DR_ROLLED_BACK"
| "parked_result WF_PAUSED = Some DR_PAUSED"
| "parked_result WF_DEAD_LETTERED = Some DR_DEAD_LETTERED"
| "parked_result WF_WAITING_APPROVAL = Some DR_WAITING_APPROVAL"
| "parked_result WF_FAILED = Some DR_PAUSED"
| "parked_result _ = None"

text \<open>What a plan makes of a running instance, in the order in which the code looks at its parts.\<close>

definition follow_plan ::
  "('s, 'g) driver \<Rightarrow> workflow_instance \<Rightarrow> workflow_definition \<Rightarrow> plan \<Rightarrow> lease \<Rightarrow> 'g \<Rightarrow>
   ('s, pexn, workflow_instance + drive_report) eff" where
  "follow_plan dv i d p l g =
     (case pl_budget_blocked_step p of
        Some sid \<Rightarrow> ebind (block_on_budget dv i d sid g) (\<lambda>r. ereturn (Inr r))
      | None \<Rightarrow>
          if pl_approval_needed p \<noteq> [] then
            ebind (escalate_for_approval dv i d (pl_approval_needed p) g) (\<lambda>r. ereturn (Inr r))
          else (case pl_terminal_failure p of
            Some f \<Rightarrow> ebind (apply_failure_policy dv i d f g) (\<lambda>r. ereturn (Inr r))
          | None \<Rightarrow>
              if pl_dispatch p \<noteq> [] then
                ebind (dispatch_wave dv i d (pl_dispatch p) l g) (\<lambda>i. ereturn (Inl i))
              else if pl_all_settled p then
                ebind (complete_instance dv i d g) (\<lambda>r. ereturn (Inr r))
              else (case pl_retry_wakeup p of
                Some w \<Rightarrow>
                  ebind (transition dv i d WF_RUNNING WF_RETRYING g None (Some w)) (\<lambda>i.
                    ereturn (Inr ((report i DR_PARKED)\<lparr>rep_next_wakeup_at := Some w\<rparr>)))
              | None \<Rightarrow> ereturn (Inr (report i DR_IDLE)))))"

text \<open>One round: the instance to go on with, or the report to return.\<close>

definition run_round ::
  "('s, 'g) driver \<Rightarrow> workflow_instance \<Rightarrow> workflow_definition \<Rightarrow> lease \<Rightarrow> 'g \<Rightarrow>
   ('s, pexn, workflow_instance + drive_report) eff" where
  "run_round dv i d l g =
     (case parked_result (wi_status i) of
        Some r \<Rightarrow> ereturn (Inr (report i r))
      | None \<Rightarrow>
          if wi_status i = WF_PENDING then
            ebind (transition dv i d WF_PENDING WF_RUNNING g None None) (\<lambda>i. ereturn (Inl i))
          else if wi_status i = WF_RETRYING then
            ebind (transition dv i d WF_RETRYING WF_RUNNING g None None) (\<lambda>i. ereturn (Inl i))
          else
            ebind (now_of (dv_ports dv)) (\<lambda>now.
            ebind (lift_res (make_plan i d now)) (\<lambda>p. follow_plan dv i d p l g)))"

fun run_rounds ::
  "nat \<Rightarrow> ('s, 'g) driver \<Rightarrow> workflow_instance \<Rightarrow> workflow_definition \<Rightarrow> lease \<Rightarrow> 'g \<Rightarrow>
   ('s, pexn, drive_report) eff" where
  "run_rounds 0 dv i d l g =
     ethrow (PExn PyRuntimeError (''drive did not converge for '' @ wi_instance_id i))"
| "run_rounds (Suc n) dv i d l g =
     ebind (run_round dv i d l g) (\<lambda>r. case r of
         Inl i' \<Rightarrow> run_rounds n dv i' d l g
       | Inr rep \<Rightarrow> ereturn rep)"

definition drive :: "('s, 'g) driver \<Rightarrow> lease \<Rightarrow> 'g \<Rightarrow> ('s, pexn, drive_report) eff" where
  "drive dv l g s =
     (case dv_get_definition dv s (la_workflow_id l) (la_workflow_version l) (la_tenant_id l) of
        None \<Rightarrow> (Inl (PExn ConfigurationError
                   (''definition '' @ la_workflow_id l @ '' v'' @ la_workflow_version l @ '' missing'')), s)
      | Some d \<Rightarrow>
          (case dv_get_instance dv s (la_instance_id l) (la_tenant_id l) (Some d) of
             Inl c \<Rightarrow> (Inl (PExn c []), s)
           | Inr None \<Rightarrow>
               (Inr \<lparr>rep_instance_id = la_instance_id l, rep_result = DR_IDLE, rep_next_wakeup_at = None\<rparr>, s)
           | Inr (Some i) \<Rightarrow>
               (case ebind (recover_in_flight dv i d g) (\<lambda>i. run_rounds MAX_DRIVE_ITERATIONS dv i d l g) s of
                  (Inl e, s') \<Rightarrow>
                    if is_conflict (pexn_class e)
                    then (Inr \<lparr>rep_instance_id = la_instance_id l, rep_result = DR_LEASE_LOST,
                               rep_next_wakeup_at = None\<rparr>, s')
                    else (Inl e, s')
                | (Inr rep, s') \<Rightarrow> (Inr rep, s'))))"

end
