(* ===== verification/Escalation.thy ===== *)
theory Escalation
  imports DeadLetter Driver_Props
begin

text \<open>
  \<open>core/escalation.py\<close>: reading pending escalations, resolving them on behalf of an operator
  and firing the automatic action of those past their deadline. Printing a deadline
  (\<open>isoformat\<close>) is a parameter.
\<close>

section \<open>The read store\<close>

record pending_escalation =
  pe_escalation_id :: string
  pe_instance_id :: string
  pe_tenant_id :: string
  pe_step_id :: string
  pe_reason :: string
  pe_recommendation :: string
  pe_confidence :: rat
  pe_options :: "obj list"
  pe_auto_action :: string
  pe_deadline :: "instant option"
  pe_status :: string
  pe_created_at :: instant

definition row_to_pending :: "escalation_row \<Rightarrow> pending_escalation" where
  "row_to_pending r =
     \<lparr>pe_escalation_id = es_escalation_id r, pe_instance_id = es_instance_id r, pe_tenant_id = es_tenant_id r,
      pe_step_id = es_step_id r, pe_reason = es_reason r, pe_recommendation = es_recommendation r,
      pe_confidence = es_confidence r, pe_options = es_options r, pe_auto_action = es_auto_action r,
      pe_deadline = es_deadline r, pe_status = es_status r, pe_created_at = es_created_at r\<rparr>"

definition esc_store_get :: "db \<Rightarrow> string \<Rightarrow> pending_escalation option" where
  "esc_store_get d eid = map_option row_to_pending (dget (db_escalations d) eid)"

definition esc_store_list_pending :: "db \<Rightarrow> string \<Rightarrow> nat \<Rightarrow> pending_escalation list" where
  "esc_store_list_pending d tenant_id limit =
     map row_to_pending (take limit (sort_key es_created_at
       (filter (\<lambda>r. es_tenant_id r = tenant_id \<and> es_status r = ''pending'') (map snd (db_escalations d)))))"

definition esc_store_due :: "db \<Rightarrow> instant \<Rightarrow> nat \<Rightarrow> pending_escalation list" where
  "esc_store_due d now limit =
     map row_to_pending (take limit (sort_key (\<lambda>r. the (es_deadline r))
       (filter (\<lambda>r. es_status r = ''pending'' \<and> (case es_deadline r of None \<Rightarrow> False | Some t \<Rightarrow> t \<le> now))
          (map snd (db_escalations d)))))"

section \<open>The controller\<close>

definition esc_get :: "db \<Rightarrow> string \<Rightarrow> string \<Rightarrow> pending_escalation option" where
  "esc_get d eid tenant_id =
     (case esc_store_get d eid of
        None \<Rightarrow> None
      | Some esc \<Rightarrow> if pe_tenant_id esc \<noteq> tenant_id then None else Some esc)"

definition notify_raised ::
  "(instant \<Rightarrow> string) \<Rightarrow> (db \<times> 'w) notifier option \<Rightarrow> string \<Rightarrow> string \<Rightarrow> (db \<times> 'w, pexn, unit) eff" where
  "notify_raised isoformat notifier eid tenant_id s =
     (case notifier of
        None \<Rightarrow> (Inr (), s)
      | Some send \<Rightarrow>
          (case esc_get (fst s) eid tenant_id of
             None \<Rightarrow> (Inr (), s)
           | Some esc \<Rightarrow>
               send \<lparr>nt_channel = ''escalations'',
                     nt_subject = ''Approval needed: '' @ pe_reason esc @ '' on '' @ pe_instance_id esc,
                     nt_body = (if pe_recommendation esc = [] then ''A workflow step is waiting for a human.''
                                else pe_recommendation esc),
                     nt_metadata = [(''instance_id'', JStr (pe_instance_id esc)),
                        (''escalation_id'', JStr (pe_escalation_id esc)), (''step_id'', JStr (pe_step_id esc)),
                        (''deadline'', case pe_deadline esc of None \<Rightarrow> JNull | Some t \<Rightarrow> JStr (isoformat t))]\<rparr> s))"

text \<open>The escalation and the waiting instance it belongs to, or the exception raised.\<close>

definition esc_load :: "db \<Rightarrow> string \<Rightarrow> string \<Rightarrow> pexn + pending_escalation \<times> workflow_instance" where
  "esc_load d eid tenant_id =
     (case esc_get d eid tenant_id of
        None \<Rightarrow> Inl (config_error (''escalation '' @ eid @ '' not found''))
      | Some esc \<Rightarrow>
          if pe_status esc \<noteq> ''pending''
          then Inl (config_error (''escalation '' @ eid @ '' is '' @ pe_status esc))
          else (case get_instance d (pe_instance_id esc) tenant_id None of
             Inl c \<Rightarrow> Inl (PExn c [])
           | Inr None \<Rightarrow> Inl (config_error (''instance '' @ pe_instance_id esc @ '' not found''))
           | Inr (Some i) \<Rightarrow>
               if wi_status i \<noteq> WF_WAITING_APPROVAL
               then Inl (config_error (''instance '' @ pe_instance_id esc @ '' is '' @ wf_value (wi_status i) @
                      '', not waiting_approval''))
               else Inr (esc, i)))"

definition wf_body :: "workflow_instance \<Rightarrow> workflow_status \<Rightarrow> string \<Rightarrow> event_body" where
  "wf_body i to reason = InstanceStatusChanged (wi_status i) to (Some reason)"

definition transition_bodies :: "workflow_instance \<Rightarrow> string \<Rightarrow> string \<Rightarrow> string \<Rightarrow> event_body list" where
  "transition_bodies i step_id resolution actor =
     (case (if step_id = [] then None else dget (wi_step_states i) step_id) of
        Some st \<Rightarrow>
          if resolution \<in> {''approve'', ''modify''} then
            [StepStatusChanged step_id (ss_status st) (if ss_output st \<noteq> None then ST_COMPLETED else ST_READY)
               (Some (''approved by '' @ actor)),
             wf_body i WF_RUNNING (''resumed by '' @ actor)]
          else if resolution = ''skip'' then
            [StepStatusChanged step_id (ss_status st) ST_SKIPPED (Some (''skipped by '' @ actor)),
             wf_body i WF_RUNNING (''resumed by '' @ actor)]
          else [wf_body i WF_FAILED (''aborted by '' @ actor)]
      | None \<Rightarrow>
          [wf_body i (if resolution \<in> {''approve'', ''modify'', ''skip''} then WF_ROLLED_BACK else WF_FAILED)
             (resolution @ '' by '' @ actor)])"

text \<open>Drafts for a waiting instance, all at one time.\<close>

definition esc_events :: "'w ports \<Rightarrow> workflow_instance \<Rightarrow> instant \<Rightarrow> event_body list \<Rightarrow> (db \<times> 'w, pexn, event list) eff" where
  "esc_events pt i now bodies =
     esequence (map (new_event (world_ports pt) (wi_instance_id i) (wi_tenant_id i) (Some now)) bodies)"

definition resolution_bodies ::
  "workflow_instance \<Rightarrow> string \<Rightarrow> string \<Rightarrow> string \<Rightarrow> string \<Rightarrow> obj option \<Rightarrow> usd option \<Rightarrow> event_body list" where
  "resolution_bodies i eid step_id resolution resolved_by modified_context new_budget =
     EscalationResolved eid step_id resolution resolved_by modified_context #
     (case new_budget of
        None \<Rightarrow> []
      | Some b \<Rightarrow> [WorkflowBudgetAdjusted (Some b) resolved_by (Some (''escalation '' @ eid @ '' resolved''))]) @
     transition_bodies i step_id resolution resolved_by"

definition resolve ::
  "'w ports \<Rightarrow> string \<Rightarrow> string \<Rightarrow> string \<Rightarrow> string \<Rightarrow> obj option \<Rightarrow> usd option \<Rightarrow> (db \<times> 'w, pexn, string) eff" where
  "resolve pt eid tenant_id resolution resolved_by modified_context new_budget s =
     (case esc_load (fst s) eid tenant_id of
        Inl e \<Rightarrow> (Inl e, s)
      | Inr (esc, i) \<Rightarrow>
          ebind (esc_events pt i (pt_now pt (snd s))
             (resolution_bodies i eid (pe_step_id esc) resolution resolved_by modified_context new_budget)) (\<lambda>drafts.
          ebind (lift_exn (pg_append (pe_instance_id esc) tenant_id drafts (wi_version i) None None)) (\<lambda>_.
            ereturn (pe_instance_id esc))) s)"

definition expiry_bodies :: "workflow_instance \<Rightarrow> pending_escalation \<Rightarrow> event_body list" where
  "expiry_bodies i row =
     (let action = (if pe_auto_action row \<in> {''approve'', ''skip'', ''abort''} then pe_auto_action row else ''abort'')
      in EscalationTimedOut (pe_escalation_id row) (pe_step_id row) action #
         transition_bodies i (pe_step_id row) action ''auto'')"

text \<open>One due row of the sweep: whether its action fired. A refused append is logged and skipped.\<close>

definition expire_row :: "'w ports \<Rightarrow> instant \<Rightarrow> pending_escalation \<Rightarrow> (db \<times> 'w, pexn, bool) eff" where
  "expire_row pt now row s =
     (case pg_get s (pe_instance_id row) (pe_tenant_id row) None of
        Inl c \<Rightarrow> (Inl (PExn c []), s)
      | Inr None \<Rightarrow> (Inr False, s)
      | Inr (Some i) \<Rightarrow>
          if wi_status i \<noteq> WF_WAITING_APPROVAL then (Inr False, s)
          else
            ebind (esc_events pt i now (expiry_bodies i row)) (\<lambda>drafts s.
              case pg_append (pe_instance_id row) (pe_tenant_id row) drafts (wi_version i) None None s of
                (Inl c, s') \<Rightarrow> if c = PyCancelledError then (Inl (PExn c []), s') else (Inr False, s')
              | (Inr _, s') \<Rightarrow> (Inr True, s')) s)"

fun expire_rows :: "'w ports \<Rightarrow> instant \<Rightarrow> pending_escalation list \<Rightarrow> (db \<times> 'w, pexn, string list) eff" where
  "expire_rows pt now [] = ereturn []"
| "expire_rows pt now (row # rows) =
     ebind (expire_row pt now row) (\<lambda>hit.
     ebind (expire_rows pt now rows) (\<lambda>fired.
       ereturn (if hit then pe_escalation_id row # fired else fired)))"

definition expire_due :: "'w ports \<Rightarrow> instant \<Rightarrow> nat \<Rightarrow> (db \<times> 'w, pexn, string list) eff" where
  "expire_due pt now limit s = expire_rows pt now (esc_store_due (fst s) now limit) s"

section \<open>What a resolution appends\<close>

text \<open>A step the projection knows; other escalations concern the whole workflow.\<close>

definition known_step :: "workflow_instance \<Rightarrow> string \<Rightarrow> bool" where
  "known_step i sid \<longleftrightarrow> sid \<noteq> [] \<and> dget (wi_step_states i) sid \<noteq> None"

definition status_after :: "workflow_instance \<Rightarrow> string \<Rightarrow> string \<Rightarrow> workflow_status" where
  "status_after i step_id resolution =
     (if resolution \<in> {''approve'', ''modify'', ''skip''}
      then (if known_step i step_id then WF_RUNNING else WF_ROLLED_BACK) else WF_FAILED)"

definition step_after :: "workflow_instance \<Rightarrow> string \<Rightarrow> string \<Rightarrow> string \<Rightarrow> step_status" where
  "step_after i step_id resolution sid =
     (if sid = step_id \<and> known_step i step_id
      then (if resolution \<in> {''approve'', ''modify''}
            then (if ss_output (st_at i sid) \<noteq> None then ST_COMPLETED else ST_READY)
            else if resolution = ''skip'' then ST_SKIPPED else ss_status (st_at i sid))
      else ss_status (st_at i sid))"

lemma transition_bodies_status:
  "foldl (\<lambda>w b. body_status b w) w (transition_bodies i sid res who) = status_after i sid res"
  by (auto simp: transition_bodies_def wf_body_def status_after_def known_step_def split: option.splits)

lemma transition_bodies_core:
  "fst (foldl (\<lambda>c b. body_core b x c) (core_at i x) (transition_bodies i sid res who)) = step_after i sid res x"
  by (cases "dget (wi_step_states i) sid")
    (auto simp: transition_bodies_def wf_body_def step_after_def known_step_def core_at_def st_at_def)

lemma transition_bodies_escs:
  "foldl (\<lambda>es b. body_escs b es) es (transition_bodies i sid res who) = es"
  by (auto simp: transition_bodies_def wf_body_def split: option.splits)

lemma transition_bodies_created: "list_all (\<lambda>b. \<not> created_body b) (transition_bodies i sid res who)"
  by (auto simp: transition_bodies_def wf_body_def split: option.splits)

lemma body_core_other [simp]:
  "body_core (EscalationResolved e s r b m) x c = c" "body_core (EscalationTimedOut e s a) x c = c"
  "body_core (WorkflowBudgetAdjusted l b rs) x c = c"
  by (cases c, simp)+

lemma resolution_bodies_effect:
  "foldl (\<lambda>w b. body_status b w) w (resolution_bodies i eid sid res who ctx budget) = status_after i sid res"
  "fst (foldl (\<lambda>c b. body_core b x c) (core_at i x) (resolution_bodies i eid sid res who ctx budget)) = step_after i sid res x"
  "foldl (\<lambda>es b. body_escs b es) es (resolution_bodies i eid sid res who ctx budget) =
     map (\<lambda>x. if esc_escalation_id x = eid then x\<lparr>esc_resolved := True\<rparr> else x) es"
  "list_all (\<lambda>b. \<not> created_body b) (resolution_bodies i eid sid res who ctx budget)"
  by (auto simp: resolution_bodies_def transition_bodies_status transition_bodies_core transition_bodies_escs
      transition_bodies_created split: option.splits)

section \<open>Drafts and the read model\<close>

lemma esc_events_world:
  assumes "esc_events pt i now bodies s = (r, s')"
  shows "fst s' = fst s \<and> (\<forall>drafts. r = Inr drafts \<longrightarrow> map ev_body drafts = bodies)"
  using assms unfolding esc_events_def
proof (induction bodies arbitrary: s r s')
  case (Cons b bodies)
  then have "ebind (new_event (world_ports pt) (wi_instance_id i) (wi_tenant_id i) (Some now) b) (\<lambda>x.
      ebind (esequence (map (new_event (world_ports pt) (wi_instance_id i) (wi_tenant_id i) (Some now)) bodies))
        (\<lambda>xs. ereturn (x # xs))) s = (r, s')" by simp
  then show ?case
  proof (cases rule: ebind_cases)
    case (raised e)
    then show ?thesis using new_event_world [OF raised(1)] by simp
  next
    case (returned x t)
    note x = new_event_world [OF returned(1)]
    from returned(2) show ?thesis
    proof (cases rule: ebind_cases)
      case (raised e)
      then show ?thesis using Cons.IH [OF raised(1)] x by simp
    next
      case (returned xs u)
      then show ?thesis using Cons.IH [OF returned(1)] x by auto
    qed
  qed
qed simp

lemma esc_load_Inr:
  assumes "esc_load d eid tid = Inr (esc, i)"
  shows "esc_get d eid tid = Some esc \<and> pe_status esc = ''pending'' \<and>
    get_instance d (pe_instance_id esc) tid None = Inr (Some i) \<and> wi_status i = WF_WAITING_APPROVAL"
  using assms by (simp add: esc_load_def split: option.splits if_splits sum.splits)

text \<open>A successful append projects its events onto the table of escalations.\<close>

lemma insert_events_escalations:
  "rfoldl (insert_event iid tid) d evs = Inr d' \<Longrightarrow> db_escalations d' = db_escalations d"
  by (induction evs arbitrary: d) (auto simp: rbind_eq_Inr insert_event_def split: if_splits)

lemma append_new_escalations:
  assumes "append_new iid tid drafts v g w d = (Inr x, d')"
  obtains d2 d3 where "db_escalations d2 = db_escalations d"
    "rfoldl project_escalation d2 (sequenced v drafts) = Inr d3" "db_escalations d' = db_escalations d3"
proof -
  obtain d0 where c: "commit_body d d iid tid (sequenced v drafts) v g w = Inr d0"
    and d': "db_escalations d' = db_escalations d0"
    using assms by (auto simp: append_new_def commit_def commit_tx_def Let_def split: if_splits sum.splits)
  obtain d1 inst d2 d3 where ins: "rfoldl (insert_event iid tid) d (sequenced v drafts) = Inr d1"
    and u: "upsert_index d1 inst w = Inr d2" and e: "rfoldl project_escalation d2 (sequenced v drafts) = Inr d3"
    and d0: "d0 = (if load_snapshot d3 iid = None \<or>
              should_snapshot (sr_version (the (load_snapshot d3 iid))) (wi_version inst)
           then write_snapshot d3 inst (ev_occurred_at (last (sequenced v drafts))) else d3)"
    using c by (rule commit_body_Inr)
  have "db_escalations d2 = db_escalations d1"
    using u by (auto simp: upsert_index_def split: option.splits if_splits)
  moreover have "db_escalations d0 = db_escalations d3"
    by (simp add: d0 write_snapshot_def split: option.splits)
  ultimately show ?thesis using that [OF _ e] insert_events_escalations [OF ins] d' by simp
qed

section \<open>Resolving\<close>

fun escalation_body :: "event_body \<Rightarrow> bool" where
  "escalation_body (EscalationRaised e s r rec cf op dl aa) = True"
| "escalation_body (EscalationResolved e s r b m) = True"
| "escalation_body (EscalationTimedOut e s a) = True"
| "escalation_body _ = False"

lemma project_no_escalations:
  "list_all (\<lambda>b. \<not> escalation_body b) (map ev_body evs) \<Longrightarrow> rfoldl project_escalation d evs = Inr d"
proof (induction evs)
  case (Cons e evs)
  then show ?case by (cases "ev_body e") (simp_all add: project_escalation_def)
qed simp

lemma resolution_bodies_tail:
  "\<exists>bs. resolution_bodies i eid sid res who ctx budget = EscalationResolved eid sid res who ctx # bs \<and>
     list_all (\<lambda>b. \<not> escalation_body b) bs"
  by (auto simp: resolution_bodies_def transition_bodies_def wf_body_def split: option.splits)

text \<open>The rows after the first of the events resolved one escalation.\<close>

lemma resolved_rows:
  assumes "append_new iid tid drafts v g w d = (Inr x, d')"
    and "map ev_body drafts = EscalationResolved eid sid res who ctx # bs" "list_all (\<lambda>b. \<not> escalation_body b) bs"
  shows "\<exists>f. db_escalations d' = dadjust eid f (db_escalations d) \<and> (\<forall>r. es_status (f r) = ''resolved'') \<and>
    (\<forall>r. es_tenant_id (f r) = es_tenant_id r)"
proof -
  obtain d2 d3 where d2: "db_escalations d2 = db_escalations d"
    and p: "rfoldl project_escalation d2 (sequenced v drafts) = Inr d3" and d': "db_escalations d' = db_escalations d3"
    using assms(1) by (rule append_new_escalations)
  obtain e evs where evs: "sequenced v drafts = e # evs" "ev_body e = EscalationResolved eid sid res who ctx"
    "map ev_body evs = bs"
    using assms(2) sequenced_bodies [of v drafts] by (metis map_eq_Cons_conv)
  obtain d4 where d4: "project_escalation d2 e = Inr d4" "rfoldl project_escalation d4 evs = Inr d3"
    using p evs(1) by (auto simp: rbind_eq_Inr)
  have "d4 = d3" using project_no_escalations [of evs d4] assms(3) evs(3) d4(2) by simp
  then have "db_escalations d3 = dadjust eid (\<lambda>r. r\<lparr>es_status := ''resolved'', es_resolution := Some res,
      es_resolved_by := Some who, es_resolved_at := Some (ev_occurred_at e)\<rparr>) (db_escalations d)"
    using d4(1) evs(2) d2 by (auto simp: project_escalation_def split: if_splits)
  then show ?thesis using d' by auto
qed

lemma resolve_cases:
  assumes ok: "store_ok (fst s)" "created_once (fst s)"
    and run: "resolve pt eid tid res who ctx budget s = (r, s')"
  obtains (raised) e where "r = Inl e" "fst s' = fst s"
    | (appended) esc i j f where "r = Inr (pe_instance_id esc)" "esc_load (fst s) eid tid = Inr (esc, i)" "pg_ok s'"
        "get_instance (fst s') (pe_instance_id esc) tid None = Inr (Some j)"
        "applies None i (resolution_bodies i eid (pe_step_id esc) res who ctx budget) j"
        "db_escalations (fst s') = dadjust eid f (db_escalations (fst s))" "\<And>x. es_status (f x) = ''resolved''"
        "\<And>x. es_tenant_id (f x) = es_tenant_id x"
proof (cases "esc_load (fst s) eid tid")
  case (Inl e)
  show ?thesis by (rule raised [of e]) (use run Inl in \<open>simp_all add: resolve_def\<close>)
next
  case (Inr x)
  obtain esc i where x: "x = (esc, i)" by (cases x)
  note c = esc_load_Inr [OF Inr [unfolded x]]
  let ?bodies = "resolution_bodies i eid (pe_step_id esc) res who ctx budget"
  have "ebind (esc_events pt i (pt_now pt (snd s)) ?bodies) (\<lambda>drafts.
      ebind (lift_exn (pg_append (pe_instance_id esc) tid drafts (wi_version i) None None)) (\<lambda>_.
        ereturn (pe_instance_id esc))) s = (r, s')"
    using run Inr x by (simp add: resolve_def)
  then show ?thesis
  proof (cases rule: ebind_cases)
    case (raised e)
    then show ?thesis using esc_events_world [OF raised(1)] that(1) by simp
  next
    case (returned drafts t)
    note ev = esc_events_world [OF returned(1)]
    then have bodies: "map ev_body drafts = ?bodies" by simp
    obtain bs where bs: "?bodies = EscalationResolved eid (pe_step_id esc) res who ctx # bs"
      "list_all (\<lambda>b. \<not> escalation_body b) bs" using resolution_bodies_tail by blast
    have okt: "pg_ok t" "get_instance (fst t) (pe_instance_id esc) tid None = Inr (Some i)"
      using ok ev c by (simp_all add: pg_ok_def)
    have dr: "drafts \<noteq> []" using bodies bs by auto
    have "list_all (\<lambda>b. \<not> created_body b) (map ev_body drafts)"
      using resolution_bodies_effect(4) bodies by simp
    then have nc: "list_all (\<lambda>e. \<not> is_created e) drafts" by (simp add: list_all_iff is_created_body)
    from okt dr nc returned(2) show ?thesis
    proof (cases rule: append_step)
      case (refused e)
      then show ?thesis using ev raised by simp
    next
      case (appended evs x s1 j)
      have s1: "r = Inr (pe_instance_id esc)" "s1 = s'" using appended(1) by auto
      have "append_new (pe_instance_id esc) tid drafts (wi_version i) None None (fst s) = (Inr x, fst s')"
        using appended(7) ev s1 by (auto simp: pg_append_def on_outbox_def split: prod.splits)
      from resolved_rows [OF this] bodies bs obtain f where
        "db_escalations (fst s') = dadjust eid f (db_escalations (fst s))" "\<forall>r. es_status (f r) = ''resolved''"
        "\<forall>r. es_tenant_id (f r) = es_tenant_id r" by auto
      then show ?thesis using that(2) [of esc i j f] s1 Inr x appended bodies by simp
    qed
  qed
qed

text \<open>
  C38: resolving an escalation. The call either raises and leaves the database as it was, or it was
  pending for this tenant and its instance was waiting. Then the instance runs again when a
  known step was approved, modified or skipped, is rolled back when the escalation concerned
  the whole workflow, and has failed for every other resolution. The approved step keeps its
  output or goes back to the queue, a skipped one is skipped, and no other step changes. The
  escalation is resolved in the projection and in the table of escalations.
\<close>

theorem resolve_unblocks:
  assumes "store_ok (fst s)" "created_once (fst s)"
    and "resolve pt eid tid resolution by_whom ctx budget s = (r, s')"
  shows "case r of
      Inl e \<Rightarrow> fst s' = fst s
    | Inr iid \<Rightarrow> \<exists>esc i j. esc_get (fst s) eid tid = Some esc \<and> pe_status esc = ''pending'' \<and> pe_instance_id esc = iid \<and>
        get_instance (fst s) iid tid None = Inr (Some i) \<and> wi_status i = WF_WAITING_APPROVAL \<and>
        get_instance (fst s') iid tid None = Inr (Some j) \<and>
        wi_status j = status_after i (pe_step_id esc) resolution \<and>
        (\<forall>sid. ss_status (st_at j sid) = step_after i (pe_step_id esc) resolution sid) \<and>
        wi_escalations j = map (\<lambda>x. if esc_escalation_id x = eid then x\<lparr>esc_resolved := True\<rparr> else x) (wi_escalations i) \<and>
        map_option pe_status (esc_get (fst s') eid tid) = Some ''resolved''"
  using assms
proof (cases rule: resolve_cases)
  case (appended esc i j f)
  note c = esc_load_Inr [OF appended(2)]
  have st: "wi_status j = status_after i (pe_step_id esc) resolution"
    using applies_status [OF appended(5)] by (simp add: resolution_bodies_effect)
  have steps: "ss_status (st_at j sid) = step_after i (pe_step_id esc) resolution sid" for sid
    using applies_core [OF appended(5), of sid] resolution_bodies_effect(2) by (metis core_at_def fst_conv)
  have escs: "wi_escalations j = map (\<lambda>x. if esc_escalation_id x = eid then x\<lparr>esc_resolved := True\<rparr> else x) (wi_escalations i)"
    using applies_escs [OF appended(5)] by (simp add: resolution_bodies_effect)
  have row: "map_option pe_status (esc_get (fst s') eid tid) = Some ''resolved''"
    using c appended(6,7,8)
    by (auto simp: esc_get_def esc_store_get_def row_to_pending_def split: option.splits if_splits)
  show ?thesis unfolding appended(1) sum.case
    by (rule exI [of _ esc], rule exI [of _ i], rule exI [of _ j]) (simp only: c appended(4) st steps escs row simp_thms)
qed simp

section \<open>Several escalations of one instance\<close>

text \<open>An append to another instance does not change what is stored of this one.\<close>

lemma append_other:
  assumes ok: "pg_ok s" and dr: "drafts \<noteq> []" "list_all (\<lambda>e. \<not> is_created e) drafts"
    and ap: "pg_append k t drafts v g w s = (r, s')" and ne: "k \<noteq> iid"
  shows "pg_ok s' \<and> get_instance (fst s') iid tid d = get_instance (fst s) iid tid d"
proof (cases r)
  case (Inl e)
  then have "s' = s" using pg_world.append_error [OF dr(1)] ap by blast
  then show ?thesis using ok by simp
next
  case (Inr x)
  obtain n evs where x: "x = (n, evs)" by (cases x)
  have "drafts_ok v drafts" using dr by (cases drafts) (auto simp: drafts_ok_def)
  from pg_world.append_ok [OF ok this ap [unfolded Inr x]] ne
  have "pg_ok s'" "pg_log s' iid = pg_log s iid" by auto
  then show ?thesis using pg_get_of_log [OF ok, of iid tid d] pg_get_of_log [of s' iid tid d] by (simp add: pg_get_def)
qed

lemma get_other_tenant:
  assumes ok: "pg_ok s" and get: "get_instance (fst s) iid tid None = Inr (Some j)" and ne: "tid' \<noteq> tid"
  shows "get_instance (fst s) iid tid' None = Inr None"
proof -
  have p: "projected (pg_log s iid) tid False = Inr (Some j)"
    using pg_get_of_log [OF ok, of iid tid None] get by (simp add: pg_get_def)
  then have "pg_log s iid \<noteq> []" "fold_events (pg_log s iid) None None = Inr j" "wi_tenant_id j = tid"
    by (auto simp: projected_Some)
  then have "projected (pg_log s iid) tid' False = Inr None" using ne by (simp add: projected_def)
  then show ?thesis using pg_get_of_log [OF ok, of iid tid' None] by (simp add: pg_get_def)
qed

text \<open>A sweep passes over an instance that is not waiting.\<close>

lemma expire_row_other:
  assumes ok: "pg_ok s" and get: "get_instance (fst s) iid tid None = Inr (Some j)"
    and nw: "wi_status j \<noteq> WF_WAITING_APPROVAL" and run: "expire_row pt now row s = (r, s')"
  shows "pg_ok s' \<and> get_instance (fst s') iid tid None = Inr (Some j)"
proof (cases "pe_instance_id row = iid")
  case True
  have "s' = s"
  proof (cases "pe_tenant_id row = tid")
    case True
    then show ?thesis using run get nw \<open>pe_instance_id row = iid\<close> by (simp add: expire_row_def pg_get_def)
  next
    case False
    then show ?thesis using run get_other_tenant [OF ok get False] \<open>pe_instance_id row = iid\<close>
      by (simp add: expire_row_def pg_get_def)
  qed
  then show ?thesis using ok get by simp
next
  case ne: False
  show ?thesis
  proof (cases "\<exists>i. pg_get s (pe_instance_id row) (pe_tenant_id row) None = Inr (Some i) \<and> wi_status i = WF_WAITING_APPROVAL")
    case False
    then have "s' = s" using run by (auto simp: expire_row_def split: sum.splits option.splits if_splits)
    then show ?thesis using ok get by simp
  next
    case True
    then obtain i where i: "pg_get s (pe_instance_id row) (pe_tenant_id row) None = Inr (Some i)"
      "wi_status i = WF_WAITING_APPROVAL" by blast
    obtain q t where q: "esc_events pt i now (expiry_bodies i row) s = (q, t)" by (meson surj_pair)
    note ev = esc_events_world [OF q]
    have okt: "pg_ok t" using ok ev by (simp add: pg_ok_def)
    show ?thesis
    proof (cases q)
      case (Inl e)
      then have "s' = t" using run i q by (simp add: expire_row_def ebind_def)
      then show ?thesis using okt get ev by simp
    next
      case (Inr drafts)
      obtain z u where z: "pg_append (pe_instance_id row) (pe_tenant_id row) drafts (wi_version i) None None t = (z, u)"
        by (meson surj_pair)
      have "map ev_body drafts = expiry_bodies i row" using ev Inr by simp
      moreover have "expiry_bodies i row \<noteq> []" "list_all (\<lambda>b. \<not> created_body b) (expiry_bodies i row)"
        by (simp_all add: expiry_bodies_def Let_def transition_bodies_created)
      ultimately have "drafts \<noteq> []" "list_all (\<lambda>e. \<not> is_created e) drafts"
        by (auto simp: is_created_body list_all_iff) (metis image_eqI list.set_map)
      from append_other [OF okt this z ne, of tid None]
      have "pg_ok u \<and> get_instance (fst u) iid tid None = Inr (Some j)" using get ev by simp
      moreover have "s' = u" using run i q Inr z by (cases z) (auto simp: expire_row_def ebind_def split: if_splits)
      ultimately show ?thesis by simp
    qed
  qed
qed

lemma expire_rows_other:
  assumes "pg_ok s" "get_instance (fst s) iid tid None = Inr (Some j)" "wi_status j \<noteq> WF_WAITING_APPROVAL"
    and "expire_rows pt now rows s = (r, s')"
  shows "pg_ok s' \<and> get_instance (fst s') iid tid None = Inr (Some j)"
  using assms
proof (induction rows arbitrary: s r s')
  case (Cons row rows)
  from Cons.prems(4) have "ebind (expire_row pt now row) (\<lambda>hit. ebind (expire_rows pt now rows) (\<lambda>fired.
      ereturn (if hit then pe_escalation_id row # fired else fired))) s = (r, s')" by simp
  then show ?case
  proof (cases rule: ebind_cases)
    case (raised e)
    then show ?thesis using expire_row_other [OF Cons.prems(1-3)] by blast
  next
    case (returned hit t)
    have t: "pg_ok t" "get_instance (fst t) iid tid None = Inr (Some j)"
      using expire_row_other [OF Cons.prems(1-3) returned(1)] by blast+
    from returned(2) show ?thesis
    proof (cases rule: ebind_cases)
      case (raised e)
      then show ?thesis using Cons.IH [OF t Cons.prems(3)] by blast
    next
      case (returned fired u)
      then show ?thesis using Cons.IH [OF t Cons.prems(3) returned(1)] by auto
    qed
  qed
qed simp

lemma dispatch_candidate:
  assumes "make_plan i d now = Inr p" "c \<in> set (pl_dispatch p)"
  shows "\<exists>step \<in> set (wd_steps d). candidate_ok i now step c"
proof -
  have "pl_dispatch p \<noteq> []" using assms(2) by auto
  then obtain sn where sn: "scan_of i d now = Inr sn"
    and dis: "pl_dispatch p = take (free_slots i d) (filter (\<lambda>c. fst c \<notin> open_escalations i) (sn_candidates sn))"
    using make_plan_go [OF assms(1)] by blast
  have "c \<in> set (sn_candidates sn)" using assms(2) dis by (auto dest: in_set_takeD)
  then show ?thesis using scan_candidates [OF sn [unfolded scan_of_def]] by auto
qed

lemma load_not_waiting:
  assumes "esc_get d eid tid = Some esc" "pe_status esc = ''pending''"
    and "get_instance d (pe_instance_id esc) tid None = Inr (Some j)" "wi_status j \<noteq> WF_WAITING_APPROVAL"
  shows "\<exists>msg. esc_load d eid tid = Inl (PExn ConfigurationError msg)"
  using assms by (simp add: esc_load_def config_error_def)

text \<open>
  An instance with two pending escalations gets stuck. Once one of them is resolved in favour
  of going on, the instance is running, and the other can neither be resolved (every attempt
  raises \<open>ConfigurationError\<close>) nor expire (no sweep changes the instance), while its step stays
  in \<open>waiting_approval\<close> and no plan ever dispatches it.
\<close>

lemma other_escalations_stuck:
  assumes "store_ok (fst s)" "created_once (fst s)"
    and "resolve pt e1 tid resolution by_whom ctx budget s = (Inr iid, s1)"
    and "resolution \<in> {''approve'', ''modify'', ''skip''}"
    and "esc_get (fst s) e1 tid = Some esc1" "get_instance (fst s) iid tid None = Inr (Some i)"
    and "known_step i (pe_step_id esc1)"
    and "esc_get (fst s) e2 tid = Some esc2" "e2 \<noteq> e1" "pe_status esc2 = ''pending''" "pe_instance_id esc2 = iid"
    and "pe_step_id esc2 \<noteq> pe_step_id esc1" "ss_status (st_at i (pe_step_id esc2)) = ST_WAITING_APPROVAL"
  shows "(\<exists>msg. resolve pt e2 tid resolution2 by2 ctx2 budget2 s1 = (Inl (PExn ConfigurationError msg), s1)) \<and>
    (\<exists>j. get_instance (fst s1) iid tid None = Inr (Some j) \<and> wi_status j = WF_RUNNING \<and>
       get_instance (fst (snd (expire_due pt now limit s1))) iid tid None = Inr (Some j) \<and>
       ss_status (st_at j (pe_step_id esc2)) = ST_WAITING_APPROVAL \<and>
       (\<forall>p att. make_plan j d when = Inr p \<longrightarrow> (pe_step_id esc2, att) \<notin> set (pl_dispatch p)))"
  using assms(1-3)
proof (cases rule: resolve_cases)
  case (appended esc i' j f)
  note c = esc_load_Inr [OF appended(2)]
  have eq: "esc = esc1" "pe_instance_id esc1 = iid" "i' = i" using c appended(1) assms(5,6) by auto
  have run: "wi_status j = WF_RUNNING"
    using applies_status [OF appended(5)] assms(4,7) eq by (simp add: resolution_bodies_effect status_after_def)
  have wait: "ss_status (st_at j (pe_step_id esc2)) = ST_WAITING_APPROVAL"
    using applies_core [OF appended(5), of "pe_step_id esc2"]
      resolution_bodies_effect(2) [where x = "pe_step_id esc2" and i = i and sid = "pe_step_id esc1" and res = resolution]
      assms(12,13) eq
    by (metis core_at_def fst_conv step_after_def)
  have get: "get_instance (fst s1) iid tid None = Inr (Some j)" using appended(4) eq by simp
  have "esc_get (fst s1) e2 tid = Some esc2"
    using assms(8,9) by (simp add: esc_get_def esc_store_get_def appended(6))
  then obtain msg where "esc_load (fst s1) e2 tid = Inl (PExn ConfigurationError msg)"
    using load_not_waiting [of "fst s1" e2 tid esc2 j] assms(10,11) get run by auto
  then have res: "resolve pt e2 tid resolution2 by2 ctx2 budget2 s1 = (Inl (PExn ConfigurationError msg), s1)"
    by (simp add: resolve_def)
  have sweep: "get_instance (fst (snd (expire_due pt now limit s1))) iid tid None = Inr (Some j)"
  proof -
    obtain q t where q: "expire_rows pt now (esc_store_due (fst s1) now limit) s1 = (q, t)" by (meson surj_pair)
    have "wi_status j \<noteq> WF_WAITING_APPROVAL" using run by simp
    from expire_rows_other [OF appended(3) get this q] show ?thesis by (simp add: expire_due_def q)
  qed
  have plan: "(pe_step_id esc2, att) \<notin> set (pl_dispatch p)" if "make_plan j d when = Inr p" for p att
    using dispatch_candidate [OF that, of "(pe_step_id esc2, att)"] wait by (auto simp: candidate_ok_def)
  show ?thesis using res get run sweep wait plan by blast
qed simp

text \<open>The sample instance waiting for two sign-offs.\<close>

definition sample_asking :: "event list" where
  "sample_asking = map (\<lambda>(n, b). sample_event n b)
     [(7, StepStatusChanged ''b'' ST_PENDING ST_READY None),
      (8, EscalationRaised ''e1'' ''a'' ''low_confidence'' [] 0 [] None ''abort''),
      (9, EscalationRaised ''e2'' ''b'' ''explicit_approval'' [] 0 [] None ''abort''),
      (10, InstanceStatusChanged WF_RUNNING WF_WAITING_APPROVAL None)]"

definition sample_waiting :: db where
  "sample_waiting = snd (append_new ''i1'' ''t1'' sample_asking 6 None None sample_db)"

abbreviation sample_world :: fixed_ports where
  "sample_world \<equiv> \<lparr>fx_now = 20000, fx_prefix = ''id'', fx_counter = 0\<rparr>"

lemma sample_waiting_ok: "store_ok sample_waiting \<and> created_once sample_waiting"
proof -
  have "fst (append_new ''i1'' ''t1'' sample_asking 6 None None sample_db) = Inr (10, sample_asking)" by code_simp
  then have "append_new ''i1'' ''t1'' sample_asking 6 None None sample_db = (Inr (10, sample_asking), sample_waiting)"
    by (simp add: sample_waiting_def prod_eq_iff)
  moreover have "drafts_ok 6 sample_asking" by code_simp
  ultimately show ?thesis using pg.append_ok [OF sample_db_ok] by blast
qed

lemma sample_resolved:
  obtains s1 where "resolve fixed_ports_of ''e1'' ''t1'' ''approve'' ''op'' None None (sample_waiting, sample_world) = (Inr ''i1'', s1)"
proof -
  have "fst (resolve fixed_ports_of ''e1'' ''t1'' ''approve'' ''op'' None None (sample_waiting, sample_world)) = Inr ''i1''"
    by code_simp
  then show thesis using that by (simp add: prod_eq_iff)
qed

theorem resolve_unblocks_witness:
  "\<exists>s1 j. store_ok sample_waiting \<and> created_once sample_waiting \<and>
     resolve fixed_ports_of ''e1'' ''t1'' ''approve'' ''op'' None None (sample_waiting, sample_world) = (Inr ''i1'', s1) \<and>
     get_instance (fst s1) ''i1'' ''t1'' None = Inr (Some j)"
proof -
  obtain s1 where r: "resolve fixed_ports_of ''e1'' ''t1'' ''approve'' ''op'' None None (sample_waiting, sample_world) = (Inr ''i1'', s1)"
    by (rule sample_resolved)
  have ok: "store_ok (fst (sample_waiting, sample_world))" "created_once (fst (sample_waiting, sample_world))"
    using sample_waiting_ok by simp_all
  from resolve_unblocks [OF ok r] show ?thesis using r sample_waiting_ok by auto
qed

lemma other_escalations_stuck_witness:
  "\<exists>s1 j msg. resolve fixed_ports_of ''e1'' ''t1'' ''approve'' ''op'' None None (sample_waiting, sample_world) = (Inr ''i1'', s1) \<and>
     resolve fixed_ports_of ''e2'' ''t1'' ''approve'' ''op'' None None s1 = (Inl (PExn ConfigurationError msg), s1) \<and>
     get_instance (fst s1) ''i1'' ''t1'' None = Inr (Some j) \<and> wi_status j = WF_RUNNING \<and>
     ss_status (st_at j ''b'') = ST_WAITING_APPROVAL"
proof -
  obtain s1 where r: "resolve fixed_ports_of ''e1'' ''t1'' ''approve'' ''op'' None None (sample_waiting, sample_world) = (Inr ''i1'', s1)"
    by (rule sample_resolved)
  have ok: "store_ok (fst (sample_waiting, sample_world))" "created_once (fst (sample_waiting, sample_world))"
    using sample_waiting_ok by simp_all
  have "(case get_instance sample_waiting ''i1'' ''t1'' None of Inr (Some i) \<Rightarrow> known_step i ''a'' \<and>
      ss_status (st_at i ''b'') = ST_WAITING_APPROVAL | _ \<Rightarrow> False)" by code_simp
  then obtain i where i: "get_instance (fst (sample_waiting, sample_world)) ''i1'' ''t1'' None = Inr (Some i)"
    "known_step i ''a''" "ss_status (st_at i ''b'') = ST_WAITING_APPROVAL"
    by (auto split: sum.splits option.splits)
  have "(case esc_get sample_waiting ''e1'' ''t1'' of Some e \<Rightarrow> pe_step_id e = ''a'' | None \<Rightarrow> False)" by code_simp
  then obtain x1 where x1: "esc_get (fst (sample_waiting, sample_world)) ''e1'' ''t1'' = Some x1" "pe_step_id x1 = ''a''"
    by (auto split: option.splits)
  have "(case esc_get sample_waiting ''e2'' ''t1'' of Some e \<Rightarrow> pe_step_id e = ''b'' \<and> pe_status e = ''pending'' \<and>
      pe_instance_id e = ''i1'' | None \<Rightarrow> False)" by code_simp
  then obtain x2 where x2: "esc_get (fst (sample_waiting, sample_world)) ''e2'' ''t1'' = Some x2" "pe_step_id x2 = ''b''"
    "pe_status x2 = ''pending''" "pe_instance_id x2 = ''i1''" by (auto split: option.splits)
  show ?thesis
    using other_escalations_stuck [OF ok r _ x1(1) i(1) _ x2(1) _ x2(3,4), of "''approve''" "''op''" None None 0 1 sample_definition 0]
      r i x1 x2 by auto
qed

end
