(* ===== verification/Instances.thy ===== *)
theory Instances
  imports DefinitionRepo DeadLetter
begin

text \<open>
  \<open>core/instances.py\<close>: creating instances of registered definitions and reading them back.
\<close>

section \<open>Operations\<close>

definition resolve_definition ::
  "db \<Rightarrow> string \<Rightarrow> string option \<Rightarrow> string option \<Rightarrow> string option \<Rightarrow> pexn + workflow_definition" where
  "resolve_definition d tenant_id workflow_id version name =
     (let found =
        (if truthy_str workflow_id \<and> truthy_str version
         then Inr (defn_get d (the workflow_id) (the version) tenant_id)
         else if truthy_str name then Inr (defn_get_active d (the name) tenant_id)
         else Inl (config_error ''provide (workflow_id, version) or name''))
      in case found of
           Inl e \<Rightarrow> Inl e
         | Inr None \<Rightarrow> Inl (config_error ''workflow definition not found'')
         | Inr (Some defn) \<Rightarrow> Inr defn)"

record creation =
  cr_workflow_id :: "string option"
  cr_version :: "string option"
  cr_name :: "string option"
  cr_context :: "obj option"
  cr_budget_limit_usd :: "usd option"
  cr_trigger_source :: trigger_source
  cr_trigger_metadata :: "obj option"

definition or_empty :: "obj option \<Rightarrow> obj" where
  "or_empty x = (case x of None \<Rightarrow> [] | Some y \<Rightarrow> y)"

definition genesis_body :: "workflow_definition \<Rightarrow> creation \<Rightarrow> event_body" where
  "genesis_body defn c =
     InstanceCreated (wd_workflow_id defn) (wd_version defn) (or_empty (cr_context c)) (cr_budget_limit_usd c)
       (trigger_value (cr_trigger_source c)) (or_empty (cr_trigger_metadata c))"

definition create_instance :: "'w ports \<Rightarrow> string \<Rightarrow> creation \<Rightarrow> (db \<times> 'w, pexn, workflow_instance) eff" where
  "create_instance pt tenant_id c s =
     (case resolve_definition (fst s) tenant_id (cr_workflow_id c) (cr_version c) (cr_name c) of
        Inl e \<Rightarrow> (Inl e, s)
      | Inr defn \<Rightarrow>
          ebind (new_id (world_ports pt)) (\<lambda>iid.
          ebind (new_event (world_ports pt) iid tenant_id None (genesis_body defn c)) (\<lambda>genesis.
          ebind (lift_exn (pg_append iid tenant_id [genesis] 0 None None)) (\<lambda>_ s.
            case pg_get s iid tenant_id (Some defn) of
              Inl e \<Rightarrow> (Inl (PExn e []), s)
            | Inr None \<Rightarrow> (Inl (PExn PyAssertionError []), s)
            | Inr (Some i) \<Rightarrow> (Inr i, s)))) s)"

definition service_get_instance :: "db \<Rightarrow> string \<Rightarrow> string \<Rightarrow> workflow_instance option res" where
  "service_get_instance d iid tenant_id =
     rbind (get_instance d iid tenant_id None) (\<lambda>head.
       case head of
         None \<Rightarrow> Inr None
       | Some h \<Rightarrow> get_instance d iid tenant_id (defn_get d (wi_workflow_id h) (wi_workflow_version h) tenant_id))"

section \<open>Correctness\<close>

lemma genesis_created: "ev_body e = genesis_body defn c \<Longrightarrow> is_created e"
  by (simp add: genesis_body_def is_created_def)

lemma new_id_world: "new_id (world_ports pt) s = (r, s') \<Longrightarrow> fst s' = fst s"
  by (auto simp: new_id_def world_ports_def split: prod.splits)

text \<open>The projection of a single creation event.\<close>

lemma fold_genesis:
  assumes "fold_events [e] None None = Inr i" "ev_body e = InstanceCreated wid ver ctx budget src meta"
  shows "wi_status i = WF_PENDING \<and> wi_workflow_id i = wid \<and> wi_workflow_version i = ver \<and> wi_context i = ctx \<and>
    wi_budget_limit_usd i = budget \<and> wi_step_states i = [] \<and> wi_tenant_id i = ev_tenant_id e \<and>
    wi_instance_id i = ev_instance_id e \<and> wi_version i = 1 \<and> wi_escalations i = []"
  using assms
  by (auto simp: fold_events_Cons_None open_instance_def handler_def on_created_def Let_def new_instance_def
      rbind_eq_Inr split: if_splits)

text \<open>What a creation stores and reads back.\<close>

lemma created_projection:
  assumes "pg_ok s" "create_instance pt tid c s = (Inr i, s1)"
  shows "pg_ok s1 \<and> wi_step_states i = [] \<and> wi_status i = WF_PENDING \<and> wi_tenant_id i = tid \<and>
     pg_get s1 (wi_instance_id i) tid d = Inr (Some i) \<and>
     (\<exists>e. pg_log s1 (wi_instance_id i) = [e] \<and> is_created e)"
proof -
  obtain defn where defn: "resolve_definition (fst s) tid (cr_workflow_id c) (cr_version c) (cr_name c) = Inr defn"
    using assms(2) by (auto simp: create_instance_def split: sum.splits)
  have "ebind (new_id (world_ports pt)) (\<lambda>iid.
      ebind (new_event (world_ports pt) iid tid None (genesis_body defn c)) (\<lambda>genesis.
      ebind (lift_exn (pg_append iid tid [genesis] 0 None None)) (\<lambda>_ s.
        case pg_get s iid tid (Some defn) of
          Inl e \<Rightarrow> (Inl (PExn e []), s)
        | Inr None \<Rightarrow> (Inl (PExn PyAssertionError []), s)
        | Inr (Some i) \<Rightarrow> (Inr i, s)))) s = (Inr i, s1)"
    using assms(2) defn by (simp add: create_instance_def)
  then obtain iid t1 ev t2 x t3 where new: "new_id (world_ports pt) s = (Inr iid, t1)"
    and ev: "new_event (world_ports pt) iid tid None (genesis_body defn c) t1 = (Inr ev, t2)"
    and ap0: "lift_exn (pg_append iid tid [ev] 0 None None) t2 = (Inr x, t3)"
    and get0: "(case pg_get t3 iid tid (Some defn) of
          Inl e \<Rightarrow> (Inl (PExn e []), t3)
        | Inr None \<Rightarrow> (Inl (PExn PyAssertionError []), t3)
        | Inr (Some i) \<Rightarrow> (Inr i, t3)) = (Inr i, s1)"
    unfolding ebind_eq_Inr by blast
  have get: "pg_get s1 iid tid (Some defn) = Inr (Some i)" and "t3 = s1"
    using get0 by (auto split: sum.splits option.splits)
  then obtain n evs where ap: "pg_append iid tid [ev] 0 None None t2 = (Inr (n, evs), s1)"
    using ap0 by (cases x) (auto simp: lift_exn_def split: prod.splits sum.splits)
  have "fst t2 = fst s" using new_id_world [OF new] new_event_world [OF ev] by simp
  then have "pg_ok t2" using assms(1) by (simp add: pg_ok_def)
  note a = pg_world.append_ok [OF this _ ap]
  have dr: "drafts_ok 0 [ev]" by (simp add: drafts_ok_def)
  have ok: "pg_ok s1" and log: "pg_log s1 iid = [ev\<lparr>ev_sequence := 1\<rparr>]"
    using a [OF dr] by (auto simp: sequenced_Cons)
  have f: "fold_events [ev\<lparr>ev_sequence := 1\<rparr>] None None = Inr i" "wi_tenant_id i = tid"
    using get log pg_get_of_log [OF ok, of iid tid "Some defn"] by (simp_all add: projected_Some)
  have "ev_body (ev\<lparr>ev_sequence := 1\<rparr>) = genesis_body defn c" using new_event_world [OF ev] by simp
  note g = fold_genesis [OF f(1) this [unfolded genesis_body_def]]
  have iid: "wi_instance_id i = iid" using pg_get_id [OF ok get] .
  have "is_created (ev\<lparr>ev_sequence := 1\<rparr>)" by (rule genesis_created) fact
  then show ?thesis using g f(2) ok get iid log pg_get_of_log [OF ok] by simp
qed

end
