(* ===== verification/Driver_Journal.thy ===== *)
theory Driver_Journal
  imports Driver_Props Journal
begin

text \<open>
  The driver against its journal. The locale states what the driver relies on: the laws of the
  journal, and that its other collaborators leave the journal alone. Under them the projection
  the driver carries is the stored one after every operation.
\<close>

section \<open>What the driver relies on\<close>

text \<open>The status that a result tells.\<close>

fun result_matches :: "drive_result \<Rightarrow> workflow_status \<Rightarrow> bool" where
  "result_matches DR_COMPLETED w = (w = WF_COMPLETED)"
| "result_matches DR_PAUSED w = (w = WF_PAUSED \<or> w = WF_FAILED)"
| "result_matches DR_DEAD_LETTERED w = (w = WF_DEAD_LETTERED)"
| "result_matches DR_ROLLED_BACK w = (w = WF_ROLLED_BACK)"
| "result_matches DR_PARKED w = (w = WF_RETRYING)"
| "result_matches DR_WAITING_APPROVAL w = (w = WF_WAITING_APPROVAL)"
| "result_matches DR_IDLE w = (w = WF_RUNNING)"
| "result_matches DR_LEASE_LOST w = True"

locale driver_journal =
  journal_client "dv_append_new dv" "dv_get_instance dv" lg ok "dv_ports dv"
  for dv :: "('s, 'g) driver" and lg :: "'s \<Rightarrow> string \<Rightarrow> event list" and ok :: "'s \<Rightarrow> bool" +
  assumes run_keeps: "dv_run_attempt dv with_llm ctx timeout s = (outcome, s') \<Longrightarrow>
      same_journal (dv_get_instance dv) lg ok s s'"
    and dead_letter_keeps: "dv_dead_letter dv i sid reason s = (u, s') \<Longrightarrow>
      same_journal (dv_get_instance dv) lg ok s s'"
    and compensate_keeps: "dv_compensate dv = Some undo \<Longrightarrow> undo iid tid s = (effs, s') \<Longrightarrow>
      same_journal (dv_get_instance dv) lg ok s s'"
    and spent_keeps: "dv_budget dv = Some b \<Longrightarrow> bs_spent_today b tid day s = (x, s') \<Longrightarrow>
      same_journal (dv_get_instance dv) lg ok s s'"
    and record_keeps: "dv_budget dv = Some b \<Longrightarrow> bs_record b tid day amount s = (u, s') \<Longrightarrow>
      same_journal (dv_get_instance dv) lg ok s s'"
    and notifier_keeps: "dv_notifier dv = Some send \<Longrightarrow> send note s = (u, s') \<Longrightarrow>
      same_journal (dv_get_instance dv) lg ok s s'"
begin


lemma driver_event_triple:
  "triple (synced (Some d) iid tid L i) (driver_event dv j body)
     (\<lambda>r s. synced (Some d) iid tid L i s \<and> (\<forall>e. r = Inr e \<longrightarrow> ev_body e = body))"
  unfolding driver_event_def by (rule new_event_triple)

lemma escalation_event_triple:
  "triple (synced (Some d) iid tid L i)
     (escalation_event dv j sid reason recommendation confidence options deadline auto)
     (\<lambda>r s. synced (Some d) iid tid L i s \<and>
       (\<forall>e. r = Inr e \<longrightarrow> (\<exists>eid. ev_body e = EscalationRaised eid sid reason recommendation confidence options deadline auto)))"
  unfolding escalation_event_def
  apply (rule triple_ebind [where R = "\<lambda>_. synced (Some d) iid tid L i"])
   apply (rule triple_conseq [OF new_id_triple]; auto split: sum.splits)
  apply (rule triple_conseq [OF driver_event_triple]; auto)
  done

text \<open>A report that tells the status of the stored projection, or an exception.\<close>

definition reports ::
  "workflow_definition \<Rightarrow> string \<Rightarrow> string \<Rightarrow> (string \<Rightarrow> event list) \<Rightarrow> drive_report \<Rightarrow> 's \<Rightarrow> bool" where
  "reports d iid tid L rep s \<longleftrightarrow>
     (\<exists>j. synced (Some d) iid tid L j s \<and> rep_instance_id rep = iid \<and> result_matches (rep_result rep) (wi_status j))"

definition ends ::
  "workflow_definition \<Rightarrow> string \<Rightarrow> string \<Rightarrow> (string \<Rightarrow> event list) \<Rightarrow> pexn + drive_report \<Rightarrow> 's \<Rightarrow> bool" where
  "ends d iid tid L r s \<longleftrightarrow>
     (case r of Inl e \<Rightarrow> consistent iid L s | Inr rep \<Rightarrow> reports d iid tid L rep s)"

text \<open>An append that succeeds is folded without error, onto the projection now stored.\<close>

lemma append_drafts_triple:
  assumes "list_all (\<lambda>e. \<not> is_created e) drafts"
  shows "triple (synced (Some d) iid tid L i) (append_drafts dv i d drafts g w)
     (moves (Some d) iid tid L (applies (Some d) i (map ev_body drafts)))"
proof (rule tripleI)
  fix s r s' assume sy: "synced (Some d) iid tid L i s" and run: "append_drafts dv i d drafts g w s = (r, s')"
  note ids = synced_ids [OF sy]
  show "moves (Some d) iid tid L (applies (Some d) i (map ev_body drafts)) r s'"
  proof (cases "drafts = []")
    case True
    then show ?thesis using run sy by (auto simp: append_drafts_def moves_def)
  next
    case False
    obtain q s1 where q: "dv_append_new dv iid tid drafts (wi_version i) (Some g) w s = (q, s1)"
      by (meson surj_pair)
    note law = append_at_version [OF sy False assms q]
    show ?thesis
    proof (cases q)
      case (Inl e)
      then show ?thesis using run q law False ids sy
        by (auto simp: append_drafts_def lift_exn_def ebind_def moves_def synced_consistent)
    next
      case (Inr x)
      then show ?thesis using run q law False ids
        by (cases x) (auto simp: append_drafts_def lift_exn_def ebind_def moves_def)
    qed
  qed
qed

end

context driver_journal begin

lemma events_triple:
  "triple (synced (Some d) iid tid L i) (esequence (map (driver_event dv j) bodies))
     (\<lambda>r s. synced (Some d) iid tid L i s \<and> (\<forall>drafts. r = Inr drafts \<longrightarrow> map ev_body drafts = bodies))"
  using new_events_triple by (simp add: driver_event_def [abs_def])

lemma append_bodies_triple:
  assumes "list_all (\<lambda>b. \<not> created_body b) bodies"
  shows "triple (synced (Some d) iid tid L i) (append_bodies dv i d bodies g) (moves (Some d) iid tid L (applies (Some d) i bodies))"
  unfolding append_bodies_def
proof (rule triple_ebind [where R = "\<lambda>drafts s. synced (Some d) iid tid L i s \<and> map ev_body drafts = bodies"])
  show "triple (synced (Some d) iid tid L i) (esequence (map (driver_event dv i) bodies))
     (\<lambda>r s. case r of Inl e \<Rightarrow> moves (Some d) iid tid L (applies (Some d) i bodies) (Inl e) s
        | Inr drafts \<Rightarrow> synced (Some d) iid tid L i s \<and> map ev_body drafts = bodies)"
    by (rule triple_conseq [OF events_triple]) (auto simp: moves_def synced_consistent split: sum.splits)
next
  fix drafts
  show "triple (\<lambda>s. synced (Some d) iid tid L i s \<and> map ev_body drafts = bodies)
     (append_drafts dv i d drafts g None) (moves (Some d) iid tid L (applies (Some d) i bodies))"
  proof (cases "map ev_body drafts = bodies")
    case True
    have "list_all (\<lambda>e. \<not> is_created e) drafts"
      using assms True by (auto simp: list_all_iff is_created_body)
    then show ?thesis
      by (rule triple_conseq [OF append_drafts_triple]) (use True in auto)
  qed (auto simp: triple_def)
qed

lemma transition_triple:
  "triple (synced (Some d) iid tid L i) (transition dv i d frm to g reason w)
     (moves (Some d) iid tid L (applies (Some d) i [InstanceStatusChanged frm to reason]))"
  unfolding transition_def
proof (rule triple_ebind [where R = "\<lambda>e s. synced (Some d) iid tid L i s \<and> ev_body e = InstanceStatusChanged frm to reason"])
  show "triple (synced (Some d) iid tid L i) (driver_event dv i (InstanceStatusChanged frm to reason))
     (\<lambda>r s. case r of Inl e \<Rightarrow> moves (Some d) iid tid L (applies (Some d) i [InstanceStatusChanged frm to reason]) (Inl e) s
        | Inr e \<Rightarrow> synced (Some d) iid tid L i s \<and> ev_body e = InstanceStatusChanged frm to reason)"
    by (rule triple_conseq [OF driver_event_triple]) (auto simp: moves_def synced_consistent split: sum.splits)
next
  fix e
  show "triple (\<lambda>s. synced (Some d) iid tid L i s \<and> ev_body e = InstanceStatusChanged frm to reason)
     (append_drafts dv i d [e] g w) (moves (Some d) iid tid L (applies (Some d) i [InstanceStatusChanged frm to reason]))"
  proof (cases "ev_body e = InstanceStatusChanged frm to reason")
    case True
    then show ?thesis
      by (intro triple_conseq [OF append_drafts_triple [of "[e]"]]) (auto simp: is_created_body)
  qed (auto simp: triple_def)
qed

lemma notify_triple: "triple (synced (Some d) iid tid L i) (notify dv j reason detail) (\<lambda>r. synced (Some d) iid tid L i)"
  by (rule frame)
    (auto simp: notify_def same_journal_def split: option.splits prod.splits sum.splits if_splits
      dest!: notifier_keeps)

end

section \<open>Ends of a drive\<close>

context driver_journal begin

text \<open>A batch of events, then a report that the resulting status bears out.\<close>

lemma ends_after_move:
  assumes m: "triple (synced (Some d) iid tid L i) m (moves (Some d) iid tid L P)"
    and P: "\<And>j. P j \<Longrightarrow> result_matches res (wi_status j)"
  shows "triple (synced (Some d) iid tid L i) (ebind m (\<lambda>_. ereturn (report i res))) (ends d iid tid L)"
proof (rule tripleI)
  fix s r s' assume sy: "synced (Some d) iid tid L i s" and run: "ebind m (\<lambda>_. ereturn (report i res)) s = (r, s')"
  from run show "ends d iid tid L r s'"
  proof (cases rule: ebind_cases)
    case (raised e)
    then show ?thesis using tripleD [OF m sy] by (force simp: ends_def moves_def)
  next
    case (returned j t)
    then have "synced (Some d) iid tid L j t \<and> P j" using tripleD [OF m sy] by (force simp: moves_def)
    moreover have "r = Inr (report i res)" "s' = t" using returned(2) by auto
    ultimately show ?thesis using P synced_ids [OF sy] by (auto simp: ends_def reports_def report_def)
  qed
qed

lemma complete_triple:
  "triple (synced (Some d) iid tid L i) (complete_instance dv i d g) (ends d iid tid L)"
  unfolding complete_instance_def
  by (rule ends_after_move [OF append_bodies_triple]) (auto dest: applies_status)

lemma block_on_budget_triple:
  "triple (synced (Some d) iid tid L i) (block_on_budget dv i d sid g) (ends d iid tid L)"
  unfolding block_on_budget_def
  by (rule ends_after_move [OF append_bodies_triple]) (auto dest: applies_status)

text \<open>Escalations followed by the status change that parks the instance.\<close>

lemma park_drafts_triple:
  assumes "list_all2 (\<lambda>m V. triple (synced (Some d) iid tid L i) m (\<lambda>r s. synced (Some d) iid tid L i s \<and> (\<forall>x. r = Inr x \<longrightarrow> V x)))
      ms Vs"
    and "\<And>V e. V \<in> set Vs \<Longrightarrow> V e \<Longrightarrow> \<not> created_body (ev_body e)"
  shows "triple (synced (Some d) iid tid L i)
     (ebind (esequence (ms @ [driver_event dv i (InstanceStatusChanged WF_RUNNING WF_WAITING_APPROVAL reason)]))
        (\<lambda>drafts. append_drafts dv i d drafts g None))
     (moves (Some d) iid tid L (\<lambda>j. wi_status j = WF_WAITING_APPROVAL \<and>
        (\<exists>es. list_all2 (\<lambda>V e. V e) Vs es \<and>
           applies (Some d) i (map ev_body es @ [InstanceStatusChanged WF_RUNNING WF_WAITING_APPROVAL reason]) j)))"
    (is "triple _ _ (moves _ _ _ _ ?P)")
proof -
  let ?b = "InstanceStatusChanged WF_RUNNING WF_WAITING_APPROVAL reason"
  let ?R = "\<lambda>drafts s. synced (Some d) iid tid L i s \<and> (\<exists>es e. drafts = es @ [e] \<and> list_all2 (\<lambda>V e. V e) Vs es \<and> ev_body e = ?b)"
  have all: "list_all2 (\<lambda>m V. triple (synced (Some d) iid tid L i) m (\<lambda>r s. synced (Some d) iid tid L i s \<and> (\<forall>x. r = Inr x \<longrightarrow> V x)))
      (ms @ [driver_event dv i ?b]) (Vs @ [\<lambda>e. ev_body e = ?b])"
    using assms(1) driver_event_triple by (intro list_all2_appendI) auto
  show ?thesis
  proof (rule triple_ebind [where R = ?R])
    show "triple (synced (Some d) iid tid L i) (esequence (ms @ [driver_event dv i ?b]))
        (\<lambda>r s. case r of Inl e \<Rightarrow> moves (Some d) iid tid L ?P (Inl e) s | Inr drafts \<Rightarrow> ?R drafts s)"
      by (rule triple_conseq [OF esequence_triple [OF all]])
        (auto simp: moves_def synced_consistent list_all2_append1 list_all2_Cons1 split: sum.splits)
  next
    fix drafts
    show "triple (?R drafts) (append_drafts dv i d drafts g None) (moves (Some d) iid tid L ?P)"
    proof (cases "\<exists>es e. drafts = es @ [e] \<and> list_all2 (\<lambda>V e. V e) Vs es \<and> ev_body e = ?b")
      case True
      then obtain es e where es: "drafts = es @ [e]" "list_all2 (\<lambda>V e. V e) Vs es" "ev_body e = ?b" by blast
      have "\<not> created_body (ev_body x)" if "x \<in> set es" for x
      proof -
        obtain n where n: "n < length es" "x = es ! n" using \<open>x \<in> set es\<close> by (auto simp: in_set_conv_nth)
        then have "(Vs ! n) x" "Vs ! n \<in> set Vs" using es(2) by (auto simp: list_all2_conv_all_nth)
        then show ?thesis using assms(2) by blast
      qed
      then have nc: "list_all (\<lambda>e. \<not> is_created e) drafts"
        using es(1,3) by (auto simp: list_all_iff is_created_body)
      have "?P j" if "applies (Some d) i (map ev_body drafts) j" for j
        using applies_status [OF that] that es by auto
      then show ?thesis
        by (intro triple_conseq [OF append_drafts_triple [OF nc]]) (auto simp: moves_def split: sum.splits)
    qed (auto simp: triple_def)
  qed
qed

text \<open>The same, followed by a notification and a report.\<close>

lemma ends_after_notify:
  assumes m: "triple (synced (Some d) iid tid L i) m (moves (Some d) iid tid L P)"
    and P: "\<And>j. P j \<Longrightarrow> result_matches res (wi_status j)"
  shows "triple (synced (Some d) iid tid L i)
     (ebind m (\<lambda>_. ebind (notify dv i why detail) (\<lambda>_. ereturn (report i res)))) (ends d iid tid L)"
proof (rule tripleI)
  fix s r s' assume sy: "synced (Some d) iid tid L i s"
    and run: "ebind m (\<lambda>_. ebind (notify dv i why detail) (\<lambda>_. ereturn (report i res))) s = (r, s')"
  from run show "ends d iid tid L r s'"
  proof (cases rule: ebind_cases)
    case (raised e)
    then show ?thesis using tripleD [OF m sy] by (force simp: ends_def moves_def)
  next
    case (returned j t)
    then have j: "synced (Some d) iid tid L j t" "P j" using tripleD [OF m sy] by (force simp: moves_def)+
    from returned(2) show ?thesis
    proof (cases rule: ebind_cases)
      case (raised e)
      then show ?thesis using tripleD [OF notify_triple j(1)] by (force simp: ends_def synced_consistent)
    next
      case (returned u t')
      then have "synced (Some d) iid tid L j t'" using tripleD [OF notify_triple j(1)] by blast
      then show ?thesis using returned(2) P [OF j(2)] synced_ids [OF sy]
        by (auto simp: ends_def reports_def report_def)
    qed
  qed
qed

lemma park_triple:
  "triple (synced (Some d) iid tid L i) (park_with_escalation dv i d sid kind recommendation reason detail g)
     (ends d iid tid L)"
proof -
  let ?e = "escalation_event dv i sid kind recommendation 0 [] None ''abort''"
  have "list_all2 (\<lambda>m V. triple (synced (Some d) iid tid L i) m (\<lambda>r s. synced (Some d) iid tid L i s \<and> (\<forall>x. r = Inr x \<longrightarrow> V x)))
      [?e] [\<lambda>e. \<exists>eid. ev_body e = EscalationRaised eid sid kind recommendation 0 [] None ''abort'']"
    by (simp add: escalation_event_triple)
  from park_drafts_triple [OF this, of "Some reason" g]
  have "triple (synced (Some d) iid tid L i)
     (ebind (esequence ([?e] @ [driver_event dv i (InstanceStatusChanged WF_RUNNING WF_WAITING_APPROVAL (Some reason))]))
        (\<lambda>drafts. append_drafts dv i d drafts g None))
     (moves (Some d) iid tid L (\<lambda>j. wi_status j = WF_WAITING_APPROVAL))"
    by (rule triple_conseq) (auto simp: moves_def split: sum.splits)
  from ends_after_notify [OF this, of DR_WAITING_APPROVAL kind detail]
  show ?thesis by (simp add: park_with_escalation_def ebind_assoc)
qed

lemma approval_drafts_ok:
  "approval_drafts dv i d now sids = Inr ms \<Longrightarrow>
   \<exists>Vs. list_all2 (\<lambda>m V. triple (synced (Some d') iid tid L i') m (\<lambda>r s. synced (Some d') iid tid L i' s \<and> (\<forall>x. r = Inr x \<longrightarrow> V x))) ms Vs \<and>
     (\<forall>V \<in> set Vs. \<forall>e. V e \<longrightarrow> \<not> created_body (ev_body e))"
proof (induction sids arbitrary: ms)
  case Nil
  then show ?case by auto
next
  case (Cons sid sids)
  then obtain step st rest where s: "find_step d sid = Inr step" "step_of i sid = Inr st"
    "approval_drafts dv i d now sids = Inr rest"
    by (auto simp: rbind_eq_Inr)
  let ?ready = "driver_event dv i (StepStatusChanged sid ST_PENDING ST_READY (Some ''dependencies satisfied''))"
  let ?dl = "if truthy_int (ws_approval_timeout_seconds step)
               then Some (now + the (ws_approval_timeout_seconds step) * 1000000) else None"
  let ?esc = "escalation_event dv i sid ''explicit_approval'' [] 0 [] ?dl (ws_approval_auto_action step)"
  have ms: "ms = (if ss_status st = ST_PENDING then [?ready] else []) @ ?esc # rest"
    using Cons.prems s by simp
  from Cons.IH [OF s(3)] obtain Vs where Vs:
    "list_all2 (\<lambda>m V. triple (synced (Some d') iid tid L i') m (\<lambda>r s. synced (Some d') iid tid L i' s \<and> (\<forall>x. r = Inr x \<longrightarrow> V x))) rest Vs"
    "\<forall>V \<in> set Vs. \<forall>e. V e \<longrightarrow> \<not> created_body (ev_body e)" by blast
  let ?V0 = "\<lambda>e. ev_body e = StepStatusChanged sid ST_PENDING ST_READY (Some ''dependencies satisfied'')"
  let ?V1 = "\<lambda>e. \<exists>eid. ev_body e = EscalationRaised eid sid ''explicit_approval'' [] 0 [] ?dl (ws_approval_auto_action step)"
  let ?Ws = "(if ss_status st = ST_PENDING then [?V0] else []) @ ?V1 # Vs"
  have "list_all2 (\<lambda>m V. triple (synced (Some d') iid tid L i') m (\<lambda>r s. synced (Some d') iid tid L i' s \<and> (\<forall>x. r = Inr x \<longrightarrow> V x))) ms ?Ws"
    unfolding ms using Vs(1) driver_event_triple escalation_event_triple by auto
  moreover have "\<forall>V \<in> set ?Ws. \<forall>e. V e \<longrightarrow> \<not> created_body (ev_body e)" using Vs(2) by auto
  ultimately show ?case by blast
qed

lemma escalate_for_approval_triple:
  "triple (synced (Some d) iid tid L i) (escalate_for_approval dv i d sids g) (ends d iid tid L)"
  unfolding escalate_for_approval_def
proof (intro now_ebind_triple lift_res_triple)
  fix now ms assume "approval_drafts dv i d now sids = Inr ms"
  from approval_drafts_ok [OF this] obtain Vs where Vs:
    "list_all2 (\<lambda>m V. triple (synced (Some d) iid tid L i) m (\<lambda>r s. synced (Some d) iid tid L i s \<and> (\<forall>x. r = Inr x \<longrightarrow> V x))) ms Vs"
    "\<forall>V \<in> set Vs. \<forall>e. V e \<longrightarrow> \<not> created_body (ev_body e)" by blast
  let ?why = "Some (''approval required: '' @ join '', '' sids)"
  have "triple (synced (Some d) iid tid L i)
     (ebind (esequence (ms @ [driver_event dv i (InstanceStatusChanged WF_RUNNING WF_WAITING_APPROVAL ?why)]))
        (\<lambda>drafts. append_drafts dv i d drafts g None))
     (moves (Some d) iid tid L (\<lambda>j. wi_status j = WF_WAITING_APPROVAL))"
    by (rule triple_conseq [OF park_drafts_triple [OF Vs(1)]]) (use Vs(2) in \<open>auto simp: moves_def split: sum.splits\<close>)
  from ends_after_notify [OF this, of DR_WAITING_APPROVAL "''explicit_approval''" "''steps awaiting sign-off: '' @ join '', '' sids"]
  show "triple (synced (Some d) iid tid L i)
     (ebind (esequence (ms @ [driver_event dv i (InstanceStatusChanged WF_RUNNING WF_WAITING_APPROVAL ?why)]))
        (\<lambda>drafts. ebind (append_drafts dv i d drafts g None) (\<lambda>_.
           ebind (notify dv i ''explicit_approval'' (''steps awaiting sign-off: '' @ join '', '' sids))
             (\<lambda>_. ereturn (report i DR_WAITING_APPROVAL))))) (ends d iid tid L)"
    by (simp add: ebind_assoc)
qed (simp add: ends_def synced_consistent)

end

context driver_journal begin

lemma same_refl [simp]: "same_journal get lg' ok' s s"
  by (simp add: same_journal_def)

lemma same_trans:
  "same_journal get lg' ok' s t \<Longrightarrow> same_journal get lg' ok' t u \<Longrightarrow> same_journal get lg' ok' s u"
  by (simp add: same_journal_def)

lemma step_compensation_keeps:
  assumes "run_step_compensation dv i step s = (r, s')"
  shows "same_journal (dv_get_instance dv) lg ok s s'"
  using assms unfolding run_step_compensation_def
  by (cases "step_of i (ws_step_id step)")
    (auto simp: ebind_def lift_res_def split: prod.splits sum.splits if_splits dest: run_keeps)

lemma compensate_steps_keeps:
  "compensate_steps dv i steps s = (r, s') \<Longrightarrow> same_journal (dv_get_instance dv) lg ok s s'"
proof (induction steps arbitrary: s)
  case (Cons step steps)
  obtain q t where q: "run_step_compensation dv i step s = (q, t)" by (meson surj_pair)
  note k = step_compensation_keeps [OF q]
  show ?case using Cons q k by (cases q) (auto split: if_splits intro: same_trans)
qed simp

lemma undo_keeps: "undo_effects dv i s = (r, s') \<Longrightarrow> same_journal (dv_get_instance dv) lg ok s s'"
  by (auto simp: undo_effects_def split: option.splits dest: compensate_keeps)

text \<open>A framed computation, then the rest.\<close>

lemma ends_Inl: "synced (Some d) iid tid L i s \<Longrightarrow> ends d iid tid L (Inl e) s"
  by (simp add: ends_def synced_consistent)

lemma rollback_triple:
  "triple (synced (Some d) iid tid L i) (rollback dv i d reason g) (ends d iid tid L)"
  unfolding rollback_def
proof (rule frame_ebind)
  fix s r s' assume "etry (undo_effects dv i) s = (r, s')"
  then show "same_journal (dv_get_instance dv) lg ok s s'"
    by (auto simp: etry_def split: prod.splits dest: undo_keeps)
next
  fix res
  have fin: "triple (synced (Some d) iid tid L i)
      (ebind (append_bodies dv i d (rollback_bodies undone steps reason) g) (\<lambda>_. ereturn (report i DR_ROLLED_BACK)))
      (ends d iid tid L)" for undone steps
    by (rule ends_after_move [OF append_bodies_triple])
      (auto simp: rollback_bodies_def list_all_iff dest: applies_status)
  show "triple (synced (Some d) iid tid L i)
     (case res of Inl e \<Rightarrow>
         if pexn_class e = CompensationError then escalate_compensation_failure dv i d (pexn_text e) g else ethrow e
       | Inr undone \<Rightarrow>
           ebind (lift_res (steps_to_compensate i (rev (wd_steps d)))) (\<lambda>steps.
           ebind (compensate_steps dv i steps) (\<lambda>failed. case failed of
               Some detail \<Rightarrow> escalate_compensation_failure dv i d detail g
             | None \<Rightarrow>
                 ebind (append_bodies dv i d (rollback_bodies undone steps reason) g)
                   (\<lambda>_. ereturn (report i DR_ROLLED_BACK))))) (ends d iid tid L)"
  proof (cases res)
    case (Inl e)
    then show ?thesis
      by (auto simp: escalate_compensation_failure_def intro!: park_triple triple_ethrow ends_Inl)
  next
    case (Inr undone)
    show ?thesis unfolding Inr sum.case
    proof (intro lift_res_triple frame_ebind)
      fix steps failed
      show "triple (synced (Some d) iid tid L i)
         (case failed of Some detail \<Rightarrow> escalate_compensation_failure dv i d detail g
           | None \<Rightarrow> ebind (append_bodies dv i d (rollback_bodies undone steps reason) g)
                   (\<lambda>_. ereturn (report i DR_ROLLED_BACK))) (ends d iid tid L)"
        by (cases failed) (simp_all add: fin escalate_compensation_failure_def park_triple)
    qed (auto intro: compensate_steps_keeps ends_Inl)
  qed
qed (rule ends_Inl)

lemma failure_policy_triple:
  "triple (synced (Some d) iid tid L i) (apply_failure_policy dv i d failure g) (ends d iid tid L)"
proof -
  obtain sid reason where f: "failure = (sid, reason)" by (cases failure)
  have pause: "triple (synced (Some d) iid tid L i)
      (ebind (transition dv i d WF_RUNNING WF_PAUSED g (Some reason) None) (\<lambda>_. ereturn (report i DR_PAUSED)))
      (ends d iid tid L)"
    by (rule ends_after_move [OF transition_triple]) (auto dest: applies_status)
  have dead: "triple (synced (Some d) iid tid L i)
      (ebind (transition dv i d WF_RUNNING WF_DEAD_LETTERED g (Some reason) None) (\<lambda>i.
         ebind (dv_dead_letter dv i (Some sid) reason) (\<lambda>_. ereturn (report i DR_DEAD_LETTERED))))
      (ends d iid tid L)"
  proof (rule triple_ebind [where R = "\<lambda>j s. synced (Some d) iid tid L j s \<and> wi_status j = WF_DEAD_LETTERED"])
    show "triple (synced (Some d) iid tid L i) (transition dv i d WF_RUNNING WF_DEAD_LETTERED g (Some reason) None)
       (\<lambda>r s. case r of Inl e \<Rightarrow> ends d iid tid L (Inl e) s
          | Inr j \<Rightarrow> synced (Some d) iid tid L j s \<and> wi_status j = WF_DEAD_LETTERED)"
      by (rule triple_conseq [OF transition_triple]) (auto simp: moves_def ends_def split: sum.splits dest: applies_status)
  next
    fix j
    have "triple (synced (Some d) iid tid L j)
       (ebind (dv_dead_letter dv j (Some sid) reason) (\<lambda>_. ereturn (report j DR_DEAD_LETTERED)))
       (ends d iid tid L)" if "wi_status j = WF_DEAD_LETTERED"
      by (rule frame_ebind [OF dead_letter_keeps])
        (use that synced_ids in \<open>auto simp: ends_def reports_def report_def synced_consistent intro!: triple_ereturn\<close>)
    then show "triple (\<lambda>s. synced (Some d) iid tid L j s \<and> wi_status j = WF_DEAD_LETTERED)
       (ebind (dv_dead_letter dv j (Some sid) reason) (\<lambda>_. ereturn (report j DR_DEAD_LETTERED)))
       (ends d iid tid L)" by (auto simp: triple_def)
  qed
  show ?thesis
    unfolding apply_failure_policy_def f prod.case
    by (auto simp: escalate_cost_threshold_def escalate_max_retries_def pause dead park_triple rollback_triple
        split: on_failure.splits intro!: triple_if)
qed

end

section \<open>Waves\<close>

text \<open>The events that park an instance for review: escalations of the reviewed steps, then the status.\<close>

fun review_body :: "string set \<Rightarrow> event_body \<Rightarrow> bool" where
  "review_body sids (EscalationRaised eid sid reason rec conf opts dl auto) = (sid \<in> sids)"
| "review_body sids (InstanceStatusChanged f t r) = True"
| "review_body sids _ = False"

text \<open>The result of one attempt of a candidate; the events a wave ends with; a whole wave.\<close>

definition result_of ::
  "('s, 'g) driver \<Rightarrow> workflow_definition \<Rightarrow> string \<times> int \<Rightarrow> attempt_result \<Rightarrow> bool" where
  "result_of dv d c r \<longleftrightarrow> fst r = fst c \<and> fst (snd r) = snd c \<and>
     find_step d (fst c) = Inr (fst (snd (snd r))) \<and>
     (\<exists>ctx timeout s s'. dv_run_attempt dv True ctx timeout s = (Inr (snd (snd (snd r))), s'))"

definition settled :: "workflow_definition \<Rightarrow> attempt_result list \<Rightarrow> workflow_instance \<Rightarrow> workflow_instance \<Rightarrow> bool" where
  "settled d results i j \<longleftrightarrow>
     (\<exists>now rvs. applies (Some d) i (concat (map outcome_bodies results) @ retry_bodies now results @ rvs) j \<and>
        (if reviews_of results = [] then rvs = []
         else wi_status j = WF_WAITING_APPROVAL \<and> list_all (review_body (fst ` set (reviews_of results))) rvs))"

definition wave ::
  "('s, 'g) driver \<Rightarrow> workflow_definition \<Rightarrow> string \<Rightarrow> workflow_instance \<Rightarrow> (string \<times> int) list \<Rightarrow>
   workflow_instance \<Rightarrow> bool" where
  "wave dv d worker i dispatch j \<longleftrightarrow>
     (\<exists>bodies i1 results. started_bodies i worker dispatch = Inr bodies \<and> applies (Some d) i bodies i1 \<and>
        list_all2 (result_of dv d) dispatch results \<and> settled d results i1 j)"

lemma no_created_bodies:
  "started_bodies i w cs = Inr bodies \<Longrightarrow> list_all (\<lambda>b. \<not> created_body b) bodies"
  "list_all (\<lambda>b. \<not> created_body b) (concat (map outcome_bodies results))"
  "list_all (\<lambda>b. \<not> created_body b) (retry_bodies now results)"
proof -
  show "started_bodies i w cs = Inr bodies \<Longrightarrow> list_all (\<lambda>b. \<not> created_body b) bodies"
    by (induction cs arbitrary: bodies) (auto simp: rbind_eq_Inr split: if_splits)
  show "list_all (\<lambda>b. \<not> created_body b) (concat (map outcome_bodies results))"
    by (auto simp: list_all_iff outcome_bodies_def effect_bodies_def end_body_def split: prod.splits if_splits)
  show "list_all (\<lambda>b. \<not> created_body b) (retry_bodies now results)"
    by (auto simp: list_all_iff retry_bodies_def split: prod.splits if_splits)
qed

context driver_journal begin

lemma run_one_triple:
  "triple (synced (Some d') iid tid L i') (run_one dv i d budget c)
     (\<lambda>r s. synced (Some d') iid tid L i' s \<and> (\<forall>x. r = Inr x \<longrightarrow> result_of dv d c x))"
proof (rule tripleI)
  fix s r s' assume sy: "synced (Some d') iid tid L i' s" and run: "run_one dv i d budget c s = (r, s')"
  have "same_journal (dv_get_instance dv) lg ok s s'"
    using run by (auto simp: run_one_def ebind_def lift_res_def split: prod.splits sum.splits dest: run_keeps)
  moreover have "result_of dv d c x" if "r = Inr x" for x
    using run that
    by (auto simp: run_one_def ebind_eq_Inr result_of_def lift_res_def split: prod.splits sum.splits) blast
  ultimately show "synced (Some d') iid tid L i' s' \<and> (\<forall>x. r = Inr x \<longrightarrow> result_of dv d c x)"
    using synced_same sy by blast
qed

lemma run_wave_triple:
  "triple (synced (Some d') iid tid L i') (esequence (map (run_one dv i d budget) dispatch))
     (\<lambda>r s. synced (Some d') iid tid L i' s \<and> (\<forall>results. r = Inr results \<longrightarrow> list_all2 (result_of dv d) dispatch results))"
proof -
  have "list_all2 (\<lambda>m V. triple (synced (Some d') iid tid L i') m (\<lambda>r s. synced (Some d') iid tid L i' s \<and> (\<forall>x. r = Inr x \<longrightarrow> V x)))
      (map (run_one dv i d budget) dispatch) (map (result_of dv d) dispatch)"
    by (rule list_all2_maps) (rule run_one_triple)
  from esequence_triple [OF this] show ?thesis
    by (rule triple_conseq) (auto simp: list_all2_map1)
qed

lemma budget_view_keeps:
  assumes "dv_budget dv = Some b" "budget_view_of b i now s = (r, s')"
  shows "same_journal (dv_get_instance dv) lg ok s s'"
  using assms spent_keeps [OF assms(1)]
  by (auto simp: budget_view_of_def ebind_def split: option.splits prod.splits sum.splits)

lemma record_spend_keeps: "record_wave_spend dv i results s = (r, s') \<Longrightarrow> same_journal (dv_get_instance dv) lg ok s s'"
  by (auto simp: record_wave_spend_def now_of_def ebind_def record_spend_def
      split: option.splits if_splits dest: record_keeps)

lemma moves_then_notify:
  assumes m: "triple (synced (Some d) iid tid L i) m (moves (Some d) iid tid L P)"
  shows "triple (synced (Some d) iid tid L i)
     (ebind m (\<lambda>j. ebind (notify dv j why detail) (\<lambda>_. ereturn j))) (moves (Some d) iid tid L P)"
proof (rule tripleI)
  fix s r s' assume sy: "synced (Some d) iid tid L i s"
    and run: "ebind m (\<lambda>j. ebind (notify dv j why detail) (\<lambda>_. ereturn j)) s = (r, s')"
  from run show "moves (Some d) iid tid L P r s'"
  proof (cases rule: ebind_cases)
    case (raised e)
    then show ?thesis using tripleD [OF m sy] by simp
  next
    case (returned j t)
    then have j: "synced (Some d) iid tid L j t" "P j" using tripleD [OF m sy] by (force simp: moves_def)+
    from returned(2) show ?thesis
    proof (cases rule: ebind_cases)
      case (raised e)
      then show ?thesis using tripleD [OF notify_triple j(1)] by (force simp: moves_def synced_consistent)
    next
      case (returned u t')
      then have "synced (Some d) iid tid L j t'" using tripleD [OF notify_triple j(1)] by blast
      then show ?thesis using returned(2) j(2) by (auto simp: moves_def)
    qed
  qed
qed

lemma reviews_triple:
  "triple (synced (Some d) iid tid L i) (raise_review_escalations dv i d reviews g)
     (moves (Some d) iid tid L (\<lambda>j. wi_status j = WF_WAITING_APPROVAL \<and>
        (\<exists>rvs. list_all (review_body (fst ` set reviews)) rvs \<and> applies (Some d) i rvs j)))"
    (is "triple _ _ (moves _ _ _ _ ?P)")
  unfolding raise_review_escalations_def
proof (rule now_ebind_triple)
  fix now
  let ?mk = "\<lambda>(sid, rv). escalation_event dv i sid (rv_reason rv) (rv_recommendation rv) (rv_confidence rv) (rv_options rv)
           (if truthy_int (rv_timeout_seconds rv) then Some (now + the (rv_timeout_seconds rv) * 1000000) else None)
           (rv_auto_action rv)"
  let ?V = "\<lambda>(sid, rv) e. review_body {sid} (ev_body e)"
  let ?why = "Some (''review requested: '' @ join '', '' (map fst reviews))"
  have one: "triple (synced (Some d) iid tid L i) (?mk x) (\<lambda>r s. synced (Some d) iid tid L i s \<and> (\<forall>y. r = Inr y \<longrightarrow> ?V x y))" for x
    by (cases x) (auto intro!: triple_conseq [OF escalation_event_triple])
  have all: "list_all2 (\<lambda>m V. triple (synced (Some d) iid tid L i) m (\<lambda>r s. synced (Some d) iid tid L i s \<and> (\<forall>x. r = Inr x \<longrightarrow> V x)))
      (map ?mk reviews) (map ?V reviews)"
    by (rule list_all2_maps) (rule one)
  have park: "triple (synced (Some d) iid tid L i)
     (ebind (esequence (map ?mk reviews @ [driver_event dv i (InstanceStatusChanged WF_RUNNING WF_WAITING_APPROVAL ?why)]))
        (\<lambda>drafts. append_drafts dv i d drafts g None)) (moves (Some d) iid tid L ?P)"
  proof (rule triple_conseq [OF park_drafts_triple [OF all, of ?why g]])
    show "\<not> created_body (ev_body e)" if "V \<in> set (map ?V reviews)" "V e" for V e
      using that by (cases "ev_body e") auto
  next
    fix r s
    assume mv: "moves (Some d) iid tid L (\<lambda>j. wi_status j = WF_WAITING_APPROVAL \<and>
        (\<exists>es. list_all2 (\<lambda>V e. V e) (map ?V reviews) es \<and>
           applies (Some d) i (map ev_body es @ [InstanceStatusChanged WF_RUNNING WF_WAITING_APPROVAL ?why]) j)) r s"
    have la: "list_all (review_body (fst ` set reviews))
        (map ev_body es @ [InstanceStatusChanged WF_RUNNING WF_WAITING_APPROVAL ?why])"
      if "list_all2 (\<lambda>V e. V e) (map ?V reviews) es" for es
    proof -
      have "review_body (fst ` set reviews) (ev_body e)" if "e \<in> set es" for e
      proof -
        obtain n where n: "n < length es" "e = es ! n" using \<open>e \<in> set es\<close> by (auto simp: in_set_conv_nth)
        then have "?V (reviews ! n) e" "reviews ! n \<in> set reviews"
          using \<open>list_all2 _ _ es\<close> by (auto simp: list_all2_conv_all_nth)
        then show ?thesis by (cases "ev_body e") (force split: prod.splits)+
      qed
      then show ?thesis by (auto simp: list_all_iff)
    qed
    show "moves (Some d) iid tid L ?P r s" by (rule moves_mono [OF _ mv]) (use la in blast)
  qed
  show "triple (synced (Some d) iid tid L i)
     (ebind (esequence (map ?mk reviews @ [driver_event dv i (InstanceStatusChanged WF_RUNNING WF_WAITING_APPROVAL ?why)]))
        (\<lambda>drafts. ebind (append_drafts dv i d drafts g None) (\<lambda>i.
           ebind (notify dv i (join '', '' (sort (remdups (map (rv_reason \<circ> snd) reviews))))
              (''steps awaiting review: '' @ join '', '' (map fst reviews))) (\<lambda>_. ereturn i))))
     (moves (Some d) iid tid L ?P)"
    using moves_then_notify [OF park] by (simp only: ebind_assoc)
qed

end

context driver_journal begin

lemma budget_of_keeps: "budget_of dv i s = (r, s') \<Longrightarrow> same_journal (dv_get_instance dv) lg ok s s'"
  by (auto simp: budget_of_def now_of_def ebind_def split: option.splits prod.splits sum.splits
      dest: budget_view_keeps)

lemma settledI:
  assumes "applies (Some d) i (concat (map outcome_bodies results)) i2" "applies (Some d) i2 (retry_bodies now results) i3"
    and "applies (Some d) i3 rvs j"
    and "if reviews_of results = [] then rvs = []
         else wi_status j = WF_WAITING_APPROVAL \<and> list_all (review_body (fst ` set (reviews_of results))) rvs"
  shows "settled d results i j"
proof -
  have "applies (Some d) i (concat (map outcome_bodies results) @ retry_bodies now results @ rvs) j"
    using applies_append [OF assms(1) applies_append [OF assms(2,3)]] by simp
  then show ?thesis using assms(4) unfolding settled_def by blast
qed

lemma record_spend_ebind:
  assumes "\<And>x. triple (synced (Some d) iid tid L i) (f x) Q" "\<And>e s. synced (Some d) iid tid L i s \<Longrightarrow> Q (Inl e) s"
  shows "triple (synced (Some d) iid tid L i) (ebind (record_wave_spend dv j results) f) Q"
  by (rule frame_ebind) (rule record_spend_keeps, assumption, (rule assms)+)

lemma budget_of_ebind:
  assumes "\<And>x. triple (synced (Some d) iid tid L i) (f x) Q" "\<And>e s. synced (Some d) iid tid L i s \<Longrightarrow> Q (Inl e) s"
  shows "triple (synced (Some d) iid tid L i) (ebind (budget_of dv j) f) Q"
  by (rule frame_ebind) (rule budget_of_keeps, assumption, (rule assms)+)

lemma settle_wave_triple:
  "triple (synced (Some d) iid tid L i) (settle_wave dv i d results g) (moves (Some d) iid tid L (settled d results i))"
  unfolding settle_wave_def
proof (intro moves_ebind [OF append_bodies_triple [OF no_created_bodies(2)]] record_spend_ebind
    now_ebind_triple moves_ebind [OF append_bodies_triple [OF no_created_bodies(3)]])
  fix i2 now i3
  assume a: "applies (Some d) i (concat (map outcome_bodies results)) i2" "applies (Some d) i2 (retry_bodies now results) i3"
  show "triple (synced (Some d) iid tid L i3)
      (if reviews_of results \<noteq> [] then raise_review_escalations dv i3 d (reviews_of results) g else ereturn i3)
      (moves (Some d) iid tid L (settled d results i))"
  proof (rule triple_if)
    assume rv: "reviews_of results \<noteq> []"
    show "triple (synced (Some d) iid tid L i3) (raise_review_escalations dv i3 d (reviews_of results) g)
        (moves (Some d) iid tid L (settled d results i))"
    proof (rule triple_conseq [OF reviews_triple])
      show "moves (Some d) iid tid L (settled d results i) r s"
        if "moves (Some d) iid tid L (\<lambda>j. wi_status j = WF_WAITING_APPROVAL \<and>
          (\<exists>rvs. list_all (review_body (fst ` set (reviews_of results))) rvs \<and> applies (Some d) i3 rvs j)) r s" for r s
        by (rule moves_mono [OF _ that]) (use settledI [OF a] rv in auto)
    qed
  next
    assume rv: "\<not> reviews_of results \<noteq> []"
    have "settled d results i i3" by (rule settledI [OF a, of "[]"]) (use rv in simp_all)
    then show "triple (synced (Some d) iid tid L i3) (ereturn i3) (moves (Some d) iid tid L (settled d results i))"
      by (auto simp: moves_def intro: triple_ereturn)
  qed
qed (simp_all add: moves_def synced_consistent)

lemma dispatch_wave_triple:
  "triple (synced (Some d) iid tid L i) (dispatch_wave dv i d dispatch l g)
     (moves (Some d) iid tid L (wave dv d (la_worker_id l) i dispatch))"
  unfolding dispatch_wave_def
proof (intro lift_res_triple)
  fix bodies assume st: "started_bodies i (la_worker_id l) dispatch = Inr bodies"
  show "triple (synced (Some d) iid tid L i)
     (ebind (append_bodies dv i d bodies g) (\<lambda>i. ebind (budget_of dv i) (\<lambda>budget.
        ebind (esequence (map (run_one dv i d budget) dispatch)) (\<lambda>results. settle_wave dv i d results g))))
     (moves (Some d) iid tid L (wave dv d (la_worker_id l) i dispatch))"
  proof (intro moves_ebind [OF append_bodies_triple [OF no_created_bodies(1) [OF st]]] budget_of_ebind)
    fix i1 budget assume i1: "applies (Some d) i bodies i1"
    let ?Q = "moves (Some d) iid tid L (wave dv d (la_worker_id l) i dispatch)"
    show "triple (synced (Some d) iid tid L i1)
       (ebind (esequence (map (run_one dv i1 d budget) dispatch)) (\<lambda>results. settle_wave dv i1 d results g)) ?Q"
    proof (rule triple_ebind [where R = "\<lambda>results s. synced (Some d) iid tid L i1 s \<and> list_all2 (result_of dv d) dispatch results"])
      fix results
      have "wave dv d (la_worker_id l) i dispatch j"
        if "list_all2 (result_of dv d) dispatch results" "settled d results i1 j" for j
        using that st i1 unfolding wave_def by blast
      then show "triple (\<lambda>s. synced (Some d) iid tid L i1 s \<and> list_all2 (result_of dv d) dispatch results)
         (settle_wave dv i1 d results g) ?Q"
        using tripleD [OF settle_wave_triple] moves_mono unfolding triple_def by blast
    qed (rule triple_conseq [OF run_wave_triple], auto simp: moves_def synced_consistent split: sum.splits)
  qed (simp_all add: moves_def synced_consistent)
qed (simp add: moves_def synced_consistent)

end

section \<open>Rounds and drives\<close>

text \<open>What one round that does not end the drive did.\<close>

definition round_moves ::
  "('s, 'g) driver \<Rightarrow> workflow_definition \<Rightarrow> string \<Rightarrow> workflow_instance \<Rightarrow> workflow_instance \<Rightarrow> bool" where
  "round_moves dv d worker i j \<longleftrightarrow>
     (wi_status i = WF_PENDING \<or> wi_status i = WF_RETRYING) \<and>
       applies (Some d) i [InstanceStatusChanged (wi_status i) WF_RUNNING None] j
   \<or> wi_status i = WF_RUNNING \<and>
       (\<exists>now p. make_plan i d now = Inr p \<and> pl_dispatch p \<noteq> [] \<and> wave dv d worker i (pl_dispatch p) j)"

lemma parked_result_matches: "parked_result w = Some r \<Longrightarrow> result_matches r w"
  by (cases w) auto

lemma parked_result_None:
  "parked_result w = None \<longleftrightarrow> w = WF_PENDING \<or> w = WF_RETRYING \<or> w = WF_RUNNING"
  by (cases w) auto

context driver_journal begin

definition round_ends ::
  "workflow_definition \<Rightarrow> string \<Rightarrow> string \<Rightarrow> (string \<Rightarrow> event list) \<Rightarrow> (workflow_instance \<Rightarrow> bool) \<Rightarrow>
   pexn + (workflow_instance + drive_report) \<Rightarrow> 's \<Rightarrow> bool" where
  "round_ends d iid tid L P r s \<longleftrightarrow>
     (case r of Inl e \<Rightarrow> consistent iid L s
      | Inr (Inl j) \<Rightarrow> synced (Some d) iid tid L j s \<and> P j
      | Inr (Inr rep) \<Rightarrow> reports d iid tid L rep s)"

lemma round_goes_on:
  assumes "triple (synced (Some d) iid tid L i) m (moves (Some d) iid tid L P)" "\<And>j. P j \<Longrightarrow> P' j"
  shows "triple (synced (Some d) iid tid L i) (ebind m (\<lambda>j. ereturn (Inl j))) (round_ends d iid tid L P')"
  by (rule moves_ebind [OF assms(1)]) (auto simp: round_ends_def intro!: triple_ereturn assms(2))

lemma round_reports:
  assumes "triple (synced (Some d) iid tid L i) m (ends d iid tid L)"
  shows "triple (synced (Some d) iid tid L i) (ebind m (\<lambda>r. ereturn (Inr r))) (round_ends d iid tid L P)"
proof (rule triple_ebind [where R = "reports d iid tid L"])
  show "triple (synced (Some d) iid tid L i) m
     (\<lambda>r s. case r of Inl e \<Rightarrow> round_ends d iid tid L P (Inl e) s | Inr rep \<Rightarrow> reports d iid tid L rep s)"
    by (rule triple_conseq [OF assms]) (auto simp: round_ends_def ends_def split: sum.splits)
qed (auto simp: round_ends_def intro!: triple_ereturn)

lemma round_stays:
  "result_matches r (wi_status i) \<Longrightarrow>
   triple (synced (Some d) iid tid L i) (ereturn (Inr (report i r))) (round_ends d iid tid L P)"
  by (rule triple_ereturn) (use synced_ids in \<open>auto simp: round_ends_def reports_def report_def\<close>)

lemma park_retry_triple:
  "triple (synced (Some d) iid tid L i)
     (ebind (transition dv i d WF_RUNNING WF_RETRYING g None (Some w)) (\<lambda>i.
        ereturn (Inr ((report i DR_PARKED)\<lparr>rep_next_wakeup_at := Some w\<rparr>)))) (round_ends d iid tid L P)"
  by (rule moves_ebind [OF transition_triple])
    (use synced_ids in \<open>auto simp: round_ends_def reports_def report_def intro!: triple_ereturn dest!: applies_status\<close>)

lemma running_round_triple:
  assumes "wi_status i = WF_RUNNING" "make_plan i d now = Inr p"
  shows "triple (synced (Some d) iid tid L i) (follow_plan dv i d p l g)
     (round_ends d iid tid L (round_moves dv d (la_worker_id l) i))"
proof -
  have wave: "triple (synced (Some d) iid tid L i)
      (ebind (dispatch_wave dv i d (pl_dispatch p) l g) (\<lambda>i. ereturn (Inl i)))
      (round_ends d iid tid L (round_moves dv d (la_worker_id l) i))" if "pl_dispatch p \<noteq> []"
    by (rule round_goes_on [OF dispatch_wave_triple]) (use assms that in \<open>auto simp: round_moves_def\<close>)
  show ?thesis unfolding follow_plan_def
    by (auto split: option.splits intro!: triple_if round_reports block_on_budget_triple wave park_retry_triple
        escalate_for_approval_triple failure_policy_triple complete_triple round_stays simp: assms(1))
qed

lemma run_round_triple:
  "triple (synced (Some d) iid tid L i) (run_round dv i d l g)
     (round_ends d iid tid L (round_moves dv d (la_worker_id l) i))"
proof (cases "parked_result (wi_status i)")
  case (Some r)
  then show ?thesis by (simp add: run_round_def round_stays parked_result_matches)
next
  case None
  then consider "wi_status i = WF_PENDING" | "wi_status i = WF_RETRYING" | "wi_status i = WF_RUNNING"
    by (auto simp: parked_result_None)
  then show ?thesis
  proof cases
    case 1
    then show ?thesis unfolding run_round_def None
      by (auto intro!: round_goes_on [OF transition_triple] simp: round_moves_def)
  next
    case 2
    then show ?thesis unfolding run_round_def None
      by (auto intro!: round_goes_on [OF transition_triple] simp: round_moves_def)
  next
    case 3
    have "triple (synced (Some d) iid tid L i)
       (ebind (now_of (dv_ports dv)) (\<lambda>now. ebind (lift_res (make_plan i d now)) (\<lambda>p. follow_plan dv i d p l g)))
       (round_ends d iid tid L (round_moves dv d (la_worker_id l) i))"
      by (intro now_ebind_triple lift_res_triple running_round_triple [OF 3])
        (simp_all add: round_ends_def synced_consistent)
    then show ?thesis by (simp add: run_round_def 3)
  qed
qed

lemma run_rounds_triple:
  "triple (synced (Some d) iid tid L i) (run_rounds n dv i d l g) (ends d iid tid L)"
proof (induction n arbitrary: i)
  case 0
  show ?case unfolding run_rounds.simps by (rule triple_ethrow) (rule ends_Inl)
next
  case (Suc n)
  show ?case unfolding run_rounds.simps
  proof (rule triple_ebind [where R = "\<lambda>r s. round_ends d iid tid L (\<lambda>_. True) (Inr r) s"])
    show "triple (synced (Some d) iid tid L i) (run_round dv i d l g)
       (\<lambda>r s. case r of Inl e \<Rightarrow> ends d iid tid L (Inl e) s | Inr x \<Rightarrow> round_ends d iid tid L (\<lambda>_. True) (Inr x) s)"
      by (rule triple_conseq [OF run_round_triple]) (auto simp: round_ends_def ends_def split: sum.splits)
    show "triple (\<lambda>s. round_ends d iid tid L (\<lambda>_. True) (Inr r) s)
       (case r of Inl j \<Rightarrow> run_rounds n dv j d l g | Inr rep \<Rightarrow> ereturn rep) (ends d iid tid L)" for r
      using Suc by (cases r) (auto simp: round_ends_def ends_def triple_def)
  qed
qed

lemma recover_triple:
  "triple (synced (Some d) iid tid L i) (recover_in_flight dv i d g)
     (moves (Some d) iid tid L (applies (Some d) i
       (map (\<lambda>(sid, st). StepStatusChanged sid ST_RUNNING ST_READY (Some ''worker-recovered''))
          (filter (\<lambda>(sid, st). ss_status st = ST_RUNNING) (wi_step_states i)))))"
  unfolding recover_in_flight_def by (rule append_bodies_triple) (auto simp: list_all_iff)

lemma drive_body_triple:
  "triple (synced (Some d) iid tid L i) (ebind (recover_in_flight dv i d g) (\<lambda>i. run_rounds n dv i d l g)) (ends d iid tid L)"
  by (rule moves_ebind [OF recover_triple]) (auto intro: run_rounds_triple simp: ends_def)

text \<open>
  What a drive leaves behind: logs that grew only at the end of the leased instance's, and,
  when it reports on an instance, a stored projection whose status is the reported one.
\<close>

lemma drive_ends:
  assumes "ok s" "drive dv l g s = (r, s')"
  shows "ok s' \<and> extends (lg s) (lg s') (la_instance_id l) \<and>
     (case r of
        Inl e \<Rightarrow> \<not> is_conflict (pexn_class e) \<or> s' = s
      | Inr rep \<Rightarrow> rep_instance_id rep = la_instance_id l \<and>
         (rep_result rep = DR_LEASE_LOST \<or> rep_result rep = DR_IDLE \<and> s' = s \<or>
          (\<exists>d j. dv_get_definition dv s (la_workflow_id l) (la_workflow_version l) (la_tenant_id l) = Some d \<and>
             dv_get_instance dv s' (la_instance_id l) (la_tenant_id l) (Some d) = Inr (Some j) \<and>
             result_matches (rep_result rep) (wi_status j))))"
proof (cases "dv_get_definition dv s (la_workflow_id l) (la_workflow_version l) (la_tenant_id l)")
  case None
  then show ?thesis using assms by (auto simp: drive_def)
next
  case (Some d)
  note d = this
  show ?thesis
  proof (cases "\<exists>i. dv_get_instance dv s (la_instance_id l) (la_tenant_id l) (Some d) = Inr (Some i)")
    case False
    then show ?thesis using assms d by (auto simp: drive_def split: sum.splits option.splits)
  next
    case True
    then obtain i where i: "dv_get_instance dv s (la_instance_id l) (la_tenant_id l) (Some d) = Inr (Some i)" by blast
    obtain q where q: "ebind (recover_in_flight dv i d g) (\<lambda>i. run_rounds MAX_DRIVE_ITERATIONS dv i d l g) s = (q, s')"
      using assms(2) d i by (auto simp: drive_def split: prod.splits sum.splits if_splits)
    have "ends d (la_instance_id l) (la_tenant_id l) (lg s) q s'"
      by (rule tripleD [OF drive_body_triple _ q]) (use assms(1) i in \<open>simp add: synced_def\<close>)
    then show ?thesis using assms(2) d i q
      by (cases q) (auto simp: drive_def ends_def reports_def consistent_def synced_def split: if_splits)
  qed
qed

end

end
