(* ===== verification/Driver_Progress.thy ===== *)
theory Driver_Progress
  imports Driver_Journal
begin

text \<open>
  Progress of the driver: every wave uses up attempts, so the loop of a drive ends by itself, and
  an instance whose steps are all there is never left idle.
\<close>

section \<open>What a wave does to the steps\<close>

lemma foldl_unchanged: "(\<And>b c. b \<in> set bs \<Longrightarrow> F c b = c) \<Longrightarrow> foldl F c bs = c"
  by (induction bs arbitrary: c) auto

lemma foldl_none:
  "(\<And>q c. q \<in> set rs \<Longrightarrow> foldl F c (f q) = c) \<Longrightarrow> foldl F c (concat (map f rs)) = c"
  by (induction rs arbitrary: c) auto

lemma foldl_one:
  assumes "distinct (map fst rs)" "r \<in> set rs"
    and "\<And>q c. q \<in> set rs \<Longrightarrow> fst q \<noteq> fst r \<Longrightarrow> foldl F c (f q) = c"
  shows "foldl F c (concat (map f rs)) = foldl F c (f r)"
  using assms
proof (induction rs arbitrary: c)
  case (Cons q qs)
  have rest: "foldl F c (concat (map f qs)) = c" if "\<forall>p \<in> set qs. fst p \<noteq> fst r" for c
    using that Cons.prems(3) by (induction qs arbitrary: c) auto
  show ?case
  proof (cases "q = r")
    case True
    have "\<forall>p \<in> set qs. fst p \<noteq> fst r" using Cons.prems(1) True by (auto simp: image_iff)
    then show ?thesis using True by (simp add: rest)
  next
    case False
    then have "r \<in> set qs" "fst q \<noteq> fst r" using Cons.prems(1,2) by force+
    then show ?thesis using Cons by simp
  qed
qed simp

abbreviation cores :: "string \<Rightarrow> step_core \<Rightarrow> event_body list \<Rightarrow> step_core" where
  "cores sid \<equiv> foldl (\<lambda>c b. body_core b sid c)"

lemma started_core:
  assumes "started_bodies i w cs = Inr bodies" "distinct (map fst cs)"
  shows "cores sid c bodies = (case map_of cs sid of None \<Rightarrow> c | Some att \<Rightarrow> (ST_RUNNING, att, None))"
  using assms
proof (induction cs arbitrary: bodies c)
  case (Cons x xs)
  obtain s att where x: "x = (s, att)" by (cases x)
  obtain st rest where st: "step_of i s = Inr st" "started_bodies i w xs = Inr rest"
    "bodies = (if ss_status st = ST_PENDING
       then [StepStatusChanged s ST_PENDING ST_READY (Some ''dependencies satisfied'')] else []) @
       StepStarted s att w None # rest"
    using Cons.prems(1) x by (auto simp: rbind_eq_Inr)
  have IH: "cores sid c rest = (case map_of xs sid of None \<Rightarrow> c | Some att \<Rightarrow> (ST_RUNNING, att, None))" for c
    using Cons.IH [OF st(2)] Cons.prems(2) by simp
  have "map_of xs s = None" using Cons.prems(2) x by (auto simp: map_of_eq_None_iff)
  then show ?case by (cases c) (auto simp: st(3) x IH split: option.splits)
qed simp

lemma outcome_other: "fst r \<noteq> sid \<Longrightarrow> cores sid c (outcome_bodies r) = c"
  by (rule foldl_unchanged)
    (auto simp: outcome_bodies_def effect_bodies_def end_body_def split: prod.splits if_splits)

lemma outcome_core:
  "cores sid (st, a, n) (outcome_bodies (sid, att, step, out)) =
     (if so_ok out then (ST_COMPLETED, a, n) else (ST_FAILED, a, n))"
proof -
  have eff: "cores sid c (concat (map (effect_bodies sid) es)) = c" for c es
    by (rule foldl_unchanged) (auto simp: effect_bodies_def split: if_splits)
  have rc: "cores sid c (map (\<lambda>rc. LLMCallRecorded sid att (lr_request_digest rc) (lr_model rc) (lr_response rc)
      (lr_tokens_input rc) (lr_tokens_output rc) (lr_cost_usd rc)) rcs) = c" for c rcs
    by (rule foldl_unchanged) auto
  have ch: "cores sid c (map (\<lambda>x. CostCharged (Some sid) (ce_amount_usd x) (ce_model x) (ce_tokens_input x)
      (ce_tokens_output x)) xs) = c" for c xs
    by (rule foldl_unchanged) auto
  show ?thesis unfolding outcome_bodies_def prod.case foldl_append rc ch eff by (simp add: end_body_def)
qed

lemma retry_bodies_map: "retry_bodies now results = concat (map (\<lambda>r. retry_bodies now [r]) results)"
  by (simp add: retry_bodies_def)

lemma retry_other: "fst r \<noteq> sid \<Longrightarrow> cores sid c (retry_bodies now [r]) = c"
  by (rule foldl_unchanged) (auto simp: retry_bodies_def split: prod.splits if_splits)

lemma retry_core:
  "cores sid (st, a, n) (retry_bodies now [(sid, att, step, out)]) =
     (if \<not> so_ok out \<and> so_retryable out \<and> att \<le> rp_max_retries (ws_retry_policy step)
      then (st, a, Some (now + timedelta_seconds (backoff_delay (ws_retry_policy step) att))) else (st, a, n))"
  by (simp add: retry_bodies_def)

lemma review_core:
  assumes "list_all (review_body sids) rvs"
  shows "cores sid (st, a, n) rvs = (st, a, n) \<or> sid \<in> sids \<and> cores sid (st, a, n) rvs = (ST_WAITING_APPROVAL, a, n)"
  using assms
proof (induction rvs arbitrary: st)
  case (Cons b rvs)
  then show ?case by (cases b) (auto split: if_splits)
qed simp

lemma reviews_fst: "fst ` set (reviews_of results) \<subseteq> fst ` set results"
  by (force simp: reviews_of_def split: prod.splits step_outcome.splits option.splits)

text \<open>
  A dispatched step has completed, waits for a review, or has failed, with a retry only while its
  policy allows one. The other steps are as they were.
\<close>

definition step_ended :: "workflow_step \<Rightarrow> int \<Rightarrow> step_core \<Rightarrow> bool" where
  "step_ended step att c \<longleftrightarrow> fst (snd c) = att \<and>
     (fst c \<in> {ST_COMPLETED, ST_WAITING_APPROVAL} \<or>
      fst c = ST_FAILED \<and> (snd (snd c) \<noteq> None \<longrightarrow> att \<le> rp_max_retries (ws_retry_policy step)))"

lemma wave_core:
  assumes "wave dv d w i cs j" "distinct (map fst cs)"
  shows "case map_of cs sid of None \<Rightarrow> core_at j sid = core_at i sid
    | Some att \<Rightarrow> \<exists>step. find_step d sid = Inr step \<and> step_ended step att (core_at j sid) \<and>
        (fst (core_at j sid) = ST_WAITING_APPROVAL \<longrightarrow> wi_status j = WF_WAITING_APPROVAL)"
proof -
  obtain bodies i1 results now rvs where b: "started_bodies i w cs = Inr bodies" "applies (Some d) i bodies i1"
    and rs: "list_all2 (result_of dv d) cs results"
    and ap: "applies (Some d) i1 (concat (map outcome_bodies results) @ retry_bodies now results @ rvs) j"
    and rv: "if reviews_of results = [] then rvs = []
         else wi_status j = WF_WAITING_APPROVAL \<and> list_all (review_body (fst ` set (reviews_of results))) rvs"
    using assms(1) unfolding wave_def settled_def by blast
  have fst_eq: "map fst results = map fst cs"
    using rs by (induction rule: list_all2_induct) (auto simp: result_of_def)
  then have fst_set: "fst ` set results = fst ` set cs" by (metis set_map)
  have rv': "list_all (review_body (fst ` set (reviews_of results))) rvs" using rv by (auto split: if_splits)
  have c1: "core_at i1 sid = (case map_of cs sid of None \<Rightarrow> core_at i sid | Some att \<Rightarrow> (ST_RUNNING, att, None))"
    using applies_core [OF b(2)] started_core [OF b(1) assms(2)] by simp
  have cj: "core_at j sid = cores sid (cores sid (cores sid (core_at i1 sid) (concat (map outcome_bodies results)))
      (concat (map (\<lambda>r. retry_bodies now [r]) results))) rvs"
    using applies_core [OF ap] by (simp add: retry_bodies_map [of now results])
  show ?thesis
  proof (cases "map_of cs sid")
    case None
    then have out: "sid \<notin> fst ` set results" unfolding fst_set by (simp add: map_of_eq_None_iff)
    have o: "cores sid c (concat (map outcome_bodies results)) = c" for c
      by (rule foldl_none, rule outcome_other) (use out in auto)
    have r: "cores sid c (concat (map (\<lambda>r. retry_bodies now [r]) results)) = c" for c
      by (rule foldl_none, rule retry_other) (use out in auto)
    obtain st a n where c: "core_at i sid = (st, a, n)" by (cases "core_at i sid")
    have "sid \<notin> fst ` set (reviews_of results)" using out reviews_fst [of results] by (meson subsetD)
    then have v: "cores sid (core_at i sid) rvs = core_at i sid"
      using review_core [OF rv', of sid st a n] unfolding c by simp
    show ?thesis using c1 cj None by (simp add: o r v)
  next
    case (Some att)
    then have "(sid, att) \<in> set cs" by (rule map_of_SomeD)
    with rs have "\<exists>q \<in> set results. result_of dv d (sid, att) q"
      by (induction rule: list_all2_induct) auto
    then obtain q where q: "q \<in> set results" "result_of dv d (sid, att) q" by blast
    obtain sid' att' step out where "q = (sid', att', step, out)" by (cases q)
    then have r: "(sid, att, step, out) \<in> set results" "find_step d sid = Inr step"
      using q by (simp_all add: result_of_def)
    let ?r = "(sid, att, step, out)"
    have dist: "distinct (map fst results)" using assms(2) fst_eq by simp
    have o: "cores sid c (concat (map outcome_bodies results)) = cores sid c (outcome_bodies ?r)" for c
      by (rule foldl_one [OF dist r(1)]) (simp add: outcome_other)
    have rt: "cores sid c (concat (map (\<lambda>r. retry_bodies now [r]) results)) = cores sid c (retry_bodies now [?r])" for c
      by (rule foldl_one [OF dist r(1)]) (simp add: retry_other)
    have "core_at i1 sid = (ST_RUNNING, att, None)" using c1 Some by simp
    then have cj': "core_at j sid = cores sid (cores sid (cores sid (ST_RUNNING, att, None) (outcome_bodies ?r))
        (retry_bodies now [?r])) rvs" using cj o rt by simp
    have asks: "wi_status j = WF_WAITING_APPROVAL" if "sid \<in> fst ` set (reviews_of results)"
      using that rv by (auto split: if_splits)
    have "step_ended step att (core_at j sid) \<and>
        (fst (core_at j sid) = ST_WAITING_APPROVAL \<longrightarrow> wi_status j = WF_WAITING_APPROVAL)"
    proof (cases "so_ok out")
      case True
      then have "core_at j sid = cores sid (ST_COMPLETED, att, None) rvs"
        using cj' by (simp add: outcome_core retry_core)
      then show ?thesis using review_core [OF rv', of sid ST_COMPLETED att None] asks by (auto simp: step_ended_def)
    next
      case False
      then obtain n where "core_at j sid = cores sid (ST_FAILED, att, n) rvs"
        "n \<noteq> None \<longrightarrow> att \<le> rp_max_retries (ws_retry_policy step)"
        using cj' by (auto simp: outcome_core retry_core split: if_splits)
      then show ?thesis using review_core [OF rv', of sid ST_FAILED att n] asks by (auto simp: step_ended_def)
    qed
    then show ?thesis using Some r(2) by simp
  qed
qed


section \<open>Attempts are used up\<close>

text \<open>The attempts a step may still take.\<close>

definition step_work :: "workflow_step \<Rightarrow> step_core \<Rightarrow> nat" where
  "step_work step c = (case c of (st, a, n) \<Rightarrow>
     if st \<in> {ST_PENDING, ST_READY, ST_RUNNING} \<or> st = ST_FAILED \<and> n \<noteq> None
     then max (nat (rp_max_retries (ws_retry_policy step) + 1 - a)) 1 else 0)"

definition work :: "workflow_definition \<Rightarrow> workflow_instance \<Rightarrow> nat" where
  "work d i = sum_list (map (\<lambda>step. step_work step (core_at i (ws_step_id step))) (wd_steps d))"

lemma plan_candidates:
  assumes "make_plan i d now = Inr p" "pl_dispatch p \<noteq> []" "distinct (step_ids d)"
  shows "distinct (map fst (pl_dispatch p))"
    "c \<in> set (pl_dispatch p) \<Longrightarrow> \<exists>step \<in> set (wd_steps d). candidate_ok i now step c"
proof -
  obtain sn where sn: "scan_of i d now = Inr sn"
    "pl_dispatch p = take (free_slots i d) (filter (\<lambda>c. fst c \<notin> open_escalations i) (sn_candidates sn))"
    using make_plan_go [OF assms(1,2)] by blast
  obtain cs where cs: "sn_candidates sn = cs" "\<forall>c \<in> set cs. \<exists>step \<in> set (wd_steps d). candidate_ok i now step c"
    "distinct (map fst cs)"
    using scan_candidates [OF sn(1) [unfolded scan_of_def]] assms(3) by (auto simp: step_ids_def)
  show "distinct (map fst (pl_dispatch p))"
    unfolding sn(2) cs(1) take_map [symmetric] by (intro distinct_take distinct_map_filter cs(3))
  show "\<exists>step \<in> set (wd_steps d). candidate_ok i now step c" if "c \<in> set (pl_dispatch p)"
    using that cs(1,2) unfolding sn(2) by (auto dest: in_set_takeD)
qed

lemma candidate_work:
  assumes "candidate_ok i now step (sid, att)" "step_ended step att c"
  shows "step_work step c < step_work step (core_at i sid)"
  using assms by (cases c) (auto simp: candidate_ok_def step_ended_def step_work_def core_at_def)

lemma wave_work:
  assumes plan: "make_plan i d now = Inr p" "pl_dispatch p \<noteq> []" and dist: "distinct (step_ids d)"
    and wave: "wave dv d w i (pl_dispatch p) j"
  shows "work d j < work d i"
proof -
  note cand = plan_candidates [OF plan dist]
  let ?w = "\<lambda>k step. step_work step (core_at k (ws_step_id step))"
  have ended: "?w j step < ?w i step"
    if step: "step \<in> set (wd_steps d)" and att: "map_of (pl_dispatch p) (ws_step_id step) = Some att" for step att
  proof -
    obtain step' where s': "step' \<in> set (wd_steps d)" "candidate_ok i now step' (ws_step_id step, att)"
      using cand(2) [OF map_of_SomeD [OF att]] by blast
    have "step' = step"
      using s' step dist by (auto simp: candidate_ok_def step_ids_def distinct_map dest: inj_onD)
    then have "candidate_ok i now step (ws_step_id step, att)" using s'(2) by simp
    moreover have "step_ended step att (core_at j (ws_step_id step))"
      using wave_core [OF wave cand(1), of "ws_step_id step"] att find_step_distinct [OF dist step] by auto
    ultimately show ?thesis by (rule candidate_work)
  qed
  have le: "?w j step \<le> ?w i step" if step: "step \<in> set (wd_steps d)" for step
  proof (cases "map_of (pl_dispatch p) (ws_step_id step)")
    case None
    then show ?thesis using wave_core [OF wave cand(1), of "ws_step_id step"] by simp
  next
    case (Some att)
    then show ?thesis using ended [OF step] by simp
  qed
  obtain c where c: "c \<in> set (pl_dispatch p)" using plan(2) by (cases "pl_dispatch p") auto
  obtain step where step: "step \<in> set (wd_steps d)" "candidate_ok i now step c" using cand(2) [OF c] by blast
  have "c = (ws_step_id step, snd c)" using step(2) by (simp add: candidate_ok_def prod_eq_iff)
  then have "map_of (pl_dispatch p) (ws_step_id step) = Some (snd c)"
    using c cand(1) map_of_is_SomeI by metis
  then have "\<exists>step \<in> set (wd_steps d). ?w j step < ?w i step" using ended step(1) by blast
  moreover have "distinct (wd_steps d)" using dist by (simp add: step_ids_def distinct_map)
  ultimately show ?thesis
    unfolding work_def by (simp add: sum_list_distinct_conv_sum_set sum_strict_mono_ex1 le)
qed

lemma core_work: "(\<And>sid. core_at j sid = core_at i sid) \<Longrightarrow> work d j = work d i"
  by (simp add: work_def)

text \<open>A step found in flight has its attempt still to take.\<close>

lemma recovered_core:
  assumes "applies defn i (map (\<lambda>(sid, st). StepStatusChanged sid ST_RUNNING ST_READY r)
      (filter (\<lambda>(sid, st). ss_status st = ST_RUNNING) (wi_step_states i))) j"
    and "distinct (dkeys (wi_step_states i))"
  shows "core_at j sid = (case core_at i sid of (st, a, n) \<Rightarrow> (if st = ST_RUNNING then ST_READY else st, a, n))"
proof -
  have go: "cores sid (st, a, n) (map (\<lambda>(sid, st). StepStatusChanged sid ST_RUNNING ST_READY r) xs) =
      (if sid \<in> fst ` set xs then ST_READY else st, a, n)" for st a n and xs :: "(string \<times> step_state) list"
    by (induction xs arbitrary: st) (auto split: prod.splits)
  have "sid \<in> fst ` set (filter (\<lambda>(sid, st). ss_status st = ST_RUNNING) xs) \<longleftrightarrow>
      (\<exists>st. map_of xs sid = Some st \<and> ss_status st = ST_RUNNING)" if "distinct (dkeys xs)" for xs
    using that by (induction xs) (auto simp: image_iff rev_image_eqI)
  from this [OF assms(2)] have "sid \<in> fst ` set (filter (\<lambda>(sid, st). ss_status st = ST_RUNNING) (wi_step_states i)) \<longleftrightarrow>
      ss_status (st_at i sid) = ST_RUNNING"
    by (auto simp: st_at_def new_step_state_def split: option.splits)
  then show ?thesis using applies_core [OF assms(1)] by (simp add: core_at_def go)
qed

lemma recovered_work:
  assumes "applies defn i (map (\<lambda>(sid, st). StepStatusChanged sid ST_RUNNING ST_READY r)
      (filter (\<lambda>(sid, st). ss_status st = ST_RUNNING) (wi_step_states i))) j"
    and "distinct (dkeys (wi_step_states i))"
  shows "work d j = work d i"
  unfolding work_def recovered_core [OF assms]
  by (intro arg_cong [where f = sum_list] map_cong refl) (auto simp: step_work_def core_at_def)


section \<open>The loop ends by itself\<close>

text \<open>The loop of a drive without its limit on the number of rounds.\<close>

inductive drive_loop ::
  "('s, 'g) driver \<Rightarrow> workflow_definition \<Rightarrow> lease \<Rightarrow> 'g \<Rightarrow> workflow_instance \<Rightarrow> 's \<Rightarrow> pexn + drive_report \<Rightarrow>
   's \<Rightarrow> bool" for dv d l g where
  raised: "run_round dv i d l g s = (Inl e, s') \<Longrightarrow> drive_loop dv d l g i s (Inl e) s'"
| reported: "run_round dv i d l g s = (Inr (Inr rep), s') \<Longrightarrow> drive_loop dv d l g i s (Inr rep) s'"
| again: "run_round dv i d l g s = (Inr (Inl j), t) \<Longrightarrow> drive_loop dv d l g j t r s' \<Longrightarrow>
    drive_loop dv d l g i s r s'"

text \<open>The rounds an instance may take before the last.\<close>

definition rounds_left :: "workflow_definition \<Rightarrow> workflow_instance \<Rightarrow> nat" where
  "rounds_left d i = work d i + (if wi_status i \<in> {WF_PENDING, WF_RETRYING} then 1 else 0)"

lemma wave_status:
  assumes "wave dv d w i cs j"
  shows "wi_status j = wi_status i \<or> wi_status j = WF_WAITING_APPROVAL"
proof -
  obtain bodies i1 results now rvs where b: "started_bodies i w cs = Inr bodies" "applies (Some d) i bodies i1"
    and ap: "applies (Some d) i1 (concat (map outcome_bodies results) @ retry_bodies now results @ rvs) j"
    and rv: "if reviews_of results = [] then rvs = [] else wi_status j = WF_WAITING_APPROVAL"
    using assms unfolding wave_def settled_def by (metis (no_types, lifting))
  have s: "foldl (\<lambda>w b. body_status b w) c bodies = c" for c
    using b(1) by (induction cs arbitrary: bodies c) (auto simp: rbind_eq_Inr split: if_splits)
  have o: "foldl (\<lambda>w b. body_status b w) c (concat (map outcome_bodies results)) = c" for c
    by (rule foldl_unchanged)
      (auto simp: outcome_bodies_def effect_bodies_def end_body_def split: prod.splits if_splits)
  have r: "foldl (\<lambda>w b. body_status b w) c (retry_bodies now results) = c" for c
    by (rule foldl_unchanged) (auto simp: retry_bodies_def split: prod.splits if_splits)
  show ?thesis
  proof (cases "reviews_of results = []")
    case True
    then have "rvs = []" using rv by simp
    then show ?thesis using applies_status [OF ap] applies_status [OF b(2)] by (simp add: s o r)
  qed (use rv in simp)
qed

lemma round_work:
  assumes "round_moves dv d w i j" "distinct (step_ids d)"
  shows "rounds_left d j < rounds_left d i"
  using assms(1) unfolding round_moves_def
proof (elim disjE conjE exE, goal_cases)
  case 1
  then show ?case using core_work [of j i d] applies_core [OF 1(1)] applies_status [OF 1(1)] by (simp add: rounds_left_def)
next
  case 2
  then show ?case using core_work [of j i d] applies_core [OF 2(1)] applies_status [OF 2(1)] by (simp add: rounds_left_def)
next
  case (3 now p)
  then show ?case using wave_work [OF 3(2,3) assms(2) 3(4)] wave_status [OF 3(4)] by (auto simp: rounds_left_def)
qed

context driver_journal begin

lemma loop_ends:
  assumes "distinct (step_ids d)" "synced (Some d) iid tid L i s" "rounds_left d i < n"
  shows "\<exists>r s'. drive_loop dv d l g i s r s' \<and> run_rounds n dv i d l g s = (r, s')"
  using assms(2,3)
proof (induction n arbitrary: i s)
  case (Suc n)
  obtain q t where q: "run_round dv i d l g s = (q, t)" by (metis surj_pair)
  have ends: "round_ends d iid tid L (round_moves dv d (la_worker_id l) i) q t"
    using tripleD [OF run_round_triple Suc.prems(1) q] .
  show ?case
  proof (cases q)
    case (Inl e)
    then show ?thesis using q drive_loop.raised by (fastforce simp: ebind_def)
  next
    case (Inr x)
    show ?thesis
    proof (cases x)
      case x: (Inr rep)
      then show ?thesis using q Inr drive_loop.reported by (fastforce simp: ebind_def ereturn_def)
    next
      case x: (Inl j)
      then have j: "synced (Some d) iid tid L j t" "round_moves dv d (la_worker_id l) i j"
        using ends Inr by (simp_all add: round_ends_def)
      have "rounds_left d j < n" using round_work [OF j(2) assms(1)] Suc.prems(2) by simp
      from Suc.IH [OF j(1) this] obtain r s' where "drive_loop dv d l g j t r s'" "run_rounds n dv j d l g t = (r, s')"
        by blast
      then show ?thesis using q Inr x drive_loop.again by (fastforce simp: ebind_def)
    qed
  qed
qed simp

end


section \<open>Never idle\<close>

text \<open>Every step of the definition is there and none waits for a person or was undone.\<close>

definition able :: "workflow_definition \<Rightarrow> workflow_instance \<Rightarrow> bool" where
  "able d i \<longleftrightarrow> inst_ok i \<and> open_escalations i = {} \<and>
     (\<forall>sid \<in> set (step_ids d). sid \<in> set (dkeys (wi_step_states i)) \<and>
        ss_status (st_at i sid) \<notin> {ST_WAITING_APPROVAL, ST_COMPENSATED})"

definition none_running :: "workflow_instance \<Rightarrow> bool" where
  "none_running i \<longleftrightarrow> (\<forall>sid. ss_status (st_at i sid) \<noteq> ST_RUNNING)"

lemma none_running_steps: "inst_ok i \<Longrightarrow> none_running i \<Longrightarrow> running_steps i = 0"
  by (auto simp: running_steps_def none_running_def inst_ok_def st_at_def filter_empty_conv
      dest: map_of_is_SomeI split: option.splits)

text \<open>What a scan that finds nothing says of the steps.\<close>

lemma scan_step_grows:
  assumes "scan_step i now sn step = Inr sn'"
  shows "(sn_terminal sn \<noteq> None \<longrightarrow> sn_terminal sn' \<noteq> None) \<and> (sn_wakeup sn \<noteq> None \<longrightarrow> sn_wakeup sn' \<noteq> None) \<and>
    (ss_status (st_at i (ws_step_id step)) = ST_FAILED \<longrightarrow>
       sn_candidates sn' \<noteq> [] \<or> sn_terminal sn' \<noteq> None \<or> sn_wakeup sn' \<noteq> None)"
  using assms by (auto simp: scan_step_def step_of_def st_at_def rbind_eq_Inr split: option.splits if_splits)

lemma scan_grows:
  assumes "rfoldl (scan_step i now) sn steps = Inr sn'"
  shows "(sn_terminal sn \<noteq> None \<longrightarrow> sn_terminal sn' \<noteq> None) \<and> (sn_wakeup sn \<noteq> None \<longrightarrow> sn_wakeup sn' \<noteq> None) \<and>
    (sn_candidates sn \<noteq> [] \<longrightarrow> sn_candidates sn' \<noteq> [])"
  using assms
proof (induction steps arbitrary: sn)
  case (Cons step steps)
  then obtain s1 where s1: "scan_step i now sn step = Inr s1" "rfoldl (scan_step i now) s1 steps = Inr sn'"
    by (auto simp: rbind_eq_Inr)
  have "sn_candidates sn \<noteq> [] \<longrightarrow> sn_candidates s1 \<noteq> []"
    using s1(1) by (cases rule: scan_step_cases) auto
  then show ?case using Cons.IH [OF s1(2)] scan_step_grows [OF s1(1)] by blast
qed simp

lemma scan_finds_nothing:
  assumes "rfoldl (scan_step i now) sn steps = Inr sn'" "step \<in> set steps"
    and "sn_candidates sn' = []" "sn_terminal sn' = None" "sn_wakeup sn' = None"
  shows "ss_status (st_at i (ws_step_id step)) \<noteq> ST_FAILED \<and>
    (ss_status (st_at i (ws_step_id step)) \<in> {ST_PENDING, ST_READY} \<longrightarrow> deps_done i (ws_dependencies step) \<noteq> Inr True)"
  using assms
proof (induction steps arbitrary: sn)
  case (Cons x xs)
  then obtain s1 where s1: "scan_step i now sn x = Inr s1" "rfoldl (scan_step i now) s1 xs = Inr sn'"
    by (auto simp: rbind_eq_Inr)
  show ?case
  proof (cases "step = x")
    case True
    have none: "sn_candidates s1 = [] \<and> sn_terminal s1 = None \<and> sn_wakeup s1 = None"
      using scan_grows [OF s1(2)] Cons.prems(3-5) by blast
    from s1(1) show ?thesis
    proof (cases rule: scan_step_cases)
      case same
      then show ?thesis using True none scan_step_grows [OF s1(1)] by auto
    qed (use none in simp)
  next
    case False
    then show ?thesis using Cons.IH [OF s1(2)] Cons.prems by simp
  qed
qed simp

lemma deps_done_all:
  "(\<And>dep. dep \<in> set deps \<Longrightarrow> dep \<in> set (dkeys (wi_step_states i)) \<and> ss_status (st_at i dep) \<in> DONE) \<Longrightarrow>
   deps_done i deps = Inr True"
proof (induction deps)
  case (Cons dep deps)
  then obtain st where "dget (wi_step_states i) dep = Some st"
    using dget_None_iff by (metis list.set_intros(1) not_Some_eq)
  then show ?case using Cons.IH Cons.prems Cons.prems [of dep] by (simp add: step_of_def st_at_def)
qed simp

lemma all_settled_done:
  "(\<And>step. step \<in> set steps \<Longrightarrow> ws_step_id step \<in> set (dkeys (wi_step_states i)) \<and>
      ss_status (st_at i (ws_step_id step)) \<in> DONE) \<Longrightarrow> all_settled i steps = Inr True"
proof (induction steps)
  case (Cons step steps)
  then obtain st where "dget (wi_step_states i) (ws_step_id step) = Some st"
    using dget_None_iff by (metis list.set_intros(1) not_Some_eq)
  moreover have "DONE \<subseteq> SETTLED" by (auto simp: DONE_def SETTLED_def)
  ultimately show ?case
    using Cons.IH Cons.prems Cons.prems [of step] by (auto simp: step_of_def st_at_def)
qed simp

text \<open>A plan that leaves nothing to do.\<close>

definition idle_plan :: "plan \<Rightarrow> bool" where
  "idle_plan p \<longleftrightarrow> pl_budget_blocked_step p = None \<and> pl_approval_needed p = [] \<and> pl_terminal_failure p = None \<and>
     pl_dispatch p = [] \<and> \<not> pl_all_settled p \<and> pl_retry_wakeup p = None"

lemma plan_not_idle:
  assumes plan: "make_plan i d now = Inr p" and able: "able d i" "none_running i"
    and wf: "wf_definition d" "1 \<le> wd_max_concurrent_steps d"
  shows "\<not> idle_plan p"
proof
  assume idle: "idle_plan p"
  have run: "running_steps i = 0" using able none_running_steps by (simp add: able_def)
  from plan show False
  proof (cases rule: make_plan_cases)
    case (go sn b)
    have disp: "pl_dispatch p = []" and nb: "\<not> b" and wake: "sn_wakeup sn = None"
      using idle unfolding idle_plan_def go(5) by (simp_all add: empty_plan_def)
    have "free_slots i d \<noteq> 0" using wf(2) run by (simp add: free_slots_def)
    moreover have "filter (\<lambda>c. fst c \<notin> open_escalations i) (sn_candidates sn) = sn_candidates sn"
      using able(1) by (simp add: able_def)
    ultimately have cand: "sn_candidates sn = []" using disp unfolding go(5) by (simp add: empty_plan_def)
    have settled: "all_settled i (wd_steps d) = Inr b" using go(6) disp wake run by simp
    note no_scan = scan_finds_nothing [OF go(1) [unfolded scan_of_def] _ cand go(2) wake]
    define U where "U = {sid \<in> set (step_ids d). ss_status (st_at i sid) \<notin> DONE}"
    have "U \<noteq> {}"
    proof
      assume "U = {}"
      then have "all_settled i (wd_steps d) = Inr True"
        using able(1) by (intro all_settled_done) (auto simp: U_def able_def step_ids_def)
      then show False using settled nb by simp
    qed
    moreover have "wf ((dep_rel (graph_of d))\<inverse>)"
      using wf(1) finite_dep_rel by (intro finite_acyclic_wf_converse) (simp_all add: wf_definition_def)
    ultimately obtain sid where sid: "sid \<in> U" "\<And>dep. (dep, sid) \<in> (dep_rel (graph_of d))\<inverse> \<Longrightarrow> dep \<notin> U"
      by (meson ex_in_conv wfE_min)
    then obtain step where step: "step \<in> set (wd_steps d)" "ws_step_id step = sid"
      by (auto simp: U_def step_ids_def)
    have "dep \<in> set (dkeys (wi_step_states i)) \<and> ss_status (st_at i dep) \<in> DONE"
      if dep: "dep \<in> set (ws_dependencies step)" for dep
    proof -
      have "(dep, sid) \<in> (dep_rel (graph_of d))\<inverse>" using step dep by (auto simp: dep_rel_def graph_of_def)
      then have "dep \<notin> U" by (rule sid(2))
      moreover have "dep \<in> set (step_ids d)" using wf(1) step(1) dep by (auto simp: wf_definition_def)
      ultimately show ?thesis using able(1) by (simp add: U_def able_def)
    qed
    then have "deps_done i (ws_dependencies step) = Inr True" by (rule deps_done_all)
    then have "ss_status (st_at i sid) \<notin> {ST_PENDING, ST_READY, ST_FAILED}"
      using no_scan [OF step(1)] unfolding step(2) by simp
    moreover have "ss_status (st_at i sid) \<notin> {ST_RUNNING, ST_WAITING_APPROVAL, ST_COMPENSATED} \<union> DONE"
      using able sid(1) by (auto simp: able_def none_running_def U_def)
    ultimately show False by (cases "ss_status (st_at i sid)") (auto simp: DONE_def)
  qed (use idle in \<open>simp_all add: idle_plan_def empty_plan_def\<close>)
qed


lemma applies_inst_ok: "applies d i bodies j \<Longrightarrow> inst_ok i \<Longrightarrow> inst_ok j"
  by (auto simp: applies_def dest: fold_events_inst_ok_base)

lemma wave_no_escalation:
  assumes "wave dv d w i cs j" "wi_status j \<noteq> WF_WAITING_APPROVAL"
  shows "wi_escalations j = wi_escalations i"
proof -
  obtain bodies i1 results now rvs where b: "started_bodies i w cs = Inr bodies" "applies (Some d) i bodies i1"
    and ap: "applies (Some d) i1 (concat (map outcome_bodies results) @ retry_bodies now results @ rvs) j"
    and rv: "if reviews_of results = [] then rvs = [] else wi_status j = WF_WAITING_APPROVAL"
    using assms unfolding wave_def settled_def by (metis (no_types, lifting))
  have s: "foldl (\<lambda>es b. body_escs b es) c bodies = c" for c
    using b(1) by (induction cs arbitrary: bodies c) (auto simp: rbind_eq_Inr split: if_splits)
  have o: "foldl (\<lambda>es b. body_escs b es) c (concat (map outcome_bodies results)) = c" for c
    by (rule foldl_unchanged)
      (auto simp: outcome_bodies_def effect_bodies_def end_body_def split: prod.splits if_splits)
  have r: "foldl (\<lambda>es b. body_escs b es) c (retry_bodies now results) = c" for c
    by (rule foldl_unchanged) (auto simp: retry_bodies_def split: prod.splits if_splits)
  have "rvs = []" using rv assms(2) by (simp split: if_splits)
  then show ?thesis using applies_escs [OF ap] applies_escs [OF b(2)] by (simp add: s o r)
qed

lemma wave_able:
  assumes able: "able d i" "none_running i" and wave: "wave dv d w i cs j"
    and cs: "distinct (map fst cs)" and st: "wi_status j \<noteq> WF_WAITING_APPROVAL"
  shows "able d j \<and> none_running j"
proof -
  obtain bodies i1 bodies' where ap: "applies (Some d) i bodies i1" "applies (Some d) i1 bodies' j"
    using wave unfolding wave_def settled_def by blast
  have ok: "inst_ok j" using ap able(1) applies_inst_ok by (auto simp: able_def)
  have keys: "set (dkeys (wi_step_states i)) \<subseteq> set (dkeys (wi_step_states j))"
    using applies_keys [OF ap(1)] applies_keys [OF ap(2)] by simp
  have esc: "open_escalations j = open_escalations i"
    using wave_no_escalation [OF wave st] by (simp add: open_escalations_def)
  have core: "ss_status (st_at j sid) = ss_status (st_at i sid) \<or> ss_status (st_at j sid) \<in> {ST_COMPLETED, ST_FAILED}" for sid
  proof (cases "map_of cs sid")
    case None
    then show ?thesis using wave_core [OF wave cs, of sid] by (simp add: core_at_def)
  next
    case (Some att)
    then show ?thesis using wave_core [OF wave cs, of sid] st by (auto simp: core_at_def step_ended_def)
  qed
  have "none_running j" unfolding none_running_def
  proof
    show "ss_status (st_at j sid) \<noteq> ST_RUNNING" for sid
      using core [of sid] able(2) by (auto simp: none_running_def)
  qed
  moreover have "able d j" unfolding able_def
  proof (intro conjI ballI)
    fix sid assume sid: "sid \<in> set (step_ids d)"
    then show "sid \<in> set (dkeys (wi_step_states j))" using able(1) keys by (auto simp: able_def)
    show "ss_status (st_at j sid) \<notin> {ST_WAITING_APPROVAL, ST_COMPENSATED}"
      using core [of sid] able(1) sid by (auto simp: able_def)
  qed (use ok esc able(1) in \<open>simp_all add: able_def\<close>)
  ultimately show ?thesis by simp
qed

text \<open>Either the instance waits for a person or it can go on.\<close>

definition going :: "workflow_definition \<Rightarrow> workflow_instance \<Rightarrow> bool" where
  "going d i \<longleftrightarrow> wi_status i = WF_WAITING_APPROVAL \<or> able d i \<and> none_running i"

lemma round_going:
  assumes "round_moves dv d w i j" "going d i" "distinct (step_ids d)"
  shows "going d j"
  using assms(1) unfolding round_moves_def
proof (elim disjE conjE exE, goal_cases)
  case 3: (3 now p)
  then show ?case
    using wave_able [OF _ _ 3(4) plan_candidates(1) [OF 3(2,3) assms(3)]] assms(2) 3(1) by (auto simp: going_def)
next
  case 1
  have "able d i" "none_running i" using assms(2) 1(2) by (simp_all add: going_def)
  then show ?case
    using applies_inst_ok [OF 1(1)] applies_core [OF 1(1)] applies_escs [OF 1(1)] applies_keys [OF 1(1)]
    by (auto simp: going_def able_def none_running_def core_at_def open_escalations_def)
next
  case 2
  have "able d i" "none_running i" using assms(2) 2(2) by (simp_all add: going_def)
  then show ?case
    using applies_inst_ok [OF 2(1)] applies_core [OF 2(1)] applies_escs [OF 2(1)] applies_keys [OF 2(1)]
    by (auto simp: going_def able_def none_running_def core_at_def open_escalations_def)
qed

text \<open>Only an idle plan is reported as idle.\<close>

lemma policy_not_idle:
  "apply_failure_policy dv i d f g s = (Inr rep, s') \<Longrightarrow> rep_result rep \<noteq> DR_IDLE"
  by (auto simp: apply_failure_policy_def escalate_cost_threshold_def escalate_max_retries_def rollback_def
      escalate_compensation_failure_def park_with_escalation_def ebind_eq_Inr ereturn_def ethrow_def report_def
      split: prod.splits if_splits on_failure.splits option.splits sum.splits)

lemma follow_plan_not_idle:
  assumes "follow_plan dv i d p l g s = (Inr (Inr rep), s')" "\<not> idle_plan p"
  shows "rep_result rep \<noteq> DR_IDLE"
  using assms
  by (auto simp: follow_plan_def idle_plan_def block_on_budget_def escalate_for_approval_def complete_instance_def
      ebind_eq_Inr ereturn_def report_def split: option.splits if_splits dest: policy_not_idle)

lemma round_not_idle:
  assumes run: "run_round dv i d l g s = (Inr (Inr rep), s')" and "going d i"
    and wf: "wf_definition d" "1 \<le> wd_max_concurrent_steps d"
  shows "rep_result rep \<noteq> DR_IDLE"
proof (cases "parked_result (wi_status i)")
  case (Some r)
  then show ?thesis using run by (cases "wi_status i") (auto simp: run_round_def ereturn_def report_def)
next
  case None
  then have able: "able d i" "none_running i" using assms(2) by (auto simp: going_def)
  obtain now p where p: "make_plan i d now = Inr p" "follow_plan dv i d p l g s = (Inr (Inr rep), s')"
    using run None
    by (auto simp: run_round_def ebind_eq_Inr ereturn_def now_of_def lift_res_def split: if_splits sum.splits)
  show ?thesis by (rule follow_plan_not_idle [OF p(2) plan_not_idle [OF p(1) able wf]])
qed

context driver_journal begin

lemma rounds_not_idle:
  assumes "synced (Some d) iid tid L i s" "going d i" "run_rounds n dv i d l g s = (Inr rep, s')"
    and wf: "wf_definition d" "1 \<le> wd_max_concurrent_steps d"
  shows "rep_result rep \<noteq> DR_IDLE"
  using assms(1-3)
proof (induction n arbitrary: i s)
  case (Suc n)
  obtain x t where x: "run_round dv i d l g s = (Inr x, t)"
    "(case x of Inl j \<Rightarrow> run_rounds n dv j d l g | Inr rep \<Rightarrow> ereturn rep) t = (Inr rep, s')"
    using Suc.prems(3) by (auto simp: ebind_eq_Inr)
  show ?case
  proof (cases x)
    case (Inr rep')
    then show ?thesis using round_not_idle [OF x(1) [unfolded Inr] Suc.prems(2) wf] x(2) by (simp add: ereturn_def)
  next
    case (Inl j)
    have "round_ends d iid tid L (round_moves dv d (la_worker_id l) i) (Inr x) t"
      using tripleD [OF run_round_triple Suc.prems(1) x(1)] .
    then have j: "synced (Some d) iid tid L j t" "round_moves dv d (la_worker_id l) i j"
      using Inl by (simp_all add: round_ends_def)
    have "distinct (step_ids d)" using wf(1) by (simp add: wf_definition_def)
    from Suc.IH [OF j(1) round_going [OF j(2) Suc.prems(2) this]] show ?thesis using x(2) Inl by simp
  qed
qed (simp add: ethrow_def)


lemma recovered_going:
  assumes "applies (Some d) i (map (\<lambda>(sid, st). StepStatusChanged sid ST_RUNNING ST_READY r)
      (filter (\<lambda>(sid, st). ss_status st = ST_RUNNING) (wi_step_states i))) j" "able d i"
  shows "able d j \<and> none_running j \<and> wi_status j = wi_status i"
proof -
  let ?bs = "map (\<lambda>(sid, st). StepStatusChanged sid ST_RUNNING ST_READY r)
      (filter (\<lambda>(sid, st). ss_status st = ST_RUNNING) (wi_step_states i))"
  have "inst_ok i" using assms(2) by (simp add: able_def)
  then have core: "core_at j sid = (case core_at i sid of (st, a, n) \<Rightarrow> (if st = ST_RUNNING then ST_READY else st, a, n))" for sid
    using recovered_core [OF assms(1)] by (simp add: inst_ok_def)
  have "foldl (\<lambda>es b. body_escs b es) c ?bs = c" for c by (rule foldl_unchanged) (auto split: prod.splits)
  then have esc: "wi_escalations j = wi_escalations i" using applies_escs [OF assms(1)] by simp
  have "foldl (\<lambda>w b. body_status b w) c ?bs = c" for c by (rule foldl_unchanged) (auto split: prod.splits)
  then have "wi_status j = wi_status i" using applies_status [OF assms(1)] by simp
  moreover have st: "ss_status (st_at j sid) = (if ss_status (st_at i sid) = ST_RUNNING then ST_READY else ss_status (st_at i sid))" for sid
    using core [of sid] by (simp add: core_at_def)
  moreover have "inst_ok j" using applies_inst_ok [OF assms(1) \<open>inst_ok i\<close>] .
  moreover have "sid \<in> set (dkeys (wi_step_states j))" if "sid \<in> set (step_ids d)" for sid
    using that assms(2) applies_keys [OF assms(1)] by (auto simp: able_def)
  ultimately show ?thesis using assms(2) esc
    by (simp add: able_def none_running_def open_escalations_def)
qed

lemma drive_converges:
  assumes "ok s" "dv_get_instance dv s iid tid (Some d) = Inr (Some i)" "inst_ok i" "distinct (step_ids d)"
    and rec: "recover_in_flight dv i d g s = (Inr j, t)" and n: "rounds_left d i < n"
  shows "\<exists>r s'. drive_loop dv d l g j t r s' \<and> run_rounds n dv j d l g t = (r, s')"
proof -
  have "synced (Some d) iid tid (lg s) i s" using assms(1,2) by (simp add: synced_def)
  from tripleD [OF recover_triple this rec]
  have j: "synced (Some d) iid tid (lg s) j t"
    and ap: "applies (Some d) i (map (\<lambda>(sid, st). StepStatusChanged sid ST_RUNNING ST_READY (Some ''worker-recovered''))
          (filter (\<lambda>(sid, st). ss_status st = ST_RUNNING) (wi_step_states i))) j"
    by (simp_all add: moves_def)
  let ?bs = "map (\<lambda>(sid, st). StepStatusChanged sid ST_RUNNING ST_READY (Some ''worker-recovered''))
          (filter (\<lambda>(sid, st). ss_status st = ST_RUNNING) (wi_step_states i))"
  have "foldl (\<lambda>w b. body_status b w) c ?bs = c" for c by (rule foldl_unchanged) (auto split: prod.splits)
  then have "wi_status j = wi_status i" using applies_status [OF ap] by simp
  then have "rounds_left d j = rounds_left d i"
    using recovered_work [OF ap, of d] assms(3) by (simp add: rounds_left_def inst_ok_def)
  then show ?thesis using loop_ends [OF assms(4) j] n by simp
qed

lemma drive_not_idle:
  assumes "ok s" and d: "dv_get_definition dv s (la_workflow_id l) (la_workflow_version l) (la_tenant_id l) = Some d"
    and i: "dv_get_instance dv s (la_instance_id l) (la_tenant_id l) (Some d) = Inr (Some i)" and able: "able d i"
    and wf: "wf_definition d" "1 \<le> wd_max_concurrent_steps d"
    and run: "drive dv l g s = (Inr rep, s')"
  shows "rep_result rep \<noteq> DR_IDLE"
proof -
  have sy: "synced (Some d) (la_instance_id l) (la_tenant_id l) (lg s) i s" using assms(1) i by (simp add: synced_def)
  obtain r where r: "ebind (recover_in_flight dv i d g) (\<lambda>i. run_rounds MAX_DRIVE_ITERATIONS dv i d l g) s = (r, s')"
    "r = Inr rep \<or> rep_result rep = DR_LEASE_LOST"
    using run d i by (auto simp: drive_def split: prod.splits sum.splits if_splits)
  show ?thesis
  proof (cases "r = Inr rep")
    case True
    then obtain j t where j: "recover_in_flight dv i d g s = (Inr j, t)"
      "run_rounds MAX_DRIVE_ITERATIONS dv j d l g t = (Inr rep, s')"
      using r(1) by (auto simp: ebind_eq_Inr)
    from tripleD [OF recover_triple sy j(1)]
    have sj: "synced (Some d) (la_instance_id l) (la_tenant_id l) (lg s) j t" and "able d j \<and> none_running j"
      using recovered_going able by (auto simp: moves_def)
    then have "going d j" by (simp add: going_def)
    from rounds_not_idle [OF sj this j(2) wf] show ?thesis .
  qed (use r(2) in auto)
qed

end

end
