(* ===== verification/Engine.thy ===== *)
theory Engine
  imports Driver_Progress DefinitionRepo DeadLetter Executor
begin

text \<open>
  \<open>bootstrap.py\<close>: the engine as it is wired. The driver runs over the Postgres event store, the
  definition repository, the executor with the side-effect guard and the model client, the budget
  ledger, the dead-letter queue and the notifier. The interpretation shows that these
  collaborators keep the journal the way the driver relies on.
\<close>

section \<open>Wiring\<close>

text \<open>
  What \<open>build_engine\<close> is given or reads from the settings: the step runners, the action
  providers, the model client, the tenant's daily limit, the notifier, and the world's clock,
  ids and other awaits.
\<close>

record 'w engine_config =
  en_registry :: step_registry
  en_providers :: "'w provider_registry"
  en_llm :: "'w llm_client"
  en_daily_limit_usd :: "usd option"
  en_notifier :: "'w notifier"
  en_ports :: "'w ports"
  en_await :: "string \<Rightarrow> ('w, pexn, json) eff"
  en_digest :: "json \<Rightarrow> string"

definition engine_guard :: "'w engine_config \<Rightarrow> (db, 'w) side_effect_guard" where
  "engine_guard ec = pg_guard (en_providers ec) (en_digest ec)"

definition engine_services :: "'w engine_config \<Rightarrow> bool \<Rightarrow> (db \<times> 'w) step_services" where
  "engine_services ec with_llm =
     \<lparr>sv_guard = Some (execute (engine_guard ec)),
      sv_llm = (if with_llm then Some (\<lambda>c budget. on_world (complete (en_llm ec) c budget)) else None),
      sv_await = (\<lambda>what. on_world (en_await ec what)),
      sv_now = (\<lambda>s. pt_now (en_ports ec) (snd s)),
      sv_digest = en_digest ec\<rparr>"

definition engine_budget :: "'w engine_config \<Rightarrow> (db \<times> 'w) budget_service" where
  "engine_budget ec =
     \<lparr>bs_spent_today = (\<lambda>tid day. on_db (pg_spent_today tid day)),
      bs_record = (\<lambda>tid day amount. on_db (pg_record tid day amount)),
      bs_daily_limit = en_daily_limit_usd ec\<rparr>"

definition engine_driver :: "'w engine_config \<Rightarrow> (db \<times> 'w, guard) driver" where
  "engine_driver ec =
     \<lparr>dv_append_new = pg_append, dv_get_instance = pg_get,
      dv_get_definition = (\<lambda>s. defn_get (fst s)),
      dv_run_attempt = (\<lambda>with_llm. run_attempt (en_registry ec) (engine_services ec with_llm)),
      dv_dead_letter = (\<lambda>i sid reason. on_db (dlq_record i sid reason)),
      dv_compensate = Some (compensate_instance (engine_guard ec)),
      dv_budget = Some (engine_budget ec),
      dv_notifier = Some (\<lambda>note. on_world (en_notifier ec note)),
      dv_ports = world_ports (en_ports ec)\<rparr>"

section \<open>Collaborators leave the journal alone\<close>

definition keeps :: "('s \<Rightarrow> 's \<Rightarrow> bool) \<Rightarrow> ('s, 'e, 'a) eff \<Rightarrow> bool" where
  "keeps R m \<longleftrightarrow> (\<forall>s r s'. m s = (r, s') \<longrightarrow> R s s')"

lemma keepsD: "keeps R m \<Longrightarrow> m s = (r, s') \<Longrightarrow> R s s'"
  by (simp add: keeps_def)

lemma keeps_ereturn: "reflp R \<Longrightarrow> keeps R (ereturn x)"
  by (simp add: keeps_def ereturn_def reflp_def)

lemma keeps_ethrow: "reflp R \<Longrightarrow> keeps R (ethrow x)"
  by (simp add: keeps_def ethrow_def reflp_def)

lemma keeps_etry: "keeps R m \<Longrightarrow> keeps R (etry m)"
  by (auto simp: keeps_def etry_def split: prod.splits sum.splits)

lemma keeps_ebind:
  assumes "transp R" "keeps R m" "\<And>x. keeps R (f x)"
  shows "keeps R (ebind m f)"
  unfolding keeps_def
proof (intro allI impI)
  fix s r s' assume "ebind m f s = (r, s')"
  then show "R s s'"
  proof (cases rule: ebind_cases)
    case (raised e)
    then show ?thesis using assms(2) keepsD by metis
  next
    case (returned x t)
    show ?thesis
      using transpD [OF assms(1) keepsD [OF assms(2) returned(1)] keepsD [OF assms(3) returned(2)]] .
  qed
qed

text \<open>A program keeps what the services behind its context keep.\<close>

lemma run_prog_keeps:
  assumes R: "reflp R" "transp R"
    and guard: "\<And>f a. sv_guard sv = Some f \<Longrightarrow> keeps R (f a)"
    and model: "\<And>f c b. sv_llm sv = Some f \<Longrightarrow> keeps R (f c b)"
    and await: "\<And>what. keeps R (sv_await sv what)"
  shows "keeps (\<lambda>cs cs'. R (snd cs) (snd cs')) (run_prog sv dl p)"
proof -
  let ?R = "\<lambda>(cs :: step_context \<times> 'a) cs'. R (snd cs) (snd cs')"
  have refl: "R s s" for s using R(1) by (simp add: reflp_def)
  have deliver: "keeps ?R (deliver sv dl m k)"
    if m: "keeps ?R m" and k: "\<And>x. keeps ?R (k x)"
    for m :: "(step_context \<times> 'a, pexn, 'x) eff" and k :: "pexn + 'x \<Rightarrow> (step_context \<times> 'a, pexn, step_result) eff"
    unfolding keeps_def
  proof (intro allI impI)
    fix cs r cs' assume run: "deliver sv dl m k cs = (r, cs')"
    obtain q ctx t where q: "m cs = (q, (ctx, t))" by (metis surj_pair)
    have t: "R (snd cs) t" using keepsD [OF m q] by simp
    consider "snd cs' = t" | "k q (ctx, t) = (r, cs')"
      using run q by (auto simp: deliver_def split: if_splits sum.splits)
    then show "R (snd cs) (snd cs')"
    proof cases
      case 2
      from keepsD [OF k this] have "R t (snd cs')" by simp
      then show ?thesis by (rule transpD [OF R(2) t])
    qed (simp add: t)
  qed
  have eff: "keeps ?R (execute_effect sv name params provider)" for name params provider
    by (auto simp: keeps_def execute_effect_def refl split: option.splits prod.splits sum.splits
        dest!: keepsD [OF guard])
  have mod: "keeps ?R (llm sv c)" for c
    by (auto simp: keeps_def llm_def Let_def refl split: option.splits prod.splits sum.splits if_splits
        dest!: keepsD [OF model])
  have aw: "keeps ?R (\<lambda>(ctx, s). case sv_await sv what s of (r, s') \<Rightarrow> (r, (ctx, s')))" for what
    by (auto simp: keeps_def split: prod.splits dest!: keepsD [OF await])
  show ?thesis
  proof (induction p)
    case (CallLLM c k)
    have "keeps ?R (deliver sv dl (llm sv c) (\<lambda>r. run_prog sv dl (k r)))"
      by (rule deliver [OF mod]) (rule CallLLM.IH, simp)
    moreover have "keeps ?R (\<lambda>cs. case llm sv c cs of (r, cs') \<Rightarrow> run_prog sv dl (k r) cs')"
      unfolding keeps_def
    proof (intro allI impI)
      fix cs r cs' assume "(case llm sv c cs of (r, cs') \<Rightarrow> run_prog sv dl (k r) cs') = (r, cs')"
      then obtain q cs1 where q: "llm sv c cs = (q, cs1)" "run_prog sv dl (k q) cs1 = (r, cs')"
        by (auto split: prod.splits)
      have "keeps ?R (run_prog sv dl (k q))" by (rule CallLLM.IH) simp
      from transpD [OF R(2) keepsD [OF mod q(1)] keepsD [OF this q(2)]]
      show "R (snd cs) (snd cs')" .
    qed
    ultimately show ?case by (simp add: keeps_def)
  next
    case (Charge c p)
    then show ?case by (simp add: keeps_def)
  next
    case (RequestReview rv p)
    then show ?case by (simp add: keeps_def)
  next
    case (ExecuteEffect name params provider k)
    then show ?case by (simp add: deliver [OF eff])
  next
    case (Await what k)
    then show ?case by (simp add: deliver [OF aw])
  qed (auto simp: keeps_def ereturn_def ethrow_def refl)
qed

lemma run_attempt_keeps:
  assumes "reflp R" "\<And>dl p. keeps (\<lambda>cs cs'. R (snd cs) (snd cs')) (run_prog sv dl p)"
  shows "keeps R (run_attempt reg sv ctx timeout)"
  using assms(1)
  by (auto simp: keeps_def run_attempt_def reflp_def split: sum.splits prod.splits if_splits
      dest!: keepsD [OF assms(2)])

text \<open>The outbox, the ledger and the dead-letter queue have tables of their own.\<close>

definition journal_tables :: "db \<times> 'w \<Rightarrow> db \<times> 'w \<Rightarrow> bool" where
  "journal_tables s s' \<longleftrightarrow> db_events (fst s') = db_events (fst s) \<and>
     db_snapshots (fst s') = db_snapshots (fst s) \<and> db_index (fst s') = db_index (fst s) \<and>
     db_definitions (fst s') = db_definitions (fst s)"

definition service_db :: "db \<Rightarrow> db \<Rightarrow> bool" where
  "service_db d d' \<longleftrightarrow> db_events d' = db_events d \<and> db_snapshots d' = db_snapshots d \<and>
     db_index d' = db_index d \<and> db_definitions d' = db_definitions d \<and> db_leases d' = db_leases d \<and>
     db_escalations d' = db_escalations d \<and> db_api_keys d' = db_api_keys d"

definition service_tables :: "db \<times> 'w \<Rightarrow> db \<times> 'w \<Rightarrow> bool" where
  "service_tables s s' \<longleftrightarrow> service_db (fst s) (fst s')"

lemma service_tables_order: "reflp service_tables" "transp service_tables"
  by (auto simp: service_tables_def service_db_def reflp_def transp_def)

lemmas keeps_tables =
  keeps_ereturn [OF service_tables_order(1)] keeps_ethrow [OF service_tables_order(1)]
  keeps_ebind [OF service_tables_order(2)] keeps_etry

lemma tables_same_journal: "journal_tables s s' \<Longrightarrow> same_journal pg_get pg_log pg_ok s s'"
  by (rule same_tables) (simp_all add: journal_tables_def)

lemma service_journal: "service_tables s s' \<Longrightarrow> journal_tables s s'"
  by (simp add: service_tables_def service_db_def journal_tables_def)

lemma on_world_tables: "keeps service_tables (on_world m)"
  by (auto simp: keeps_def on_world_def service_tables_def service_db_def split: prod.splits)

lemma on_db_tables:
  "(\<And>d r d'. m d = (r, d') \<Longrightarrow> service_db d d') \<Longrightarrow> keeps service_tables (on_db m)"
  by (fastforce simp: keeps_def on_outbox_def service_tables_def split: prod.splits)

lemma claim_tables: "keeps service_tables (on_db (pg_claim e))"
  by (rule on_db_tables) (auto simp: pg_claim_def Let_def service_db_def split: if_splits)

lemma mark_tables: "pg_mark k fs d = (r, d') \<Longrightarrow> service_db d d'"
  by (auto simp: pg_mark_def service_db_def split: if_splits)

lemma service_db_refl [simp]: "service_db d d"
  by (simp add: service_db_def)

lemma execute_tables: "keeps service_tables (execute (engine_guard ec) a)"
proof -
  have rec: "keeps service_tables (on_db (record_outcome (engine_guard ec) a k res))" for k res
    by (rule on_db_tables)
      (auto simp: record_outcome_def engine_guard_def pg_guard_def ebind_def ethrow_def ereturn_def
        split: sum.splits if_splits prod.splits dest!: mark_tables)
  have "keeps service_tables (after_claim (engine_guard ec) a p row)" for p row
    unfolding after_claim_def by (auto intro!: keeps_tables on_world_tables rec)
  then show ?thesis
    unfolding execute_def
    by (auto simp: engine_guard_def pg_guard_def split: sum.splits intro!: keeps_tables claim_tables)
qed

lemma compensate_tables: "keeps service_tables (compensate_instance (engine_guard ec) iid tid)"
proof -
  have row: "keeps service_tables (compensate_row (engine_guard ec) iid tid row)" for row
    unfolding compensate_row_def
    by (auto split: sum.splits intro!: keeps_tables on_world_tables on_db_tables)
      (auto simp: engine_guard_def pg_guard_def ebind_def ethrow_def ereturn_def
        split: sum.splits if_splits prod.splits dest!: mark_tables)
  have rows: "keeps service_tables (compensate_rows (engine_guard ec) iid tid rows undone)" for rows undone
    by (induction rows arbitrary: undone) (auto intro!: keeps_tables row)
  have "keeps service_tables (on_db (pg_list_for_instance iid tid st))" for st
    by (rule on_db_tables) (simp add: pg_list_for_instance_def)
  then show ?thesis
    unfolding compensate_instance_def by (auto simp: engine_guard_def pg_guard_def intro!: keeps_tables rows [unfolded engine_guard_def pg_guard_def])
qed

lemma attempt_tables: "keeps service_tables (run_attempt reg (engine_services ec with_llm) ctx timeout)"
proof (rule run_attempt_keeps [OF service_tables_order(1)], rule run_prog_keeps [OF service_tables_order])
  fix f a assume "sv_guard (engine_services ec with_llm) = Some f"
  then show "keeps service_tables (f a)" by (auto simp: engine_services_def execute_tables)
next
  fix f c b assume "sv_llm (engine_services ec with_llm) = Some f"
  then show "keeps service_tables (f c b)"
    by (auto simp: engine_services_def on_world_tables split: if_splits)
qed (simp add: engine_services_def on_world_tables)

lemma dead_letter_tables: "keeps service_tables (on_db (dlq_record i sid reason))"
  by (rule on_db_tables) (auto simp: dlq_record_def service_db_def split: if_splits)

lemma ledger_tables:
  "keeps service_tables (on_db (pg_spent_today tid day))" "keeps service_tables (on_db (pg_record tid day amount))"
  by (rule on_db_tables, auto simp: pg_spent_today_def pg_record_def service_db_def split: if_splits)+

lemmas engine_tables =
  attempt_tables dead_letter_tables compensate_tables ledger_tables on_world_tables

interpretation engine: driver_journal "engine_driver ec" pg_log pg_ok for ec
  unfolding driver_journal_def driver_journal_axioms_def
  by (auto simp: engine_driver_def engine_budget_def pg_world.journal_client_axioms
      dest!: keepsD [OF attempt_tables] keepsD [OF dead_letter_tables] keepsD [OF compensate_tables]
        keepsD [OF ledger_tables(1)] keepsD [OF ledger_tables(2)] keepsD [OF on_world_tables]
      intro!: tables_same_journal [OF service_journal])

end
