(* ===== verification/Engine_Props.thy ===== *)
theory Engine_Props
  imports Engine Driver_Progress Instances Leasing Control
begin

text \<open>
  Properties of the wired engine: what a drive leaves in the event store, that its loop ends, that
  it never leaves work lying, and what becomes of an instance that was just created.
\<close>

section \<open>Drives of the engine\<close>

lemma pg_inst_ok: "pg_ok s \<Longrightarrow> pg_get s iid tid d = Inr (Some i) \<Longrightarrow> inst_ok i"
  using pg_get_of_log [of s iid tid d] fold_events_inst_ok by (auto simp: projected_Some)

lemma engine_driver_simps [simp]:
  "dv_append_new (engine_driver ec) = pg_append" "dv_get_instance (engine_driver ec) = pg_get"
  "dv_get_definition (engine_driver ec) s = defn_get (fst s)"
  by (simp_all add: engine_driver_def)

text \<open>The loop with more rounds than it needs.\<close>

lemma more_rounds:
  assumes "run_rounds n dv i d l g s = (Inr rep, s')" "n \<le> m"
  shows "run_rounds m dv i d l g s = (Inr rep, s')"
  using assms
proof (induction n arbitrary: m i s)
  case (Suc n)
  obtain k where m: "m = Suc k" "n \<le> k" using Suc.prems(2) by (cases m) auto
  obtain x t where x: "run_round dv i d l g s = (Inr x, t)"
    "(case x of Inl j \<Rightarrow> run_rounds n dv j d l g | Inr rep \<Rightarrow> ereturn rep) t = (Inr rep, s')"
    using Suc.prems(1) by (auto simp: ebind_eq_Inr)
  show ?case using x Suc.IH m by (cases x) (simp_all add: m(1) ebind_def)
qed (simp add: ethrow_def)

section \<open>A concrete engine\<close>

text \<open>One runner that echoes its inputs, no providers and no models, over a deterministic world.\<close>

definition sample_engine :: "fixed_ports engine_config" where
  "sample_engine =
     \<lparr>en_registry = [(''agent'', echo_runner)], en_providers = [],
      en_llm = \<lparr>lc_registry = \<lparr>mr_models = [], mr_chains = []\<rparr>, lc_providers = [], lc_py_str = (\<lambda>_. []),
                lc_py_float = (\<lambda>_. [])\<rparr>,
      en_daily_limit_usd = Some 50, en_notifier = (\<lambda>_ w. (Inr (), w)), en_ports = fixed_ports_of,
      en_await = (\<lambda>_ w. (Inr JNull, w)), en_digest = (\<lambda>_. [])\<rparr>"

text \<open>The sample instance with its first step completed and its second ready, leased to a worker.\<close>

definition sample_next :: "event list" where
  "sample_next = [sample_event 7 (StepStatusChanged ''b'' ST_PENDING ST_READY None)]"

definition sample_ready :: db where
  "sample_ready = snd (append_new ''i1'' ''t1'' sample_next 6 None None sample_db)"

definition sample_leased :: "db \<times> fixed_ports" where
  "sample_leased = (snd (acquire_runnable 30 ''w1'' 5 1000 sample_ready),
     \<lparr>fx_now = 20000, fx_prefix = ''id'', fx_counter = 0\<rparr>)"

abbreviation sample_held :: lease where
  "sample_held \<equiv> sample_lease ''w1'' 1 30001000"

definition sample_half :: workflow_instance where
  "sample_half = (case pg_get sample_leased ''i1'' ''t1'' None of Inr (Some i) \<Rightarrow> i)"

lemma sample_ready_ok: "store_ok sample_ready \<and> created_once sample_ready"
proof -
  have "fst (append_new ''i1'' ''t1'' sample_next 6 None None sample_db) = Inr (7, sample_next)" by code_simp
  then have "append_new ''i1'' ''t1'' sample_next 6 None None sample_db = (Inr (7, sample_next), sample_ready)"
    by (simp add: sample_ready_def prod_eq_iff)
  moreover have "drafts_ok 6 sample_next" by code_simp
  ultimately show ?thesis using pg.append_ok [OF sample_db_ok] by blast
qed

lemma acquire_tables:
  "acquire_runnable n w k now d = (r, d') \<Longrightarrow> db_events d' = db_events d \<and> db_snapshots d' = db_snapshots d \<and>
     db_index d' = db_index d \<and> db_definitions d' = db_definitions d"
proof -
  have rows: "acquire_rows w now ttl rows d = (ls, d') \<Longrightarrow> db_events d' = db_events d \<and> db_snapshots d' = db_snapshots d \<and>
     db_index d' = db_index d \<and> db_definitions d' = db_definitions d" for ttl rows ls d d'
    by (induction rows arbitrary: d ls) (auto simp: upsert_lease_def Let_def split: prod.splits)
  show "acquire_runnable n w k now d = (r, d') \<Longrightarrow> db_events d' = db_events d \<and> db_snapshots d' = db_snapshots d \<and>
     db_index d' = db_index d \<and> db_definitions d' = db_definitions d"
    by (auto simp: acquire_runnable_def acquire_runnable_tx_def Let_def split: if_splits prod.splits dest: rows)
qed

lemma sample_leased_ok: "pg_ok sample_leased"
proof -
  obtain r where "acquire_runnable 30 ''w1'' 5 1000 sample_ready = (r, fst sample_leased)"
    by (simp add: sample_leased_def prod_eq_iff)
  note tabs = acquire_tables [OF this]
  have "same_journal pg_get pg_log pg_ok (sample_ready, snd sample_leased) sample_leased"
    by (rule same_tables) (simp_all add: tabs)
  then show ?thesis using sample_ready_ok by (simp add: same_journal_def pg_ok_def)
qed

lemma sample_half_stored: "pg_get sample_leased ''i1'' ''t1'' d = Inr (Some sample_half)"
proof -
  have "(case pg_get sample_leased ''i1'' ''t1'' None of Inr (Some i) \<Rightarrow> True | _ \<Rightarrow> False)" by code_simp
  then have "pg_get sample_leased ''i1'' ''t1'' None = Inr (Some sample_half)"
    by (auto simp: sample_half_def split: sum.splits option.splits)
  then show ?thesis by (simp add: pg_get_of_log [OF sample_leased_ok])
qed

lemma sample_half_able: "able sample_definition sample_half"
proof -
  have "list_all (\<lambda>sid. sid \<in> set (dkeys (wi_step_states sample_half)) \<and>
      ss_status (st_at sample_half sid) \<notin> {ST_WAITING_APPROVAL, ST_COMPENSATED}) (step_ids sample_definition)"
    by code_simp
  moreover have "wi_escalations sample_half = []" by code_simp
  ultimately show ?thesis
    using pg_inst_ok [OF sample_leased_ok sample_half_stored]
    by (auto simp: able_def list_all_iff open_escalations_def)
qed

lemma sample_definition_stored: "defn_get (fst sample_leased) ''wf'' ''1.0.0'' ''t1'' = Some sample_definition"
  by code_simp

lemma sample_recovers:
  "recover_in_flight (engine_driver sample_engine) sample_half sample_definition g sample_leased = (Inr sample_half, sample_leased)"
proof -
  have "filter (\<lambda>(sid, st). ss_status st = ST_RUNNING) (wi_step_states sample_half) = []" by code_simp
  then show ?thesis by (simp add: recover_in_flight_def append_bodies_def append_drafts_def ebind_def ereturn_def)
qed

lemma sample_two_rounds:
  "fst (run_rounds 2 (engine_driver sample_engine) sample_half sample_definition sample_held (make_guard sample_held)
      sample_leased) =
    Inr \<lparr>rep_instance_id = ''i1'', rep_result = DR_COMPLETED, rep_next_wakeup_at = None\<rparr>"
  by code_simp

lemma sample_rounds:
  "\<exists>s'. run_rounds MAX_DRIVE_ITERATIONS (engine_driver sample_engine) sample_half sample_definition sample_held
      (make_guard sample_held) sample_leased =
      (Inr \<lparr>rep_instance_id = ''i1'', rep_result = DR_COMPLETED, rep_next_wakeup_at = None\<rparr>, s')"
proof -
  obtain s' where "run_rounds 2 (engine_driver sample_engine) sample_half sample_definition sample_held
      (make_guard sample_held) sample_leased =
      (Inr \<lparr>rep_instance_id = ''i1'', rep_result = DR_COMPLETED, rep_next_wakeup_at = None\<rparr>, s')"
    using sample_two_rounds by (metis prod.exhaust_sel)
  from more_rounds [OF this, of MAX_DRIVE_ITERATIONS] show ?thesis by (simp add: MAX_DRIVE_ITERATIONS_def)
qed

lemma sample_drive:
  "\<exists>s'. drive (engine_driver sample_engine) sample_held (make_guard sample_held) sample_leased =
     (Inr \<lparr>rep_instance_id = ''i1'', rep_result = DR_COMPLETED, rep_next_wakeup_at = None\<rparr>, s')"
  using sample_rounds
  by (auto simp: drive_def sample_lease_def sample_definition_stored sample_half_stored ebind_def
      sample_recovers [unfolded sample_lease_def])

section \<open>Properties\<close>

text \<open>
  C6: what a drive leaves in the event store, whatever the runners, providers, models and the
  guard do. The store stays consistent, the log of the leased instance only grows at its end and
  no other log changes; a conflict is never raised out of a drive that wrote; and a drive that
  reports on an instance reports the status its stored projection has, unless it lost the lease.
\<close>

theorem drive_log_and_report:
  assumes "pg_ok s" "drive (engine_driver ec) l g s = (r, s')"
  shows "pg_ok s' \<and> extends (pg_log s) (pg_log s') (la_instance_id l) \<and>
     (case r of
        Inl e \<Rightarrow> \<not> is_conflict (pexn_class e) \<or> s' = s
      | Inr rep \<Rightarrow> rep_instance_id rep = la_instance_id l \<and>
         (rep_result rep = DR_LEASE_LOST \<or> rep_result rep = DR_IDLE \<and> s' = s \<or>
          (\<exists>d j. defn_get (fst s) (la_workflow_id l) (la_workflow_version l) (la_tenant_id l) = Some d \<and>
             pg_get s' (la_instance_id l) (la_tenant_id l) (Some d) = Inr (Some j) \<and>
             result_matches (rep_result rep) (wi_status j))))"
  using engine.drive_ends [OF assms] unfolding engine_driver_simps .

theorem drive_log_and_report_witness:
  "\<exists>rep s' j. drive (engine_driver sample_engine) sample_held (make_guard sample_held) sample_leased = (Inr rep, s') \<and>
     pg_ok s' \<and> extends (pg_log sample_leased) (pg_log s') ''i1'' \<and>
     pg_get s' ''i1'' ''t1'' (Some sample_definition) = Inr (Some j) \<and> wi_status j = WF_COMPLETED"
proof -
  obtain s' where s': "drive (engine_driver sample_engine) sample_held (make_guard sample_held) sample_leased =
     (Inr \<lparr>rep_instance_id = ''i1'', rep_result = DR_COMPLETED, rep_next_wakeup_at = None\<rparr>, s')"
    using sample_drive by blast
  show ?thesis
    using drive_log_and_report [OF sample_leased_ok s'] s' sample_definition_stored
    by (auto simp: sample_lease_def)
qed


text \<open>
  C7: the loop of a drive ends by itself. Each wave takes an attempt of a step that has one left,
  so the loop without its limit of rounds ends, with a report or an exception, from whatever the
  recovery of in-flight steps left. When the attempts left are fewer than the limit, the loop with
  the limit does the same: the limit never cuts a drive short.
\<close>

theorem drive_terminates:
  assumes "pg_ok s" "pg_get s iid tid (Some d) = Inr (Some i)" "wf_definition d"
    and "recover_in_flight (engine_driver ec) i d g s = (Inr j, t)"
    and "rounds_left d i < MAX_DRIVE_ITERATIONS"
  shows "\<exists>r s'. drive_loop (engine_driver ec) d l g j t r s' \<and>
     run_rounds MAX_DRIVE_ITERATIONS (engine_driver ec) j d l g t = (r, s')"
proof -
  have "distinct (step_ids d)" using assms(3) by (simp add: wf_definition_def)
  moreover have "dv_get_instance (engine_driver ec) s iid tid (Some d) = Inr (Some i)" using assms(2) by simp
  ultimately show ?thesis
    using engine.drive_converges [OF assms(1) _ pg_inst_ok [OF assms(1,2)] _ assms(4,5)] by blast
qed

theorem drive_terminates_witness:
  "rounds_left sample_definition sample_half < MAX_DRIVE_ITERATIONS \<and>
   (\<exists>rep s'. drive_loop (engine_driver sample_engine) sample_definition sample_held (make_guard sample_held)
      sample_half sample_leased (Inr rep) s' \<and> rep_result rep = DR_COMPLETED)"
proof -
  have wf: "wf_definition sample_definition" using sample_definition_ok by (simp add: new_definition_Inr)
  have n: "rounds_left sample_definition sample_half < MAX_DRIVE_ITERATIONS" by code_simp
  obtain r s' where r: "drive_loop (engine_driver sample_engine) sample_definition sample_held (make_guard sample_held)
      sample_half sample_leased r s'"
    "run_rounds MAX_DRIVE_ITERATIONS (engine_driver sample_engine) sample_half sample_definition sample_held
       (make_guard sample_held) sample_leased = (r, s')"
    using drive_terminates [OF sample_leased_ok sample_half_stored wf sample_recovers n] by blast
  obtain t where "run_rounds MAX_DRIVE_ITERATIONS (engine_driver sample_engine) sample_half sample_definition sample_held
      (make_guard sample_held) sample_leased =
      (Inr \<lparr>rep_instance_id = ''i1'', rep_result = DR_COMPLETED, rep_next_wakeup_at = None\<rparr>, t)"
    using sample_rounds by blast
  with r have "drive_loop (engine_driver sample_engine) sample_definition sample_held (make_guard sample_held)
      sample_half sample_leased (Inr \<lparr>rep_instance_id = ''i1'', rep_result = DR_COMPLETED, rep_next_wakeup_at = None\<rparr>) s'"
    by simp
  then show ?thesis using n by (meson drive_report.select_convs(2))
qed

text \<open>
  C9: a drive never leaves work lying. When every step of the definition is there, none waits for
  a person or was undone, and no escalation is open, a drive that returns reports something done,
  parked for a retry, or handed to a person; it never reports the instance idle.
\<close>

theorem drive_never_idle:
  assumes "pg_ok s" "defn_get (fst s) (la_workflow_id l) (la_workflow_version l) (la_tenant_id l) = Some d"
    and "pg_get s (la_instance_id l) (la_tenant_id l) (Some d) = Inr (Some i)" "able d i"
    and "wf_definition d" "workflow_definition_fields d"
    and "drive (engine_driver ec) l g s = (Inr rep, s')"
  shows "rep_result rep \<in> {DR_COMPLETED, DR_PAUSED, DR_DEAD_LETTERED, DR_ROLLED_BACK, DR_PARKED,
     DR_WAITING_APPROVAL, DR_LEASE_LOST}"
proof -
  have "1 \<le> wd_max_concurrent_steps d" using assms(6) by (simp add: workflow_definition_fields_def)
  then have "rep_result rep \<noteq> DR_IDLE"
    using engine.drive_not_idle [of s ec l d i g rep s'] assms by simp
  then show ?thesis by (cases "rep_result rep") auto
qed

theorem drive_never_idle_witness:
  "\<exists>rep s'. able sample_definition sample_half \<and>
     drive (engine_driver sample_engine) sample_held (make_guard sample_held) sample_leased = (Inr rep, s') \<and>
     rep_result rep \<in> {DR_COMPLETED, DR_PAUSED, DR_DEAD_LETTERED, DR_ROLLED_BACK, DR_PARKED,
       DR_WAITING_APPROVAL, DR_LEASE_LOST}"
proof -
  have wf: "wf_definition sample_definition" "workflow_definition_fields sample_definition"
    using sample_definition_ok by (simp_all add: new_definition_Inr)
  obtain rep s' where d: "drive (engine_driver sample_engine) sample_held (make_guard sample_held) sample_leased = (Inr rep, s')"
    using sample_drive by blast
  have "defn_get (fst sample_leased) (la_workflow_id sample_held) (la_workflow_version sample_held)
      (la_tenant_id sample_held) = Some sample_definition"
    "pg_get sample_leased (la_instance_id sample_held) (la_tenant_id sample_held) (Some sample_definition) =
      Inr (Some sample_half)"
    by (simp_all add: sample_lease_def sample_definition_stored sample_half_stored)
  from drive_never_idle [OF sample_leased_ok this sample_half_able wf d] show ?thesis
    using d sample_half_able by blast
qed


section \<open>Instances that were just created\<close>

lemma plan_without_steps:
  assumes "wi_step_states i = []" "wd_steps d \<noteq> []"
  shows "make_plan i d now = Inl PyKeyError"
  using assms by (cases "wd_steps d") (simp_all add: make_plan_def scan_step_def step_of_def)

lemma transition_keeps_steps:
  assumes "applies d i [InstanceStatusChanged f t r] j"
  shows "wi_step_states j = wi_step_states i"
  using assms
  by (auto simp: applies_def map_eq_Cons_conv fold_events_Cons_Some handler_def on_wf_status_def set_workflow_status_Inr
      rbind_eq_Inr split: if_splits)

text \<open>A transition is refused with nothing stored, or stores exactly its event.\<close>

lemma transition_log:
  assumes "pg_world.synced (Some d) iid tid L i s" "transition (engine_driver ec) i d f to g reason w s = (q, s')"
  shows "case q of Inl e \<Rightarrow> fst s' = fst s
    | Inr j \<Rightarrow> \<exists>e. pg_log s' iid = pg_log s iid @ [e] \<and> ev_body e = InstanceStatusChanged f to reason"
  using assms(2) unfolding transition_def
proof (cases rule: ebind_cases)
  case (raised e')
  then show ?thesis using new_event_world by (fastforce simp: driver_event_def engine_driver_def)
next
  case (returned draft t)
  have t: "fst t = fst s" "ev_body draft = InstanceStatusChanged f to reason"
    using returned(1) new_event_world by (fastforce simp: driver_event_def engine_driver_def)+
  have sy: "pg_world.synced (Some d) iid tid L i t" using assms(1) t(1) by (simp add: pg_world.synced_def pg_ok_def pg_get_def)
  then have ok: "pg_ok t" by (simp add: pg_world.synced_def)
  obtain q' u where q: "pg_append iid tid [draft] (wi_version i) (Some g) w t = (q', u)" by (metis surj_pair)
  have "list_all (\<lambda>e. \<not> is_created e) [draft]" by (simp add: is_created_body t(2))
  note at = pg_world.append_at_version [OF sy _ this q]
  show ?thesis
  proof (cases q')
    case (Inl c)
    then have "u = t" using pg_world.append_error q by blast
    then show ?thesis using returned(2) q Inl t(1) pg_world.synced_ids [OF assms(1)]
      by (auto simp: append_drafts_def ebind_def lift_exn_def)
  next
    case (Inr x)
    obtain n evs where x: "x = (n, evs)" by (cases x)
    have "\<not> is_created draft" by (simp add: is_created_body t(2))
    then have "drafts_ok (wi_version i) [draft]" by (simp add: drafts_ok_def)
    note law = pg_world.append_ok [OF ok this q [unfolded Inr x]]
    have "pg_log u iid = pg_log s iid @ [draft\<lparr>ev_sequence := wi_version i + 1\<rparr>]"
      using law t(1) by (simp add: sequenced_Cons)
    moreover have "s' = u \<and> (\<exists>j. q = Inr j)"
      using returned(2) q Inr x at pg_world.synced_ids [OF assms(1)]
      by (auto simp: append_drafts_def ebind_def lift_exn_def)
    ultimately show ?thesis using t(2) by auto
  qed
qed

text \<open>A drive of an instance without step states: what is left of it when pending and when running.\<close>

lemma drive_stepless_running:
  assumes "\<And>d. pg_get s iid tid d = Inr (Some i)" "wi_step_states i = []" "wi_status i = WF_RUNNING"
    and "la_instance_id l = iid" "la_tenant_id l = tid"
    and "defn_get (fst s) (la_workflow_id l) (la_workflow_version l) tid = Some d" "wd_steps d \<noteq> []"
  shows "drive (engine_driver ec) l g s = (Inl (PExn PyKeyError []), s)"
proof -
  have none: "recover_in_flight (engine_driver ec) i d g s = (Inr i, s)"
    using assms(2) by (simp add: recover_in_flight_def append_bodies_def append_drafts_def ebind_def ereturn_def)
  have "run_round (engine_driver ec) i d l g s = (Inl (PExn PyKeyError []), s)"
    using assms(3) by (simp add: run_round_def ebind_def now_of_def plan_without_steps [OF assms(2,7)])
  moreover have "MAX_DRIVE_ITERATIONS = Suc 999" by (simp add: MAX_DRIVE_ITERATIONS_def)
  then obtain k where max: "MAX_DRIVE_ITERATIONS = Suc k" by blast
  ultimately have "ebind (recover_in_flight (engine_driver ec) i d g)
      (\<lambda>i. run_rounds MAX_DRIVE_ITERATIONS (engine_driver ec) i d l g) s = (Inl (PExn PyKeyError []), s)"
    unfolding max by (simp add: ebind_def none)
  then show ?thesis using assms(1,4-6) by (simp add: drive_def is_conflict_def)
qed

lemma drive_stepless_pending:
  assumes "pg_ok s" "\<And>d. pg_get s iid tid d = Inr (Some i)" "wi_step_states i = []" "wi_status i = WF_PENDING"
    and "la_instance_id l = iid" "la_tenant_id l = tid"
    and "defn_get (fst s) (la_workflow_id l) (la_workflow_version l) tid = Some d" "wd_steps d \<noteq> []"
    and q: "transition (engine_driver ec) i d WF_PENDING WF_RUNNING g None None s = (q, t)"
  shows "drive (engine_driver ec) l g s = (case q of
       Inl e \<Rightarrow> if is_conflict (pexn_class e)
          then (Inr \<lparr>rep_instance_id = iid, rep_result = DR_LEASE_LOST, rep_next_wakeup_at = None\<rparr>, t) else (Inl e, t)
     | Inr j \<Rightarrow> (Inl (PExn PyKeyError []), t))"
    and "q = Inr j \<Longrightarrow> pg_ok t \<and> (\<forall>d. pg_get t iid tid d = Inr (Some j)) \<and> wi_step_states j = [] \<and> wi_status j = WF_RUNNING"
proof -
  have none: "recover_in_flight (engine_driver ec) i d g s = (Inr i, s)"
    using assms(3) by (simp add: recover_in_flight_def append_bodies_def append_drafts_def ebind_def ereturn_def)
  have "MAX_DRIVE_ITERATIONS = Suc (Suc 998)" by (simp add: MAX_DRIVE_ITERATIONS_def)
  then obtain k where max: "MAX_DRIVE_ITERATIONS = Suc (Suc k)" by blast
  let ?m = "ebind (recover_in_flight (engine_driver ec) i d g)
     (\<lambda>i. run_rounds MAX_DRIVE_ITERATIONS (engine_driver ec) i d l g) s"
  have m: "?m = (case q of Inl e \<Rightarrow> (Inl e, t) | Inr j \<Rightarrow> run_rounds (Suc k) (engine_driver ec) j d l g t)"
    using q assms(4) none unfolding max
    by (simp add: ebind_def run_round_def ereturn_def split: sum.splits prod.splits)
  have sy: "pg_world.synced (Some d) iid tid (pg_log s) i s" using assms(1,2) by (simp add: pg_world.synced_def)
  note mv = tripleD [OF engine.transition_triple [unfolded engine_driver_simps] sy q]
  have j: "pg_ok t \<and> (\<forall>d. pg_get t iid tid d = Inr (Some j)) \<and> wi_step_states j = [] \<and> wi_status j = WF_RUNNING"
    if "q = Inr j" for j
  proof -
    have "pg_world.synced (Some d) iid tid (pg_log s) j t"
      and ap: "applies (Some d) i [InstanceStatusChanged WF_PENDING WF_RUNNING None] j"
      using mv that by (simp_all add: pg_world.moves_def)
    then have "pg_ok t" "pg_get t iid tid (Some d) = Inr (Some j)" by (simp_all add: pg_world.synced_def)
    moreover have "wi_step_states j = []" "wi_status j = WF_RUNNING"
      using ap transition_keeps_steps assms(3) applies_status by fastforce+
    ultimately show ?thesis by (simp add: pg_get_of_log)
  qed
  show "q = Inr j \<Longrightarrow> pg_ok t \<and> (\<forall>d. pg_get t iid tid d = Inr (Some j)) \<and> wi_step_states j = [] \<and> wi_status j = WF_RUNNING"
    by (rule j)
  show "drive (engine_driver ec) l g s = (case q of
       Inl e \<Rightarrow> if is_conflict (pexn_class e)
          then (Inr \<lparr>rep_instance_id = iid, rep_result = DR_LEASE_LOST, rep_next_wakeup_at = None\<rparr>, t) else (Inl e, t)
     | Inr j \<Rightarrow> (Inl (PExn PyKeyError []), t))"
  proof (cases q)
    case (Inl e)
    then show ?thesis using m assms(2,5-7) by (simp add: drive_def)
  next
    case (Inr x)
    have "run_round (engine_driver ec) x d l g t = (Inl (PExn PyKeyError []), t)"
      using j [OF Inr] by (simp add: run_round_def ebind_def now_of_def plan_without_steps [OF _ assms(8)])
    then have "?m = (Inl (PExn PyKeyError []), t)" using m Inr by (simp add: ebind_def)
    then show ?thesis using Inr assms(2,5-7) by (simp add: drive_def is_conflict_def)
  qed
qed

text \<open>
  Either way the drive raises a \<open>KeyError\<close> or stores nothing, and nothing but the change from pending
  to running can have been stored.
\<close>

lemma drive_stepless:
  assumes ok: "pg_ok s" and get: "\<And>d. pg_get s iid tid d = Inr (Some i)"
    and st: "wi_step_states i = []" "wi_status i = WF_PENDING \<or> wi_status i = WF_RUNNING"
    and l: "la_instance_id l = iid" "la_tenant_id l = tid"
    and d: "\<And>d. defn_get (fst s) (la_workflow_id l) (la_workflow_version l) tid = Some d \<Longrightarrow> wd_steps d \<noteq> []"
    and run: "drive (engine_driver ec) l g s = (r, s')"
  shows "(\<exists>j. pg_ok s' \<and> (\<forall>d. pg_get s' iid tid d = Inr (Some j)) \<and> wi_step_states j = [] \<and>
       (wi_status j = WF_PENDING \<or> wi_status j = WF_RUNNING) \<and>
       (pg_log s' iid = pg_log s iid \<and> j = i \<or> wi_status i = WF_PENDING \<and> wi_status j = WF_RUNNING \<and>
        (\<exists>e. pg_log s' iid = pg_log s iid @ [e] \<and> ev_body e = InstanceStatusChanged WF_PENDING WF_RUNNING None))) \<and>
    (r = Inl (PExn PyKeyError []) \<or>
     pg_log s' iid = pg_log s iid \<and> (case r of Inl e \<Rightarrow> True | Inr rep \<Rightarrow> rep_result rep = DR_LEASE_LOST))"
proof (cases "defn_get (fst s) (la_workflow_id l) (la_workflow_version l) tid")
  case None
  then have "s' = s" "\<exists>e. r = Inl e" using run l by (auto simp: drive_def)
  then show ?thesis using ok get st by auto
next
  case (Some d0)
  note steps = d [OF Some]
  show ?thesis
  proof (cases "wi_status i = WF_RUNNING")
    case True
    then have "r = Inl (PExn PyKeyError [])" "s' = s"
      using run drive_stepless_running [OF get st(1) True l Some steps] by simp_all
    then show ?thesis using ok get st by auto
  next
    case False
    then have p: "wi_status i = WF_PENDING" using st(2) by blast
    obtain q t where q: "transition (engine_driver ec) i d0 WF_PENDING WF_RUNNING g None None s = (q, t)" by (metis surj_pair)
    have "pg_world.synced (Some d0) iid tid (pg_log s) i s" using ok get by (simp add: pg_world.synced_def)
    note lg = transition_log [OF this q] and dr = drive_stepless_pending [OF ok get st(1) p l Some steps q]
    show ?thesis
    proof (cases q)
      case (Inl e)
      have s': "s' = t" "(\<exists>e. r = Inl e) \<or> (\<exists>rep. r = Inr rep \<and> rep_result rep = DR_LEASE_LOST)"
        using run dr(1) Inl by (auto split: if_splits)
      then have "pg_ok s'" "\<forall>d. pg_get s' iid tid d = Inr (Some i)" "pg_log s' iid = pg_log s iid"
        using lg Inl ok get by (auto simp: pg_ok_def pg_get_def)
      then show ?thesis using s'(2) st by auto
    next
      case (Inr j)
      have "s' = t" "r = Inl (PExn PyKeyError [])" using run dr(1) Inr by simp_all
      then show ?thesis using dr(2) [OF Inr] lg Inr p by auto
    qed
  qed
qed

text \<open>
  What happens to an instance: it is driven, by any worker, under any lease and guard and with any
  runners; or something else happens that leaves its own log alone, such as leases changing hands or
  other instances being driven.
\<close>

inductive redriven :: "string \<Rightarrow> string \<Rightarrow> db \<times> 'w \<Rightarrow> db \<times> 'w \<Rightarrow> bool" for iid tid s0 where
  not_yet: "redriven iid tid s0 s0"
| meanwhile: "redriven iid tid s0 s \<Longrightarrow> pg_ok s' \<Longrightarrow> pg_log s' iid = pg_log s iid \<Longrightarrow> redriven iid tid s0 s'"
| driven: "redriven iid tid s0 s \<Longrightarrow> la_instance_id l = iid \<Longrightarrow> la_tenant_id l = tid \<Longrightarrow>
    (\<And>d. defn_get (fst s) (la_workflow_id l) (la_workflow_version l) tid = Some d \<Longrightarrow> wd_steps d \<noteq> []) \<Longrightarrow>
    drive (engine_driver ec) l g s = (r, s') \<Longrightarrow> redriven iid tid s0 s'"

lemma redriven_stepless:
  assumes "redriven iid tid s0 s"
    and "pg_ok s0" "\<And>d. pg_get s0 iid tid d = Inr (Some i)" "wi_step_states i = []" "wi_status i = WF_PENDING"
  shows "\<exists>j. pg_ok s \<and> (\<forall>d. pg_get s iid tid d = Inr (Some j)) \<and> wi_step_states j = [] \<and>
    (wi_status j = WF_PENDING \<and> pg_log s iid = pg_log s0 iid \<or> wi_status j = WF_RUNNING \<and>
     (\<exists>e. pg_log s iid = pg_log s0 iid @ [e] \<and> ev_body e = InstanceStatusChanged WF_PENDING WF_RUNNING None))"
  using assms(1)
proof (induction rule: redriven.induct)
  case not_yet
  then show ?case using assms(2-5) by blast
next
  case (meanwhile s s')
  then have "pg_ok s" by blast
  then have "pg_get s' iid tid d = pg_get s iid tid d" for d
    using meanwhile.hyps by (simp add: pg_get_of_log)
  then show ?case using meanwhile by auto
next
  case (driven s l ec g r s')
  then obtain j where j: "pg_ok s" "\<And>d. pg_get s iid tid d = Inr (Some j)" "wi_step_states j = []"
    and st: "wi_status j = WF_PENDING \<and> pg_log s iid = pg_log s0 iid \<or> wi_status j = WF_RUNNING \<and>
     (\<exists>e. pg_log s iid = pg_log s0 iid @ [e] \<and> ev_body e = InstanceStatusChanged WF_PENDING WF_RUNNING None)" by blast
  have st2: "wi_status j = WF_PENDING \<or> wi_status j = WF_RUNNING" using st by blast
  from drive_stepless [OF j st2 driven.hyps(2-5)] obtain j' where
    j': "pg_ok s'" "\<forall>d. pg_get s' iid tid d = Inr (Some j')" "wi_step_states j' = []"
    and lg: "pg_log s' iid = pg_log s iid \<and> j' = j \<or> wi_status j = WF_PENDING \<and> wi_status j' = WF_RUNNING \<and>
        (\<exists>e. pg_log s' iid = pg_log s iid @ [e] \<and> ev_body e = InstanceStatusChanged WF_PENDING WF_RUNNING None)" by blast
  have "wi_status j' = WF_PENDING \<and> pg_log s' iid = pg_log s0 iid \<or> wi_status j' = WF_RUNNING \<and>
     (\<exists>e. pg_log s' iid = pg_log s0 iid @ [e] \<and> ev_body e = InstanceStatusChanged WF_PENDING WF_RUNNING None)"
    using st lg by auto
  then show ?case using j' by blast
qed

text \<open>
  C39: no step of an instance that was just created ever runs. Creating an instance stores it without
  step states, and no later read seeds them. However often it is driven, by whichever worker and with
  whatever happening in between that leaves its log alone, its log holds its creation and at most the
  change from pending to running, its projection has no step states, and the next drive raises a
  \<open>KeyError\<close>, or stores nothing and then raises or reports a lost lease.
\<close>

theorem created_instance_cannot_run:
  assumes "pg_ok s" "create_instance pt tid c s = (Inr i, s1)" "redriven (wi_instance_id i) tid s1 s2"
    and "la_instance_id l = wi_instance_id i" "la_tenant_id l = tid"
    and "\<And>d. defn_get (fst s2) (la_workflow_id l) (la_workflow_version l) tid = Some d \<Longrightarrow> wd_steps d \<noteq> []"
    and "drive (engine_driver ec) l g s2 = (r, s3)"
  shows "(\<exists>e. is_created e \<and> map ev_body (pg_log s3 (wi_instance_id i)) \<in>
       {[ev_body e], [ev_body e, InstanceStatusChanged WF_PENDING WF_RUNNING None]}) \<and>
    (\<exists>j. pg_get s3 (wi_instance_id i) tid d = Inr (Some j) \<and> wi_step_states j = []) \<and>
    (r = Inl (PExn PyKeyError []) \<or> pg_log s3 (wi_instance_id i) = pg_log s2 (wi_instance_id i) \<and>
      (case r of Inl e \<Rightarrow> True | Inr rep \<Rightarrow> rep_result rep = DR_LEASE_LOST))"
proof -
  let ?iid = "wi_instance_id i"
  note made = created_projection [OF assms(1,2)]
  obtain e0 where e0: "pg_log s1 ?iid = [e0]" "is_created e0" using made by blast
  have s1: "pg_ok s1" "\<And>d. pg_get s1 ?iid tid d = Inr (Some i)" "wi_step_states i = []" "wi_status i = WF_PENDING"
    using made by blast+
  from redriven_stepless [OF assms(3) s1] obtain j where
    j: "pg_ok s2" "\<And>d. pg_get s2 ?iid tid d = Inr (Some j)" "wi_step_states j = []"
      "wi_status j = WF_PENDING \<or> wi_status j = WF_RUNNING" by blast
  have "redriven ?iid tid s1 s3" by (rule redriven.driven [OF assms(3-7)])
  from redriven_stepless [OF this s1] obtain j' where
    j': "\<forall>d. pg_get s3 ?iid tid d = Inr (Some j')" "wi_step_states j' = []"
      "pg_log s3 ?iid = [e0] \<or>
       (\<exists>e. pg_log s3 ?iid = [e0] @ [e] \<and> ev_body e = InstanceStatusChanged WF_PENDING WF_RUNNING None)"
    unfolding e0(1) by blast
  have "map ev_body (pg_log s3 ?iid) \<in> {[ev_body e0], [ev_body e0, InstanceStatusChanged WF_PENDING WF_RUNNING None]}"
    using j'(3) by auto
  moreover have "r = Inl (PExn PyKeyError []) \<or> pg_log s3 ?iid = pg_log s2 ?iid \<and>
      (case r of Inl e \<Rightarrow> True | Inr rep \<Rightarrow> rep_result rep = DR_LEASE_LOST)"
    using drive_stepless [OF j assms(4-7)] by blast
  ultimately show ?thesis using e0(2) j'(1,2) by (intro conjI exI [of _ e0] exI [of _ j']) simp_all
qed

definition sample_creation :: creation where
  "sample_creation = \<lparr>cr_workflow_id = None, cr_version = None, cr_name = Some ''Sample'', cr_context = None,
     cr_budget_limit_usd = Some 5, cr_trigger_source = TS_API, cr_trigger_metadata = None\<rparr>"

definition sample_start :: "db \<times> fixed_ports" where
  "sample_start = (sample_db0, \<lparr>fx_now = 20000, fx_prefix = ''id'', fx_counter = 0\<rparr>)"

definition sample_fresh :: "db \<times> fixed_ports" where
  "sample_fresh = snd (create_instance fixed_ports_of ''t1'' sample_creation sample_start)"

definition sample_fresh_leased :: "db \<times> fixed_ports" where
  "sample_fresh_leased = (snd (acquire_runnable 30 ''w1'' 5 1000 (fst sample_fresh)), snd sample_fresh)"

abbreviation sample_fresh_lease :: lease where
  "sample_fresh_lease \<equiv> (sample_lease ''w1'' 1 30001000)\<lparr>la_instance_id := ''id-1''\<rparr>"

definition sample_new :: workflow_instance where
  "sample_new = (case fst (create_instance fixed_ports_of ''t1'' sample_creation sample_start) of Inr i \<Rightarrow> i)"

lemma sample_new_created:
  "create_instance fixed_ports_of ''t1'' sample_creation sample_start = (Inr sample_new, sample_fresh)"
  "wi_instance_id sample_new = ''id-1''"
proof -
  have "case fst (create_instance fixed_ports_of ''t1'' sample_creation sample_start) of
      Inr i \<Rightarrow> wi_instance_id i = ''id-1'' | _ \<Rightarrow> False" by code_simp
  then obtain i where i: "fst (create_instance fixed_ports_of ''t1'' sample_creation sample_start) = Inr i"
    "wi_instance_id i = ''id-1''"
    by (cases "fst (create_instance fixed_ports_of ''t1'' sample_creation sample_start)") simp_all
  then show "create_instance fixed_ports_of ''t1'' sample_creation sample_start = (Inr sample_new, sample_fresh)"
    "wi_instance_id sample_new = ''id-1''"
    by (simp_all add: sample_new_def sample_fresh_def prod_eq_iff)
qed

text \<open>The first drive marks the instance running and raises, and the second raises without storing anything.\<close>

definition sample_marked :: "db \<times> fixed_ports" where
  "sample_marked = snd (transition (engine_driver sample_engine) sample_new sample_definition WF_PENDING WF_RUNNING
     (make_guard sample_fresh_lease) None None sample_fresh_leased)"

theorem created_instance_cannot_run_witness:
  "\<exists>e. redriven ''id-1'' ''t1'' sample_fresh sample_marked \<and>
     drive (engine_driver sample_engine) sample_fresh_lease (make_guard sample_fresh_lease) sample_fresh_leased =
       (Inl (PExn PyKeyError []), sample_marked) \<and>
     drive (engine_driver sample_engine) sample_fresh_lease (make_guard sample_fresh_lease) sample_marked =
       (Inl (PExn PyKeyError []), sample_marked) \<and>
     is_created e \<and> map ev_body (pg_log sample_marked ''id-1'') \<in>
       {[ev_body e], [ev_body e, InstanceStatusChanged WF_PENDING WF_RUNNING None]}"
proof -
  let ?l = sample_fresh_lease
  have ok: "pg_ok sample_start" using sample_db0_ok by (simp add: pg_ok_def sample_start_def)
  note made = created_projection [OF ok sample_new_created(1), unfolded sample_new_created(2)]
  obtain q where "acquire_runnable 30 ''w1'' 5 1000 (fst sample_fresh) = (q, fst sample_fresh_leased)"
    by (simp add: sample_fresh_leased_def prod_eq_iff)
  note tabs = acquire_tables [OF this]
  have "journal_tables sample_fresh sample_fresh_leased" by (simp add: journal_tables_def tabs)
  from tables_same_journal [OF this] have lease: "pg_ok sample_fresh_leased" "pg_log sample_fresh_leased = pg_log sample_fresh"
    "\<And>d. pg_get sample_fresh_leased ''id-1'' ''t1'' d = Inr (Some sample_new)"
    using made by (simp_all add: same_journal_def)
  have l: "la_instance_id ?l = ''id-1''" "la_tenant_id ?l = ''t1''" by (simp_all add: sample_lease_def)
  have d: "defn_get (fst sample_fresh_leased) (la_workflow_id ?l) (la_workflow_version ?l) ''t1'' = Some sample_definition"
    "defn_get (fst sample_marked) (la_workflow_id ?l) (la_workflow_version ?l) ''t1'' = Some sample_definition"
    by code_simp+
  have steps: "wd_steps sample_definition \<noteq> []" by (simp add: sample_definition_def mk_definition_def)
  have "case fst (transition (engine_driver sample_engine) sample_new sample_definition WF_PENDING WF_RUNNING
     (make_guard ?l) None None sample_fresh_leased) of Inr _ \<Rightarrow> True | Inl _ \<Rightarrow> False" by code_simp
  then obtain j where q: "transition (engine_driver sample_engine) sample_new sample_definition WF_PENDING WF_RUNNING
     (make_guard ?l) None None sample_fresh_leased = (Inr j, sample_marked)"
    by (auto simp: sample_marked_def prod_eq_iff split: sum.splits)
  have new: "wi_step_states sample_new = []" "wi_status sample_new = WF_PENDING" using made by simp_all
  note dr = drive_stepless_pending [OF lease(1,3) new l d(1) steps q]
  have one: "drive (engine_driver sample_engine) ?l (make_guard ?l) sample_fresh_leased = (Inl (PExn PyKeyError []), sample_marked)"
    using dr(1) by simp
  note j = dr(2) [OF refl]
  have two: "drive (engine_driver sample_engine) ?l (make_guard ?l) sample_marked = (Inl (PExn PyKeyError []), sample_marked)"
    by (rule drive_stepless_running [OF _ _ _ l d(2) steps, of j]) (use j in auto)
  have re: "redriven ''id-1'' ''t1'' sample_fresh sample_marked"
    by (rule redriven.driven [OF redriven.meanwhile [OF redriven.not_yet lease(1)] l _ one]) (use d steps lease(2) in auto)
  have nonempty: "wd_steps x \<noteq> []"
    if "defn_get (fst sample_marked) (la_workflow_id ?l) (la_workflow_version ?l) ''t1'' = Some x" for x
    using that d(2) steps by simp
  have "\<exists>e. is_created e \<and> map ev_body (pg_log sample_marked ''id-1'') \<in>
       {[ev_body e], [ev_body e, InstanceStatusChanged WF_PENDING WF_RUNNING None]}"
    by (rule conjunct1 [OF created_instance_cannot_run [OF ok sample_new_created(1) re [folded sample_new_created(2)]
        l(1) [THEN trans, OF sample_new_created(2) [symmetric]] l(2) _ two], unfolded sample_new_created(2)]) (rule nonempty)
  then obtain e where e: "is_created e" "map ev_body (pg_log sample_marked ''id-1'') \<in>
       {[ev_body e], [ev_body e, InstanceStatusChanged WF_PENDING WF_RUNNING None]}" by (elim exE conjE)
  show ?thesis by (rule exI [of _ e], intro conjI, rule re, rule one, rule two, rule e(1), rule e(2))
qed

end
