(* ===== verification/Worker.thy ===== *)
theory Worker
  imports Leasing
begin

text \<open>
  \<open>worker.py\<close>: one worker as a state machine. Its claim loop, its heartbeat loop and one task per
  driven instance run on one event loop, so they interleave at their awaits; other workers act on
  the same database in between. What a drive does to the event log is left to the driver; here a
  task is where its drive stands.
\<close>

section \<open>State\<close>

text \<open>
  The tasks that are not done yet, each under a number of its own, are kept apart from \<open>_active\<close>,
  which only says which task was last spawned for an instance: a task runs on whether or not
  \<open>_active\<close> still refers to it, and a task that is done may still be referred to.

  \<open>Created\<close>: the task has not taken its first step. \<open>tk_cancelled\<close>: a cancellation was requested and
  is not delivered yet; it is delivered at the next step of the task.
\<close>

datatype task_phase = Created | Driving | Releasing

record task =
  tk_lease :: lease
  tk_phase :: task_phase
  tk_cancelled :: bool

abbreviation task_iid :: "task \<Rightarrow> string" where
  "task_iid t \<equiv> la_instance_id (tk_lease t)"

datatype claim_state = Claim_Top | Claim_Acquiring int | Claim_Waiting | Claim_Stopped

datatype beat_state = Beat_Sleeping | Beat_Sent "string list"

record worker =
  wk_id :: string
  wk_concurrency :: int
  wk_lease_seconds :: int
  wk_active :: "(string, nat) pydict"
  wk_tasks :: "(nat, task) pydict"
  wk_next :: nat
  wk_stopping :: bool
  wk_wakeup :: bool
  wk_claim :: claim_state
  wk_beat :: beat_state

definition new_worker :: "string \<Rightarrow> int \<Rightarrow> int \<Rightarrow> worker" where
  "new_worker wid concurrency lease_seconds =
     \<lparr>wk_id = wid, wk_concurrency = concurrency, wk_lease_seconds = lease_seconds, wk_active = [],
      wk_tasks = [], wk_next = 0,
      wk_stopping = False, wk_wakeup = False, wk_claim = Claim_Top, wk_beat = Beat_Sleeping\<rparr>"

section \<open>Operations\<close>

text \<open>\<open>stop\<close>.\<close>

definition worker_stop :: "worker \<Rightarrow> worker" where
  "worker_stop wk = wk\<lparr>wk_stopping := True, wk_wakeup := True\<rparr>"

text \<open>The claim loop up to its first await: the free slots are counted before the acquisition is awaited.\<close>

definition free_of :: "worker \<Rightarrow> int" where
  "free_of wk = wk_concurrency wk - int (length (wk_active wk))"

definition claim_begin :: "worker \<Rightarrow> worker" where
  "claim_begin wk =
     (if wk_stopping wk then wk\<lparr>wk_claim := Claim_Stopped\<rparr>
      else if 0 < free_of wk then wk\<lparr>wk_claim := Claim_Acquiring (free_of wk)\<rparr>
      else wk\<lparr>wk_claim := Claim_Waiting, wk_wakeup := False\<rparr>)"

text \<open>\<open>_spawn\<close>: a new task, entered in \<open>_active\<close> over whatever stood there.\<close>

definition spawn :: "worker \<Rightarrow> lease \<Rightarrow> worker" where
  "spawn wk l = wk\<lparr>
     wk_tasks := wk_tasks wk @ [(wk_next wk, \<lparr>tk_lease = l, tk_phase = Created, tk_cancelled = False\<rparr>)],
     wk_active := dset (la_instance_id l) (wk_next wk) (wk_active wk), wk_next := Suc (wk_next wk)\<rparr>"

text \<open>After the acquisition: an instance that is already active is not driven a second time.\<close>

definition claim_finish :: "exn_class + lease list \<Rightarrow> worker \<Rightarrow> worker" where
  "claim_finish r wk =
     (let leases = (case r of Inl e \<Rightarrow> [] | Inr ls \<Rightarrow> ls);
          wk = foldl (\<lambda>wk l. if la_instance_id l \<notin> set (dkeys (wk_active wk)) then spawn wk l else wk) wk leases
      in wk\<lparr>wk_claim := Claim_Waiting, wk_wakeup := False\<rparr>)"

definition set_task :: "nat \<Rightarrow> (task \<Rightarrow> task) \<Rightarrow> worker \<Rightarrow> worker" where
  "set_task n f wk = wk\<lparr>wk_tasks := dadjust n f (wk_tasks wk)\<rparr>"

text \<open>\<open>task.cancel()\<close> on the task \<open>_active\<close> has for the instance; without effect on a task that is done.\<close>

definition cancel_active :: "string \<Rightarrow> worker \<Rightarrow> worker" where
  "cancel_active iid wk =
     (case dget (wk_active wk) iid of None \<Rightarrow> wk | Some n \<Rightarrow> set_task n (\<lambda>t. t\<lparr>tk_cancelled := True\<rparr>) wk)"

text \<open>The heartbeat loop: the held instances are listed, then the statement is awaited.\<close>

definition beat_begin :: "worker \<Rightarrow> worker" where
  "beat_begin wk = (if wk_active wk = [] then wk else wk\<lparr>wk_beat := Beat_Sent (dkeys (wk_active wk))\<rparr>)"

definition beat_finish :: "string list \<Rightarrow> string list \<Rightarrow> worker \<Rightarrow> worker" where
  "beat_finish held alive wk =
     foldl (\<lambda>wk lost. cancel_active lost wk) wk (filter (\<lambda>i. i \<notin> set alive) held)\<lparr>wk_beat := Beat_Sleeping\<rparr>"

text \<open>The recovery loop and the escalation sweep only wake the claim loop.\<close>

definition recovery_tick :: "db \<Rightarrow> instant \<Rightarrow> worker \<Rightarrow> worker" where
  "recovery_tick d now wk = (if reclaim_expired d now \<noteq> [] then wk\<lparr>wk_wakeup := True\<rparr> else wk)"

definition sweep_tick :: "string list \<Rightarrow> worker \<Rightarrow> worker" where
  "sweep_tick fired wk = (if fired \<noteq> [] then wk\<lparr>wk_wakeup := True\<rparr> else wk)"

text \<open>A task is done: its callback wakes the claim loop.\<close>

definition task_done :: "nat \<Rightarrow> worker \<Rightarrow> worker" where
  "task_done n wk = wk\<lparr>wk_tasks := filter (\<lambda>(k, t). k \<noteq> n) (wk_tasks wk), wk_wakeup := True\<rparr>"

text \<open>The end of \<open>_drive_one\<close> once the release has returned: the instance leaves \<open>_active\<close>.\<close>

definition task_gone :: "string \<Rightarrow> nat \<Rightarrow> worker \<Rightarrow> worker" where
  "task_gone iid n wk = task_done n (wk\<lparr>wk_active := filter (\<lambda>(k, m). k \<noteq> iid) (wk_active wk)\<rparr>)"

section \<open>Interleavings\<close>

text \<open>What others do to the leases between two steps of this worker.\<close>

inductive others_step :: "string \<Rightarrow> db \<Rightarrow> db \<Rightarrow> bool" for wid where
  others_acquire: "w \<noteq> wid \<Longrightarrow> store_ok rd \<Longrightarrow>
    acquire_runnable_tx rd locked secs w limit now d = (r, d') \<Longrightarrow> others_step wid d d'"
| others_heartbeat: "w \<noteq> wid \<Longrightarrow> heartbeat secs w ids now d = (r, d') \<Longrightarrow> others_step wid d d'"
| others_release: "w \<noteq> wid \<Longrightarrow> others_step wid d (release w iid d)"
| others_append: "append_new iid tid drafts v g wake d = (r, d') \<Longrightarrow> others_step wid d d'"

text \<open>
  A task cancelled before its first step never enters the body of \<open>_drive_one\<close>. A cancellation during
  the drive ends it and leads to the release; one during the release leaves the \<open>finally\<close> block at its
  await, past the lines that follow it.
\<close>

inductive worker_step :: "db \<times> worker \<Rightarrow> db \<times> worker \<Rightarrow> bool" where
  step_stop: "worker_step (d, wk) (d, worker_stop wk)"
| step_claim: "wk_claim wk = Claim_Top \<Longrightarrow> worker_step (d, wk) (d, claim_begin wk)"
| step_acquired: "wk_claim wk = Claim_Acquiring n \<Longrightarrow> store_ok rd \<Longrightarrow>
    acquire_runnable_tx rd locked (wk_lease_seconds wk) (wk_id wk) n now d = (r, d') \<Longrightarrow>
    worker_step (d, wk) (d', claim_finish r wk)"
| step_woken: "wk_claim wk = Claim_Waiting \<Longrightarrow> worker_step (d, wk) (d, wk\<lparr>wk_claim := Claim_Top\<rparr>)"
| step_started: "dget (wk_tasks wk) n = Some t \<Longrightarrow> tk_phase t = Created \<Longrightarrow> \<not> tk_cancelled t \<Longrightarrow>
    worker_step (d, wk) (d, set_task n (\<lambda>t. t\<lparr>tk_phase := Driving\<rparr>) wk)"
| step_never_started: "dget (wk_tasks wk) n = Some t \<Longrightarrow> tk_phase t = Created \<Longrightarrow> tk_cancelled t \<Longrightarrow>
    worker_step (d, wk) (d, task_done n wk)"
| step_drive_over: "dget (wk_tasks wk) n = Some t \<Longrightarrow> tk_phase t = Driving \<Longrightarrow>
    worker_step (d, wk) (d, set_task n (\<lambda>t. t\<lparr>tk_phase := Releasing, tk_cancelled := False\<rparr>) wk)"
| step_released: "dget (wk_tasks wk) n = Some t \<Longrightarrow> tk_phase t = Releasing \<Longrightarrow> \<not> tk_cancelled t \<Longrightarrow>
    d' = release (wk_id wk) (task_iid t) d \<or> d' = d \<Longrightarrow> worker_step (d, wk) (d', task_gone (task_iid t) n wk)"
| step_release_cancelled: "dget (wk_tasks wk) n = Some t \<Longrightarrow> tk_phase t = Releasing \<Longrightarrow> tk_cancelled t \<Longrightarrow>
    d' = release (wk_id wk) (task_iid t) d \<or> d' = d \<Longrightarrow> worker_step (d, wk) (d', task_done n wk)"
| step_beat: "wk_beat wk = Beat_Sleeping \<Longrightarrow> wk_claim wk \<noteq> Claim_Stopped \<Longrightarrow> worker_step (d, wk) (d, beat_begin wk)"
| step_beaten: "wk_beat wk = Beat_Sent held \<Longrightarrow> wk_claim wk \<noteq> Claim_Stopped \<Longrightarrow>
    heartbeat (wk_lease_seconds wk) (wk_id wk) held now d = (alive, d') \<Longrightarrow>
    worker_step (d, wk) (d', beat_finish held alive wk)"
| step_beat_failed: "wk_beat wk = Beat_Sent held \<Longrightarrow> worker_step (d, wk) (d, wk\<lparr>wk_beat := Beat_Sleeping\<rparr>)"
| step_recovery: "worker_step (d, wk) (d, recovery_tick d now wk)"
| step_sweep: "worker_step (d, wk) (d, sweep_tick fired wk)"
| step_others: "others_step (wk_id wk) d d' \<Longrightarrow> worker_step (d, wk) (d', wk)"

inductive_cases worker_stepE: "worker_step s s'"

abbreviation worker_run :: "db \<times> worker \<Rightarrow> db \<times> worker \<Rightarrow> bool" where
  "worker_run \<equiv> worker_step\<^sup>*\<^sup>*"

section \<open>Capacity\<close>

text \<open>Every running task is the one \<open>_active\<close> has for its instance.\<close>

definition tasks_ok :: "worker \<Rightarrow> bool" where
  "tasks_ok wk \<longleftrightarrow>
     distinct (dkeys (wk_active wk)) \<and> distinct (dkeys (wk_tasks wk)) \<and>
     (\<forall>(n, t) \<in> set (wk_tasks wk). dget (wk_active wk) (task_iid t) = Some n \<and> la_worker_id (tk_lease t) = wk_id wk) \<and>
     (\<forall>(i, n) \<in> set (wk_active wk). n < wk_next wk)"

definition slots_ok :: "worker \<Rightarrow> bool" where
  "slots_ok wk \<longleftrightarrow> int (length (wk_active wk)) \<le> max (wk_concurrency wk) 0 \<and>
     (\<forall>n. wk_claim wk = Claim_Acquiring n \<longrightarrow> int (length (wk_active wk)) + n \<le> wk_concurrency wk \<and> 0 < n)"

definition worker_ok :: "worker \<Rightarrow> bool" where
  "worker_ok wk \<longleftrightarrow> tasks_ok wk \<and> slots_ok wk"

lemma dadjust_length [simp]: "length (dadjust k f d) = length d"
  by (simp add: dadjust_def)

lemma set_task_simps [simp]:
  "dkeys (wk_tasks (set_task n f wk)) = dkeys (wk_tasks wk)"
  "wk_active (set_task n f wk) = wk_active wk" "wk_next (set_task n f wk) = wk_next wk"
  "wk_id (set_task n f wk) = wk_id wk" "wk_claim (set_task n f wk) = wk_claim wk"
  "wk_concurrency (set_task n f wk) = wk_concurrency wk"
  "wk_lease_seconds (set_task n f wk) = wk_lease_seconds wk"
  by (simp_all add: set_task_def)

lemma set_task_ok:
  assumes "worker_ok wk" "\<And>t. tk_lease (f t) = tk_lease t"
  shows "worker_ok (set_task n f wk)"
proof -
  have "\<exists>t'. (m, t') \<in> set xs \<and> tk_lease t = tk_lease t'" if "(m, t) \<in> set (dadjust n f xs)" for m t xs
    using that assms(2) by (auto simp: dadjust_def split: if_splits)
  then have "\<forall>(m, t) \<in> set (wk_tasks (set_task n f wk)). dget (wk_active wk) (task_iid t) = Some m \<and>
      la_worker_id (tk_lease t) = wk_id wk"
    using assms(1) by (fastforce simp: worker_ok_def tasks_ok_def set_task_def)
  then show ?thesis using assms(1) by (simp add: worker_ok_def tasks_ok_def slots_ok_def)
qed

lemma cancel_active_simps [simp]:
  "wk_active (cancel_active i wk) = wk_active wk" "wk_next (cancel_active i wk) = wk_next wk"
  "wk_id (cancel_active i wk) = wk_id wk" "wk_claim (cancel_active i wk) = wk_claim wk"
  "wk_concurrency (cancel_active i wk) = wk_concurrency wk"
  "wk_lease_seconds (cancel_active i wk) = wk_lease_seconds wk"
  by (simp_all add: cancel_active_def split: option.splits)

lemma cancel_active_ok: "worker_ok wk \<Longrightarrow> worker_ok (cancel_active i wk)"
  by (simp add: cancel_active_def set_task_ok split: option.splits)

abbreviation cancel_all :: "worker \<Rightarrow> string list \<Rightarrow> worker" where
  "cancel_all \<equiv> foldl (\<lambda>wk lost. cancel_active lost wk)"

lemma cancel_all_ok: "worker_ok wk \<Longrightarrow> worker_ok (cancel_all wk is)"
  by (induction "is" arbitrary: wk) (auto intro: cancel_active_ok)

lemma cancel_all_frame [simp]:
  "wk_active (cancel_all wk is) = wk_active wk \<and> wk_id (cancel_all wk is) = wk_id wk \<and>
   wk_concurrency (cancel_all wk is) = wk_concurrency wk \<and> wk_lease_seconds (cancel_all wk is) = wk_lease_seconds wk"
  by (induction "is" arbitrary: wk) auto

lemma tasks_ok_cong:
  "wk_active wk' = wk_active wk \<Longrightarrow> wk_tasks wk' = wk_tasks wk \<Longrightarrow> wk_next wk' = wk_next wk \<Longrightarrow> wk_id wk' = wk_id wk \<Longrightarrow>
   tasks_ok wk \<Longrightarrow> tasks_ok wk'"
  by (auto simp only: tasks_ok_def)

lemma worker_ok_cong:
  "wk_active wk' = wk_active wk \<Longrightarrow> wk_tasks wk' = wk_tasks wk \<Longrightarrow> wk_next wk' = wk_next wk \<Longrightarrow> wk_id wk' = wk_id wk \<Longrightarrow>
   wk_concurrency wk' = wk_concurrency wk \<Longrightarrow> wk_claim wk' = wk_claim wk \<or> \<not> (\<exists>n. wk_claim wk' = Claim_Acquiring n) \<Longrightarrow>
   worker_ok wk \<Longrightarrow> worker_ok wk'"
  by (auto simp: worker_ok_def tasks_ok_def slots_ok_def)

lemma task_done_ok: "worker_ok wk \<Longrightarrow> worker_ok (task_done n wk)"
  by (auto simp: worker_ok_def tasks_ok_def slots_ok_def task_done_def distinct_map_filter)

text \<open>Two running tasks have different instances.\<close>

lemma tasks_distinct:
  assumes "tasks_ok wk" shows "distinct (map (\<lambda>(n, t). task_iid t) (wk_tasks wk))"
proof -
  have "inj_on (\<lambda>(n, t). task_iid t) (set (wk_tasks wk))"
  proof (rule inj_onI)
    fix x y
    assume x: "x \<in> set (wk_tasks wk)" and y: "y \<in> set (wk_tasks wk)" and eq: "(case x of (n, t) \<Rightarrow> task_iid t) = (case y of (n, t) \<Rightarrow> task_iid t)"
    obtain n t m u where xy: "x = (n, t)" "y = (m, u)" using prod.exhaust by metis
    have "dget (wk_active wk) (task_iid t) = Some n" "dget (wk_active wk) (task_iid u) = Some m"
      using assms x y unfolding xy tasks_ok_def by auto
    then have "n = m" using eq xy by simp
    then show "x = y" using assms x y unfolding xy tasks_ok_def by (metis in_dget option.inject)
  qed
  moreover have "distinct (wk_tasks wk)" using assms by (auto simp: tasks_ok_def distinct_map)
  ultimately show ?thesis by (simp add: distinct_map)
qed

lemma tasks_le_active:
  assumes "tasks_ok wk" shows "length (wk_tasks wk) \<le> length (wk_active wk)"
proof -
  have "set (map (\<lambda>(n, t). task_iid t) (wk_tasks wk)) \<subseteq> set (dkeys (wk_active wk))"
    using assms by (auto simp: tasks_ok_def dest!: bspec dget_in_keys)
  then have "card (set (map (\<lambda>(n, t). task_iid t) (wk_tasks wk))) \<le> card (set (dkeys (wk_active wk)))"
    by (rule card_mono [OF finite_set])
  then show ?thesis
    using distinct_card [OF tasks_distinct [OF assms]] assms distinct_card [of "dkeys (wk_active wk)"]
    by (simp add: tasks_ok_def)
qed

lemma dget_filter_other: "k \<noteq> j \<Longrightarrow> dget (filter (\<lambda>(k, v). k \<noteq> j) d) k = dget d k"
  by (induction d) auto

lemma task_gone_ok:
  assumes "worker_ok wk" "dget (wk_tasks wk) n = Some t"
  shows "worker_ok (task_gone (task_iid t) n wk)"
proof -
  have ok: "tasks_ok wk" and sl: "slots_ok wk" using assms(1) by (simp_all add: worker_ok_def)
  have own: "dget (wk_active wk) (task_iid t) = Some n"
    using ok dget_Some_in [OF assms(2)] by (auto simp: tasks_ok_def)
  let ?rest = "filter (\<lambda>(k, m). k \<noteq> task_iid t) (wk_active wk)"
  have "dget ?rest (task_iid u) = Some m \<and> la_worker_id (tk_lease u) = wk_id wk"
    if "(m, u) \<in> set (wk_tasks wk)" "m \<noteq> n" for m u
  proof -
    have m: "dget (wk_active wk) (task_iid u) = Some m" "la_worker_id (tk_lease u) = wk_id wk"
      using ok that(1) by (auto simp: tasks_ok_def)
    then have "task_iid u \<noteq> task_iid t" using own that(2) by auto
    then show ?thesis using m by (simp add: dget_filter_other)
  qed
  then have "tasks_ok (task_gone (task_iid t) n wk)"
    using ok by (auto simp: tasks_ok_def task_gone_def task_done_def distinct_map_filter)
  moreover have le: "int (length ?rest) \<le> int (length (wk_active wk))" by (simp add: length_filter_le)
  have "slots_ok (task_gone (task_iid t) n wk)"
    using sl le order_trans [OF add_right_mono [OF le]] order_trans [OF le]
    by (simp add: slots_ok_def task_gone_def task_done_def)
  ultimately show ?thesis by (simp add: worker_ok_def)
qed

lemma spawn_simps [simp]:
  "wk_id (spawn wk l) = wk_id wk" "wk_claim (spawn wk l) = wk_claim wk"
  "wk_concurrency (spawn wk l) = wk_concurrency wk" "wk_lease_seconds (spawn wk l) = wk_lease_seconds wk"
  by (simp_all add: spawn_def)

lemma spawn_ok:
  assumes "tasks_ok wk" "la_instance_id l \<notin> set (dkeys (wk_active wk))" "la_worker_id l = wk_id wk"
  shows "tasks_ok (spawn wk l) \<and> length (wk_active (spawn wk l)) = Suc (length (wk_active wk))"
proof -
  let ?a = "wk_active wk @ [(la_instance_id l, wk_next wk)]"
  have a: "wk_active (spawn wk l) = ?a" using assms(2) by (simp add: spawn_def dset_fresh)
  have fresh: "wk_next wk \<notin> set (dkeys (wk_tasks wk))"
  proof
    assume "wk_next wk \<in> set (dkeys (wk_tasks wk))"
    then obtain t where "(wk_next wk, t) \<in> set (wk_tasks wk)" by auto
    then have "dget (wk_active wk) (task_iid t) = Some (wk_next wk)" using assms(1) by (auto simp: tasks_ok_def)
    from dget_Some_in [OF this] show False using assms(1) by (auto simp: tasks_ok_def)
  qed
  have keep: "dget ?a (task_iid t) = Some n" if "(n, t) \<in> set (wk_tasks wk)" for n t
  proof -
    have "dget (wk_active wk) (task_iid t) = Some n" using assms(1) that by (auto simp: tasks_ok_def)
    moreover from dget_in_keys [OF this] have "task_iid t \<noteq> la_instance_id l" using assms(2) by metis
    ultimately show ?thesis using a by (simp add: spawn_def)
  qed
  have "dget ?a (la_instance_id l) = Some (wk_next wk)" unfolding a [symmetric] by (simp add: spawn_def)
  then show ?thesis
    using assms fresh keep unfolding tasks_ok_def a
    by (auto simp: spawn_def less_Suc_eq)
qed

text \<open>Spawning the leases of one acquisition.\<close>

abbreviation spawn_new :: "worker \<Rightarrow> lease list \<Rightarrow> worker" where
  "spawn_new \<equiv> foldl (\<lambda>wk l. if la_instance_id l \<notin> set (dkeys (wk_active wk)) then spawn wk l else wk)"

lemma spawn_new_frame:
  "wk_id (spawn_new wk ls) = wk_id wk \<and> wk_concurrency (spawn_new wk ls) = wk_concurrency wk \<and>
   wk_lease_seconds (spawn_new wk ls) = wk_lease_seconds wk"
  by (induction ls arbitrary: wk) auto

lemma spawn_new_ok:
  assumes "tasks_ok wk" "\<forall>l \<in> set ls. la_worker_id l = wk_id wk"
  shows "tasks_ok (spawn_new wk ls) \<and> length (wk_active (spawn_new wk ls)) \<le> length (wk_active wk) + length ls"
  using assms
proof (induction ls arbitrary: wk)
  case (Cons l ls)
  show ?case
  proof (cases "la_instance_id l \<in> set (dkeys (wk_active wk))")
    case True
    then show ?thesis using Cons.IH [of wk] Cons.prems by simp
  next
    case False
    have sp: "tasks_ok (spawn wk l)" "length (wk_active (spawn wk l)) = Suc (length (wk_active wk))"
      using spawn_ok [OF Cons.prems(1) False] Cons.prems(2) by simp_all
    then show ?thesis using Cons.IH [of "spawn wk l"] Cons.prems(2) False by simp
  qed
qed simp

lemma claim_finish_ok:
  assumes "worker_ok wk" "wk_claim wk = Claim_Acquiring n" "store_ok rd"
    and "acquire_runnable_tx rd locked secs (wk_id wk) n now d = (r, d')"
  shows "worker_ok (claim_finish r wk)"
proof -
  define ls where "ls = (case r of Inl e \<Rightarrow> [] | Inr ls \<Rightarrow> ls)"
  have n: "int (length (wk_active wk)) + n \<le> wk_concurrency wk" "0 < n"
    using assms(1,2) by (simp_all add: worker_ok_def slots_ok_def)
  have ls: "(\<forall>l \<in> set ls. la_worker_id l = wk_id wk) \<and> length ls \<le> nat n"
  proof (cases r)
    case (Inr xs)
    then show ?thesis using acquire_tx_Inr [OF assms(3) assms(4) [unfolded Inr]] by (simp add: ls_def)
  qed (simp add: ls_def)
  have sp: "tasks_ok (spawn_new wk ls)" "length (wk_active (spawn_new wk ls)) \<le> length (wk_active wk) + length ls"
    using spawn_new_ok [of wk ls] assms(1) ls by (simp_all add: worker_ok_def)
  have le: "int (length (wk_active (spawn_new wk ls))) \<le> wk_concurrency wk"
    using sp(2) n ls by linarith
  have fin: "claim_finish r wk = spawn_new wk ls\<lparr>wk_claim := Claim_Waiting, wk_wakeup := False\<rparr>"
    by (simp add: claim_finish_def ls_def)
  have "slots_ok (spawn_new wk ls\<lparr>wk_claim := Claim_Waiting, wk_wakeup := False\<rparr>)"
    using le spawn_new_frame [of wk ls] by (simp add: slots_ok_def)
  moreover have "tasks_ok (spawn_new wk ls\<lparr>wk_claim := Claim_Waiting, wk_wakeup := False\<rparr>)"
    by (rule tasks_ok_cong [OF _ _ _ _ sp(1)]) simp_all
  ultimately show ?thesis unfolding fin by (simp add: worker_ok_def)
qed

lemma step_ok: "worker_step s s' \<Longrightarrow> worker_ok (snd s) \<Longrightarrow> worker_ok (snd s')"
proof (induction rule: worker_step.induct)
  case (step_claim wk d)
  then show ?case by (auto simp: worker_ok_def tasks_ok_def slots_ok_def claim_begin_def free_of_def)
next
  case (step_acquired wk n rd locked now d r d')
  then show ?case using claim_finish_ok by auto
next
  case (step_beaten wk held now d alive d')
  have "worker_ok (cancel_all wk (filter (\<lambda>i. i \<notin> set alive) held))"
    using step_beaten.prems by (intro cancel_all_ok) simp
  then show ?case unfolding beat_finish_def snd_conv by (rule worker_ok_cong [rotated -1]) simp_all
qed (auto simp: worker_stop_def beat_begin_def recovery_tick_def sweep_tick_def
       intro: set_task_ok task_done_ok task_gone_ok worker_ok_cong [rotated -1])

lemma run_ok: "worker_run s s' \<Longrightarrow> worker_ok (snd s) \<Longrightarrow> worker_ok (snd s')"
  by (induction rule: rtranclp_induct) (auto intro: step_ok)

lemma new_worker_ok: "worker_ok (new_worker wid concurrency secs)"
  by (simp add: worker_ok_def tasks_ok_def slots_ok_def new_worker_def)

lemma step_frame: "worker_step s s' \<Longrightarrow> wk_id (snd s') = wk_id (snd s) \<and> wk_concurrency (snd s') = wk_concurrency (snd s) \<and>
    wk_lease_seconds (snd s') = wk_lease_seconds (snd s)"
proof (induction rule: worker_step.induct)
  case (step_acquired wk n rd locked now d r d')
  then show ?case using spawn_new_frame by (simp add: claim_finish_def Let_def)
next
  case (step_beaten wk held now d alive d')
  then show ?case by (simp add: beat_finish_def)
qed (auto simp: worker_stop_def claim_begin_def beat_begin_def recovery_tick_def sweep_tick_def task_gone_def task_done_def)

lemma run_frame: "worker_run s s' \<Longrightarrow> wk_id (snd s') = wk_id (snd s) \<and> wk_concurrency (snd s') = wk_concurrency (snd s) \<and>
    wk_lease_seconds (snd s') = wk_lease_seconds (snd s)"
  by (induction rule: rtranclp_induct) (auto dest: step_frame)

section \<open>Slots that are never freed\<close>

text \<open>
  The task \<open>_active\<close> has for the instance is done, or a cancellation waits for it before its first
  step or at its release.
\<close>

definition doomed :: "string \<Rightarrow> nat \<Rightarrow> worker \<Rightarrow> bool" where
  "doomed iid n wk \<longleftrightarrow> dget (wk_active wk) iid = Some n \<and> n < wk_next wk \<and>
     (\<forall>t. dget (wk_tasks wk) n = Some t \<longrightarrow> tk_cancelled t \<and> tk_phase t \<noteq> Driving)"

lemma doomed_set_task:
  assumes "doomed iid n wk" "\<And>t. m = n \<Longrightarrow> tk_cancelled t \<Longrightarrow> tk_phase t \<noteq> Driving \<Longrightarrow> tk_cancelled (f t) \<and> tk_phase (f t) \<noteq> Driving"
  shows "doomed iid n (set_task m f wk)"
  using assms by (auto simp: doomed_def set_task_def)

lemma doomed_cancel: "doomed iid n wk \<Longrightarrow> doomed iid n (cancel_active j wk)"
  unfolding cancel_active_def by (auto intro: doomed_set_task split: option.splits)

lemma doomed_cancel_all: "doomed iid n wk \<Longrightarrow> doomed iid n (cancel_all wk is)"
  by (induction "is" arbitrary: wk) (auto intro: doomed_cancel)

lemma doomed_spawn: "doomed iid n wk \<Longrightarrow> doomed iid n (spawn_new wk ls)"
proof (induction ls arbitrary: wk)
  case (Cons l ls)
  have "doomed iid n (spawn wk l)" if "la_instance_id l \<notin> set (dkeys (wk_active wk))"
  proof -
    have d: "dget (wk_active wk) iid = Some n" "n < wk_next wk" using Cons.prems by (simp_all add: doomed_def)
    have "la_instance_id l \<noteq> iid" using that dget_in_keys [OF d(1)] by metis
    then show ?thesis using Cons.prems d by (auto simp: doomed_def spawn_def map_add_def split: option.splits)
  qed
  then show ?case using Cons.IH Cons.prems by simp
qed simp

lemma dget_filter_out: "dget (filter (\<lambda>(k, v). k \<noteq> j) d) j = None"
  by (induction d) auto

lemma doomed_task_done: "doomed iid n wk \<Longrightarrow> doomed iid n (task_done m wk)"
  by (cases "m = n") (simp_all add: doomed_def task_done_def dget_filter_out dget_filter_other)

lemma doomed_cong:
  "wk_active wk' = wk_active wk \<Longrightarrow> wk_tasks wk' = wk_tasks wk \<Longrightarrow> wk_next wk' = wk_next wk \<Longrightarrow>
   doomed iid n wk \<Longrightarrow> doomed iid n wk'"
  by (simp add: doomed_def)

lemma step_doomed: "worker_step s s' \<Longrightarrow> worker_ok (snd s) \<Longrightarrow> doomed iid n (snd s) \<Longrightarrow> doomed iid n (snd s')"
proof (induction rule: worker_step.induct)
  case (step_acquired wk m rd locked now d r d')
  have "doomed iid n (spawn_new wk (case r of Inl e \<Rightarrow> [] | Inr ls \<Rightarrow> ls))"
    by (rule doomed_spawn) (use step_acquired.prems in simp)
  then show ?case unfolding claim_finish_def Let_def snd_conv by (rule doomed_cong [rotated -1]) simp_all
next
  case (step_started wk m t d)
  then have "m \<noteq> n" by (auto simp: doomed_def)
  then show ?case using step_started.prems by (auto intro: doomed_set_task)
next
  case (step_drive_over wk m t d)
  then have "m \<noteq> n" by (auto simp: doomed_def)
  then show ?case using step_drive_over.prems by (auto intro: doomed_set_task)
next
  case (step_released wk m t d' d)
  have "m \<noteq> n" using step_released by (auto simp: doomed_def)
  moreover have "dget (wk_active wk) (task_iid t) = Some m"
    using step_released.prems(1) dget_Some_in [OF step_released.hyps(1)] by (auto simp: worker_ok_def tasks_ok_def)
  ultimately have "task_iid t \<noteq> iid" using step_released.prems(2) by (auto simp: doomed_def)
  then have "doomed iid n (wk\<lparr>wk_active := filter (\<lambda>(k, m). k \<noteq> task_iid t) (wk_active wk)\<rparr>)"
    using step_released.prems(2) by (simp add: doomed_def dget_filter_other)
  then show ?case by (simp add: task_gone_def doomed_task_done)
next
  case (step_beaten wk held now d alive d')
  have "doomed iid n (cancel_all wk (filter (\<lambda>i. i \<notin> set alive) held))"
    using step_beaten.prems by (intro doomed_cancel_all) simp
  then show ?case unfolding beat_finish_def snd_conv by (rule doomed_cong [rotated -1]) simp_all
qed (auto simp: worker_stop_def claim_begin_def beat_begin_def recovery_tick_def sweep_tick_def
       intro: doomed_task_done doomed_cong [rotated -1])

lemma run_doomed: "worker_run s s' \<Longrightarrow> worker_ok (snd s) \<Longrightarrow> doomed iid n (snd s) \<Longrightarrow> doomed iid n (snd s')"
proof (induction rule: rtranclp_induct)
  case (step s1 s2)
  then show ?case using step_doomed run_ok by metis
qed simp

text \<open>Nothing drives a doomed instance.\<close>

lemma doomed_undriven:
  assumes "tasks_ok wk" "doomed iid n wk" "(m, t) \<in> set (wk_tasks wk)" "task_iid t = iid"
  shows "m = n \<and> tk_phase t \<noteq> Driving"
proof -
  have "dget (wk_active wk) iid = Some m" using assms(1,3,4) by (auto simp: tasks_ok_def)
  then have "m = n" using assms(2) by (simp add: doomed_def)
  moreover have "dget (wk_tasks wk) m = Some t" using assms(1,3) by (auto simp: tasks_ok_def intro: in_dget)
  ultimately show ?thesis using assms(2) by (simp add: doomed_def)
qed

text \<open>A renewed lease keeps everyone away until it expires.\<close>

lemma heartbeat_renews:
  assumes "dget (db_leases d) iid = Some le" "le_worker_id le = w" "le_instance_id le = iid" "iid \<in> set held"
    and "heartbeat secs w held now d = (alive, d')" "ix_instance_id r = iid" "t \<le> now + secs * 1000000"
  shows "\<not> claimable d' t r"
proof -
  have "held \<noteq> []" using assms(4) by auto
  then have "db_leases d' = dupdate_where (\<lambda>r. le_worker_id r = w \<and> le_instance_id r \<in> set held)
      (\<lambda>r. r\<lparr>le_heartbeat_at := now, le_expires_at := now + secs * 1000000\<rparr>) (db_leases d)"
    using assms(5) by (auto simp: heartbeat_def Let_def)
  then have "dget (db_leases d') iid = Some (le\<lparr>le_heartbeat_at := now, le_expires_at := now + secs * 1000000\<rparr>)"
    using assms(1-4) by simp
  then show ?thesis using assms(6,7) by (simp add: claimable_def)
qed


section \<open>Concrete runs\<close>

text \<open>The sample instance is claimed and driven, and a heartbeat for it is on its way.\<close>

definition sample_idle :: worker where
  "sample_idle = new_worker ''w1'' 5 30"

definition sample_taken :: worker where
  "sample_taken = claim_finish (Inr [sample_lease ''w1'' 1 30001000]) (claim_begin sample_idle)"

definition sample_busy :: worker where
  "sample_busy = beat_begin (set_task 0 (\<lambda>t. t\<lparr>tk_phase := Driving\<rparr>) sample_taken)"

lemma task_found:
  "(case dget (wk_tasks wk) n of Some t \<Rightarrow> P t | None \<Rightarrow> False) \<Longrightarrow> \<exists>t. dget (wk_tasks wk) n = Some t \<and> P t"
  by (auto split: option.splits)

lemma sample_busy_run: "worker_run (sample_db, sample_idle) (leased_db, sample_busy)"
proof -
  have "worker_step (sample_db, sample_idle) (sample_db, claim_begin sample_idle)"
    by (rule step_claim) (simp add: sample_idle_def new_worker_def)
  moreover have "worker_step (sample_db, claim_begin sample_idle)
      (leased_db, sample_taken)"
    unfolding sample_taken_def
  proof (rule step_acquired [where n = 5 and rd = sample_db and locked = "{}" and now = 1000])
    have "wk_lease_seconds (claim_begin sample_idle) = 30" "wk_id (claim_begin sample_idle) = ''w1''" by code_simp+
    then show "acquire_runnable_tx sample_db {} (wk_lease_seconds (claim_begin sample_idle))
        (wk_id (claim_begin sample_idle)) 5 1000 sample_db = (Inr [sample_lease ''w1'' 1 30001000], leased_db)"
      using leased_db_acquire by (simp add: acquire_runnable_def)
  qed (code_simp, use sample_db_ok in simp)
  moreover have "\<exists>t. dget (wk_tasks sample_taken) 0 = Some t \<and> (tk_phase t = Created \<and> \<not> tk_cancelled t)"
    by (rule task_found) code_simp
  then have "worker_step (leased_db, sample_taken) (leased_db, set_task 0 (\<lambda>t. t\<lparr>tk_phase := Driving\<rparr>) sample_taken)"
    using step_started by blast
  moreover have "worker_step (leased_db, set_task 0 (\<lambda>t. t\<lparr>tk_phase := Driving\<rparr>) sample_taken) (leased_db, sample_busy)"
    unfolding sample_busy_def by (rule step_beat) code_simp+
  ultimately show ?thesis by (meson rtranclp.rtrancl_refl rtranclp.rtrancl_into_rtrancl)
qed


text \<open>Its drive is over and the release is on its way as well.\<close>

definition sample_ending :: worker where
  "sample_ending = set_task 0 (\<lambda>t. t\<lparr>tk_phase := Releasing, tk_cancelled := False\<rparr>) sample_busy"

lemma sample_ending_run: "worker_step (d, sample_busy) (d, sample_ending)"
proof -
  have "\<exists>t. dget (wk_tasks sample_busy) 0 = Some t \<and> tk_phase t = Driving" by (rule task_found) code_simp
  then show ?thesis unfolding sample_ending_def using step_drive_over by blast
qed

text \<open>
  A heartbeat that was on its way when the release committed gives the lease back to a worker that
  no longer drives the instance: until it expires no worker can claim the instance.
\<close>

definition sample_revived :: db where
  "sample_revived = snd (heartbeat 30 ''w1'' [''i1''] 2000 (release ''w1'' ''i1'' leased_db))"

lemma released_lease_revived:
  "\<exists>wk. worker_run (sample_db, sample_idle) (sample_revived, wk) \<and> wk_active wk = [] \<and>
     claim (release ''w1'' ''i1'' leased_db) {} 5 30000000 \<noteq> [] \<and> claim sample_revived {} 5 30000000 = []"
proof -
  let ?free = "task_gone ''i1'' 0 sample_ending"
  have "\<exists>t. dget (wk_tasks sample_ending) 0 = Some t \<and> (tk_phase t = Releasing \<and> \<not> tk_cancelled t \<and> task_iid t = ''i1'')"
    by (rule task_found) code_simp
  moreover have "wk_id sample_ending = ''w1''" by code_simp
  ultimately have gone: "worker_step (leased_db, sample_ending) (release ''w1'' ''i1'' leased_db, ?free)"
    using step_released by metis
  have "fst (heartbeat 30 ''w1'' [''i1''] 2000 (release ''w1'' ''i1'' leased_db)) = [''i1'']" by code_simp
  then have hb: "heartbeat 30 ''w1'' [''i1''] 2000 (release ''w1'' ''i1'' leased_db) = ([''i1''], sample_revived)"
    by (simp add: sample_revived_def prod_eq_iff)
  have "worker_step (release ''w1'' ''i1'' leased_db, ?free) (sample_revived, beat_finish [''i1''] [''i1''] ?free)"
  proof (rule step_beaten)
    show "wk_beat ?free = Beat_Sent [''i1'']" by code_simp
    show "wk_claim ?free \<noteq> Claim_Stopped" by code_simp
    have "wk_lease_seconds ?free = 30" "wk_id ?free = ''w1''" by code_simp+
    then show "heartbeat (wk_lease_seconds ?free) (wk_id ?free) [''i1''] 2000 (release ''w1'' ''i1'' leased_db) =
        ([''i1''], sample_revived)" using hb by simp
  qed
  then have "worker_run (sample_db, sample_idle) (sample_revived, beat_finish [''i1''] [''i1''] ?free)"
    using sample_busy_run sample_ending_run gone by (meson rtranclp.rtrancl_into_rtrancl)
  moreover have "wk_active (beat_finish [''i1''] [''i1''] ?free) = []" by code_simp
  moreover have "claim (release ''w1'' ''i1'' leased_db) {} 5 30000000 \<noteq> []" by code_simp
  moreover have "claim sample_revived {} 5 30000000 = []" by code_simp
  ultimately show ?thesis by blast
qed

text \<open>
  Another worker takes the lease over, the heartbeat reports it lost, and the task is cancelled while
  its release is awaited; later the first worker claims the instance again.
\<close>

definition sample_cancelled :: worker where
  "sample_cancelled = beat_finish [''i1''] [] sample_ending"

definition sample_leak :: worker where
  "sample_leak = task_done 0 sample_cancelled"

lemma sample_cancelled_run: "worker_run (sample_db, sample_idle) (released_db, sample_cancelled)"
proof -
  have w: "wk_id sample_ending = ''w1''" "wk_lease_seconds sample_ending = 30" by code_simp+
  have "others_step ''w1'' leased_db released_db"
    by (rule others_acquire [OF _ leased_db_ok released_db_acquire [unfolded acquire_runnable_def]]) simp
  then have taken: "worker_step (leased_db, sample_ending) (released_db, sample_ending)"
    using step_others w(1) by metis
  have "heartbeat 30 ''w1'' [''i1''] 41000000 released_db = ([], released_db)" by code_simp
  then have lost: "worker_step (released_db, sample_ending) (released_db, sample_cancelled)"
    unfolding sample_cancelled_def
  proof (intro step_beaten [where now = 41000000])
    show "wk_beat sample_ending = Beat_Sent [''i1'']" by code_simp
    show "wk_claim sample_ending \<noteq> Claim_Stopped" by code_simp
  qed (simp add: w)
  then show ?thesis
    using sample_busy_run sample_ending_run taken by (meson rtranclp.rtrancl_into_rtrancl)
qed

lemma sample_cancelled_task:
  "\<exists>t. dget (wk_tasks sample_cancelled) 0 = Some t \<and> (tk_phase t = Releasing \<and> tk_cancelled t)"
  by (rule task_found) code_simp

lemma sample_leak_step: "worker_step (released_db, sample_cancelled) (released_db, sample_leak)"
  unfolding sample_leak_def using sample_cancelled_task step_release_cancelled by blast

definition sample_reclaimed :: db where
  "sample_reclaimed = snd (acquire_runnable 30 ''w1'' 4 80000000 released_db)"


definition sample_starving :: worker where
  "sample_starving = claim_finish (Inr [sample_lease ''w1'' 3 110000000])
     (claim_begin (sample_leak\<lparr>wk_claim := Claim_Top\<rparr>))"

lemma sample_starving_run: "worker_run (released_db, sample_leak) (sample_reclaimed, sample_starving)"
proof -
  let ?top = "claim_begin (sample_leak\<lparr>wk_claim := Claim_Top\<rparr>)"
  have "worker_step (released_db, sample_leak) (released_db, sample_leak\<lparr>wk_claim := Claim_Top\<rparr>)"
    by (rule step_woken) code_simp
  moreover have "worker_step (released_db, sample_leak\<lparr>wk_claim := Claim_Top\<rparr>) (released_db, ?top)"
    by (rule step_claim) simp
  moreover have "worker_step (released_db, ?top) (sample_reclaimed, sample_starving)"
    unfolding sample_starving_def
  proof (rule step_acquired [where n = 4 and rd = released_db and locked = "{}" and now = 80000000])
    obtain le where le: "released_db = leased_db\<lparr>db_leases := le\<rparr>"
      using acquire_tx_Inr [OF leased_db_ok released_db_acquire [unfolded acquire_runnable_def]] by blast
    have "store_ok released_db = store_ok leased_db" by (rule store_ok_cong) (simp_all add: le)
    then show "store_ok released_db" using leased_db_ok by simp
    have "fst (acquire_runnable 30 ''w1'' 4 80000000 released_db) = Inr [sample_lease ''w1'' 3 110000000]" by code_simp
    moreover have "wk_lease_seconds ?top = 30" "wk_id ?top = ''w1''" by code_simp+
    ultimately show "acquire_runnable_tx released_db {} (wk_lease_seconds ?top) (wk_id ?top) 4 80000000 released_db =
        (Inr [sample_lease ''w1'' 3 110000000], sample_reclaimed)"
      by (simp add: sample_reclaimed_def acquire_runnable_def prod_eq_iff)
  qed code_simp
  ultimately show ?thesis by (meson rtranclp.rtrancl_refl rtranclp.rtrancl_into_rtrancl)
qed

section \<open>Properties\<close>

text \<open>
  C10: the tasks of a worker that are running, counted as tasks and not by the instances \<open>_active\<close>
  lists, never outnumber its concurrency, no two of them drive the same instance, and each runs under
  a lease that was issued to this worker; \<open>_active\<close> itself never outgrows the concurrency either.
  This holds however its loops, the ends of its drives, lost leases and the other workers interleave.
\<close>

theorem worker_capacity:
  assumes "worker_run (d, new_worker wid concurrency secs) (d', wk)" "0 \<le> concurrency"
  shows "int (length (wk_tasks wk)) \<le> concurrency \<and> int (length (wk_active wk)) \<le> concurrency \<and>
    distinct (map (\<lambda>(n, t). task_iid t) (wk_tasks wk)) \<and>
    (\<forall>(n, t) \<in> set (wk_tasks wk). la_worker_id (tk_lease t) = wid)"
proof -
  have ok: "tasks_ok wk" "slots_ok wk" using run_ok [OF assms(1)] new_worker_ok by (simp_all add: worker_ok_def)
  moreover have "wk_id wk = wid" "wk_concurrency wk = concurrency"
    using run_frame [OF assms(1)] by (simp_all add: new_worker_def)
  ultimately have "int (length (wk_active wk)) \<le> concurrency" "\<forall>(n, t) \<in> set (wk_tasks wk). la_worker_id (tk_lease t) = wid"
    using assms(2) by (auto simp: slots_ok_def tasks_ok_def)
  then show ?thesis using tasks_distinct [OF ok(1)] tasks_le_active [OF ok(1)] by simp
qed

theorem worker_capacity_witness:
  "worker_run (sample_db, new_worker ''w1'' 5 30) (leased_db, sample_busy) \<and>
   wk_tasks sample_busy \<noteq> [] \<and> int (length (wk_tasks sample_busy)) \<le> 5 \<and>
   distinct (map (\<lambda>(n, t). task_iid t) (wk_tasks sample_busy))"
proof -
  have "wk_tasks sample_busy \<noteq> []" by code_simp
  then show ?thesis
    using worker_capacity [OF sample_busy_run [unfolded sample_idle_def]] sample_busy_run [unfolded sample_idle_def]
    by simp
qed

text \<open>
  C12: a task of a worker that is cancelled while its release is awaited (or before it took its first
  step) leaves its instance in \<open>_active\<close> for good. In every later state of the worker the instance is
  still there, under that task, and no task of the worker drives it: a lease the worker acquires for
  it is dropped undriven. Each heartbeat renews such a lease, so that no other worker can claim the
  instance before the heartbeats stop.
\<close>

theorem cancelled_release_starves:
  assumes "worker_run (d0, new_worker wid concurrency secs) (d, wk)"
    and "dget (wk_tasks wk) n = Some t" "tk_cancelled t" "tk_phase t = Releasing \<or> tk_phase t = Created"
    and "worker_run (d, wk) (d', wk')"
  shows "dget (wk_active wk') (task_iid t) = Some n \<and>
    (\<forall>(m, u) \<in> set (wk_tasks wk'). task_iid u = task_iid t \<longrightarrow> m = n \<and> tk_phase u \<noteq> Driving) \<and>
    (\<forall>le now alive d2 r at_time. dget (db_leases d') (task_iid t) = Some le \<and> le_worker_id le = wid \<and> le_instance_id le = task_iid t \<and>
       heartbeat secs wid (dkeys (wk_active wk')) now d' = (alive, d2) \<and>
       ix_instance_id r = task_iid t \<and> at_time \<le> now + secs * 1000000 \<longrightarrow> \<not> claimable d2 at_time r)"
proof -
  have ok: "worker_ok wk" using run_ok [OF assms(1)] new_worker_ok by simp
  then have own: "dget (wk_active wk) (task_iid t) = Some n"
    using dget_Some_in [OF assms(2)] by (auto simp: worker_ok_def tasks_ok_def)
  then have "n < wk_next wk" using ok dget_Some_in [OF own] by (auto simp: worker_ok_def tasks_ok_def)
  then have "doomed (task_iid t) n wk" using own assms(2-4) by (auto simp: doomed_def)
  then have dm: "doomed (task_iid t) n wk'" using run_doomed [OF assms(5)] ok by simp
  have tk: "tasks_ok wk'" using run_ok [OF assms(5)] ok by (simp add: worker_ok_def)
  have act: "dget (wk_active wk') (task_iid t) = Some n" using dm by (simp add: doomed_def)
  have "task_iid t \<in> set (dkeys (wk_active wk'))" by (rule dget_in_keys [OF act])
  then have "\<not> claimable d2 at_time r"
    if "dget (db_leases d') (task_iid t) = Some le" "le_worker_id le = wid" "le_instance_id le = task_iid t"
      "heartbeat secs wid (dkeys (wk_active wk')) now d' = (alive, d2)"
      "ix_instance_id r = task_iid t" "at_time \<le> now + secs * 1000000" for le now alive d2 r at_time
    using heartbeat_renews that by metis
  then show ?thesis using act doomed_undriven [OF tk dm] by (auto split: prod.splits)
qed

theorem cancelled_release_starves_witness:
  "\<exists>t. worker_run (sample_db, new_worker ''w1'' 5 30) (released_db, sample_cancelled) \<and>
   dget (wk_tasks sample_cancelled) 0 = Some t \<and> tk_phase t = Releasing \<and> tk_cancelled t \<and> task_iid t = ''i1'' \<and>
   worker_run (released_db, sample_cancelled) (sample_reclaimed, sample_starving) \<and>
   make_guard (sample_lease ''w1'' 3 110000000) sample_reclaimed = Inr () \<and>
   wk_tasks sample_starving = [] \<and> dget (wk_active sample_starving) ''i1'' = Some 0"
proof -
  have "\<exists>t. dget (wk_tasks sample_cancelled) 0 = Some t \<and> (tk_phase t = Releasing \<and> tk_cancelled t \<and> task_iid t = ''i1'')"
    by (rule task_found) code_simp
  then obtain t where t: "dget (wk_tasks sample_cancelled) 0 = Some t" "tk_phase t = Releasing" "tk_cancelled t" "task_iid t = ''i1''"
    by blast
  have run: "worker_run (released_db, sample_cancelled) (sample_reclaimed, sample_starving)"
    using sample_leak_step sample_starving_run by (rule converse_rtranclp_into_rtranclp)
  have "make_guard (sample_lease ''w1'' 3 110000000) sample_reclaimed = Inr ()" "wk_tasks sample_starving = []" by code_simp+
  then show ?thesis
    using cancelled_release_starves [OF sample_cancelled_run [unfolded sample_idle_def] t(1,3) disjI1 [OF t(2)] run]
      sample_cancelled_run t run unfolding sample_idle_def by auto
qed

end
