(* ===== verification/Worker_Drive.thy ===== *)
theory Worker_Drive
  imports Engine_Props Worker
begin

text \<open>
  \<open>core/recovery.py\<close> and the driving part of \<open>worker.py\<close>: the scan for orphaned instances, one
  drive under a lease with its release, and \<open>run_once\<close>. A drive leaves every lease alone, so what
  a worker claimed it also gives back.
\<close>

section \<open>Operations\<close>

record recovery_report =
  rc_scanned_at :: instant
  rc_orphaned_instances :: "string list"
  rc_expired_leases :: nat

definition healthy :: "recovery_report \<Rightarrow> bool" where
  "healthy r \<longleftrightarrow> rc_orphaned_instances r = []"

definition recovery_scan :: "int \<Rightarrow> instant \<Rightarrow> db \<Rightarrow> recovery_report" where
  "recovery_scan stale_after_seconds now d =
     (let cutoff = now - stale_after_seconds * 1000000
      in \<lparr>rc_scanned_at = now,
          rc_orphaned_instances =
            map ix_instance_id (filter (\<lambda>r.
               ix_status r \<in> set [''pending'', ''running'', ''retrying''] \<and>
               (case ix_next_wakeup_at r of None \<Rightarrow> True | Some t \<Rightarrow> t \<le> now) \<and>
               (case dget (db_leases d) (ix_instance_id r) of None \<Rightarrow> True | Some le \<Rightarrow> le_expires_at le < now) \<and>
               ix_updated_at r < cutoff) (map snd (db_index d))),
          rc_expired_leases = length (filter (\<lambda>le. le_expires_at le < now) (map snd (db_leases d)))\<rparr>)"

text \<open>
  \<open>_drive_one\<close>: an exception of the drive is logged, a cancellation passes through, and the lease
  is released in every case.
\<close>

definition drive_one ::
  "'w engine_config \<Rightarrow> string \<Rightarrow> lease \<Rightarrow> (db \<times> 'w, pexn, unit) eff" where
  "drive_one ec worker_id l s =
     (case drive (engine_driver ec) l (make_guard l) s of
        (r, s') \<Rightarrow>
          ((case r of Inl e \<Rightarrow> if pexn_class e = PyCancelledError then Inl e else Inr () | Inr _ \<Rightarrow> Inr ()),
           (release worker_id (la_instance_id l) (fst s'), snd s')))"

text \<open>\<open>run_once\<close>: an exception of a drive ends the loop after its own release.\<close>

fun drive_all ::
  "'w engine_config \<Rightarrow> string \<Rightarrow> lease list \<Rightarrow> drive_result list \<Rightarrow> (db \<times> 'w, pexn, drive_result list) eff" where
  "drive_all ec worker_id [] results s = (Inr results, s)"
| "drive_all ec worker_id (l # ls) results s =
     (case drive (engine_driver ec) l (make_guard l) s of
        (r, s') \<Rightarrow>
          let s' = (release worker_id (la_instance_id l) (fst s'), snd s') in
          (case r of
             Inl e \<Rightarrow> (Inl e, s')
           | Inr rep \<Rightarrow> drive_all ec worker_id ls (results @ [rep_result rep]) s'))"

definition run_once ::
  "'w engine_config \<Rightarrow> int \<Rightarrow> string \<Rightarrow> int \<Rightarrow> (db \<times> 'w, pexn, drive_result list) eff" where
  "run_once ec lease_seconds worker_id concurrency s =
     (case acquire_runnable lease_seconds worker_id concurrency (pt_now (en_ports ec) (snd s)) (fst s) of
        (Inl e, d) \<Rightarrow> (Inl (PExn e []), (d, snd s))
      | (Inr ls, d) \<Rightarrow> drive_all ec worker_id ls [] (d, snd s))"

section \<open>What a drive leaves alone\<close>

text \<open>A relation that the collaborators of a driver keep is kept by a drive.\<close>

locale driver_frame =
  fixes dv :: "('s, 'g) driver" and R :: "'s \<Rightarrow> 's \<Rightarrow> bool"
  assumes R_refl: "reflp R" and R_trans: "transp R"
    and append_frame: "keeps R (dv_append_new dv iid tid drafts v g w)"
    and run_frame: "keeps R (dv_run_attempt dv with_llm ctx timeout)"
    and dead_letter_frame: "keeps R (dv_dead_letter dv i sid reason)"
    and compensate_frame: "dv_compensate dv = Some undo \<Longrightarrow> keeps R (undo iid tid)"
    and spent_frame: "dv_budget dv = Some b \<Longrightarrow> keeps R (bs_spent_today b tid day)"
    and record_frame: "dv_budget dv = Some b \<Longrightarrow> keeps R (bs_record b tid day amount)"
    and notifier_frame: "dv_notifier dv = Some send \<Longrightarrow> keeps R (send note)"
    and ids_frame: "keeps R (new_id (dv_ports dv))"
begin

lemmas keeps_basic = keeps_ereturn [OF R_refl] keeps_ethrow [OF R_refl] keeps_ebind [OF R_trans] keeps_etry

lemma keeps_lift_exn: "keeps R m \<Longrightarrow> keeps R (lift_exn m)"
  by (fastforce simp: keeps_def lift_exn_def split: prod.splits sum.splits)

lemma keeps_lift_res: "keeps R (lift_res r)"
  using R_refl by (auto simp: keeps_def lift_res_def reflp_def split: sum.splits)

lemma keeps_now: "keeps R (now_of pt)"
  using R_refl by (auto simp: keeps_def now_of_def reflp_def)

lemma keeps_esequence: "(\<And>m. m \<in> set ms \<Longrightarrow> keeps R m) \<Longrightarrow> keeps R (esequence ms)"
  by (induction ms) (auto intro!: keeps_basic)

lemma keeps_driver_event: "keeps R (driver_event dv i body)"
  using ids_frame
  by (fastforce simp: keeps_def driver_event_def new_event_def new_id_def split: prod.splits if_splits)

lemma keeps_append_drafts: "keeps R (append_drafts dv i d drafts g w)"
  unfolding append_drafts_def
  by (auto intro!: keeps_basic keeps_lift_exn append_frame keeps_lift_res split: prod.splits)

lemma keeps_append_bodies: "keeps R (append_bodies dv i d bodies g)"
  unfolding append_bodies_def by (auto intro!: keeps_basic keeps_esequence keeps_driver_event keeps_append_drafts)

lemma keeps_transition: "keeps R (transition dv i d f t g r w)"
  unfolding transition_def by (auto intro!: keeps_basic keeps_driver_event keeps_append_drafts)

lemma keeps_escalation_event: "keeps R (escalation_event dv i sid r rec c os dl aa)"
  unfolding escalation_event_def by (auto intro!: keeps_basic ids_frame keeps_driver_event)

lemma keeps_notify: "keeps R (notify dv i r x)"
  using R_refl notifier_frame
  by (fastforce simp: keeps_def notify_def reflp_def split: option.splits prod.splits sum.splits if_splits)

lemmas keeps_driver =
  keeps_basic keeps_lift_res keeps_now keeps_driver_event keeps_append_drafts keeps_append_bodies keeps_transition
  keeps_escalation_event keeps_notify

lemma keeps_run_one: "keeps R (run_one dv i d budget c)"
  unfolding run_one_def by (auto intro!: keeps_driver run_frame split: prod.splits)

lemma keeps_budget_of: "keeps R (budget_of dv i)"
  unfolding budget_of_def budget_view_of_def
  by (auto intro!: keeps_driver spent_frame split: option.splits)

lemma keeps_wave_spend: "keeps R (record_wave_spend dv i results)"
  unfolding record_wave_spend_def record_spend_def by (auto intro!: keeps_driver record_frame split: option.splits)

lemma keeps_reviews: "keeps R (raise_review_escalations dv i d reviews g)"
  unfolding raise_review_escalations_def
  by (auto intro!: keeps_driver keeps_esequence split: prod.splits)

lemma keeps_dispatch_wave: "keeps R (dispatch_wave dv i d dispatch l g)"
  unfolding dispatch_wave_def settle_wave_def
  by (auto intro!: keeps_driver keeps_esequence keeps_run_one keeps_budget_of keeps_wave_spend keeps_reviews)

lemma keeps_park: "keeps R (park_with_escalation dv i d sid kind rec reason detail g)"
  unfolding park_with_escalation_def by (auto intro!: keeps_driver keeps_esequence)

lemma keeps_complete: "keeps R (complete_instance dv i d g)"
  unfolding complete_instance_def by (auto intro!: keeps_driver)

lemma keeps_block: "keeps R (block_on_budget dv i d sid g)"
  unfolding block_on_budget_def by (auto intro!: keeps_driver)

lemma approval_drafts_keep: "approval_drafts dv i d now sids = Inr ms \<Longrightarrow> m \<in> set ms \<Longrightarrow> keeps R m"
  by (induction sids arbitrary: ms)
    (auto simp: rbind_eq_Inr keeps_driver_event keeps_escalation_event split: if_splits)

lemma keeps_lift_ebind: "(\<And>x. r = Inr x \<Longrightarrow> keeps R (f x)) \<Longrightarrow> keeps R (ebind (lift_res r) f)"
  using R_refl by (cases r) (auto simp: keeps_def ebind_def reflp_def)

lemma keeps_approval: "keeps R (escalate_for_approval dv i d sids g)"
  unfolding escalate_for_approval_def
  by (intro keeps_basic(3) keeps_now keeps_lift_ebind keeps_esequence keeps_append_drafts keeps_notify keeps_basic(1))
    (auto dest: approval_drafts_keep intro: keeps_driver_event)

lemma keeps_compensation: "keeps R (run_step_compensation dv i step)"
  unfolding run_step_compensation_def by (auto intro!: keeps_driver run_frame)

lemma keeps_compensate_steps: "keeps R (compensate_steps dv i steps)"
proof (induction steps)
  case (Cons step steps)
  show ?case unfolding keeps_def
  proof (intro allI impI)
    fix s r s' assume run: "compensate_steps dv i (step # steps) s = (r, s')"
    obtain q t where q: "run_step_compensation dv i step s = (q, t)" by (metis surj_pair)
    have t: "R s t" using keepsD [OF keeps_compensation q] .
    show "R s s'"
    proof (cases q)
      case (Inl e)
      then show ?thesis using run q t by (simp split: if_splits)
    next
      case (Inr u)
      then show ?thesis using run q transpD [OF R_trans t keepsD [OF Cons.IH]] by simp
    qed
  qed
qed (use R_refl in \<open>simp add: keeps_def reflp_def\<close>)

lemma keeps_policy: "keeps R (apply_failure_policy dv i d f g)"
proof -
  have "keeps R (undo_effects dv i)"
    unfolding undo_effects_def by (auto intro!: keeps_driver compensate_frame split: option.splits)
  then show ?thesis
    unfolding apply_failure_policy_def rollback_def escalate_cost_threshold_def escalate_max_retries_def
      escalate_compensation_failure_def
    by (auto intro!: keeps_driver keeps_park keeps_compensate_steps dead_letter_frame
        split: prod.splits on_failure.splits sum.splits option.splits)
qed

lemma keeps_round: "keeps R (run_round dv i d l g)"
  unfolding run_round_def follow_plan_def
  by (auto intro!: keeps_driver keeps_block keeps_approval keeps_policy keeps_dispatch_wave keeps_complete
      split: option.splits)

lemma keeps_rounds: "keeps R (run_rounds n dv i d l g)"
  by (induction n arbitrary: i) (auto intro!: keeps_driver keeps_round split: sum.splits)

lemma keeps_drive: "keeps R (drive dv l g)"
  unfolding keeps_def
proof (intro allI impI)
  fix s r s' assume run: "drive dv l g s = (r, s')"
  have "keeps R (ebind (recover_in_flight dv i d g) (\<lambda>i. run_rounds MAX_DRIVE_ITERATIONS dv i d l g))" for i d
    unfolding recover_in_flight_def by (auto intro!: keeps_driver keeps_rounds)
  then show "R s s'"
    using run R_refl
    by (fastforce simp: drive_def keeps_def reflp_def split: option.splits sum.splits prod.splits if_splits)
qed

end


definition same_leases :: "db \<times> 'w \<Rightarrow> db \<times> 'w \<Rightarrow> bool" where
  "same_leases s s' \<longleftrightarrow> db_leases (fst s') = db_leases (fst s)"

lemma service_leases: "keeps service_tables m \<Longrightarrow> keeps same_leases m"
  by (auto simp: keeps_def service_tables_def service_db_def same_leases_def)

interpretation engine_leases: driver_frame "engine_driver ec" same_leases for ec
proof (unfold_locales, goal_cases)
  case (3 iid tid drafts v g w)
  then show ?case using pg_append_frame by (fastforce simp: keeps_def engine_driver_def same_leases_def)
next
  case 10
  then show ?case
    by (auto simp: keeps_def engine_driver_def same_leases_def new_id_def world_ports_def split: prod.splits)
qed (auto simp: reflp_def transp_def same_leases_def engine_driver_def engine_budget_def
    intro!: service_leases engine_tables)

lemma drive_leases: "drive (engine_driver ec) l g s = (r, s') \<Longrightarrow> db_leases (fst s') = db_leases (fst s)"
  using keepsD [OF engine_leases.keeps_drive] by (simp add: same_leases_def)

section \<open>Leases come back\<close>

text \<open>The key of a lease row is its instance.\<close>

definition leases_keyed :: "db \<Rightarrow> bool" where
  "leases_keyed d \<longleftrightarrow> (\<forall>k le. dget (db_leases d) k = Some le \<longrightarrow> le_instance_id le = k)"

definition released_row :: "string \<Rightarrow> string set \<Rightarrow> lease_row \<Rightarrow> lease_row" where
  "released_row w iids le =
     (if le_worker_id le = w \<and> le_instance_id le \<in> iids then le\<lparr>le_expires_at := le_heartbeat_at le - 1000000\<rparr> else le)"

lemma release_get: "dget (db_leases (release w iid d)) j = map_option (released_row w {iid}) (dget (db_leases d) j)"
  by (auto simp: release_def released_row_def intro!: arg_cong2 [where f = map_option])

lemma released_row_insert: "released_row w A (released_row w {i} le) = released_row w (insert i A) le"
  by (auto simp: released_row_def)

lemma drive_all_leases:
  assumes "drive_all ec w ls results s = (r, s')"
  shows "\<exists>k. (\<forall>j. dget (db_leases (fst s')) j =
      map_option (released_row w (la_instance_id ` set (take k ls))) (dget (db_leases (fst s)) j)) \<and>
    (case r of Inl e \<Rightarrow> 1 \<le> k \<and> k \<le> length ls | Inr xs \<Rightarrow> k = length ls \<and> length xs = length results + length ls)"
  using assms
proof (induction ls arbitrary: results s)
  case Nil
  then show ?case by (auto simp: released_row_def option.map_id0 intro!: exI [of _ 0] option.map_ident [symmetric])
next
  case (Cons l ls)
  obtain q s1 where q: "drive (engine_driver ec) l (make_guard l) s = (q, s1)" by (metis surj_pair)
  define s2 where "s2 = (release w (la_instance_id l) (fst s1), snd s1)"
  have s2: "dget (db_leases (fst s2)) j = map_option (released_row w {la_instance_id l}) (dget (db_leases (fst s)) j)" for j
    using drive_leases [OF q] by (simp add: s2_def release_get)
  show ?case
  proof (cases q)
    case (Inl e)
    then have "r = Inl e" "s' = s2" using Cons.prems q by (simp_all add: s2_def)
    then show ?thesis using s2 by (intro exI [of _ 1]) simp
  next
    case (Inr rep)
    then have "drive_all ec w ls (results @ [rep_result rep]) s2 = (r, s')" using Cons.prems q by (simp add: s2_def)
    from Cons.IH [OF this] obtain k where k:
      "\<forall>j. dget (db_leases (fst s')) j =
        map_option (released_row w (la_instance_id ` set (take k ls))) (dget (db_leases (fst s2)) j)"
      "case r of Inl e \<Rightarrow> 1 \<le> k \<and> k \<le> length ls | Inr xs \<Rightarrow> k = length ls \<and> length xs = length (results @ [rep_result rep]) + length ls"
      by blast
    have "\<forall>j. dget (db_leases (fst s')) j =
        map_option (released_row w (la_instance_id ` set (take (Suc k) (l # ls)))) (dget (db_leases (fst s)) j)"
      using k(1) s2 by (simp add: option.map_comp comp_def released_row_insert)
    then show ?thesis using k(2) by (intro exI [of _ "Suc k"]) (auto split: sum.splits)
  qed
qed

lemma acquire_rows_get:
  assumes "acquire_rows w now ttl rows d = (ls, d')" "leases_keyed d"
  shows "leases_keyed d' \<and> la_instance_id ` set ls = ix_instance_id ` set rows \<and>
    (\<forall>row \<in> set rows. \<exists>le. dget (db_leases d') (ix_instance_id row) = Some le \<and> le_worker_id le = w \<and>
       le_heartbeat_at le = now \<and> le_expires_at le = now + ttl)"
  using assms
proof (induction rows arbitrary: d ls)
  case (Cons row rows)
  obtain f d1 ls1 where u: "upsert_lease d w now (now + ttl) row = (f, d1)"
    and r: "acquire_rows w now ttl rows d1 = (ls1, d')"
    and ids: "la_instance_id ` set ls = insert (ix_instance_id row) (la_instance_id ` set ls1)"
    using Cons.prems(1) by (auto split: prod.splits)
  have k1: "leases_keyed d1" and row: "\<exists>le. dget (db_leases d1) (ix_instance_id row) = Some le \<and> le_worker_id le = w \<and>
       le_heartbeat_at le = now \<and> le_expires_at le = now + ttl"
    using u Cons.prems(2) by (auto simp: upsert_lease_def leases_keyed_def Let_def split: option.splits if_splits)
  have frame: "\<exists>le. dget (db_leases d') j = Some le \<and> le_worker_id le = w \<and> le_heartbeat_at le = now \<and> le_expires_at le = now + ttl"
    if "acquire_rows w now ttl rs d0 = (xs, d')" "\<exists>le. dget (db_leases d0) j = Some le \<and> le_worker_id le = w \<and>
       le_heartbeat_at le = now \<and> le_expires_at le = now + ttl" for rs d0 xs j
    using that
  proof (induction rs arbitrary: d0 xs)
    case (Cons x rs)
    obtain f d2 ys where "upsert_lease d0 w now (now + ttl) x = (f, d2)" "acquire_rows w now ttl rs d2 = (ys, d')"
      using Cons.prems(1) by (auto split: prod.splits)
    then show ?case using Cons.IH Cons.prems(2)
      by (cases "j = ix_instance_id x") (force simp: upsert_lease_def Let_def split: option.splits)+
  qed simp
  show ?case using Cons.IH [OF r k1] frame [OF r row] ids by auto
qed simp


lemma acquire_get:
  assumes "acquire_runnable secs w n now d = (Inr ls, d')" "leases_keyed d" "l \<in> set ls"
  shows "\<exists>le. dget (db_leases d') (la_instance_id l) = Some le \<and> le_instance_id le = la_instance_id l \<and>
    le_worker_id le = w \<and> le_heartbeat_at le = now \<and> le_expires_at le = now + secs * 1000000"
proof -
  have "acquire_rows w now (secs * 1000000) (claim d {} n now) d = (ls, d')"
    using assms(1,3) by (auto simp: acquire_runnable_def acquire_runnable_tx_def Let_def split: if_splits prod.splits)
  from acquire_rows_get [OF this assms(2)]
  have a: "leases_keyed d'" "la_instance_id ` set ls = ix_instance_id ` set (claim d {} n now)"
    "\<forall>row \<in> set (claim d {} n now). \<exists>le. dget (db_leases d') (ix_instance_id row) = Some le \<and> le_worker_id le = w \<and>
       le_heartbeat_at le = now \<and> le_expires_at le = now + secs * 1000000" by auto
  have "la_instance_id l \<in> ix_instance_id ` set (claim d {} n now)" using assms(3) a(2) by blast
  then show ?thesis using a(1,3) by (force simp: leases_keyed_def)
qed

lemma orphans_claimed:
  assumes "acquire_runnable secs w n now d = (Inr ls, d')" "store_ok d"
    and "length (filter (claimable d now) (map snd (db_index d))) \<le> nat n"
    and "iid \<in> set (rc_orphaned_instances (recovery_scan stale now d))"
  shows "iid \<in> la_instance_id ` set ls"
proof -
  obtain r where r: "r \<in> set (map snd (db_index d))" "ix_instance_id r = iid" "claimable d now r"
    using assms(4) by (auto simp: recovery_scan_def Let_def claimable_def RUNNABLE_STATUSES_def)
  have "r \<in> set (claim d {} n now)" using r assms(3) by (simp add: claim_def)
  moreover from this have "\<not> n \<le> 0" by (auto simp: claim_def)
  then have "acquire_rows w now (secs * 1000000) (claim d {} n now) d = (ls, d')"
    using assms(1) by (auto simp: acquire_runnable_def acquire_runnable_tx_def Let_def split: if_splits prod.splits)
  from acquire_rows_props [OF this claim_ids_distinct [OF assms(2)]]
  have "map la_instance_id ls = map ix_instance_id (claim d {} n now)" by blast
  then have "la_instance_id ` set ls = ix_instance_id ` set (claim d {} n now)" by (metis list.set_map)
  ultimately show ?thesis using r(2) by blast
qed

section \<open>Properties\<close>

text \<open>
  C11: \<open>run_once\<close> takes over what the recovery scan reports and gives every lease back. With enough
  concurrency for the claimable instances, each orphaned instance of a scan at that time is among
  the leased ones. When it returns, there is one result per lease and each lease has expired, so
  that any worker can claim the instance again. When a drive raises, its lease and the earlier ones
  are given back as well, and the leases behind it are held, undriven, until they run out.
\<close>

theorem run_once_gives_back:
  assumes "store_ok (fst s)" "leases_keyed (fst s)" and now: "now = pt_now (en_ports ec) (snd s)"
    and acq: "acquire_runnable secs w n now (fst s) = (Inr ls, d)"
    and run: "run_once ec secs w n s = (r, s')"
  shows "(length (filter (claimable (fst s) now) (map snd (db_index (fst s)))) \<le> nat n \<longrightarrow>
      set (rc_orphaned_instances (recovery_scan stale now (fst s))) \<subseteq> la_instance_id ` set ls) \<and>
    (\<exists>k. (case r of Inr results \<Rightarrow> k = length ls \<and> length results = length ls | Inl e \<Rightarrow> 1 \<le> k \<and> k \<le> length ls) \<and>
      (\<forall>l \<in> set (take k ls). \<exists>le. dget (db_leases (fst s')) (la_instance_id l) = Some le \<and> le_expires_at le < now) \<and>
      (\<forall>l \<in> set (drop k ls). \<exists>le. dget (db_leases (fst s')) (la_instance_id l) = Some le \<and>
         le_worker_id le = w \<and> le_expires_at le = now + secs * 1000000))"
proof -
  have "drive_all ec w ls [] (d, snd s) = (r, s')" using run acq now by (simp add: run_once_def)
  from drive_all_leases [OF this] obtain k where k: "\<forall>j. dget (db_leases (fst s')) j =
      map_option (released_row w (la_instance_id ` set (take k ls))) (dget (db_leases d) j)"
    "case r of Inl e \<Rightarrow> 1 \<le> k \<and> k \<le> length ls | Inr xs \<Rightarrow> k = length ls \<and> length xs = length ([] :: drive_result list) + length ls"
    by (auto simp: fst_conv)
  note got = acquire_get [OF acq assms(2)]
  have "distinct (map la_instance_id ls)"
    using acquire_tx_Inr [OF assms(1) acq [unfolded acquire_runnable_def]] by blast
  then have apart: "la_instance_id l \<notin> la_instance_id ` set (take k ls)" if "l \<in> set (drop k ls)" for l
    using that distinct_append [of "map la_instance_id (take k ls)" "map la_instance_id (drop k ls)"]
    by (auto simp flip: map_append)
  have given: "\<exists>le. dget (db_leases (fst s')) (la_instance_id l) = Some le \<and> le_expires_at le < now" if l: "l \<in> set (take k ls)" for l
  proof -
    obtain le where "dget (db_leases d) (la_instance_id l) = Some le" "le_instance_id le = la_instance_id l"
      "le_worker_id le = w" "le_heartbeat_at le = now" using got [OF in_set_takeD [OF l]] by blast
    then show ?thesis using k(1) l by (simp add: released_row_def)
  qed
  have held: "\<exists>le. dget (db_leases (fst s')) (la_instance_id l) = Some le \<and> le_worker_id le = w \<and>
      le_expires_at le = now + secs * 1000000" if l: "l \<in> set (drop k ls)" for l
  proof -
    obtain le where "dget (db_leases d) (la_instance_id l) = Some le" "le_instance_id le = la_instance_id l"
      "le_worker_id le = w" "le_expires_at le = now + secs * 1000000" using got [OF in_set_dropD [OF l]] by blast
    then show ?thesis using k(1) apart [OF l] by (simp add: released_row_def)
  qed
  have "set (rc_orphaned_instances (recovery_scan stale now (fst s))) \<subseteq> la_instance_id ` set ls"
    if "length (filter (claimable (fst s) now) (map snd (db_index (fst s)))) \<le> nat n"
    using orphans_claimed [OF acq assms(1) that] by blast
  moreover have "case r of Inr results \<Rightarrow> k = length ls \<and> length results = length ls | Inl e \<Rightarrow> 1 \<le> k \<and> k \<le> length ls"
    using k(2) by (auto split: sum.splits)
  ultimately show ?thesis using given held by blast
qed


definition sample_unleased :: "db \<times> fixed_ports" where
  "sample_unleased = (sample_ready, \<lparr>fx_now = 1000, fx_prefix = ''id'', fx_counter = 0\<rparr>)"

theorem run_once_gives_back_witness:
  "\<exists>r s'. run_once sample_engine 30 ''w1'' 5 sample_unleased = (r, s') \<and>
     rc_orphaned_instances (recovery_scan 0 1000 sample_ready) = [''i1''] \<and>
     (case r of Inr results \<Rightarrow> length results = 1 | Inl e \<Rightarrow> True) \<and>
     (\<exists>le. dget (db_leases (fst s')) ''i1'' = Some le \<and> le_expires_at le < 1000)"
proof -
  have ok: "store_ok (fst sample_unleased)" using sample_ready_ok by (simp add: sample_unleased_def)
  have "db_leases (fst sample_unleased) = []" by code_simp
  then have keyed: "leases_keyed (fst sample_unleased)" by (simp add: leases_keyed_def)
  have now: "1000 = pt_now (en_ports sample_engine) (snd sample_unleased)" by code_simp
  define d where "d = snd (acquire_runnable 30 ''w1'' 5 1000 (fst sample_unleased))"
  have "case fst (acquire_runnable 30 ''w1'' 5 1000 (fst sample_unleased)) of
      Inr ls \<Rightarrow> map la_instance_id ls = [''i1''] | Inl e \<Rightarrow> False" by code_simp
  then obtain ls where "fst (acquire_runnable 30 ''w1'' 5 1000 (fst sample_unleased)) = Inr ls"
    and ids: "map la_instance_id ls = [''i1'']"
    by (auto split: sum.splits)
  then have acq: "acquire_runnable 30 ''w1'' 5 1000 (fst sample_unleased) = (Inr ls, d)"
    by (simp add: d_def prod_eq_iff)
  obtain r s' where run: "run_once sample_engine 30 ''w1'' 5 sample_unleased = (r, s')" by (metis surj_pair)
  have few: "length (filter (claimable (fst sample_unleased) 1000) (map snd (db_index (fst sample_unleased)))) \<le> nat 5"
    by code_simp
  obtain l where l: "ls = [l]" "la_instance_id l = ''i1''" using ids by auto
  from run_once_gives_back [OF ok keyed now acq run, of 0] few
  obtain k where k: "case r of Inr results \<Rightarrow> k = length ls \<and> length results = length ls | Inl e \<Rightarrow> 1 \<le> k \<and> k \<le> length ls"
    and given: "\<forall>l \<in> set (take k ls). \<exists>le. dget (db_leases (fst s')) (la_instance_id l) = Some le \<and> le_expires_at le < 1000"
    by blast
  have "k = 1" using k l(1) by (auto split: sum.splits)
  then have "\<exists>le. dget (db_leases (fst s')) ''i1'' = Some le \<and> le_expires_at le < 1000" using given l by simp
  moreover have "case r of Inr results \<Rightarrow> length results = 1 | Inl e \<Rightarrow> True" using k l(1) by (auto split: sum.splits)
  moreover have "rc_orphaned_instances (recovery_scan 0 1000 sample_ready) = [''i1'']" by code_simp
  ultimately show ?thesis using run by blast
qed

end
