(* ===== verification/Json.thy ===== *)
theory Json
  imports Prelude
begin

text \<open>
  What Python does with decoded JSON values: truthiness, \<open>str\<close> and \<open>repr\<close>, and the lookups on
  values whose type is only known at run time. The shortest decimal of a float is a parameter.
\<close>

section \<open>Truthiness and lookups\<close>

fun truthy :: "json \<Rightarrow> bool" where
  "truthy JNull = False"
| "truthy (JBool b) = b"
| "truthy (JInt n) = (n \<noteq> 0)"
| "truthy (JFloat x) = (x \<noteq> 0)"
| "truthy (JStr s) = (s \<noteq> [])"
| "truthy (JArr xs) = (xs \<noteq> [])"
| "truthy (JObj kvs) = (kvs \<noteq> [])"

text \<open>\<open>d.get(k)\<close>, \<open>d.get(k, v)\<close> and \<open>x or y\<close>.\<close>

definition getj :: "obj \<Rightarrow> string \<Rightarrow> json" where
  "getj d k = (case dget d k of None \<Rightarrow> JNull | Some v \<Rightarrow> v)"

definition get_or :: "json \<Rightarrow> obj \<Rightarrow> string \<Rightarrow> json" where
  "get_or v d k = (case dget d k of None \<Rightarrow> v | Some x \<Rightarrow> x)"

definition jor :: "json \<Rightarrow> json \<Rightarrow> json" where
  "jor x y = (if truthy x then x else y)"

lemma jor_simps [simp]: "truthy x \<Longrightarrow> jor x y = x" "\<not> truthy x \<Longrightarrow> jor x y = y"
  by (simp_all add: jor_def)

section \<open>Text\<close>

text \<open>\<open>str.lower\<close> on ASCII, and \<open>str.strip\<close> on Latin-1.\<close>

definition ascii_lower :: "char \<Rightarrow> char" where
  "ascii_lower c = (let n = of_char c :: nat in if 65 \<le> n \<and> n \<le> 90 then char_of (n + 32) else c)"

definition py_space :: "char \<Rightarrow> bool" where
  "py_space c = (let n = of_char c :: nat in (9 \<le> n \<and> n \<le> 13) \<or> (28 \<le> n \<and> n \<le> 32) \<or> n = 133 \<or> n = 160)"

definition strip :: "string \<Rightarrow> string" where
  "strip s = rev (dropWhile py_space (rev (dropWhile py_space s)))"

text \<open>\<open>needle in text\<close>.\<close>

fun substring :: "string \<Rightarrow> string \<Rightarrow> bool" where
  "substring needle [] = (needle = [])"
| "substring needle (c # cs) = (take (length needle) (c # cs) = needle \<or> substring needle cs)"

section \<open>Printing\<close>

definition hex_digit :: "nat \<Rightarrow> char" where
  "hex_digit n = (if n < 10 then char_of (48 + n) else char_of (87 + n))"

text \<open>One character inside quotes \<open>q\<close>; the characters are those of Latin-1.\<close>

definition repr_char :: "char \<Rightarrow> char \<Rightarrow> string" where
  "repr_char q c =
     (let n = of_char c :: nat in
      if c = q \<or> n = 92 then [CHR 92, c]
      else if n = 10 then [CHR 92, CHR ''n'']
      else if n = 13 then [CHR 92, CHR ''r'']
      else if n = 9 then [CHR 92, CHR ''t'']
      else if n < 32 \<or> (127 \<le> n \<and> n \<le> 160) \<or> n = 173
      then [CHR 92, CHR ''x'', hex_digit (n div 16), hex_digit (n mod 16)]
      else [c])"

definition repr_str :: "string \<Rightarrow> string" where
  "repr_str s =
     (let q = (if CHR 39 \<in> set s \<and> CHR 34 \<notin> set s then CHR 34 else CHR 39)
      in [q] @ concat (map (repr_char q) s) @ [q])"

fun repr_json :: "(rat \<Rightarrow> string) \<Rightarrow> json \<Rightarrow> string" where
  "repr_json fr JNull = ''None''"
| "repr_json fr (JBool b) = (if b then ''True'' else ''False'')"
| "repr_json fr (JInt n) = show_int n"
| "repr_json fr (JFloat x) = fr x"
| "repr_json fr (JStr s) = repr_str s"
| "repr_json fr (JArr xs) = ''['' @ join '', '' (map (repr_json fr) xs) @ '']''"
| "repr_json fr (JObj kvs) = ''{'' @ join '', '' (map (\<lambda>(k, v). repr_str k @ '': '' @ repr_json fr v) kvs) @ ''}''"

definition str_json :: "(rat \<Rightarrow> string) \<Rightarrow> json \<Rightarrow> string" where
  "str_json fr j = (case j of JStr s \<Rightarrow> s | _ \<Rightarrow> repr_json fr j)"

lemma str_json_simps [simp]:
  "str_json fr (JStr s) = s" "str_json fr JNull = ''None''" "str_json fr (JInt n) = show_int n"
  by (simp_all add: str_json_def)

section \<open>Equality\<close>

text \<open>
  \<open>==\<close>: numbers and booleans compare by value, lists elementwise, and dictionaries without regard
  to the order of their keys.
\<close>

fun num_of :: "json \<Rightarrow> rat option" where
  "num_of (JBool b) = Some (if b then 1 else 0)"
| "num_of (JInt n) = Some (of_int n)"
| "num_of (JFloat x) = Some x"
| "num_of _ = None"

function (sequential) py_eq :: "json \<Rightarrow> json \<Rightarrow> bool" where
  "py_eq JNull JNull = True"
| "py_eq (JStr s) (JStr t) = (s = t)"
| "py_eq (JArr xs) (JArr ys) = (length xs = length ys \<and> list_all (\<lambda>(x, y). py_eq x y) (zip xs ys))"
| "py_eq (JObj d) (JObj e) =
     (length d = length e \<and>
      list_all (\<lambda>(k, v). case dget e k of None \<Rightarrow> False | Some w \<Rightarrow> py_eq v w) d)"
| "py_eq x y = (num_of x \<noteq> None \<and> num_of x = num_of y)"
  by pat_completeness auto
termination
proof (relation "measure (\<lambda>(x, y). size x)")
  fix xs ys :: "json list" and p x y
  assume "p \<in> set (zip xs ys)" "(x, y) = p"
  then have "x \<in> set xs" by (auto dest: set_zip_leftD)
  then have "size x \<le> size_list size xs" by (rule size_list_estimation') simp
  then show "((x, y), JArr xs, JArr ys) \<in> measure (\<lambda>(x, y). size x)" by simp
next
  fix d e :: obj and p k v w
  assume "p \<in> set d" "(k, v) = p"
  then have "size v \<le> size_list (size_prod (\<lambda>_. 0) size) d"
    by (intro size_list_estimation' [of p]) auto
  then show "((v, w), JObj d, JObj e) \<in> measure (\<lambda>(x, y). size x)" by simp
qed simp

end
