(* ===== verification/Auth.thy ===== *)
theory Auth
  imports Ports PgJournal Json
begin

text \<open>
  \<open>core/auth.py\<close>: API keys and bearer tokens, both giving a principal with a tenant and scopes.
  SHA-256, the random parts of a new key and \<open>jwt.decode\<close> are parameters; the latter gives the
  text of its exception or the claims.
\<close>

section \<open>Scopes and principals\<close>

datatype scope =
    WORKFLOWS_READ | WORKFLOWS_WRITE | INSTANCES_READ | INSTANCES_WRITE
  | ESCALATIONS_READ | ESCALATIONS_WRITE | DLQ_READ | DLQ_WRITE | ADMIN

fun scope_value :: "scope \<Rightarrow> string" where
  "scope_value WORKFLOWS_READ = ''workflows:read''"
| "scope_value WORKFLOWS_WRITE = ''workflows:write''"
| "scope_value INSTANCES_READ = ''instances:read''"
| "scope_value INSTANCES_WRITE = ''instances:write''"
| "scope_value ESCALATIONS_READ = ''escalations:read''"
| "scope_value ESCALATIONS_WRITE = ''escalations:write''"
| "scope_value DLQ_READ = ''dlq:read''"
| "scope_value DLQ_WRITE = ''dlq:write''"
| "scope_value ADMIN = ''admin''"

record principal =
  pr_name :: string
  pr_tenant_id :: string
  pr_scopes :: "string list"
  pr_kind :: string

definition has_scope :: "principal \<Rightarrow> scope \<Rightarrow> bool" where
  "has_scope p s \<longleftrightarrow> scope_value ADMIN \<in> set (pr_scopes p) \<or> scope_value s \<in> set (pr_scopes p)"

text \<open>The exceptions of a request: the two of this module, those of FastAPI (a status with its
  detail and the header Retry-After, and a request that does not fit its schema), and the others.\<close>

datatype http_exn =
    AuthError string | ForbiddenError string | HTTPException nat string int | RequestValidationError | Raised pexn

section \<open>API keys\<close>

record auth_config =
  ac_sha256 :: "string \<Rightarrow> string"
  ac_pepper :: string
  ac_jwt_decode :: "string \<Rightarrow> string \<Rightarrow> string list \<Rightarrow> string + obj"
  ac_jwt_secret :: string
  ac_jwt_algorithm :: string
  ac_float_repr :: "rat \<Rightarrow> string"

definition hash_secret :: "auth_config \<Rightarrow> string \<Rightarrow> string" where
  "hash_secret ac secret = ac_sha256 ac (ac_pepper ac @ secret)"

record api_key_record =
  kr_key_id :: string
  kr_key_hash :: string
  kr_tenant_id :: string
  kr_principal_name :: string
  kr_scopes :: "string list"
  kr_disabled :: bool

definition key_record_of :: "api_key_row \<Rightarrow> api_key_record" where
  "key_record_of r =
     \<lparr>kr_key_id = ak_key_id r, kr_key_hash = ak_key_hash r, kr_tenant_id = ak_tenant_id r,
      kr_principal_name = ak_principal_name r, kr_scopes = ak_scopes r, kr_disabled = ak_disabled r\<rparr>"

definition key_get :: "db \<Rightarrow> string \<Rightarrow> api_key_record option" where
  "key_get d key_id = map_option key_record_of (dget (db_api_keys d) key_id)"

definition key_create :: "api_key_record \<Rightarrow> (db, pexn, unit) eff" where
  "key_create r d =
     (if \<not> fits [(32, kr_key_id r), (64, kr_key_hash r), (64, kr_tenant_id r), (128, kr_principal_name r)]
      then (Inl (PExn DbDataError []), d)
      else if dget (db_api_keys d) (kr_key_id r) \<noteq> None then (Inl (PExn DbIntegrityError []), d)
      else (Inr (), d\<lparr>db_api_keys := dset (kr_key_id r)
        \<lparr>ak_key_id = kr_key_id r, ak_key_hash = kr_key_hash r, ak_tenant_id = kr_tenant_id r,
         ak_principal_name = kr_principal_name r, ak_scopes = kr_scopes r, ak_disabled = kr_disabled r,
         ak_created_at = db_clock d, ak_last_used_at = None\<rparr> (db_api_keys d)\<rparr>))"

definition key_touch :: "string \<Rightarrow> instant \<Rightarrow> db \<Rightarrow> db" where
  "key_touch key_id now d =
     d\<lparr>db_api_keys := dadjust key_id (\<lambda>r. r\<lparr>ak_last_used_at := Some now\<rparr>) (db_api_keys d)\<rparr>"

definition key_list_for_tenant :: "db \<Rightarrow> string \<Rightarrow> api_key_record list" where
  "key_list_for_tenant d tenant_id =
     map key_record_of (filter (\<lambda>r. ak_tenant_id r = tenant_id) (map snd (db_api_keys d)))"

text \<open>\<open>hex\<close> and \<open>secret\<close> are what \<open>secrets\<close> draws.\<close>

definition mint_api_key ::
  "auth_config \<Rightarrow> string \<Rightarrow> string \<Rightarrow> string \<Rightarrow> string \<Rightarrow> string list \<Rightarrow> string option \<Rightarrow> string \<times> api_key_record" where
  "mint_api_key ac hex secret tenant_id name scopes key_id =
     (let key_id = (if truthy_str key_id then the key_id else hex)
      in (''af_'' @ key_id @ ''_'' @ secret,
          \<lparr>kr_key_id = key_id, kr_key_hash = hash_secret ac secret, kr_tenant_id = tenant_id,
           kr_principal_name = name, kr_scopes = scopes, kr_disabled = False\<rparr>))"

section \<open>Authentication\<close>

text \<open>\<open>partition("_")\<close>, without the separator.\<close>

definition partition_us :: "string \<Rightarrow> string \<times> string" where
  "partition_us s = (takeWhile (\<lambda>c. c \<noteq> CHR ''_'') s, tl (dropWhile (\<lambda>c. c \<noteq> CHR ''_'') s))"

definition from_api_key :: "auth_config \<Rightarrow> 'w ports \<Rightarrow> string \<Rightarrow> (db \<times> 'w, http_exn, principal) eff" where
  "from_api_key ac pt raw s =
     (case partition_us raw of (prefix, rest) \<Rightarrow> case partition_us rest of (key_id, secret) \<Rightarrow>
        if prefix \<noteq> ''af'' \<or> key_id = [] \<or> secret = [] then (Inl (AuthError ''malformed API key''), s)
        else (case key_get (fst s) key_id of
           None \<Rightarrow> (Inl (AuthError ''unknown API key''), s)
         | Some record \<Rightarrow>
             if kr_disabled record then (Inl (AuthError ''unknown API key''), s)
             else if kr_key_hash record \<noteq> hash_secret ac secret then (Inl (AuthError ''bad API key''), s)
             else (Inr \<lparr>pr_name = kr_principal_name record, pr_tenant_id = kr_tenant_id record,
                        pr_scopes = kr_scopes record, pr_kind = ''api_key''\<rparr>,
                   (key_touch key_id (pt_now pt (snd s)) (fst s), snd s))))"

text \<open>
  \<open>frozenset(scopes)\<close> of a truthy claim. Members that are no strings equal no scope; a list or
  a dictionary among them cannot be hashed. A string gives its characters, a dictionary its keys.
\<close>

fun frozen_scopes :: "json \<Rightarrow> pexn + string list" where
  "frozen_scopes (JStr s) = Inr (map (\<lambda>c. [c]) s)"
| "frozen_scopes (JArr xs) =
     (if list_ex (\<lambda>x. case x of JArr _ \<Rightarrow> True | JObj _ \<Rightarrow> True | _ \<Rightarrow> False) xs
      then Inl (PExn (OtherException ''TypeError'') [])
      else Inr (concat (map (\<lambda>x. case x of JStr s \<Rightarrow> [s] | _ \<Rightarrow> []) xs)))"
| "frozen_scopes (JObj d) = Inr (dkeys d)"
| "frozen_scopes _ = Inl (PExn (OtherException ''TypeError'') [])"

definition from_jwt :: "auth_config \<Rightarrow> string \<Rightarrow> http_exn + principal" where
  "from_jwt ac token =
     (case ac_jwt_decode ac token (ac_jwt_secret ac) [ac_jwt_algorithm ac] of
        Inl exc \<Rightarrow> Inl (AuthError (''invalid token: '' @ exc))
      | Inr claims \<Rightarrow>
          let tenant = getj claims ''tenant'' in
          if \<not> truthy tenant then Inl (AuthError ''token has no tenant claim'')
          else (case frozen_scopes (jor (getj claims ''scopes'') (JArr [])) of
             Inl e \<Rightarrow> Inl (Raised e)
           | Inr scopes \<Rightarrow>
               Inr \<lparr>pr_name = str_json (ac_float_repr ac) (get_or (JStr ''jwt-user'') claims ''sub''),
                    pr_tenant_id = str_json (ac_float_repr ac) tenant, pr_scopes = scopes, pr_kind = ''jwt''\<rparr>))"

definition authenticate ::
  "auth_config \<Rightarrow> 'w ports \<Rightarrow> string option \<Rightarrow> string option \<Rightarrow> (db \<times> 'w, http_exn, principal) eff" where
  "authenticate ac pt api_key bearer s =
     (if truthy_str api_key then from_api_key ac pt (the api_key) s
      else if truthy_str bearer then (from_jwt ac (the bearer), s)
      else (Inl (AuthError ''no credentials''), s))"

section \<open>Correctness\<close>

lemma partition_us_join: "CHR ''_'' \<notin> set a \<Longrightarrow> partition_us (a @ ''_'' @ b) = (a, b)"
  by (auto simp: partition_us_def takeWhile_append dropWhile_append dropWhile_eq_Nil_conv)

lemma partition_us_split:
  assumes "partition_us s = (a, b)" "b \<noteq> []"
  shows "s = a @ ''_'' @ b \<and> CHR ''_'' \<notin> set a"
proof -
  have a: "a = takeWhile (\<lambda>c. c \<noteq> CHR ''_'') s" and b: "b = tl (dropWhile (\<lambda>c. c \<noteq> CHR ''_'') s)"
    using assms(1) by (simp_all add: partition_us_def)
  have ne: "dropWhile (\<lambda>c. c \<noteq> CHR ''_'') s \<noteq> []" using b assms(2) by (metis list.sel(2))
  then have "hd (dropWhile (\<lambda>c. c \<noteq> CHR ''_'') s) = CHR ''_''" using hd_dropWhile by blast
  then have "dropWhile (\<lambda>c. c \<noteq> CHR ''_'') s = ''_'' @ b" using ne b by (metis append_Cons append_Nil list.collapse)
  then show ?thesis using a takeWhile_dropWhile_id [of "\<lambda>c. c \<noteq> CHR ''_''" s] by (auto dest: set_takeWhileD)
qed

text \<open>The two halves of a key, and that there is only one way to read them.\<close>

lemma key_parts:
  assumes "key_id \<noteq> []" "secret \<noteq> []"
  shows "partition_us raw = (''af'', rest) \<and> partition_us rest = (key_id, secret) \<longleftrightarrow>
    raw = ''af_'' @ key_id @ ''_'' @ secret \<and> CHR ''_'' \<notin> set key_id \<and> rest = key_id @ ''_'' @ secret"
    (is "?l \<longleftrightarrow> ?r")
proof
  assume l: ?l
  note r = partition_us_split [OF conjunct2 [OF l] assms(2)]
  then have "rest \<noteq> []" by auto
  then show ?r using partition_us_split [OF conjunct1 [OF l]] r by auto
next
  assume r: ?r
  then show ?l using partition_us_join [of "''af''" rest] partition_us_join [of key_id secret] by auto
qed

definition principal_of :: "api_key_row \<Rightarrow> principal" where
  "principal_of r = \<lparr>pr_name = ak_principal_name r, pr_tenant_id = ak_tenant_id r, pr_scopes = ak_scopes r,
     pr_kind = ''api_key''\<rparr>"

lemma from_api_key_Inr:
  "from_api_key ac pt raw s = (Inr p, s') \<longleftrightarrow>
   (\<exists>key_id secret row. raw = ''af_'' @ key_id @ ''_'' @ secret \<and> CHR ''_'' \<notin> set key_id \<and> key_id \<noteq> [] \<and>
      secret \<noteq> [] \<and> dget (db_api_keys (fst s)) key_id = Some row \<and> \<not> ak_disabled row \<and>
      ak_key_hash row = hash_secret ac secret \<and> p = principal_of row \<and>
      s' = (key_touch key_id (pt_now pt (snd s)) (fst s), snd s))" (is "?l \<longleftrightarrow> (\<exists>k x r. ?r k x r)")
proof
  assume l: ?l
  obtain prefix rest where 1: "partition_us raw = (prefix, rest)" by fastforce
  obtain key_id secret where 2: "partition_us rest = (key_id, secret)" by fastforce
  from l 1 2 obtain row where "prefix = ''af''" "key_id \<noteq> []" "secret \<noteq> []" "dget (db_api_keys (fst s)) key_id = Some row"
    "\<not> ak_disabled row" "ak_key_hash row = hash_secret ac secret" "p = principal_of row"
    "s' = (key_touch key_id (pt_now pt (snd s)) (fst s), snd s)"
    by (auto simp: from_api_key_def key_get_def key_record_of_def principal_of_def split: if_splits option.splits)
  moreover from this have "raw = ''af_'' @ key_id @ ''_'' @ secret \<and> CHR ''_'' \<notin> set key_id"
    using 1 2 key_parts [of key_id secret raw rest] by simp
  ultimately have "?r key_id secret row" by (intro conjI) simp_all
  then show "\<exists>k x r. ?r k x r" by blast
next
  assume "\<exists>k x r. ?r k x r"
  then obtain key_id secret row where r: "?r key_id secret row" by blast
  then have "partition_us raw = (''af'', key_id @ ''_'' @ secret)"
    "partition_us (key_id @ ''_'' @ secret) = (key_id, secret)"
    using key_parts [of key_id secret raw "key_id @ ''_'' @ secret"] by simp_all
  then show ?l using r by (simp add: from_api_key_def key_get_def key_record_of_def principal_of_def)
qed

text \<open>A key that is created and then presented gives its principal.\<close>

lemma created_key:
  assumes "key_create r d = (Inr (), d')"
  shows "\<exists>row. dget (db_api_keys d') (kr_key_id r) = Some row \<and> key_record_of row = r"
  using assms by (auto simp: key_create_def key_record_of_def split: if_splits)

section \<open>Properties\<close>

text \<open>
  C15: an API key authenticates exactly when it reads \<open>af_<key id>_<secret>\<close> for the stored,
  enabled key of that id whose hash is the hash of the secret; the principal has the tenant and the
  scopes of that key, and nothing but its time of last use is written. A bearer token is never
  looked at when a key is given. In particular a key is good right after it was minted and stored,
  unless its id contains an underscore: such a key authenticates nobody under its own id.
\<close>

theorem api_key_authenticates:
  assumes "raw \<noteq> []" "mint_api_key ac hex secret tenant_id name scopes key_id = (plaintext, record)"
    and "secret \<noteq> []" "kr_key_id record \<noteq> []" "key_create record d = (Inr (), d')"
  shows "(authenticate ac pt (Some raw) bearer s = (Inr p, s') \<longleftrightarrow>
      (\<exists>k x row. raw = ''af_'' @ k @ ''_'' @ x \<and> CHR ''_'' \<notin> set k \<and> k \<noteq> [] \<and> x \<noteq> [] \<and>
         dget (db_api_keys (fst s)) k = Some row \<and> \<not> ak_disabled row \<and> ak_key_hash row = hash_secret ac x \<and>
         p = principal_of row \<and> s' = (key_touch k (pt_now pt (snd s)) (fst s), snd s))) \<and>
    (if CHR ''_'' \<in> set (kr_key_id record)
     then \<forall>q t. authenticate ac pt (Some plaintext) bearer (d', w) = (Inr q, t) \<longrightarrow>
       (\<exists>k row. k \<noteq> kr_key_id record \<and> dget (db_api_keys d') k = Some row \<and> q = principal_of row)
     else authenticate ac pt (Some plaintext) bearer (d', w) =
       (Inr \<lparr>pr_name = name, pr_tenant_id = tenant_id, pr_scopes = scopes, pr_kind = ''api_key''\<rparr>,
        (key_touch (kr_key_id record) (pt_now pt w) d', w)))"
proof -
  let ?k = "kr_key_id record"
  have rec: "plaintext = ''af_'' @ ?k @ ''_'' @ secret" "record =
      \<lparr>kr_key_id = ?k, kr_key_hash = hash_secret ac secret, kr_tenant_id = tenant_id,
       kr_principal_name = name, kr_scopes = scopes, kr_disabled = False\<rparr>"
    using assms(2) by (auto simp: mint_api_key_def Let_def)
  obtain row where row: "dget (db_api_keys d') ?k = Some row" "key_record_of row = record"
    using created_key [OF assms(5)] by blast
  have f: "\<not> ak_disabled row" "ak_key_hash row = hash_secret ac secret"
    "principal_of row = \<lparr>pr_name = name, pr_tenant_id = tenant_id, pr_scopes = scopes, pr_kind = ''api_key''\<rparr>"
    using row(2) rec(2) by (simp_all add: key_record_of_def principal_of_def) (metis api_key_record.ext_inject)+
  have key: "authenticate ac pt (Some r) bearer s = from_api_key ac pt r s" if "r \<noteq> []" for r s
    using that by (simp add: authenticate_def)
  have ne: "plaintext \<noteq> []" using rec(1) by simp
  have "\<exists>k row. k \<noteq> ?k \<and> dget (db_api_keys d') k = Some row \<and> q = principal_of row"
    if u: "CHR ''_'' \<in> set ?k" and a: "authenticate ac pt (Some plaintext) bearer (d', w) = (Inr q, t)" for q t
  proof -
    obtain k x r where k: "CHR ''_'' \<notin> set k" "dget (db_api_keys d') k = Some r" "q = principal_of r"
      using a [unfolded key [OF ne] from_api_key_Inr] by auto
    then have "k \<noteq> ?k" using u by auto
    then show ?thesis using k by blast
  qed
  moreover have "authenticate ac pt (Some plaintext) bearer (d', w) =
      (Inr (principal_of row), (key_touch ?k (pt_now pt w) d', w))" if "CHR ''_'' \<notin> set ?k"
    unfolding key [OF ne] from_api_key_Inr using that rec(1) row(1) f assms(3,4)
    by (intro exI [of _ ?k] exI [of _ secret] exI [of _ row]) simp
  ultimately show ?thesis unfolding key [OF assms(1)] from_api_key_Inr f(3) by simp
qed

definition sample_auth :: auth_config where
  "sample_auth = \<lparr>ac_sha256 = rev, ac_pepper = ''pep'', ac_jwt_decode = (\<lambda>t k a. Inl ''no''), ac_jwt_secret = ''k'',
     ac_jwt_algorithm = ''HS256'', ac_float_repr = (\<lambda>_. ''0.0'')\<rparr>"

definition sample_keyed :: db where
  "sample_keyed = snd (key_create (snd (mint_api_key sample_auth ''ab12'' ''s_3'' ''t1'' ''ops'' [''admin''] None)) (empty_db 0))"

theorem api_key_authenticates_witness:
  "authenticate sample_auth fixed_ports_of (Some ''af_ab12_s_3'') None
     (sample_keyed, \<lparr>fx_now = 7, fx_prefix = ''id'', fx_counter = 0\<rparr>) =
   (Inr \<lparr>pr_name = ''ops'', pr_tenant_id = ''t1'', pr_scopes = [''admin''], pr_kind = ''api_key''\<rparr>,
    (key_touch ''ab12'' 7 sample_keyed, \<lparr>fx_now = 7, fx_prefix = ''id'', fx_counter = 0\<rparr>))"
proof -
  let ?m = "mint_api_key sample_auth ''ab12'' ''s_3'' ''t1'' ''ops'' [''admin''] None"
  let ?w = "\<lparr>fx_now = 7, fx_prefix = ''id'', fx_counter = 0\<rparr>"
  have m: "?m = (''af_ab12_s_3'', snd ?m)" by code_simp
  have c: "key_create (snd ?m) (empty_db 0) = (Inr (), sample_keyed)"
    unfolding sample_keyed_def by (rule prod_eqI) (code_simp, simp)
  have "kr_key_id (snd ?m) = ''ab12''" by code_simp
  then show ?thesis
    using conjunct2 [OF api_key_authenticates [OF _ m _ _ c, where raw = "''x''" and pt = fixed_ports_of and w = ?w and bearer = None]]
    by (simp add: fixed_ports_of_def)
qed

end
