(* ===== verification/RateLimit.thy ===== *)
theory RateLimit
  imports Ports Json
begin

text \<open>
  \<open>api/middleware/rate_limit.py\<close>: fixed-window rate limits counted in Redis. The two Redis
  commands are parameters on a state of their own; each reading of \<open>time.time()\<close> is an argument.
\<close>

section \<open>Operations\<close>

record 'r redis =
  rd_incr :: "string \<Rightarrow> ('r, pexn, int) eff"
  rd_expire :: "string \<Rightarrow> int \<Rightarrow> ('r, pexn, unit) eff"

record rate_decision =
  rt_allowed :: bool
  rt_limit :: int
  rt_remaining :: int
  rt_reset_in :: int

definition py_int :: "rat \<Rightarrow> int" where
  "py_int x = (if 0 \<le> x then \<lfloor>x\<rfloor> else \<lceil>x\<rceil>)"

definition rate_key :: "string \<Rightarrow> string \<Rightarrow> int \<Rightarrow> string" where
  "rate_key tenant_id bucket window =
     ''agentforge:rl:'' @ tenant_id @ '':'' @ bucket @ '':'' @ show_int window"

text \<open>A failure of either command, after any effect it had, lets the request through.\<close>

definition rate_count :: "'r redis \<Rightarrow> string \<Rightarrow> int \<Rightarrow> ('r, pexn, int) eff" where
  "rate_count rd key window_seconds =
     ebind (rd_incr rd key) (\<lambda>count.
       if count = 1 then ebind (rd_expire rd key window_seconds) (\<lambda>_. ereturn count) else ereturn count)"

definition rate_check ::
  "'r redis option \<Rightarrow> rat \<Rightarrow> rat \<Rightarrow> string \<Rightarrow> string \<Rightarrow> int \<Rightarrow> int \<Rightarrow> ('r, pexn, rate_decision) eff" where
  "rate_check redis t1 t2 tenant_id bucket limit window_seconds s =
     (let open_decision = \<lparr>rt_allowed = True, rt_limit = limit, rt_remaining = limit, rt_reset_in = window_seconds\<rparr> in
      case redis of
        None \<Rightarrow> (Inr open_decision, s)
      | Some rd \<Rightarrow>
          if limit \<le> 0 then (Inr open_decision, s)
          else if window_seconds = 0 then (Inl (PExn (OtherException ''ZeroDivisionError'') []), s)
          else (case rate_count rd (rate_key tenant_id bucket (py_int t1 div window_seconds)) window_seconds s of
             (Inl e, s') \<Rightarrow> if pexn_class e = PyCancelledError then (Inl e, s') else (Inr open_decision, s')
           | (Inr count, s') \<Rightarrow>
               (Inr \<lparr>rt_allowed = count \<le> limit, rt_limit = limit, rt_remaining = max (limit - count) 0,
                     rt_reset_in = window_seconds - py_int t2 mod window_seconds\<rparr>, s')))"

text \<open>A sequence of checks of one bucket, each with its two readings of the clock.\<close>

fun rate_checks ::
  "'r redis option \<Rightarrow> (rat \<times> rat) list \<Rightarrow> string \<Rightarrow> string \<Rightarrow> int \<Rightarrow> int \<Rightarrow> ('r, pexn, rate_decision list) eff" where
  "rate_checks redis [] tenant_id bucket limit window_seconds = ereturn []"
| "rate_checks redis ((t1, t2) # ts) tenant_id bucket limit window_seconds =
     ebind (rate_check redis t1 t2 tenant_id bucket limit window_seconds) (\<lambda>d.
     ebind (rate_checks redis ts tenant_id bucket limit window_seconds) (\<lambda>ds. ereturn (d # ds)))"

section \<open>Correctness\<close>

text \<open>
  What is relied on of a Redis that answers: \<open>INCR\<close> adds one to the counter of the key, an absent
  key counting as zero, and returns the sum; \<open>EXPIRE\<close> with a positive time keeps the counters.
\<close>

definition counting :: "'r redis \<Rightarrow> ('r \<Rightarrow> string \<Rightarrow> int) \<Rightarrow> bool" where
  "counting rd counter \<longleftrightarrow>
     (\<forall>k s. \<exists>s'. rd_incr rd k s = (Inr (counter s k + 1), s') \<and> counter s' = (counter s)(k := counter s k + 1)) \<and>
     (\<forall>k ttl s. 0 < ttl \<longrightarrow> (\<exists>s'. rd_expire rd k ttl s = (Inr (), s') \<and> counter s' = counter s))"

lemma rate_count_counting:
  assumes "counting rd counter" "0 < w"
  shows "\<exists>s'. rate_count rd k w s = (Inr (counter s k + 1), s') \<and> counter s' = (counter s)(k := counter s k + 1)"
proof -
  obtain s1 where s1: "rd_incr rd k s = (Inr (counter s k + 1), s1)" "counter s1 = (counter s)(k := counter s k + 1)"
    using assms(1) unfolding counting_def by blast
  obtain s2 where "rd_expire rd k w s1 = (Inr (), s2)" "counter s2 = counter s1"
    using assms unfolding counting_def by blast
  then show ?thesis using s1 by (simp add: rate_count_def)
qed

lemma rate_check_counting:
  assumes "counting rd counter" "0 < w" "0 < limit" "k = rate_key t b (py_int t1 div w)"
  shows "\<exists>s'. rate_check (Some rd) t1 t2 t b limit w s =
      (Inr \<lparr>rt_allowed = counter s k < limit, rt_limit = limit, rt_remaining = max (limit - counter s k - 1) 0,
            rt_reset_in = w - py_int t2 mod w\<rparr>, s') \<and> counter s' = (counter s)(k := counter s k + 1)"
  using rate_count_counting [OF assms(1,2), of k s] assms(2-4) by (auto simp: rate_check_def Let_def)

section \<open>Properties\<close>

text \<open>
  C16: while Redis answers, the checks of one bucket inside one window are allowed in order until
  the limit is used up and refused from then on; what is reported as remaining lies between zero and
  the limit, and the time to the reset between one second and the window.
\<close>

theorem rate_limit_enforced:
  assumes "counting rd counter" "0 < window_seconds" "0 < limit"
    and "list_all (\<lambda>(t1, t2). py_int t1 div window_seconds = window) ts"
    and "counter s (rate_key tenant_id bucket window) = used" "0 \<le> used"
  shows "\<exists>ds s'. rate_checks (Some rd) ts tenant_id bucket limit window_seconds s = (Inr ds, s') \<and>
    map rt_allowed ds = map (\<lambda>i. used + int i < limit) [0..<length ts] \<and>
    (\<forall>d \<in> set ds. 0 \<le> rt_remaining d \<and> rt_remaining d < limit \<and> 1 \<le> rt_reset_in d \<and> rt_reset_in d \<le> window_seconds)"
  using assms(4-6)
proof (induction ts arbitrary: s used)
  case (Cons t ts)
  obtain t1 t2 where t: "t = (t1, t2)" by fastforce
  let ?k = "rate_key tenant_id bucket window"
  have k: "?k = rate_key tenant_id bucket (py_int t1 div window_seconds)" using Cons.prems(1) t by simp
  from rate_check_counting [OF assms(1-3) k, of t2 s] Cons.prems(2) obtain s1 where
    s1: "rate_check (Some rd) t1 t2 tenant_id bucket limit window_seconds s =
      (Inr \<lparr>rt_allowed = used < limit, rt_limit = limit, rt_remaining = max (limit - used - 1) 0,
            rt_reset_in = window_seconds - py_int t2 mod window_seconds\<rparr>, s1)"
      "counter s1 ?k = used + 1" by auto
  obtain ds s' where ds: "rate_checks (Some rd) ts tenant_id bucket limit window_seconds s1 = (Inr ds, s')"
    "map rt_allowed ds = map (\<lambda>i. used + 1 + int i < limit) [0..<length ts]"
    "\<forall>d \<in> set ds. 0 \<le> rt_remaining d \<and> rt_remaining d < limit \<and> 1 \<le> rt_reset_in d \<and> rt_reset_in d \<le> window_seconds"
    using Cons.IH [of s1 "used + 1"] Cons.prems s1(2) by auto
  have "[0..<length (t # ts)] = 0 # map Suc [0..<length ts]" by (simp only: length_Cons map_Suc_upt upt_conv_Cons zero_less_Suc One_nat_def)
  then have "map (\<lambda>i. used + int i < limit) [0..<length (t # ts)] = (used < limit) # map rt_allowed ds"
    unfolding ds(2) by (simp add: comp_def algebra_simps del: upt_Suc)
  moreover have "0 \<le> py_int t2 mod window_seconds" "py_int t2 mod window_seconds < window_seconds"
    using assms(2) by simp_all
  ultimately show ?case using s1 ds(1,3) Cons.prems(3) assms(3) t by simp
qed simp

definition sample_redis :: "(string, int) pydict redis" where
  "sample_redis = \<lparr>rd_incr = (\<lambda>k s. let c = (case dget s k of None \<Rightarrow> 0 | Some n \<Rightarrow> n) + 1 in (Inr c, dset k c s)),
     rd_expire = (\<lambda>k ttl s. (Inr (), s))\<rparr>"

theorem rate_limit_enforced_witness:
  "\<exists>ds s'. rate_checks (Some sample_redis) [(60, 60), (61, 61), (119, 120)] ''t1'' ''execute'' 2 60 [] = (Inr ds, s') \<and>
     map rt_allowed ds = [True, True, False]"
proof -
  let ?c = "\<lambda>s k. case dget s k of None \<Rightarrow> 0 | Some n \<Rightarrow> (n :: int)"
  have "counting sample_redis ?c"
    by (auto simp: counting_def sample_redis_def Let_def fun_eq_iff)
  then obtain ds s' where "rate_checks (Some sample_redis) [(60, 60), (61, 61), (119, 120)] ''t1'' ''execute'' 2 60 [] = (Inr ds, s')"
    "map rt_allowed ds = map (\<lambda>i. 0 + int i < 2) [0..<length [(60 :: rat, 60 :: rat), (61, 61), (119, 120)]]"
    using rate_limit_enforced [where rd = sample_redis and counter = ?c and window = 1 and s = "[]" and used = 0
      and ts = "[(60, 60), (61, 61), (119, 120)]" and window_seconds = 60 and limit = 2 and tenant_id = "''t1''"
      and bucket = "''execute''"] by (auto simp: py_int_def simp del: rate_checks.simps)
  then show ?thesis by (auto simp: upt_rec simp del: rate_checks.simps)
qed

end
