(* ===== verification/Api.thy ===== *)
theory Api
  imports Auth RateLimit Instances Control Escalation
begin

text \<open>
  The HTTP API: \<open>api/deps.py\<close>, \<open>api/schemas.py\<close>, \<open>api/errors.py\<close> and the routers of
  \<open>api/routes\<close>. A request is a value of \<open>request\<close>, one constructor per route, with its path, query
  and body parameters as FastAPI parses them; a response is a status with a view. Pydantic's parsing
  of a definition and of a numeric string are parameters. JSON dumps in a response stand as the
  typed value they dump. The state is the database and the world, which also holds Redis.
\<close>

section \<open>Schemas\<close>

record execute_request =
  eq_context :: obj
  eq_version :: "string option"
  eq_budget_limit_usd :: "usd option"
  eq_priority :: string
  eq_idempotency_key :: "string option"

definition execute_request_ok :: "execute_request \<Rightarrow> bool" where
  "execute_request_ok b \<longleftrightarrow>
     (case eq_budget_limit_usd b of None \<Rightarrow> True | Some x \<Rightarrow> 0 < x) \<and>
     eq_priority b \<in> {''low'', ''normal'', ''high'', ''critical''}"

record execute_response =
  xr_instance_id :: string
  xr_workflow_id :: string
  xr_version :: string
  xr_status :: string

record step_view =
  sv_step_id :: string
  sv_status :: string
  sv_attempts :: int
  sv_model_used :: "string option"
  sv_cost_usd :: usd
  sv_error_type :: "string option"
  sv_error_message :: "string option"

record instance_view =
  iv_instance_id :: string
  iv_tenant_id :: string
  iv_workflow_id :: string
  iv_workflow_version :: string
  iv_status :: string
  iv_version :: nat
  iv_context :: obj
  iv_steps :: "step_view list"
  iv_cost_accumulated_usd :: usd
  iv_budget_limit_usd :: "usd option"
  iv_escalations :: "escalation_ref list"
  iv_side_effects :: "side_effect_ref list"
  iv_created_at :: "instant option"
  iv_updated_at :: "instant option"
  iv_completed_at :: "instant option"

record event_view =
  ew_sequence :: nat
  ew_event_type :: string
  ew_occurred_at :: instant
  ew_payload :: event

record escalation_view =
  cw_escalation_id :: string
  cw_instance_id :: string
  cw_step_id :: string
  cw_reason :: string
  cw_recommendation :: string
  cw_confidence :: rat
  cw_options :: "obj list"
  cw_auto_action :: string
  cw_deadline :: "instant option"
  cw_created_at :: instant

record resolve_request =
  rr_resolution :: string
  rr_resolved_by :: string
  rr_modified_context :: "obj option"
  rr_new_budget_usd :: "usd option"

definition resolve_request_ok :: "resolve_request \<Rightarrow> bool" where
  "resolve_request_ok b \<longleftrightarrow>
     rr_resolution b \<in> {''approve'', ''modify'', ''skip'', ''abort''} \<and>
     (case rr_new_budget_usd b of None \<Rightarrow> True | Some x \<Rightarrow> 0 < x)"

record dead_letter_view =
  dv_id :: nat
  dv_instance_id :: string
  dv_step_id :: "string option"
  dv_reason :: string
  dv_error_type :: "string option"
  dv_error_message :: "string option"
  dv_at_version :: nat
  dv_created_at :: instant

record requeue_response =
  qr_instance_id :: string
  qr_status :: string

datatype view =
    Registered string string string
  | Definitions "workflow_definition list"
  | Definition_View workflow_definition
  | Executed execute_response
  | Instance_View instance_view
  | Summaries "instance_summary list"
  | Event_Views "event_view list"
  | Escalation_Views "escalation_view list"
  | Resolved string string
  | Dead_Letter_Views "dead_letter_view list"
  | Requeued requeue_response
  | Error_View string string
  | Readiness bool "(string \<times> string) list"

datatype request =
    Register_Workflow obj
  | List_Workflows bool
  | Get_Workflow string string
  | Execute_Workflow string execute_request
  | List_Instances "string list option" "string option" int int
  | Get_Instance string
  | Get_Events string int
  | Get_History string int
  | Pause_Instance string string
  | Resume_Instance string string
  | Abort_Instance string string
  | List_Pending int
  | Resolve_Escalation string resolve_request
  | List_Dead_Letters bool int
  | Requeue_Dead_Letter int
  | Trigger_Webhook string obj

section \<open>Dependencies\<close>

record 'w api =
  ai_auth :: auth_config
  ai_ports :: "'w ports"
  ai_redis :: "'w redis option"
  ai_times :: "'w \<Rightarrow> rat \<times> rat"
  ai_execute_rate_limit :: int
  ai_checksum :: "workflow_definition \<Rightarrow> string"
  ai_parse_definition :: "obj \<Rightarrow> pexn + workflow_definition"
  ai_parse_float :: "string \<Rightarrow> rat option"
  ai_others :: "nat \<Rightarrow> append_call list"

text \<open>\<open>ai_times\<close>: the two clock readings of a rate check. \<open>ai_others\<close>: what other writers append during
  a control operation.\<close>

record credentials =
  cd_api_key :: "string option"
  cd_authorization :: "string option"

definition bearer_of :: "string option \<Rightarrow> string option" where
  "bearer_of header =
     (case header of
        None \<Rightarrow> None
      | Some h \<Rightarrow> if take 7 (map ascii_lower h) = ''bearer '' then Some (strip (drop 7 h)) else None)"

definition current_principal :: "'w api \<Rightarrow> credentials \<Rightarrow> (db \<times> 'w, http_exn, principal) eff" where
  "current_principal a cd =
     authenticate (ai_auth a) (ai_ports a) (cd_api_key cd) (bearer_of (cd_authorization cd))"

definition require :: "'w api \<Rightarrow> credentials \<Rightarrow> scope list \<Rightarrow> (db \<times> 'w, http_exn, principal) eff" where
  "require a cd scopes =
     ebind (current_principal a cd) (\<lambda>p.
       if list_ex (has_scope p) scopes then ereturn p
       else ethrow (ForbiddenError (''need one of: '' @ join '', '' (map scope_value scopes))))"

definition raising :: "('s, pexn, 'a) eff \<Rightarrow> ('s, http_exn, 'a) eff" where
  "raising m s = (case m s of (Inl e, s') \<Rightarrow> (Inl (Raised e), s') | (Inr x, s') \<Rightarrow> (Inr x, s'))"

definition rate_limited :: "'w api \<Rightarrow> string \<Rightarrow> int \<Rightarrow> principal \<Rightarrow> (db \<times> 'w, http_exn, unit) eff" where
  "rate_limited a bucket limit p s =
     (case ai_times a (snd s) of (t1, t2) \<Rightarrow>
        case rate_check (ai_redis a) t1 t2 (pr_tenant_id p) bucket limit 60 (snd s) of
          (Inl e, w) \<Rightarrow> (Inl (Raised e), (fst s, w))
        | (Inr d, w) \<Rightarrow>
            (if rt_allowed d then Inr () else Inl (HTTPException 429 ''rate limit exceeded'' (rt_reset_in d)),
             (fst s, w)))"

section \<open>Instances\<close>

definition step_view_of :: "step_state \<Rightarrow> step_view" where
  "step_view_of s =
     \<lparr>sv_step_id = ss_step_id s, sv_status = st_value (ss_status s), sv_attempts = ss_attempts s,
      sv_model_used = ss_model_used s, sv_cost_usd = ss_cost_usd s, sv_error_type = ss_error_type s,
      sv_error_message = ss_error_message s\<rparr>"

definition to_view :: "workflow_instance \<Rightarrow> instance_view" where
  "to_view i =
     \<lparr>iv_instance_id = wi_instance_id i, iv_tenant_id = wi_tenant_id i, iv_workflow_id = wi_workflow_id i,
      iv_workflow_version = wi_workflow_version i, iv_status = wf_value (wi_status i), iv_version = wi_version i,
      iv_context = wi_context i, iv_steps = map (step_view_of \<circ> snd) (wi_step_states i),
      iv_cost_accumulated_usd = wi_cost_accumulated_usd i, iv_budget_limit_usd = wi_budget_limit_usd i,
      iv_escalations = wi_escalations i, iv_side_effects = wi_side_effects i, iv_created_at = wi_created_at i,
      iv_updated_at = wi_updated_at i, iv_completed_at = wi_completed_at i\<rparr>"

definition load_view :: "string \<Rightarrow> string \<Rightarrow> (db \<times> 'w, http_exn, nat \<times> view) eff" where
  "load_view iid tenant_id s =
     (case service_get_instance (fst s) iid tenant_id of
        Inl c \<Rightarrow> (Inl (Raised (PExn c [])), s)
      | Inr None \<Rightarrow> (Inl (Raised (config_error (''instance '' @ iid @ '' not found''))), s)
      | Inr (Some i) \<Rightarrow> (Inr (200, Instance_View (to_view i)), s))"

definition event_view_of :: "event \<Rightarrow> event_view" where
  "event_view_of e = \<lparr>ew_sequence = ev_sequence e, ew_event_type = event_type (ev_body e),
     ew_occurred_at = ev_occurred_at e, ew_payload = e\<rparr>"

definition check_request :: "bool \<Rightarrow> ('s, http_exn, 'a) eff \<Rightarrow> ('s, http_exn, 'a) eff" where
  "check_request ok m = (if ok then m else ethrow RequestValidationError)"

definition instances_list ::
  "principal \<Rightarrow> string list option \<Rightarrow> string option \<Rightarrow> int \<Rightarrow> int \<Rightarrow> (db \<times> 'w, http_exn, nat \<times> view) eff" where
  "instances_list p status workflow_id limit offset =
     check_request (1 \<le> limit \<and> limit \<le> 200 \<and> 0 \<le> offset) (\<lambda>s.
       case list_instances (fst s) (pr_tenant_id p) status workflow_id limit offset of
         Inl c \<Rightarrow> (Inl (Raised (PExn c [])), s)
       | Inr rows \<Rightarrow> (Inr (200, Summaries rows), s))"

definition get_events :: "principal \<Rightarrow> string \<Rightarrow> int \<Rightarrow> (db \<times> 'w, http_exn, nat \<times> view) eff" where
  "get_events p iid after =
     check_request (0 \<le> after) (\<lambda>s.
       (Inr (200, Event_Views (map event_view_of (load (fst s) iid (pr_tenant_id p) (nat after)))), s))"

definition get_history :: "principal \<Rightarrow> string \<Rightarrow> int \<Rightarrow> (db \<times> 'w, http_exn, nat \<times> view) eff" where
  "get_history p iid at_version =
     check_request (1 \<le> at_version) (\<lambda>s.
       case state_at (fst s) iid (pr_tenant_id p) (nat at_version) None of
         Inl c \<Rightarrow> (Inl (Raised (PExn c [])), s)
       | Inr None \<Rightarrow> (Inl (Raised (config_error
           (''instance '' @ iid @ '' has no state at v'' @ show_int at_version))), s)
       | Inr (Some i) \<Rightarrow> (Inr (200, Instance_View (to_view i)), s))"

definition control_route ::
  "('w ports \<Rightarrow> (nat \<Rightarrow> append_call list) \<Rightarrow> string \<Rightarrow> string \<Rightarrow> string \<Rightarrow> (db \<times> 'w, pexn, unit) eff) \<Rightarrow>
   'w api \<Rightarrow> principal \<Rightarrow> string \<Rightarrow> string \<Rightarrow> (db \<times> 'w, http_exn, nat \<times> view) eff" where
  "control_route control a p iid actor =
     ebind (raising (control (ai_ports a) (ai_others a) iid (pr_tenant_id p) actor)) (\<lambda>_.
       load_view iid (pr_tenant_id p))"

section \<open>Workflows\<close>

definition register_workflow :: "'w api \<Rightarrow> principal \<Rightarrow> obj \<Rightarrow> (db \<times> 'w, http_exn, nat \<times> view) eff" where
  "register_workflow a p body s =
     (case ai_parse_definition a body of
        Inl e \<Rightarrow> (Inl (Raised e), s)
      | Inr defn \<Rightarrow>
          ebind (raising (on_db (defn_register (ai_checksum a) defn (pr_tenant_id p) True))) (\<lambda>_.
            ereturn (201, Registered (wd_workflow_id defn) (wd_version defn) (ai_checksum a defn))) s)"

definition list_workflows :: "principal \<Rightarrow> bool \<Rightarrow> (db \<times> 'w, http_exn, nat \<times> view) eff" where
  "list_workflows p active_only s = (Inr (200, Definitions (defn_list (fst s) (pr_tenant_id p) active_only)), s)"

definition get_workflow :: "principal \<Rightarrow> string \<Rightarrow> string \<Rightarrow> (db \<times> 'w, http_exn, nat \<times> view) eff" where
  "get_workflow p workflow_id version s =
     (case defn_get (fst s) workflow_id version (pr_tenant_id p) of
        None \<Rightarrow> (Inl (Raised (config_error (''workflow '' @ workflow_id @ '' v'' @ version @ '' not found''))), s)
      | Some defn \<Rightarrow> (Inr (200, Definition_View defn), s))"

definition executed_of :: "workflow_instance \<Rightarrow> execute_response" where
  "executed_of i = \<lparr>xr_instance_id = wi_instance_id i, xr_workflow_id = wi_workflow_id i,
     xr_version = wi_workflow_version i, xr_status = wf_value (wi_status i)\<rparr>"

definition execute_workflow :: "'w api \<Rightarrow> principal \<Rightarrow> string \<Rightarrow> execute_request \<Rightarrow> (db \<times> 'w, http_exn, nat \<times> view) eff" where
  "execute_workflow a p name body =
     check_request (execute_request_ok body) (
       ebind (raising (create_instance (ai_ports a) (pr_tenant_id p)
         \<lparr>cr_workflow_id = (if eq_version body \<noteq> None then Some name else None), cr_version = eq_version body,
          cr_name = (if eq_version body \<noteq> None then None else Some name), cr_context = Some (eq_context body),
          cr_budget_limit_usd = eq_budget_limit_usd body, cr_trigger_source = TS_API,
          cr_trigger_metadata = Some [(''priority'', JStr (eq_priority body))]\<rparr>)) (\<lambda>i.
         ereturn (202, Executed (executed_of i))))"

text \<open>
  The webhook passes what the body holds unchecked: pydantic takes a dictionary for the context (a
  falsy value counts as an empty one) and a number, a boolean or a numeric string for the budget, and
  refuses anything else when the event is built, after two ids were drawn.
\<close>

definition webhook_context :: "obj \<Rightarrow> obj option" where
  "webhook_context body =
     (case get_or (JObj body) body ''context'' of
        JObj c \<Rightarrow> Some c
      | j \<Rightarrow> if truthy j then None else Some [])"

definition webhook_budget :: "(string \<Rightarrow> rat option) \<Rightarrow> obj \<Rightarrow> usd option option" where
  "webhook_budget parse body =
     (case getj body ''budget_limit_usd'' of
        JNull \<Rightarrow> Some None
      | JStr s \<Rightarrow> map_option Some (parse s)
      | j \<Rightarrow> map_option Some (num_of j))"

definition trigger :: "'w api \<Rightarrow> principal \<Rightarrow> string \<Rightarrow> obj \<Rightarrow> (db \<times> 'w, http_exn, nat \<times> view) eff" where
  "trigger a p workflow_name body =
     (case (webhook_context body, webhook_budget (ai_parse_float a) body) of
        (Some ctx, Some budget) \<Rightarrow>
          ebind (raising (create_instance (ai_ports a) (pr_tenant_id p)
            \<lparr>cr_workflow_id = None, cr_version = None, cr_name = Some workflow_name, cr_context = Some ctx,
             cr_budget_limit_usd = budget, cr_trigger_source = TS_N8N,
             cr_trigger_metadata = Some [(''source'', JStr ''webhook'')]\<rparr>)) (\<lambda>i.
            ereturn (202, Executed (executed_of i)))
      | _ \<Rightarrow> (\<lambda>s.
          case resolve_definition (fst s) (pr_tenant_id p) None None (Some workflow_name) of
            Inl e \<Rightarrow> (Inl (Raised e), s)
          | Inr _ \<Rightarrow>
              ebind (raising (new_id (world_ports (ai_ports a)))) (\<lambda>_.
              ebind (raising (new_id (world_ports (ai_ports a)))) (\<lambda>_.
                ethrow (Raised (PExn PydanticValidationError [])))) s))"

section \<open>Escalations and dead letters\<close>

definition escalation_view_of :: "pending_escalation \<Rightarrow> escalation_view" where
  "escalation_view_of e =
     \<lparr>cw_escalation_id = pe_escalation_id e, cw_instance_id = pe_instance_id e, cw_step_id = pe_step_id e,
      cw_reason = pe_reason e, cw_recommendation = pe_recommendation e, cw_confidence = pe_confidence e,
      cw_options = pe_options e, cw_auto_action = pe_auto_action e, cw_deadline = pe_deadline e,
      cw_created_at = pe_created_at e\<rparr>"

text \<open>The limit is not checked by these routes; the database refuses a negative one.\<close>

definition list_pending :: "principal \<Rightarrow> int \<Rightarrow> (db \<times> 'w, http_exn, nat \<times> view) eff" where
  "list_pending p limit s =
     (if limit < 0 then (Inl (Raised (PExn DbDataError [])), s)
      else (Inr (200, Escalation_Views
        (map escalation_view_of (esc_store_list_pending (fst s) (pr_tenant_id p) (nat limit)))), s))"

definition resolve_route :: "'w api \<Rightarrow> principal \<Rightarrow> string \<Rightarrow> resolve_request \<Rightarrow> (db \<times> 'w, http_exn, nat \<times> view) eff" where
  "resolve_route a p eid body =
     check_request (resolve_request_ok body) (
       ebind (raising (resolve (ai_ports a) eid (pr_tenant_id p) (rr_resolution body) (rr_resolved_by body)
         (rr_modified_context body) (rr_new_budget_usd body))) (\<lambda>iid.
         ereturn (200, Resolved iid (rr_resolution body))))"

definition dead_letter_view_of :: "dead_letter_row \<Rightarrow> dead_letter_view" where
  "dead_letter_view_of r =
     \<lparr>dv_id = dl_id r, dv_instance_id = dl_instance_id r, dv_step_id = dl_step_id r, dv_reason = dl_reason r,
      dv_error_type = dl_error_type r, dv_error_message = dl_error_message r, dv_at_version = dl_at_version r,
      dv_created_at = dl_created_at r\<rparr>"

definition list_dead_letters :: "principal \<Rightarrow> bool \<Rightarrow> int \<Rightarrow> (db \<times> 'w, http_exn, nat \<times> view) eff" where
  "list_dead_letters p resolved limit s =
     (if limit < 0 then (Inl (Raised (PExn DbDataError [])), s)
      else (Inr (200, Dead_Letter_Views
        (map dead_letter_view_of (dlq_list (fst s) (pr_tenant_id p) resolved (nat limit)))), s))"

text \<open>No entry has a negative id, and one beyond a big integer cannot be sent to the database.\<close>

definition requeue_route :: "'w api \<Rightarrow> principal \<Rightarrow> int \<Rightarrow> (db \<times> 'w, http_exn, nat \<times> view) eff" where
  "requeue_route a p dlq_id =
     (if dlq_id < - (2 ^ 63) \<or> 2 ^ 63 \<le> dlq_id then ethrow (Raised (PExn DbDataError []))
      else if dlq_id < 0 then ethrow (Raised (config_error (''dead-letter entry '' @ show_int dlq_id @ '' not found'')))
      else ebind (raising (requeue (ai_ports a) (nat dlq_id) (pr_tenant_id p) ''operator'')) (\<lambda>iid s.
        case service_get_instance (fst s) iid (pr_tenant_id p) of
          Inl c \<Rightarrow> (Inl (Raised (PExn c [])), s)
        | Inr inst \<Rightarrow>
            (Inr (200, Requeued \<lparr>qr_instance_id = iid,
               qr_status = (case inst of None \<Rightarrow> ''unknown'' | Some i \<Rightarrow> wf_value (wi_status i))\<rparr>), s)))"

section \<open>Requests\<close>

text \<open>The scopes each route asks for, any one of which is enough.\<close>

fun route_scopes :: "request \<Rightarrow> scope list" where
  "route_scopes (Register_Workflow _) = [WORKFLOWS_WRITE]"
| "route_scopes (List_Workflows _) = [WORKFLOWS_READ, WORKFLOWS_WRITE]"
| "route_scopes (Get_Workflow _ _) = [WORKFLOWS_READ, WORKFLOWS_WRITE]"
| "route_scopes (Execute_Workflow _ _) = [INSTANCES_WRITE]"
| "route_scopes (List_Instances _ _ _ _) = [INSTANCES_READ, INSTANCES_WRITE]"
| "route_scopes (Get_Instance _) = [INSTANCES_READ, INSTANCES_WRITE]"
| "route_scopes (Get_Events _ _) = [INSTANCES_READ, INSTANCES_WRITE]"
| "route_scopes (Get_History _ _) = [INSTANCES_READ, INSTANCES_WRITE]"
| "route_scopes (Pause_Instance _ _) = [INSTANCES_WRITE]"
| "route_scopes (Resume_Instance _ _) = [INSTANCES_WRITE]"
| "route_scopes (Abort_Instance _ _) = [INSTANCES_WRITE]"
| "route_scopes (List_Pending _) = [ESCALATIONS_READ, ESCALATIONS_WRITE]"
| "route_scopes (Resolve_Escalation _ _) = [ESCALATIONS_WRITE]"
| "route_scopes (List_Dead_Letters _ _) = [DLQ_READ, DLQ_WRITE]"
| "route_scopes (Requeue_Dead_Letter _) = [DLQ_WRITE]"
| "route_scopes (Trigger_Webhook _ _) = [INSTANCES_WRITE]"

definition limited :: "'w api \<Rightarrow> principal \<Rightarrow> (db \<times> 'w, http_exn, 'a) eff \<Rightarrow> (db \<times> 'w, http_exn, 'a) eff" where
  "limited a p m = ebind (rate_limited a ''execute'' (ai_execute_rate_limit a) p) (\<lambda>_. m)"

fun route :: "'w api \<Rightarrow> principal \<Rightarrow> request \<Rightarrow> (db \<times> 'w, http_exn, nat \<times> view) eff" where
  "route a p (Register_Workflow body) = register_workflow a p body"
| "route a p (List_Workflows active_only) = list_workflows p active_only"
| "route a p (Get_Workflow workflow_id version) = get_workflow p workflow_id version"
| "route a p (Execute_Workflow name body) = limited a p (execute_workflow a p name body)"
| "route a p (List_Instances status workflow_id limit offset) = instances_list p status workflow_id limit offset"
| "route a p (Get_Instance iid) = load_view iid (pr_tenant_id p)"
| "route a p (Get_Events iid after) = get_events p iid after"
| "route a p (Get_History iid at_version) = get_history p iid at_version"
| "route a p (Pause_Instance iid actor) = control_route control_pause a p iid actor"
| "route a p (Resume_Instance iid actor) = control_route control_resume a p iid actor"
| "route a p (Abort_Instance iid actor) = control_route control_abort a p iid actor"
| "route a p (List_Pending limit) = list_pending p limit"
| "route a p (Resolve_Escalation eid body) = resolve_route a p eid body"
| "route a p (List_Dead_Letters resolved limit) = list_dead_letters p resolved limit"
| "route a p (Requeue_Dead_Letter dlq_id) = requeue_route a p dlq_id"
| "route a p (Trigger_Webhook name body) = limited a p (trigger a p name body)"

text \<open>The classes of an exception from the most special one up, and the handlers installed for them.\<close>

fun mro :: "nat \<Rightarrow> exn_class \<Rightarrow> exn_class list" where
  "mro 0 c = [c]"
| "mro (Suc n) c = c # (case parent_class c of None \<Rightarrow> [] | Some b \<Rightarrow> mro n b)"

definition error_handlers :: "(exn_class, nat \<times> string) pydict" where
  "error_handlers =
     [(WorkflowDefinitionError, (422, ''invalid_workflow'')), (ConfigurationError, (404, ''not_found'')),
      (ConflictError, (409, ''conflict'')), (BudgetExceededError, (402, ''budget_exceeded'')),
      (AgentForgeError, (400, ''engine_error''))]"

definition handler_of :: "exn_class \<Rightarrow> (nat \<times> string) option" where
  "handler_of c =
     (case List.find (\<lambda>k. dget error_handlers k \<noteq> None) (mro 4 c) of
        None \<Rightarrow> None
      | Some k \<Rightarrow> dget error_handlers k)"

definition or_text :: "string \<Rightarrow> string \<Rightarrow> string" where
  "or_text x y = (if x = [] then y else x)"

fun error_response :: "http_exn \<Rightarrow> nat \<times> view" where
  "error_response (AuthError m) = (401, Error_View ''unauthenticated'' (or_text m ''authentication required''))"
| "error_response (ForbiddenError m) = (403, Error_View ''forbidden'' (or_text m ''insufficient scope''))"
| "error_response (HTTPException code detail _) = (code, Error_View '''' detail)"
| "error_response RequestValidationError = (422, Error_View '''' '''')"
| "error_response (Raised e) =
     (case handler_of (pexn_class e) of
        Some (code, name) \<Rightarrow> (code, Error_View name (pexn_text e))
      | None \<Rightarrow> (500, Error_View '''' ''Internal Server Error''))"

definition handle :: "'w api \<Rightarrow> credentials \<Rightarrow> request \<Rightarrow> db \<times> 'w \<Rightarrow> (nat \<times> view) \<times> (db \<times> 'w)" where
  "handle a cd req s =
     (case ebind (require a cd (route_scopes req)) (\<lambda>p. route a p req) s of
        (Inl e, s') \<Rightarrow> (error_response e, s')
      | (Inr r, s') \<Rightarrow> (r, s'))"

section \<open>The live stream and the probes\<close>

text \<open>
  The websocket of an instance up to its first message: the close code, or the view it sends first.
  No scope is asked for.
\<close>

definition stream_open ::
  "'w api \<Rightarrow> string option \<Rightarrow> string option \<Rightarrow> string option \<Rightarrow> string \<Rightarrow> (db \<times> 'w, pexn, nat + instance_view) eff" where
  "stream_open a query_key header_key token iid s =
     (case authenticate (ai_auth a) (ai_ports a) (if truthy_str query_key then query_key else header_key) token s of
        (Inl e, s') \<Rightarrow> (Inr (Inl 4401), s')
      | (Inr p, s') \<Rightarrow>
          (case service_get_instance (fst s') iid (pr_tenant_id p) of
             Inl c \<Rightarrow> (Inl (PExn c []), s')
           | Inr None \<Rightarrow> (Inr (Inl 4404), s')
           | Inr (Some i) \<Rightarrow> if ai_redis a = None then (Inr (Inl 4404), s') else (Inr (Inr (to_view i)), s')))"

text \<open>\<open>/health/ready\<close> from the answers of the database and of Redis, if there is one.\<close>

definition ready :: "string + unit \<Rightarrow> (string + unit) option \<Rightarrow> nat \<times> view" where
  "ready database redis =
     (let verdict = (\<lambda>r. case r of Inl e \<Rightarrow> ''error: '' @ e | Inr () \<Rightarrow> ''ok'');
          checks = (''database'', verdict database) #
                   (case redis of None \<Rightarrow> [] | Some r \<Rightarrow> [(''redis'', verdict r)]);
          ok = list_all (\<lambda>(k, v). v = ''ok'') checks
      in (if ok then 200 else 503, Readiness ok checks))"

end
