(* ===== verification/Tenancy.thy ===== *)
theory Tenancy
  imports Api
begin

text \<open>
  Tenants at the API: what a request of one tenant can change, and what its answer can depend on.
  The rows of the other tenants are one projection of the database, the rows of the tenant another.
\<close>

section \<open>Rows by tenant\<close>

definition other_rows ::
  "string \<Rightarrow> db \<Rightarrow> (defn_key, defn_row) pydict \<times> event_row list \<times> (string, snapshot_row) pydict \<times>
   (string, index_row) pydict \<times> (string, lease_row) pydict \<times> dead_letter_row list \<times> (string, outbox_row) pydict \<times>
   (string \<times> int, ledger_row) pydict \<times> (string, api_key_row) pydict \<times> (string, escalation_row) pydict" where
  "other_rows t d =
     (filter (\<lambda>(k, r). dr_tenant_id r \<noteq> t) (db_definitions d), filter (\<lambda>r. wr_tenant_id r \<noteq> t) (db_events d),
      filter (\<lambda>(k, r). sr_tenant_id r \<noteq> t) (db_snapshots d), filter (\<lambda>(k, r). ix_tenant_id r \<noteq> t) (db_index d),
      filter (\<lambda>(k, r). le_tenant_id r \<noteq> t) (db_leases d), filter (\<lambda>r. dl_tenant_id r \<noteq> t) (db_dead_letters d),
      filter (\<lambda>(k, r). ob_tenant_id r \<noteq> t) (db_outbox d), filter (\<lambda>(k, r). lg_tenant_id r \<noteq> t) (db_ledger d),
      filter (\<lambda>(k, r). ak_tenant_id r \<noteq> t) (db_api_keys d), filter (\<lambda>(k, r). es_tenant_id r \<noteq> t) (db_escalations d))"

text \<open>Rows replaced and added, when neither the old nor the new row is selected.\<close>

lemma filter_dset:
  assumes "\<not> P v" "\<And>v0. dget d k = Some v0 \<Longrightarrow> \<not> P v0"
  shows "filter (\<lambda>(k, v). P v) (dset k v d) = filter (\<lambda>(k, v). P v) d"
  using assms by (induction d) (auto split: if_splits)

lemma filter_dadjust:
  assumes "\<And>v. (k, v) \<in> set d \<Longrightarrow> \<not> P v \<and> \<not> P (f v)"
  shows "filter (\<lambda>(k, v). P v) (dadjust k f d) = filter (\<lambda>(k, v). P v) d"
  using assms by (induction d) (auto simp: dadjust_def split: if_splits)

lemma filter_dupdate_where:
  assumes "\<And>v. p v \<Longrightarrow> \<not> P v \<and> \<not> P (f v)"
  shows "filter (\<lambda>(k, v). P v) (dupdate_where p f d) = filter (\<lambda>(k, v). P v) d"
  using assms by (induction d) (auto simp: dupdate_where_def split: if_splits)

lemma in_keyed: "distinct (dkeys d) \<Longrightarrow> dget d k = Some r \<Longrightarrow> (k, v) \<in> set d \<Longrightarrow> v = r"
  by (auto dest: in_dget)

section \<open>What is kept\<close>

text \<open>The tables have their primary keys, and a definition is stored under its tenant.\<close>

definition tables_keyed :: "db \<Rightarrow> bool" where
  "tables_keyed d \<longleftrightarrow> distinct (dkeys (db_escalations d)) \<and> distinct (dkeys (db_api_keys d)) \<and>
     distinct (dkeys (db_definitions d)) \<and> (\<forall>(k, r) \<in> set (db_definitions d). dr_tenant_id r = fst k)"

definition held :: "string \<Rightarrow> db \<Rightarrow> db \<times> 'w \<Rightarrow> bool" where
  "held t d0 s \<longleftrightarrow> store_ok (fst s) \<and> tables_keyed (fst s) \<and> other_rows t (fst s) = other_rows t d0"

abbreviation holds :: "string \<Rightarrow> db \<Rightarrow> (db \<times> 'w, 'e, 'a) eff \<Rightarrow> bool" where
  "holds t d0 m \<equiv> triple (held t d0) m (\<lambda>r. held t d0)"

lemma holds_ebind:
  assumes "holds t d0 m" "\<And>x. holds t d0 (f x)"
  shows "holds t d0 (ebind m f)"
proof (rule triple_ebind [where R = "\<lambda>x. held t d0"])
  show "triple (held t d0) m (\<lambda>r s. case r of Inl e \<Rightarrow> held t d0 s | Inr x \<Rightarrow> held t d0 s)"
    using assms(1) by (rule triple_conseq) (auto split: sum.splits)
qed (rule assms(2))

lemma holds_same: "(\<And>s. fst (snd (m s)) = fst s) \<Longrightarrow> holds t d0 m"
  unfolding triple_def held_def by (metis snd_conv)

lemma holds_raising: "holds t d0 m \<Longrightarrow> holds t d0 (raising m)"
  by (fastforce simp: triple_def raising_def split: prod.splits sum.splits)

lemma holds_lift_exn: "holds t d0 m \<Longrightarrow> holds t d0 (lift_exn m)"
  by (fastforce simp: triple_def lift_exn_def split: prod.splits sum.splits)

lemma holds_new_event: "holds t d0 (new_event (world_ports pt) iid tid at_time body)"
  by (rule holds_same) (auto simp: new_event_def world_ports_def split: prod.splits)

lemma holds_new_id: "holds t d0 (new_id (world_ports pt))"
  by (rule holds_same) (auto simp: new_id_def world_ports_def split: prod.splits)

section \<open>Appends\<close>

fun settled_escalation :: "event_body \<Rightarrow> string option" where
  "settled_escalation (EscalationResolved eid _ _ _ _) = Some eid"
| "settled_escalation (EscalationTimedOut eid _ _) = Some eid"
| "settled_escalation _ = None"

text \<open>The events settle escalations of the tenant only.\<close>

definition settles_own :: "string \<Rightarrow> db \<Rightarrow> event list \<Rightarrow> bool" where
  "settles_own t d evs \<longleftrightarrow>
     (\<forall>e \<in> set evs. \<forall>eid r. settled_escalation (ev_body e) = Some eid \<longrightarrow> (eid, r) \<in> set (db_escalations d) \<longrightarrow>
        es_tenant_id r = t)"

lemma project_escalation_shape:
  assumes "project_escalation d e = Inr d'"
  shows "d' = d \<or>
    (\<exists>eid r. dget (db_escalations d) eid = None \<and> es_tenant_id r = ev_tenant_id e \<and>
       d' = d\<lparr>db_escalations := dset eid r (db_escalations d)\<rparr>) \<or>
    (\<exists>eid f. settled_escalation (ev_body e) = Some eid \<and> (\<forall>r. es_tenant_id (f r) = es_tenant_id r) \<and>
       d' = d\<lparr>db_escalations := dadjust eid f (db_escalations d)\<rparr>)" (is "_ \<or> ?added \<or> ?settled")
proof (cases "ev_body e")
  case (EscalationRaised eid sid reason recommendation confidence options deadline auto)
  have "d' = d \<or> ?added"
  proof (cases "dget (db_escalations d) eid")
    case None
    then show ?thesis using assms EscalationRaised
      by (intro disjI2 exI [of _ eid] exI) (auto simp: project_escalation_def split: if_splits)
  qed (use assms EscalationRaised in \<open>auto simp: project_escalation_def split: if_splits\<close>)
  then show ?thesis by blast
next
  case (EscalationResolved eid sid resolution resolved_by modified)
  then have ?settled using assms
    by (intro exI [of _ eid] exI [of _ "\<lambda>r. r\<lparr>es_status := ''resolved'', es_resolution := Some resolution,
         es_resolved_by := Some resolved_by, es_resolved_at := Some (ev_occurred_at e)\<rparr>"])
      (auto simp: project_escalation_def split: if_splits)
  then show ?thesis by blast
next
  case (EscalationTimedOut eid sid auto)
  then have ?settled using assms
    by (intro exI [of _ eid] exI [of _ "\<lambda>r. r\<lparr>es_status := ''timed_out'', es_resolution := Some auto,
         es_resolved_by := Some ''auto'', es_resolved_at := Some (ev_occurred_at e)\<rparr>"])
      (auto simp: project_escalation_def split: if_splits)
  then show ?thesis by blast
qed (use assms in \<open>auto simp: project_escalation_def\<close>)

lemma project_escalation_own:
  assumes "project_escalation d e = Inr d'" "ev_tenant_id e = t" "settles_own t d (e # evs)"
  shows "filter (\<lambda>(k, r). es_tenant_id r \<noteq> t) (db_escalations d') = filter (\<lambda>(k, r). es_tenant_id r \<noteq> t) (db_escalations d) \<and>
    (distinct (dkeys (db_escalations d)) \<longrightarrow> distinct (dkeys (db_escalations d'))) \<and> settles_own t d' evs"
  using project_escalation_shape [OF assms(1)]
proof (elim disjE exE conjE)
  assume "d' = d"
  then show ?thesis using assms(3) by (simp add: settles_own_def)
next
  fix eid r assume r: "dget (db_escalations d) eid = None" "es_tenant_id r = ev_tenant_id e"
    "d' = d\<lparr>db_escalations := dset eid r (db_escalations d)\<rparr>"
  then have "filter (\<lambda>(k, r). es_tenant_id r \<noteq> t) (dset eid r (db_escalations d)) =
      filter (\<lambda>(k, r). es_tenant_id r \<noteq> t) (db_escalations d)"
    using assms(2) by (intro filter_dset) auto
  moreover have "settles_own t d' evs"
    using assms(2,3) r set_dset_subset [of eid r "db_escalations d"] unfolding settles_own_def by fastforce
  ultimately show ?thesis using r(3) distinct_dset [of "db_escalations d" eid r] by simp
next
  fix eid f assume f: "settled_escalation (ev_body e) = Some eid" "\<forall>r. es_tenant_id (f r) = es_tenant_id r"
    "d' = d\<lparr>db_escalations := dadjust eid f (db_escalations d)\<rparr>"
  have "filter (\<lambda>(k, r). es_tenant_id r \<noteq> t) (dadjust eid f (db_escalations d)) =
      filter (\<lambda>(k, r). es_tenant_id r \<noteq> t) (db_escalations d)"
    using assms(3) f by (intro filter_dadjust) (auto simp: settles_own_def)
  moreover have "settles_own t d' evs"
    using assms(3) f by (fastforce simp: settles_own_def dadjust_def)
  ultimately show ?thesis using f(3) by simp
qed

lemma project_escalations_own:
  assumes "rfoldl project_escalation d evs = Inr d'" "\<forall>e \<in> set evs. ev_tenant_id e = t" "settles_own t d evs"
  shows "filter (\<lambda>(k, r). es_tenant_id r \<noteq> t) (db_escalations d') = filter (\<lambda>(k, r). es_tenant_id r \<noteq> t) (db_escalations d) \<and>
    (distinct (dkeys (db_escalations d)) \<longrightarrow> distinct (dkeys (db_escalations d')))"
  using assms
proof (induction evs arbitrary: d)
  case (Cons e evs)
  then obtain d1 where d1: "project_escalation d e = Inr d1" "rfoldl project_escalation d1 evs = Inr d'"
    by (auto simp: rbind_eq_Inr)
  have "ev_tenant_id e = t" using Cons.prems(2) by simp
  from project_escalation_own [OF d1(1) this Cons.prems(3)] Cons.IH [OF d1(2)] Cons.prems(2) show ?case by auto
qed simp

lemma stored_tenant:
  assumes "instance_ok d iid" "fold_events (log_of d iid @ evs) None None = Inr inst"
  shows "dget (db_index d) iid = Some ix \<Longrightarrow> ix_tenant_id ix = wi_tenant_id inst"
    "dget (db_snapshots d) iid = Some sr \<Longrightarrow> sr_tenant_id sr = wi_tenant_id inst"
proof -
  have t: "wi_tenant_id i0 = wi_tenant_id inst"
    if "rows_of d iid \<noteq> []" "fold_events (log_of d iid) None None = Inr i0" for i0
  proof -
    have "log_of d iid \<noteq> []" using that(1) by (simp add: log_of_def)
    then show ?thesis using fold_events_start_fields(4) [OF that(2)] fold_events_start_fields(4) [OF assms(2)] by simp
  qed
  show "ix_tenant_id ix = wi_tenant_id inst" if "dget (db_index d) iid = Some ix"
    using assms(1) that t by (auto simp: instance_ok_def index_ok_def split: if_splits)
  show "sr_tenant_id sr = wi_tenant_id inst" if "dget (db_snapshots d) iid = Some sr"
    using assms(1) that t by (auto simp: instance_ok_def snapshot_ok_def split: if_splits)
qed

lemma upsert_index_tenant:
  assumes "upsert_index d inst w = Inr d'"
    and "\<And>ix. dget (db_index d) (wi_instance_id inst) = Some ix \<Longrightarrow> ix_tenant_id ix = wi_tenant_id inst"
  shows "\<exists>ix. d' = d\<lparr>db_index := dset (wi_instance_id inst) ix (db_index d)\<rparr> \<and> ix_tenant_id ix = wi_tenant_id inst"
proof (cases "dget (db_index d) (wi_instance_id inst)")
  case None
  with assms(1) show ?thesis unfolding upsert_index_def None option.case by (auto split: if_splits intro!: exI conjI)
next
  case (Some row)
  with assms(1) assms(2) [OF Some] show ?thesis
    unfolding upsert_index_def Some option.case by (auto split: if_splits intro!: exI conjI)
qed

lemma commit_body_own:
  assumes ok: "instance_ok d iid" and ev: "events \<noteq> []"
    and ids: "\<forall>e \<in> set events. ev_instance_id e = iid \<and> ev_tenant_id e = tid"
    and seq: "map ev_sequence events = [v + 1..<v + 1 + length events]"
    and c: "commit_body rd d iid tid events v guard w = Inr d'" and own: "settles_own tid d events"
  shows "other_rows tid d' = other_rows tid d \<and> (tables_keyed d \<longrightarrow> tables_keyed d')"
proof -
  from c obtain d1 inst d2 d3 where ins: "rfoldl (insert_event iid tid) d events = Inr d1"
    and p: "project d1 iid tid None True = Inr (Some inst)" and u: "upsert_index d1 inst w = Inr d2"
    and e: "rfoldl project_escalation d2 events = Inr d3"
    and d': "d' = (if load_snapshot d3 iid = None \<or>
              should_snapshot (sr_version (the (load_snapshot d3 iid))) (wi_version inst)
           then write_snapshot d3 inst (ev_occurred_at (last events)) else d3)"
    by (rule commit_body_Inr)
  note cv = commit_version [OF ok ev seq ins p]
  have iid: "wi_instance_id inst = iid"
    using fold_events_instance_id [OF cv(2)] instance_ok_log_ids [OF ok] ids by auto
  have d1: "d1 = d\<lparr>db_events := db_events d @ map (event_row_of d iid tid) events\<rparr>"
    using insert_events_Inr [OF ins] by simp
  obtain ix where d2: "d2 = d1\<lparr>db_index := dset iid ix (db_index d1)\<rparr>" and ix: "ix_tenant_id ix = tid"
    using upsert_index_tenant [OF u] stored_tenant(1) [OF ok cv(2)] cv(3) iid d1 by auto
  have "settles_own tid d2 events" using own by (simp add: settles_own_def d1 d2)
  then have esc: "filter (\<lambda>(k, r). es_tenant_id r \<noteq> tid) (db_escalations d3) = filter (\<lambda>(k, r). es_tenant_id r \<noteq> tid) (db_escalations d)"
    "distinct (dkeys (db_escalations d)) \<longrightarrow> distinct (dkeys (db_escalations d3))"
    using project_escalations_own [OF e, of tid] ids by (simp_all add: d1 d2)
  obtain es where d3: "d3 = d2\<lparr>db_escalations := es\<rparr>" using project_escalations_Inr [OF e] by blast
  have index: "filter (\<lambda>(k, r). ix_tenant_id r \<noteq> tid) (dset iid ix (db_index d)) = filter (\<lambda>(k, r). ix_tenant_id r \<noteq> tid) (db_index d)"
    using ix stored_tenant(1) [OF ok cv(2)] cv(3) by (intro filter_dset) auto
  have "filter (\<lambda>(k, r). sr_tenant_id r \<noteq> tid) (db_snapshots d') = filter (\<lambda>(k, r). sr_tenant_id r \<noteq> tid) (db_snapshots d)"
  proof -
    obtain sr where sr: "write_snapshot d3 inst (ev_occurred_at (last events)) =
        d3\<lparr>db_snapshots := dset iid sr (db_snapshots d3)\<rparr>" "sr_tenant_id sr = tid"
      using write_snapshot_eq [of d3 inst] stored_tenant(2) [OF ok cv(2)] cv(3) iid by (auto simp: d1 d2 d3)
    have "filter (\<lambda>(k, r). sr_tenant_id r \<noteq> tid) (dset iid sr (db_snapshots d)) = filter (\<lambda>(k, r). sr_tenant_id r \<noteq> tid) (db_snapshots d)"
      using sr(2) stored_tenant(2) [OF ok cv(2)] cv(3) by (intro filter_dset) auto
    moreover have "db_snapshots d3 = db_snapshots d" by (simp add: d1 d2 d3)
    ultimately show ?thesis by (simp add: d' sr(1))
  qed
  moreover have rest: "db_escalations d' = db_escalations d3" "db_events d' = db_events d1" "db_index d' = dset iid ix (db_index d)"
    by (simp_all add: d' write_snapshot_def d1 d2 d3)
  moreover have "filter (\<lambda>r. wr_tenant_id r \<noteq> tid) (map (event_row_of d iid tid) events) = []"
    by (simp add: filter_empty_conv)
  ultimately show ?thesis using commit_body_frame [OF c] esc index d1 by (simp add: other_rows_def tables_keyed_def)
qed

lemma append_own:
  assumes "append_new iid tid drafts v g w d = (r, d')" "store_ok d" "settles_own tid d drafts" "drafts \<noteq> []"
  shows "store_ok d' \<and> other_rows tid d' = other_rows tid d \<and> (tables_keyed d \<longrightarrow> tables_keyed d')"
proof (cases r)
  case (Inl e)
  then have "d' = d" using assms(1,4) append_new_Inl by simp
  then show ?thesis using assms(2) by simp
next
  case (Inr x)
  then obtain n evs where a: "append_new iid tid drafts v g w d = (Inr (n, evs), d')" using assms(1) by (cases x) simp
  note b = commit_tx_body [OF a [unfolded append_new_def commit_def]]
  obtain d1 where c: "commit_body d d iid tid (sequenced v drafts) v g w = Inr d1"
    and d': "d' = d1\<lparr>db_published := db_published d1 @ [(iid, tid, sequenced v drafts)]\<rparr>" using b(5) by blast
  have "instance_ok d iid" using assms(2) by (simp add: store_ok_def)
  moreover have "settles_own tid d (sequenced v drafts)"
  proof -
    have "\<exists>x \<in> set drafts. ev_body e = ev_body x" if "e \<in> set (sequenced v drafts)" for e
      using that by (auto simp: sequenced_def dest: set_zip_rightD)
    then show ?thesis using assms(3) unfolding settles_own_def by metis
  qed
  moreover have "map ev_sequence (sequenced v drafts) = [v + 1..<v + 1 + length (sequenced v drafts)]"
    using sequenced_seq [of v drafts] by simp
  ultimately have "other_rows tid d1 = other_rows tid d \<and> (tables_keyed d \<longrightarrow> tables_keyed d1)"
    using commit_body_own [OF _ b(2) b(1) _ c] by blast
  moreover have "other_rows tid d' = other_rows tid d1" "tables_keyed d' = tables_keyed d1"
    by (simp_all add: d' other_rows_def tables_keyed_def)
  ultimately show ?thesis using append_new_Inr [OF assms(2) a] by simp
qed

text \<open>The append of one tenant, as an operation on the database and the world.\<close>

lemma holds_append:
  assumes "drafts \<noteq> []" "\<And>s :: db \<times> 'w. held tid d0 s \<Longrightarrow> settles_own tid (fst s) drafts"
  shows "holds tid d0 (pg_append iid tid drafts v g w :: (db \<times> 'w, exn_class, nat \<times> event list) eff)"
proof (rule tripleI)
  fix s s' :: "db \<times> 'w" and r
  assume h: "held tid d0 s" and a: "pg_append iid tid drafts v g w s = (r, s')"
  then have "append_new iid tid drafts v g w (fst s) = (r, fst s')"
    by (auto simp: pg_append_def on_outbox_def split: prod.splits)
  from append_own [OF this _ assms(2) [OF h] assms(1)] h show "held tid d0 s'" by (auto simp: held_def)
qed

lemma settles_nothing: "\<forall>e \<in> set drafts. settled_escalation (ev_body e) = None \<Longrightarrow> settles_own t d drafts"
  by (simp add: settles_own_def)

section \<open>The services\<close>

text \<open>An event is drafted and appended.\<close>

lemma holds_draft_append:
  assumes "settled_escalation body = None"
    and "\<And>x. holds tid d0 (f x)"
  shows "holds tid d0 (ebind (new_event (world_ports pt) iid tid at_time body) (\<lambda>ev.
    ebind (lift_exn (pg_append iid tid [ev] v g w)) f))"
proof (rule triple_ebind [where R = "\<lambda>ev s. held tid d0 s \<and> ev_body ev = body"])
  show "triple (held tid d0) (new_event (world_ports pt) iid tid at_time body)
     (\<lambda>r s. case r of Inl e \<Rightarrow> held tid d0 s | Inr ev \<Rightarrow> held tid d0 s \<and> ev_body ev = body)"
  proof (rule tripleI)
    fix s s' r assume "held tid d0 s" "new_event (world_ports pt) iid tid at_time body s = (r, s')"
    then show "case r of Inl e \<Rightarrow> held tid d0 s' | Inr ev \<Rightarrow> held tid d0 s' \<and> ev_body ev = body"
      using new_event_world [of pt iid tid at_time body s r s'] by (auto simp: held_def split: sum.splits)
  qed
  fix ev
  show "triple (\<lambda>s. held tid d0 s \<and> ev_body ev = body) (ebind (lift_exn (pg_append iid tid [ev] v g w)) f) (\<lambda>r. held tid d0)"
  proof (cases "ev_body ev = body")
    case True
    then have "holds tid d0 (ebind (lift_exn (pg_append iid tid [ev] v g w)) f)"
      using assms by (intro holds_ebind holds_lift_exn holds_append settles_nothing) auto
    then show ?thesis using True by simp
  qed (simp add: triple_def)
qed

lemma holds_create: "holds tid d0 (create_instance pt tid c)"
proof (rule tripleI)
  fix s s' r assume h: "held tid d0 s" and a: "create_instance pt tid c s = (r, s')"
  show "held tid d0 s'"
  proof (cases "resolve_definition (fst s) tid (cr_workflow_id c) (cr_version c) (cr_name c)")
    case (Inl e)
    then show ?thesis using h a by (simp add: create_instance_def)
  next
    case (Inr defn)
    let ?m = "ebind (new_id (world_ports pt)) (\<lambda>iid.
          ebind (new_event (world_ports pt) iid tid None (genesis_body defn c)) (\<lambda>genesis.
          ebind (lift_exn (pg_append iid tid [genesis] 0 None None)) (\<lambda>_ s.
            case pg_get s iid tid (Some defn) of
              Inl e \<Rightarrow> (Inl (PExn e []), s)
            | Inr None \<Rightarrow> (Inl (PExn PyAssertionError []), s)
            | Inr (Some i) \<Rightarrow> (Inr i, s))))"
    have "holds tid d0 ?m"
      by (intro holds_ebind holds_new_id holds_draft_append holds_same)
        (auto simp: genesis_body_def split: sum.splits option.splits)
    moreover have "?m s = (r, s')" using a Inr by (simp add: create_instance_def)
    ultimately show ?thesis using h tripleD by fastforce
  qed
qed

lemma foreign_none [simp]: "foreign [] s = s"
  by (simp add: foreign_def)

lemma holds_control_apply: "holds tid d0 (control_apply pt [] iid tid to reason i)"
proof -
  have "control_apply pt [] iid tid to reason i =
      ebind (new_event (world_ports pt) iid tid None (InstanceStatusChanged (wi_status i) to (Some reason))) (\<lambda>ev.
        ebind (lift_exn (pg_append iid tid [ev] (wi_version i) None None)) ereturn)"
    by (auto simp: control_apply_def ebind_def fun_eq_iff split: prod.splits sum.splits)
  then show ?thesis by (simp only:) (rule holds_draft_append; simp add: triple_def)
qed

lemma holds_control: "holds tid d0 (control_transition n pt (\<lambda>_. []) iid tid to reason)"
proof (induction n)
  case (Suc n)
  show ?case
  proof (rule tripleI)
    fix s r s'
    assume h: "held tid d0 s" and a: "control_transition (Suc n) pt (\<lambda>_. []) iid tid to reason s = (r, s')"
    show "held tid d0 s'"
    proof (cases "pg_get s iid tid None")
      case (Inl c)
      then show ?thesis using a h by simp
    next
      case (Inr inst)
      note g = Inr
      show ?thesis
      proof (cases "control_check iid inst to")
        case (Inl e)
        then show ?thesis using a h g by simp
      next
        case (Inr go)
        obtain r1 s1 where 1: "control_apply pt [] iid tid to reason (the inst) s = (r1, s1)"
          using prod.exhaust by blast
        have s1: "held tid d0 s1" using tripleD [OF holds_control_apply h 1] .
        have "s' = s \<or> s' = s1 \<or> control_transition n pt (\<lambda>_. []) iid tid to reason s1 = (r, s')"
          using a g Inr 1 by (cases r1) (simp_all split: if_splits)
        then show ?thesis using h s1 tripleD [OF Suc s1] by blast
      qed
    qed
  qed
qed (simp add: triple_def)

lemma resolution_settles:
  "b \<in> set (resolution_bodies i eid sid res who ctx budget) \<Longrightarrow> settled_escalation b = Some e \<Longrightarrow> e = eid"
  by (auto simp: resolution_bodies_def transition_bodies_def wf_body_def split: option.splits if_splits)

lemma holds_resolve: "holds tid d0 (resolve pt eid tid res who ctx budget)"
proof (rule tripleI)
  fix s r s'
  assume h: "held tid d0 s" and a: "resolve pt eid tid res who ctx budget s = (r, s')"
  show "held tid d0 s'"
  proof (cases "esc_load (fst s) eid tid")
    case (Inl e)
    then show ?thesis using h a by (simp add: resolve_def)
  next
    case (Inr x)
    then obtain esc i where x: "esc_load (fst s) eid tid = Inr (esc, i)" by (cases x) simp
    then obtain row where row: "dget (db_escalations (fst s)) eid = Some row" "es_tenant_id row = tid"
      by (auto simp: esc_load_def esc_get_def esc_store_get_def row_to_pending_def split: option.splits if_splits sum.splits)
    let ?bodies = "resolution_bodies i eid (pe_step_id esc) res who ctx budget"
    obtain r1 s1 where 1: "esc_events pt i (pt_now pt (snd s)) ?bodies s = (r1, s1)" using prod.exhaust by blast
    note w = esc_events_world [OF 1]
    show ?thesis
    proof (cases r1)
      case (Inl e)
      then have "s' = s1" using a x 1 by (simp add: resolve_def)
      then show ?thesis using h w by (simp add: held_def)
    next
      case (Inr drafts)
      have "(eid, v) \<in> set (db_escalations (fst s)) \<Longrightarrow> es_tenant_id v = tid" for v
        using in_keyed [OF _ row(1)] row(2) h by (auto simp: held_def tables_keyed_def)
      moreover have "e = eid" if "d \<in> set drafts" "settled_escalation (ev_body d) = Some e" for d e
        using that w Inr resolution_settles by (metis imageI image_set)
      ultimately have own: "settles_own tid (fst s) drafts" unfolding settles_own_def by metis
      have ne: "drafts \<noteq> []" using w Inr by (auto simp: resolution_bodies_def)
      obtain r2 s2 where 2: "pg_append (pe_instance_id esc) tid drafts (wi_version i) None None s1 = (r2, s2)"
        using prod.exhaust by blast
      then have "append_new (pe_instance_id esc) tid drafts (wi_version i) None None (fst s) = (r2, fst s2)"
        using w by (auto simp: pg_append_def on_outbox_def split: prod.splits)
      from append_own [OF this _ own ne] h have "held tid d0 s2" by (auto simp: held_def)
      moreover have "s' = s2"
        using a x 1 Inr 2 by (cases r2) (simp_all add: resolve_def lift_exn_def)
      ultimately show ?thesis by simp
    qed
  qed
qed

lemma holds_mark_resolved: "holds tid d0 (on_db (mark_resolved n tid now))"
proof (rule tripleI)
  fix s r s' assume h: "held tid d0 s" and a: "on_db (mark_resolved n tid now) s = (r, s')"
  then have "fst s' = snd (mark_resolved n tid now (fst s))" by (auto simp: on_outbox_def split: prod.splits)
  then have m: "fst s' = fst s\<lparr>db_dead_letters := map (\<lambda>r. if dl_id r = n \<and> dl_tenant_id r = tid
      then r\<lparr>dl_resolved := True, dl_resolved_at := Some now\<rparr> else r) (db_dead_letters (fst s))\<rparr>"
    by (simp add: mark_resolved_def)
  have "filter (\<lambda>r. dl_tenant_id r \<noteq> tid) (map (\<lambda>r. if dl_id r = n \<and> dl_tenant_id r = tid
      then r\<lparr>dl_resolved := True, dl_resolved_at := Some now\<rparr> else r) rows) = filter (\<lambda>r. dl_tenant_id r \<noteq> tid) rows" for rows
    by (induction rows) auto
  then have "other_rows tid (fst s') = other_rows tid (fst s)" by (simp add: m other_rows_def)
  moreover have "store_ok (fst s') = store_ok (fst s)" by (intro store_ok_cong) (simp_all add: m)
  ultimately show "held tid d0 s'" using h by (simp add: held_def tables_keyed_def m)
qed

lemma holds_requeue: "holds tid d0 (requeue pt n tid who)"
proof (rule tripleI)
  fix s r s' assume h: "held tid d0 s" and a: "requeue pt n tid who s = (r, s')"
  show "held tid d0 s'"
  proof (cases "requeue_checks n tid (fst s)")
    case (Inl e)
    then show ?thesis using h a by (simp add: requeue_def)
  next
    case (Inr x)
    obtain row i where x: "x = (row, i)" by (cases x)
    let ?m = "ebind (new_event (world_ports pt) (dl_instance_id row) tid None
             (WorkflowRequeued (dl_step_id row) who (Some (int n)))) (\<lambda>ev.
          ebind (lift_exn (pg_append (dl_instance_id row) tid [ev] (wi_version i) None None)) (\<lambda>_.
          ebind (now_of (world_ports pt)) (\<lambda>now.
          ebind (on_db (mark_resolved n tid now)) (\<lambda>_.
            ereturn (dl_instance_id row)))))"
    have "holds tid d0 ?m"
      by (intro holds_draft_append holds_ebind holds_mark_resolved) (simp_all add: triple_def now_of_def)
    from tripleD [OF this h] show ?thesis using a Inr x by (simp add: requeue_def)
  qed
qed

lemma holds_register: "holds tid d0 (on_db (defn_register checksum defn tid activate))"
proof (rule tripleI)
  fix s r s' assume h: "held tid d0 s" and a: "on_db (defn_register checksum defn tid activate) s = (r, s')"
  let ?d = "fst s" and ?P = "\<lambda>r. dr_tenant_id r \<noteq> tid"
  let ?k = "defn_key_of tid defn" and ?row = "defn_row_of checksum tid activate (db_clock (fst s)) defn"
  let ?t = "if activate then deactivate tid (wd_name defn) (db_clock ?d) (db_definitions ?d) else db_definitions ?d"
  have "defn_register checksum defn tid activate ?d = (r, fst s')"
    using a by (auto simp: on_outbox_def split: prod.splits)
  then have c: "fst s' = ?d \<or> dget (db_definitions ?d) ?k = None \<and> fst s' = ?d\<lparr>db_definitions := dset ?k ?row ?t\<rparr>"
    by (auto simp: defn_register_def insert_defn_def Let_def defn_key_of_def defn_row_of_def
        split: option.splits if_splits sum.splits)
  have keys: "dkeys ?t = dkeys (db_definitions ?d)" by (simp add: deactivate_def)
  have rows: "filter (\<lambda>(k, r). ?P r) ?t = filter (\<lambda>(k, r). ?P r) (db_definitions ?d)"
    by (auto simp: deactivate_def intro!: filter_dupdate_where)
  have tenants: "\<forall>(k, r) \<in> set ?t. dr_tenant_id r = fst k"
    using h by (auto simp: held_def tables_keyed_def deactivate_def dupdate_where_def split: if_splits)
  show "held tid d0 s'" using c
  proof (elim disjE conjE)
    assume k: "dget (db_definitions ?d) ?k = None" and d: "fst s' = ?d\<lparr>db_definitions := dset ?k ?row ?t\<rparr>"
    have n: "?k \<notin> set (dkeys ?t)" unfolding keys using k by (simp only: dget_None_iff not_False_eq_True)
    then have upd: "dset ?k ?row ?t = ?t @ [(?k, ?row)]" by (rule dset_fresh)
    have "other_rows tid (fst s') = other_rows tid ?d"
      using rows unfolding d upd by (simp add: other_rows_def defn_row_of_def)
    moreover have "tables_keyed (fst s')"
      using h tenants n keys unfolding d upd
      by (auto simp: held_def tables_keyed_def defn_row_of_def defn_key_of_def)
    moreover have "store_ok (fst s') = store_ok ?d" by (intro store_ok_cong) (simp_all add: d)
    ultimately show ?thesis using h by (simp add: held_def)
  qed (use h in \<open>simp add: held_def\<close>)
qed

section \<open>Requests\<close>

lemma current_principal_held:
  assumes "current_principal a cd s = (Inr p, s')" "store_ok (fst s)" "tables_keyed (fst s)"
  shows "held (pr_tenant_id p) (fst s) s'"
proof (cases "truthy_str (cd_api_key cd)")
  case True
  then have "from_api_key (ai_auth a) (ai_ports a) (the (cd_api_key cd)) s = (Inr p, s')"
    using assms(1) by (simp add: current_principal_def authenticate_def)
  then obtain k row where row: "dget (db_api_keys (fst s)) k = Some row" "p = principal_of row"
    "s' = (key_touch k (pt_now (ai_ports a) (snd s)) (fst s), snd s)"
    unfolding from_api_key_Inr by blast
  have d: "fst s' = fst s\<lparr>db_api_keys := dadjust k (\<lambda>r. r\<lparr>ak_last_used_at := Some (pt_now (ai_ports a) (snd s))\<rparr>) (db_api_keys (fst s))\<rparr>"
    using row(3) by (simp add: key_touch_def)
  have "v = row" if "(k, v) \<in> set (db_api_keys (fst s))" for v
    using in_keyed [OF _ row(1) that] assms(3) by (simp add: tables_keyed_def)
  then have "filter (\<lambda>(k, r). ak_tenant_id r \<noteq> pr_tenant_id p) (dadjust k (\<lambda>r. r\<lparr>ak_last_used_at := Some (pt_now (ai_ports a) (snd s))\<rparr>)
      (db_api_keys (fst s))) = filter (\<lambda>(k, r). ak_tenant_id r \<noteq> pr_tenant_id p) (db_api_keys (fst s))"
    using row(2) by (intro filter_dadjust) (auto simp: principal_of_def)
  moreover have "store_ok (fst s') = store_ok (fst s)" by (intro store_ok_cong) (simp_all add: d)
  ultimately show ?thesis using assms(2,3) by (simp add: held_def d other_rows_def tables_keyed_def)
next
  case False
  then have "s' = s" using assms(1) by (simp add: current_principal_def authenticate_def split: if_splits)
  then show ?thesis using assms by (simp add: held_def)
qed

lemma current_principal_Inl: "current_principal a cd s = (Inl e, s') \<Longrightarrow> s' = s"
  by (auto simp: current_principal_def authenticate_def from_api_key_def split: if_splits prod.splits option.splits)

lemma holds_check_request: "holds t d0 m \<Longrightarrow> holds t d0 (check_request ok m)"
  by (auto simp: check_request_def triple_def)

lemma holds_rate_limited: "holds t d0 (rate_limited a bucket limit p)"
  by (rule holds_same) (auto simp: rate_limited_def split: prod.splits sum.splits)

lemma holds_limited: "holds t d0 m \<Longrightarrow> holds t d0 (limited a p m)"
  unfolding limited_def by (intro holds_ebind holds_rate_limited)

lemma holds_load_view: "holds t d0 (load_view iid tid)"
  by (rule holds_same) (auto simp: load_view_def split: sum.splits option.splits)

lemma holds_control_route:
  assumes "ai_others a = (\<lambda>_. [])" "\<And>pt. holds (pr_tenant_id p) d0 (control pt (\<lambda>_. []) iid (pr_tenant_id p) actor)"
  shows "holds (pr_tenant_id p) d0 (control_route control a p iid actor)"
  unfolding control_route_def assms(1) by (intro holds_ebind holds_raising holds_load_view assms(2))

lemma holds_ereturn: "holds t d0 (ereturn x)"
  by (simp add: triple_def)

lemma holds_ethrow: "holds t d0 (ethrow x)"
  by (simp add: triple_def)

lemma holds_trigger: "holds (pr_tenant_id p) d0 (trigger a p name body)"
proof (cases "webhook_context body = None \<or> webhook_budget (ai_parse_float a) body = None")
  case True
  let ?m = "ebind (raising (new_id (world_ports (ai_ports a)))) (\<lambda>_.
      ebind (raising (new_id (world_ports (ai_ports a)))) (\<lambda>_. ethrow (Raised (PExn PydanticValidationError [])))) ::
      (db \<times> _, http_exn, nat \<times> view) eff"
  have m: "holds (pr_tenant_id p) d0 ?m" by (intro holds_ebind holds_raising holds_new_id holds_ethrow)
  have "trigger a p name body s = (case resolve_definition (fst s) (pr_tenant_id p) None None (Some name) of
      Inl e \<Rightarrow> (Inl (Raised e), s) | Inr _ \<Rightarrow> ?m s)" for s
    using True by (auto simp: trigger_def split: option.splits)
  then show ?thesis using m unfolding triple_def by (auto split: sum.splits)
next
  case False
  then obtain ctx budget where "webhook_context body = Some ctx" "webhook_budget (ai_parse_float a) body = Some budget" by auto
  then show ?thesis
    unfolding trigger_def by (simp only: prod.case option.case) (intro holds_ebind holds_raising holds_create holds_ereturn)
qed

lemma holds_register_workflow: "holds (pr_tenant_id p) d0 (register_workflow a p body)"
proof (cases "ai_parse_definition a body")
  case (Inl e)
  then show ?thesis by (simp add: triple_def register_workflow_def)
next
  case (Inr defn)
  then have "register_workflow a p body =
      ebind (raising (on_db (defn_register (ai_checksum a) defn (pr_tenant_id p) True))) (\<lambda>_.
        ereturn (201, Registered (wd_workflow_id defn) (wd_version defn) (ai_checksum a defn)))"
    by (simp add: register_workflow_def fun_eq_iff)
  then show ?thesis by (simp only:) (intro holds_ebind holds_raising holds_register holds_ereturn)
qed

lemma holds_requeue_route: "holds (pr_tenant_id p) d0 (requeue_route a p n)"
proof -
  have "holds (pr_tenant_id p) d0 (ebind (raising (requeue (ai_ports a) (nat n) (pr_tenant_id p) ''operator'')) (\<lambda>iid s.
        case service_get_instance (fst s) iid (pr_tenant_id p) of
          Inl c \<Rightarrow> (Inl (Raised (PExn c [])), s)
        | Inr inst \<Rightarrow>
            (Inr (200 :: nat, Requeued \<lparr>qr_instance_id = iid,
               qr_status = (case inst of None \<Rightarrow> ''unknown'' | Some i \<Rightarrow> wf_value (wi_status i))\<rparr>), s)))"
    by (intro holds_ebind holds_raising holds_requeue holds_same) (auto split: sum.splits)
  then show ?thesis by (simp add: requeue_route_def holds_ethrow)
qed

lemma holds_route:
  assumes "ai_others a = (\<lambda>_. [])"
  shows "holds (pr_tenant_id p) d0 (route a p req)"
proof (cases req)
  case (Register_Workflow body)
  then show ?thesis by (simp add: holds_register_workflow)
next
  case (Execute_Workflow name body)
  then show ?thesis
    by (simp only: route.simps execute_workflow_def) (intro holds_limited holds_check_request holds_ebind holds_raising holds_create holds_ereturn)
next
  case (Trigger_Webhook name body)
  then show ?thesis by (simp add: holds_limited holds_trigger)
next
  case (Pause_Instance iid actor)
  then show ?thesis using holds_control_route [OF assms] by (simp add: control_pause_def holds_control)
next
  case (Resume_Instance iid actor)
  then show ?thesis using holds_control_route [OF assms] by (simp add: control_resume_def holds_control)
next
  case (Abort_Instance iid actor)
  then show ?thesis using holds_control_route [OF assms] by (simp add: control_abort_def holds_control)
next
  case (Resolve_Escalation eid body)
  then show ?thesis
    by (simp only: route.simps resolve_route_def) (intro holds_check_request holds_ebind holds_raising holds_resolve holds_ereturn)
next
  case (Requeue_Dead_Letter n)
  then show ?thesis by (simp add: holds_requeue_route)
next
  case (Get_Instance iid)
  then show ?thesis by (simp add: holds_load_view)
qed (auto intro!: holds_same simp: list_workflows_def get_workflow_def instances_list_def get_events_def get_history_def
    list_pending_def list_dead_letters_def check_request_def split: sum.splits option.splits)

section \<open>Reads\<close>

definition own_rows ::
  "string \<Rightarrow> db \<Rightarrow> (defn_key, defn_row) pydict \<times> event_row list \<times> (string, index_row) pydict \<times> dead_letter_row list \<times>
   (string, escalation_row) pydict" where
  "own_rows t d =
     (filter (\<lambda>(k, r). dr_tenant_id r = t) (db_definitions d), filter (\<lambda>r. wr_tenant_id r = t) (db_events d),
      filter (\<lambda>(k, r). ix_tenant_id r = t) (db_index d), filter (\<lambda>r. dl_tenant_id r = t) (db_dead_letters d),
      filter (\<lambda>(k, r). es_tenant_id r = t) (db_escalations d))"

definition own_log :: "db \<Rightarrow> string \<Rightarrow> string \<Rightarrow> event list" where
  "own_log d t iid = map wr_payload (filter (\<lambda>r. wr_instance_id r = iid) (filter (\<lambda>r. wr_tenant_id r = t) (db_events d)))"

lemma get_instance_own:
  assumes "store_ok d" "created_once d"
  shows "get_instance d iid t defn = projected (own_log d t iid) t False"
proof (cases "rows_of d iid = []")
  case True
  then have "filter (\<lambda>r. wr_instance_id r = iid) (filter (\<lambda>r. wr_tenant_id r = t) (db_events d)) = []"
    by (auto simp: rows_of_def filter_empty_conv)
  then show ?thesis using True by (simp add: get_instance_replay [OF assms] own_log_def log_of_def)
next
  case False
  have "instance_ok d iid" using assms(1) by (simp add: store_ok_def)
  then obtain inst where i: "fold_events (log_of d iid) None None = Inr inst"
    "\<forall>r \<in> set (rows_of d iid). wr_tenant_id r = wi_tenant_id inst"
    using False by (auto simp: instance_ok_def)
  have l: "own_log d t iid = map wr_payload (filter (\<lambda>r. wr_tenant_id r = t) (rows_of d iid))"
    by (simp add: own_log_def rows_of_def conj_commute)
  show ?thesis
  proof (cases "wi_tenant_id inst = t")
    case True
    then have "filter (\<lambda>r. wr_tenant_id r = t) (rows_of d iid) = rows_of d iid" using i(2) by simp
    then show ?thesis by (simp add: l get_instance_replay [OF assms] log_of_def)
  next
    case other: False
    then have "filter (\<lambda>r. wr_tenant_id r = t) (rows_of d iid) = []" using i(2) by (auto simp: filter_empty_conv)
    then show ?thesis using i(1) other False by (simp add: l get_instance_replay [OF assms] projected_def log_of_def)
  qed
qed

lemma load_own:
  "load d iid t after = map wr_payload (sort_key wr_sequence (filter (\<lambda>r. wr_instance_id r = iid \<and> after < wr_sequence r)
     (filter (\<lambda>r. wr_tenant_id r = t) (db_events d))))"
  by (simp add: load_def rows_of_def conj_ac)

lemma dget_filter:
  assumes "\<And>v. (k, v) \<in> set d \<Longrightarrow> P v"
  shows "dget (filter (\<lambda>(k, v). P v) d) k = dget d k"
  using assms by (induction d) auto

lemma filter_snd_conj: "filter (\<lambda>r. P r \<and> Q r) (map snd d) = filter Q (map snd (filter (\<lambda>(k, r). P r) d))"
  by (induction d) auto

text \<open>What the reads see of two databases that agree on the rows of a tenant.\<close>

lemma same_reads:
  assumes o: "own_rows t d1 = own_rows t d2"
    and 1: "store_ok d1" "created_once d1" "tables_keyed d1" and 2: "store_ok d2" "created_once d2" "tables_keyed d2"
  shows "get_instance d1 iid t defn = get_instance d2 iid t defn" "load d1 iid t after = load d2 iid t after"
    "state_at d1 iid t v defn = state_at d2 iid t v defn" "defn_get d1 wid ver t = defn_get d2 wid ver t"
    "defn_list d1 t active = defn_list d2 t active" "list_instances d1 t st w lim0 off = list_instances d2 t st w lim0 off"
    "esc_store_list_pending d1 t n = esc_store_list_pending d2 t n" "dlq_list d1 t res n = dlq_list d2 t res n"
proof -
  have ev: "filter (\<lambda>r. wr_tenant_id r = t) (db_events d1) = filter (\<lambda>r. wr_tenant_id r = t) (db_events d2)"
    using o by (simp add: own_rows_def)
  show "get_instance d1 iid t defn = get_instance d2 iid t defn"
    by (simp only: get_instance_own [OF 1(1,2)] get_instance_own [OF 2(1,2)] own_log_def ev)
  show "load d1 iid t after = load d2 iid t after" by (simp only: load_own ev)
  show "state_at d1 iid t v defn = state_at d2 iid t v defn" by (simp only: state_at_def load_own ev)
  have "dget (filter (\<lambda>(k, r). dr_tenant_id r = t) (db_definitions d)) (t, wid, ver) = dget (db_definitions d) (t, wid, ver)"
    if "tables_keyed d" for d
    using that by (intro dget_filter) (auto simp: tables_keyed_def)
  then show "defn_get d1 wid ver t = defn_get d2 wid ver t"
    using o 1(3) 2(3) by (simp add: defn_get_def own_rows_def) metis
  show "defn_list d1 t active = defn_list d2 t active" using o by (simp add: defn_list_def filter_snd_conj own_rows_def)
  show "list_instances d1 t st w lim0 off = list_instances d2 t st w lim0 off"
    using o by (simp add: list_instances_def filter_snd_conj own_rows_def)
  show "esc_store_list_pending d1 t n = esc_store_list_pending d2 t n"
    using o by (simp add: esc_store_list_pending_def filter_snd_conj own_rows_def)
  have dl: "filter (\<lambda>r. dl_tenant_id r = t \<and> dl_resolved r = res) xs =
      filter (\<lambda>r. dl_resolved r = res) (filter (\<lambda>r. dl_tenant_id r = t) xs)" for xs
    by (induction xs) auto
  have "filter (\<lambda>r. dl_tenant_id r = t) (db_dead_letters d1) = filter (\<lambda>r. dl_tenant_id r = t) (db_dead_letters d2)"
    using o by (simp add: own_rows_def)
  then show "dlq_list d1 t res n = dlq_list d2 t res n" unfolding dlq_list_def dl by simp
qed

fun read_request :: "request \<Rightarrow> bool" where
  "read_request (List_Workflows _) = True"
| "read_request (Get_Workflow _ _) = True"
| "read_request (List_Instances _ _ _ _) = True"
| "read_request (Get_Instance _) = True"
| "read_request (Get_Events _ _) = True"
| "read_request (Get_History _ _) = True"
| "read_request (List_Pending _) = True"
| "read_request (List_Dead_Letters _ _) = True"
| "read_request _ = False"

text \<open>The stream hands the view of an instance to a principal that the reading route turns away.\<close>

lemma stream_needs_no_scope:
  assumes "truthy_str key" "authenticate (ai_auth a) (ai_ports a) key None s = (Inr p, s1)" "pr_scopes p = []"
    and "service_get_instance (fst s1) iid (pr_tenant_id p) = Inr (Some i)" "ai_redis a \<noteq> None"
  shows "stream_open a key None None iid s = (Inr (Inr (to_view i)), s1) \<and>
    fst (fst (handle a \<lparr>cd_api_key = key, cd_authorization = None\<rparr> (Get_Instance iid) s)) = 403"
  using assms by (simp add: stream_open_def handle_def require_def current_principal_def bearer_of_def has_scope_def)

section \<open>Properties\<close>

text \<open>
  C13: a request changes nothing of another tenant. Whatever route is called with whatever
  parameters, the rows of all tenants but that of the authenticated principal are the same afterwards
  in every table, and the invariant of the store holds again. Without one of the scopes of the route
  the answer is 403, and without a valid credential it is the error of the authentication; then
  nothing is written but the time the key was last used.
\<close>

theorem request_confined:
  assumes "store_ok (fst s)" "tables_keyed (fst s)" "ai_others a = (\<lambda>_. [])" "handle a cd req s = (resp, s')"
  shows "case current_principal a cd s of
      (Inl e, _) \<Rightarrow> resp = error_response e \<and> s' = s
    | (Inr p, s1) \<Rightarrow> store_ok (fst s') \<and> tables_keyed (fst s') \<and>
        other_rows (pr_tenant_id p) (fst s') = other_rows (pr_tenant_id p) (fst s) \<and>
        (list_ex (has_scope p) (route_scopes req) \<or> fst resp = 403 \<and> s' = s1)"
proof -
  obtain r s1 where Pair: "current_principal a cd s = (r, s1)" using prod.exhaust by blast
  show ?thesis
  proof (cases r)
    case (Inl e)
    then show ?thesis using Pair assms(4) current_principal_Inl [of a cd s e s1] by (simp add: handle_def require_def)
  next
    case (Inr p)
    then have h: "held (pr_tenant_id p) (fst s) s1" using current_principal_held [OF _ assms(1,2)] Pair by simp
    show ?thesis
    proof (cases "list_ex (has_scope p) (route_scopes req)")
      case True
      obtain r2 s2 where 2: "route a p req s1 = (r2, s2)" using prod.exhaust by blast
      have "held (pr_tenant_id p) (fst s) s2" using tripleD [OF holds_route [OF assms(3)] h 2] .
      moreover have "s' = s2"
        using assms(4) Pair Inr True 2 by (cases r2) (simp_all add: handle_def require_def)
      ultimately show ?thesis using Pair Inr True by (simp add: held_def)
    next
      case False
      then show ?thesis using assms(4) Pair Inr h by (auto simp: handle_def require_def held_def)
    qed
  qed
qed

definition sample_api :: "fixed_ports api" where
  "sample_api = \<lparr>ai_auth = sample_auth, ai_ports = fixed_ports_of, ai_redis = None, ai_times = (\<lambda>_. (0, 0)),
     ai_execute_rate_limit = 30, ai_checksum = wd_name, ai_parse_definition = (\<lambda>_. Inl (PExn PydanticValidationError [])),
     ai_parse_float = (\<lambda>_. None), ai_others = (\<lambda>_. [])\<rparr>"

text \<open>The sample store of tenant t1, with a key of tenant t2.\<close>

definition sample_tenants :: "db \<times> fixed_ports" where
  "sample_tenants =
     (snd (key_create (snd (mint_api_key sample_auth ''cd34'' ''s'' ''t2'' ''eve'' [''admin''] None)) sample_db),
      \<lparr>fx_now = 9, fx_prefix = ''id'', fx_counter = 0\<rparr>)"

lemma key_create_store: "store_ok (snd (key_create r d)) = store_ok d"
  by (rule store_ok_cong) (simp_all add: key_create_def)

definition sample_credentials :: credentials where
  "sample_credentials = \<lparr>cd_api_key = Some ''af_cd34_s'', cd_authorization = None\<rparr>"

theorem request_confined_witness:
  "\<exists>s'. handle sample_api sample_credentials (Pause_Instance ''i1'' ''eve'') sample_tenants =
       ((404, Error_View ''not_found'' ''instance i1 not found''), s') \<and>
     store_ok (fst s') \<and> other_rows ''t2'' (fst s') = other_rows ''t2'' (fst sample_tenants)"
proof -
  have ok: "store_ok (fst sample_tenants)" using sample_db_ok by (simp add: sample_tenants_def key_create_store)
  have k: "tables_keyed (fst sample_tenants)" by code_simp
  have n: "ai_others sample_api = (\<lambda>_. [])" by (simp add: sample_api_def)
  obtain resp s' where h: "handle sample_api sample_credentials (Pause_Instance ''i1'' ''eve'') sample_tenants = (resp, s')"
    using prod.exhaust by blast
  have "fst (handle sample_api sample_credentials (Pause_Instance ''i1'' ''eve'') sample_tenants) =
      (404, Error_View ''not_found'' ''instance i1 not found'')" by code_simp
  then have "resp = (404, Error_View ''not_found'' ''instance i1 not found'')" using h by simp
  moreover have "case current_principal sample_api sample_credentials sample_tenants of (Inl e, _) \<Rightarrow> False | (Inr p, _) \<Rightarrow> pr_tenant_id p = ''t2''"
    by code_simp
  ultimately show ?thesis using request_confined [OF ok k n h] h by (auto split: prod.splits sum.splits)
qed

text \<open>
  C14: the answer to a read depends on the tenant's own rows only. On two databases that agree on the
  definitions, events, index rows, dead letters and escalations of the tenant, and differ in whatever
  other tenants store, every reading route answers the same and writes nothing.
\<close>

theorem read_noninterference:
  assumes "own_rows (pr_tenant_id p) d1 = own_rows (pr_tenant_id p) d2" "read_request req"
    and "store_ok d1" "created_once d1" "tables_keyed d1" and "store_ok d2" "created_once d2" "tables_keyed d2"
  shows "\<exists>r. route a p req (d1, w) = (r, (d1, w)) \<and> route a p req (d2, w) = (r, (d2, w))"
proof -
  note r = same_reads [OF assms(1,3-8)]
  have s: "service_get_instance d1 iid (pr_tenant_id p) = service_get_instance d2 iid (pr_tenant_id p)" for iid
    by (simp only: service_get_instance_def r)
  show ?thesis using assms(2)
    by (cases req) (auto simp: list_workflows_def get_workflow_def instances_list_def get_events_def get_history_def
        list_pending_def list_dead_letters_def check_request_def load_view_def s r split: sum.splits option.splits)
qed

definition sample_other :: dead_letter_row where
  "sample_other = \<lparr>dl_id = 1, dl_instance_id = ''i9'', dl_tenant_id = ''t2'', dl_step_id = None, dl_reason = ''x'', dl_error_type = None,
     dl_error_message = None, dl_at_version = 1, dl_resolved = False, dl_created_at = 0, dl_resolved_at = None\<rparr>"

theorem read_noninterference_witness:
  "\<exists>r. route sample_api \<lparr>pr_name = ''ops'', pr_tenant_id = ''t1'', pr_scopes = [], pr_kind = ''jwt''\<rparr> (Get_Instance ''i1'')
         (sample_db, \<lparr>fx_now = 9, fx_prefix = ''id'', fx_counter = 0\<rparr>) =
       (r, (sample_db, \<lparr>fx_now = 9, fx_prefix = ''id'', fx_counter = 0\<rparr>)) \<and>
     route sample_api \<lparr>pr_name = ''ops'', pr_tenant_id = ''t1'', pr_scopes = [], pr_kind = ''jwt''\<rparr> (Get_Instance ''i1'')
         (sample_db\<lparr>db_dead_letters := [sample_other]\<rparr>, \<lparr>fx_now = 9, fx_prefix = ''id'', fx_counter = 0\<rparr>) =
       (r, (sample_db\<lparr>db_dead_letters := [sample_other]\<rparr>, \<lparr>fx_now = 9, fx_prefix = ''id'', fx_counter = 0\<rparr>))"
proof (rule read_noninterference)
  show "store_ok (sample_db\<lparr>db_dead_letters := [sample_other]\<rparr>)"
    using sample_db_ok store_ok_cong [of "sample_db\<lparr>db_dead_letters := [sample_other]\<rparr>" sample_db] by simp
  show "created_once (sample_db\<lparr>db_dead_letters := [sample_other]\<rparr>)"
    using sample_db_ok by (simp add: created_once_def log_of_def)
  show "own_rows (pr_tenant_id \<lparr>pr_name = ''ops'', pr_tenant_id = ''t1'', pr_scopes = [], pr_kind = ''jwt''\<rparr>) sample_db =
      own_rows (pr_tenant_id \<lparr>pr_name = ''ops'', pr_tenant_id = ''t1'', pr_scopes = [], pr_kind = ''jwt''\<rparr>)
        (sample_db\<lparr>db_dead_letters := [sample_other]\<rparr>)"
    by code_simp
  show "tables_keyed sample_db" "tables_keyed (sample_db\<lparr>db_dead_letters := [sample_other]\<rparr>)" by code_simp+
qed (use sample_db_ok in simp_all)

end
