(* ===== verification/Agents.thy ===== *)
theory Agents
  imports Runners Json
begin

text \<open>
  The package \<open>agents\<close>: tools, prompting helpers and the four base agents, each a step runner. An
  agent is a graph of nodes that read and update a state; running a graph (LangGraph) and parsing
  JSON (orjson) are parameters. A node that awaits is written with its continuation, so that an
  agent is a tree of the calls it makes on its context, as every runner is. Characters outside
  ASCII in the prompts are written as a hyphen.
\<close>

section \<open>Graphs\<close>

type_synonym node = "obj \<Rightarrow> (obj \<Rightarrow> runner_prog) \<Rightarrow> runner_prog"

text \<open>An edge names the next node, or none at the end; a routing function may raise.\<close>

record graph =
  gr_entry :: string
  gr_nodes :: "(string, node) pydict"
  gr_edges :: "string \<Rightarrow> obj \<Rightarrow> pexn + string option"

text \<open>
  \<open>ag_invoke\<close>: \<open>ainvoke\<close> with a limit on the number of node runs, from a state to a final state.
  \<open>ag_loads\<close>: the text of the decoding error, or the value.
\<close>

record agent_env =
  ag_invoke :: "graph \<Rightarrow> nat \<Rightarrow> obj \<Rightarrow> (obj \<Rightarrow> runner_prog) \<Rightarrow> runner_prog"
  ag_loads :: "string \<Rightarrow> string + json"
  ag_float_repr :: "rat \<Rightarrow> string"

definition RECURSION_LIMIT :: nat where
  "RECURSION_LIMIT = 40"

definition run_agent ::
  "agent_env \<Rightarrow> graph \<Rightarrow> pexn + obj \<Rightarrow> (obj \<Rightarrow> pexn + step_result) \<Rightarrow> runner_prog" where
  "run_agent env g initial_state to_result =
     (case initial_state of
        Inl e \<Rightarrow> Raise e
      | Inr st \<Rightarrow> ag_invoke env g RECURSION_LIMIT st (\<lambda>final.
          case to_result final of Inl e \<Rightarrow> Raise e | Inr res \<Rightarrow> Return res))"

text \<open>Edges of a chain of nodes.\<close>

definition chain_edges :: "(string \<times> string option) list \<Rightarrow> string \<Rightarrow> obj \<Rightarrow> pexn + string option" where
  "chain_edges es node st = Inr (case dget es node of None \<Rightarrow> None | Some nx \<Rightarrow> nx)"

section \<open>Values of unknown type\<close>

text \<open>\<open>(x or {}).get\<close> needs a dictionary, and \<open>for y in x\<close> something to iterate over.\<close>

definition as_dict :: "json \<Rightarrow> pexn + obj" where
  "as_dict j =
     (case j of
        JObj d \<Rightarrow> Inr d
      | _ \<Rightarrow> if truthy j then Inl (PExn (OtherException ''AttributeError'') []) else Inr [])"

fun iterate :: "json \<Rightarrow> pexn + json list" where
  "iterate (JArr xs) = Inr xs"
| "iterate (JStr s) = Inr (map (\<lambda>c. JStr [c]) s)"
| "iterate (JObj d) = Inr (map JStr (dkeys d))"
| "iterate _ = Inl (PExn (OtherException ''TypeError'') [])"

definition with_res :: "pexn + 'a \<Rightarrow> ('a \<Rightarrow> runner_prog) \<Rightarrow> runner_prog" where
  "with_res r k = (case r of Inl e \<Rightarrow> Raise e | Inr x \<Rightarrow> k x)"

lemma with_res_simps [simp]: "with_res (Inl e) k = Raise e" "with_res (Inr x) k = k x"
  by (simp_all add: with_res_def)

section \<open>Prompting\<close>

definition ask_text ::
  "string \<Rightarrow> string \<Rightarrow> cost_tier \<Rightarrow> string \<Rightarrow> (string \<Rightarrow> runner_prog) \<Rightarrow> runner_prog" where
  "ask_text sys user tier task_type k =
     CallLLM \<lparr>ca_messages = [\<lparr>lm_role = ''user'', lm_content = user\<rparr>], ca_system = Some sys, ca_tools = None,
        ca_max_tokens = 2048, ca_tier = tier, ca_task_type = task_type, ca_needs_vision = False,
        ca_reliability_floor = 0, ca_expected_output_tokens = None\<rparr>
       (\<lambda>r. with_res r (\<lambda>resp. k (strip (lp_text resp))))"

fun before_fence :: "string \<Rightarrow> string" where
  "before_fence [] = []"
| "before_fence (c # cs) = (if take 3 (c # cs) = ''```'' then [] else c # before_fence cs)"

definition strip_ticks :: "string \<Rightarrow> string" where
  "strip_ticks s = (let drop_ticks = dropWhile (\<lambda>c. c = CHR ''`'') in rev (drop_ticks (rev (drop_ticks s))))"

definition extract_json :: "agent_env \<Rightarrow> string \<Rightarrow> string + json" where
  "extract_json env text =
     (let text = strip text in
      ag_loads env
        (if take 3 text = ''```''
         then let t = before_fence (drop 3 text);
                  t = (if take 4 t = ''json'' then drop 4 t else t)
              in strip (strip_ticks t)
         else text))"

definition nl :: string where
  "nl = [CHR 10]"

definition ask_json ::
  "agent_env \<Rightarrow> string \<Rightarrow> string \<Rightarrow> cost_tier \<Rightarrow> string \<Rightarrow> (json \<Rightarrow> runner_prog) \<Rightarrow> runner_prog" where
  "ask_json env sys user tier task_type k =
     ask_text (sys @ nl @ nl @ ''Respond with a single valid JSON value and nothing else.'') user tier task_type (\<lambda>text.
       case extract_json env text of
         Inr j \<Rightarrow> k j
       | Inl first \<Rightarrow>
           ask_text ''You fix malformed JSON. Output only the corrected JSON value.''
             (''This was supposed to be JSON but did not parse ('' @ first @ ''):'' @ nl @ nl @ text) tier ''json_repair''
             (\<lambda>repair.
                case extract_json env repair of
                  Inr j \<Rightarrow> k j
                | Inl second \<Rightarrow> Raise (PExn MalformedOutputError (''model did not return parseable JSON: '' @ second))))"

section \<open>Tools\<close>

text \<open>A tool with the rest of the step as its continuation.\<close>

record agent_tool =
  at_name :: string
  at_description :: string
  at_call :: "json \<Rightarrow> (json \<Rightarrow> runner_prog) \<Rightarrow> runner_prog"

definition function_tool :: "string \<Rightarrow> string \<Rightarrow> (json \<Rightarrow> (json \<Rightarrow> runner_prog) \<Rightarrow> runner_prog) \<Rightarrow> agent_tool" where
  "function_tool name description fn = \<lparr>at_name = name, at_description = description, at_call = fn\<rparr>"

text \<open>
  The guard takes a dictionary of parameters. What it makes of other arguments, which a model can
  ask for, is left open: \<open>untyped\<close>.
\<close>

definition effect_tool ::
  "(json \<Rightarrow> (json \<Rightarrow> runner_prog) \<Rightarrow> runner_prog) \<Rightarrow> string \<Rightarrow> string \<Rightarrow> string \<Rightarrow> string \<Rightarrow> agent_tool" where
  "effect_tool untyped name description effect_name provider =
     \<lparr>at_name = name, at_description = description,
      at_call = (\<lambda>args k. case args of
        JObj params \<Rightarrow> ExecuteEffect effect_name params provider (\<lambda>r. with_res r (\<lambda>res. k (JObj (ef_data res))))
      | _ \<Rightarrow> untyped args k)\<rparr>"

type_synonym tool_registry = "(string, agent_tool) pydict"

definition register_tool :: "agent_tool \<Rightarrow> tool_registry \<Rightarrow> tool_registry" where
  "register_tool t reg = dset (at_name t) t reg"

definition get_tool :: "tool_registry \<Rightarrow> string \<Rightarrow> pexn + agent_tool" where
  "get_tool reg name =
     (case dget reg name of
        Some t \<Rightarrow> Inr t
      | None \<Rightarrow> Inl (PExn ConfigurationError (''no tool named '' @ repr_str name)))"

definition tool_names :: "tool_registry \<Rightarrow> string list" where
  "tool_names reg = sort (dkeys reg)"

definition describe_tools :: "tool_registry \<Rightarrow> string" where
  "describe_tools reg =
     (if reg = [] then ''(no tools available)''
      else join nl (map (\<lambda>(k, t). ''- '' @ at_name t @ '': '' @ at_description t) reg))"

section \<open>The planner\<close>

definition PLANNER_SYSTEM :: string where
  "PLANNER_SYSTEM = ''You are a planning agent. You break a goal into a concrete, ordered plan of '' @
     ''steps a downstream executor can follow. Be specific and avoid vague steps.''"

definition planner_initial :: "step_context \<Rightarrow> obj" where
  "planner_initial ctx =
     [(''goal'', jor (jor (getj (sc_inputs ctx) ''goal'') (getj (sc_inputs ctx) ''instruction'')) (JStr [])),
      (''constraints'', get_or (JArr []) (sc_inputs ctx) ''constraints'')]"

definition planner_analyze :: "agent_env \<Rightarrow> node" where
  "planner_analyze env st k =
     ask_text PLANNER_SYSTEM
       (''Goal: '' @ str_json (ag_float_repr env) (getj st ''goal'') @ nl @
        ''Constraints: '' @ str_json (ag_float_repr env) (getj st ''constraints'') @ nl @ nl @
        ''List the key sub-problems and any unknowns. 3-6 bullet points.'')
       CHEAP ''planning_analyze'' (\<lambda>analysis. k [(''analysis'', JStr analysis)])"

definition planner_draft :: "agent_env \<Rightarrow> node" where
  "planner_draft env st k =
     ask_json env PLANNER_SYSTEM
       (''Goal: '' @ str_json (ag_float_repr env) (getj st ''goal'') @ nl @
        ''Analysis:'' @ nl @ str_json (ag_float_repr env) (getj st ''analysis'') @ nl @ nl @
        ''Produce a JSON array of steps: '' @
        ''[{\"step\": str, \"rationale\": str, \"depends_on\": [int]}] '' @
        ''(depends_on is 0-based indices into this array).'')
       STANDARD ''planning_draft'' (\<lambda>plan. k [(''draft_plan'', plan)])"

definition planner_critique :: "agent_env \<Rightarrow> node" where
  "planner_critique env st k =
     ask_text PLANNER_SYSTEM
       (''Goal: '' @ str_json (ag_float_repr env) (getj st ''goal'') @ nl @
        ''Draft plan: '' @ str_json (ag_float_repr env) (getj st ''draft_plan'') @ nl @ nl @
        ''What is missing, risky, or out of order? Be concise.'')
       CHEAP ''planning_critique'' (\<lambda>critique. k [(''critique'', JStr critique)])"

definition planner_finalize :: "agent_env \<Rightarrow> node" where
  "planner_finalize env st k =
     ask_json env PLANNER_SYSTEM
       (''Goal: '' @ str_json (ag_float_repr env) (getj st ''goal'') @ nl @
        ''Draft: '' @ str_json (ag_float_repr env) (getj st ''draft_plan'') @ nl @
        ''Critique: '' @ str_json (ag_float_repr env) (getj st ''critique'') @ nl @ nl @
        ''Return the improved plan in the same JSON array shape.'')
       STANDARD ''planning_finalize'' (\<lambda>final. k [(''plan'', final)])"

definition planner_graph :: "agent_env \<Rightarrow> graph" where
  "planner_graph env =
     \<lparr>gr_entry = ''analyze'',
      gr_nodes = [(''analyze'', planner_analyze env), (''draft'', planner_draft env),
                  (''critique'', planner_critique env), (''finalize'', planner_finalize env)],
      gr_edges = chain_edges [(''analyze'', Some ''draft''), (''draft'', Some ''critique''),
                  (''critique'', Some ''finalize''), (''finalize'', None)]\<rparr>"

definition planner_result :: "obj \<Rightarrow> step_result" where
  "planner_result st =
     \<lparr>sr_output = [(''plan'', get_or (get_or (JArr []) st ''draft_plan'') st ''plan''),
        (''analysis'', get_or (JStr []) st ''analysis''), (''critique'', get_or (JStr []) st ''critique'')],
      sr_model_used = None\<rparr>"

definition planner_agent :: "agent_env \<Rightarrow> step_runner" where
  "planner_agent env ctx = run_agent env (planner_graph env) (Inr (planner_initial ctx)) (\<lambda>st. Inr (planner_result st))"

section \<open>The executor\<close>

definition MAX_TOOL_CALLS :: int where
  "MAX_TOOL_CALLS = 5"

definition EXECUTOR_SYSTEM :: string where
  "EXECUTOR_SYSTEM = ''You are an execution agent. You carry out one instruction precisely. '' @
     ''Use a tool only when it is genuinely needed; otherwise answer directly.''"

definition executor_initial :: "agent_env \<Rightarrow> step_context \<Rightarrow> obj" where
  "executor_initial env ctx =
     [(''instruction'', jor (jor (getj (sc_inputs ctx) ''instruction'') (getj (sc_inputs ctx) ''goal''))
         (JStr (repr_json (ag_float_repr env) (JObj (sc_inputs ctx))))),
      (''tool_results'', JArr []), (''iterations'', JInt 0)]"

definition int_of :: "json \<Rightarrow> int" where
  "int_of j = (case j of JInt n \<Rightarrow> n | _ \<Rightarrow> 0)"

definition arr_of :: "json \<Rightarrow> json list" where
  "arr_of j = (case j of JArr xs \<Rightarrow> xs | _ \<Rightarrow> [])"

definition executor_decide :: "agent_env \<Rightarrow> tool_registry \<Rightarrow> node" where
  "executor_decide env tools st k =
     ask_json env EXECUTOR_SYSTEM
       (''Instruction: '' @ str_json (ag_float_repr env) (getj st ''instruction'') @ nl @
        ''Tools:'' @ nl @ describe_tools tools @ nl @
        ''Tool results so far: '' @ str_json (ag_float_repr env) (getj st ''tool_results'') @ nl @ nl @
        ''Return {\"action\": \"tool\"|\"final\", \"tool\": str|null, '' @
        ''\"args\": object|null, \"answer\": str|null}.'')
       STANDARD ''execute_decide''
       (\<lambda>decision. k [(''decision'', decision), (''iterations'', JInt (int_of (getj st ''iterations'') + 1))])"

definition executor_route :: "tool_registry \<Rightarrow> obj \<Rightarrow> pexn + string" where
  "executor_route tools st =
     rbind (as_dict (getj st ''decision'')) (\<lambda>decision.
       Inr (if getj decision ''action'' = JStr ''tool'' \<and>
               (case getj decision ''tool'' of JStr t \<Rightarrow> dget tools t \<noteq> None | _ \<Rightarrow> False) \<and>
               int_of (getj st ''iterations'') < MAX_TOOL_CALLS
            then ''act'' else ''respond''))"

text \<open>The node runs only after the route has seen a dictionary that names a registered tool.\<close>

definition executor_act :: "tool_registry \<Rightarrow> node" where
  "executor_act tools st k =
     with_res (as_dict (getj st ''decision'')) (\<lambda>decision.
     with_res (get_tool tools (case getj decision ''tool'' of JStr t \<Rightarrow> t | _ \<Rightarrow> [])) (\<lambda>tool.
       at_call tool (jor (getj decision ''args'') (JObj [])) (\<lambda>result.
         k [(''tool_results'', JArr (arr_of (getj st ''tool_results'') @
              [JObj [(''tool'', JStr (at_name tool)), (''args'', getj decision ''args''), (''result'', result)]]))])))"

definition executor_respond :: "agent_env \<Rightarrow> node" where
  "executor_respond env st k =
     with_res (as_dict (getj st ''decision'')) (\<lambda>decision.
       if getj decision ''action'' = JStr ''final'' \<and> truthy (getj decision ''answer'')
       then k [(''result'', getj decision ''answer'')]
       else ask_text EXECUTOR_SYSTEM
              (''Instruction: '' @ str_json (ag_float_repr env) (getj st ''instruction'') @ nl @
               ''Tool results: '' @ str_json (ag_float_repr env) (getj st ''tool_results'') @ nl @ nl @
               ''Give the final answer.'')
              STANDARD ''execute_respond'' (\<lambda>answer. k [(''result'', JStr answer)]))"

definition executor_edges :: "tool_registry \<Rightarrow> string \<Rightarrow> obj \<Rightarrow> pexn + string option" where
  "executor_edges tools node st =
     (if node = ''decide'' then rbind (executor_route tools st) (\<lambda>nx. Inr (Some nx))
      else if node = ''act'' then Inr (Some ''decide'')
      else Inr None)"

definition executor_graph :: "agent_env \<Rightarrow> tool_registry \<Rightarrow> graph" where
  "executor_graph env tools =
     \<lparr>gr_entry = ''decide'',
      gr_nodes = [(''decide'', executor_decide env tools), (''act'', executor_act tools), (''respond'', executor_respond env)],
      gr_edges = executor_edges tools\<rparr>"

definition executor_result :: "obj \<Rightarrow> step_result" where
  "executor_result st =
     \<lparr>sr_output = [(''result'', get_or (JStr []) st ''result''), (''tool_calls'', get_or (JArr []) st ''tool_results'')],
      sr_model_used = None\<rparr>"

definition executor_agent :: "agent_env \<Rightarrow> tool_registry \<Rightarrow> step_runner" where
  "executor_agent env tools ctx =
     run_agent env (executor_graph env tools) (Inr (executor_initial env ctx)) (\<lambda>st. Inr (executor_result st))"

section \<open>The validator\<close>

definition VALIDATOR_SYSTEM :: string where
  "VALIDATOR_SYSTEM = ''You are a validation agent. You judge whether an output meets its '' @
     ''requirements. Be strict and specific about what is wrong.''"

definition validator_initial :: "step_context \<Rightarrow> obj" where
  "validator_initial ctx =
     [(''output'', get_or (JObj (sc_inputs ctx)) (sc_inputs ctx) ''output''),
      (''criteria'', get_or (JStr []) (sc_inputs ctx) ''criteria''),
      (''schema_hint'', get_or (JStr []) (sc_inputs ctx) ''schema_hint'')]"

definition validator_structure :: "agent_env \<Rightarrow> node" where
  "validator_structure env st k =
     ask_json env VALIDATOR_SYSTEM
       (''Output: '' @ str_json (ag_float_repr env) (getj st ''output'') @ nl @
        ''Expected shape: '' @ str_json (ag_float_repr env) (jor (getj st ''schema_hint'') (JStr ''any'')) @ nl @ nl @
        ''Return {\"structure_ok\": bool, \"structure_issues\": [str]}.'')
       CHEAP ''validate_structure'' (\<lambda>result. k [(''structure'', result)])"

definition validator_content :: "agent_env \<Rightarrow> node" where
  "validator_content env st k =
     ask_json env VALIDATOR_SYSTEM
       (''Output: '' @ str_json (ag_float_repr env) (getj st ''output'') @ nl @
        ''Criteria: '' @ str_json (ag_float_repr env) (jor (getj st ''criteria'') (JStr ''be correct and complete'')) @ nl @ nl @
        ''Return {\"content_ok\": bool, \"content_issues\": [str]}.'')
       STANDARD ''validate_content'' (\<lambda>result. k [(''content'', result)])"

definition verdict_of :: "obj \<Rightarrow> pexn + obj" where
  "verdict_of st =
     rbind (as_dict (getj st ''structure'')) (\<lambda>structure.
     rbind (as_dict (getj st ''content'')) (\<lambda>content.
     rbind (iterate (get_or (JArr []) structure ''structure_issues'')) (\<lambda>i1.
     rbind (iterate (get_or (JArr []) content ''content_issues'')) (\<lambda>i2.
       let issues = i1 @ i2;
           valid = truthy (get_or (JBool True) structure ''structure_ok'') \<and> truthy (get_or (JBool True) content ''content_ok'');
           score = (if valid then 1 else max 0 (1 - 1 / 4 * of_nat (length issues)))
       in Inr [(''valid'', JBool valid), (''issues'', JArr issues), (''score'', JFloat score)]))))"

definition validator_verdict :: node where
  "validator_verdict st k = with_res (verdict_of st) k"

definition validator_graph :: "agent_env \<Rightarrow> graph" where
  "validator_graph env =
     \<lparr>gr_entry = ''check_structure'',
      gr_nodes = [(''check_structure'', validator_structure env), (''check_content'', validator_content env),
                  (''verdict'', validator_verdict)],
      gr_edges = chain_edges [(''check_structure'', Some ''check_content''), (''check_content'', Some ''verdict''),
                  (''verdict'', None)]\<rparr>"

definition validator_result :: "obj \<Rightarrow> step_result" where
  "validator_result st =
     \<lparr>sr_output = [(''valid'', get_or (JBool False) st ''valid''), (''issues'', get_or (JArr []) st ''issues''),
        (''score'', get_or (JFloat 0) st ''score'')],
      sr_model_used = None\<rparr>"

definition validator_agent :: "agent_env \<Rightarrow> step_runner" where
  "validator_agent env ctx =
     run_agent env (validator_graph env) (Inr (validator_initial ctx)) (\<lambda>st. Inr (validator_result st))"

section \<open>The reflector\<close>

definition REFLECTOR_SYSTEM :: string where
  "REFLECTOR_SYSTEM = ''You are a self-correction agent. Given an output and the problems found in '' @
     ''it, you produce a corrected version that resolves every problem.''"

definition reflector_initial :: "step_context \<Rightarrow> obj" where
  "reflector_initial ctx =
     [(''output'', get_or (JObj (sc_inputs ctx)) (sc_inputs ctx) ''output''),
      (''issues'', get_or (JArr []) (sc_inputs ctx) ''issues''),
      (''task'', get_or (get_or (JStr []) (sc_inputs ctx) ''instruction'') (sc_inputs ctx) ''task'')]"

definition reflector_diagnose :: "agent_env \<Rightarrow> node" where
  "reflector_diagnose env st k =
     ask_text REFLECTOR_SYSTEM
       (''Task: '' @ str_json (ag_float_repr env) (getj st ''task'') @ nl @
        ''Output: '' @ str_json (ag_float_repr env) (getj st ''output'') @ nl @
        ''Problems found: '' @ str_json (ag_float_repr env) (getj st ''issues'') @ nl @ nl @
        ''For each problem, state the root cause and the fix. Be concise.'')
       CHEAP ''reflect_diagnose'' (\<lambda>diagnosis. k [(''diagnosis'', JStr diagnosis)])"

definition reflector_revise :: "agent_env \<Rightarrow> node" where
  "reflector_revise env st k =
     ask_json env REFLECTOR_SYSTEM
       (''Task: '' @ str_json (ag_float_repr env) (getj st ''task'') @ nl @
        ''Original output: '' @ str_json (ag_float_repr env) (getj st ''output'') @ nl @
        ''Diagnosis: '' @ str_json (ag_float_repr env) (getj st ''diagnosis'') @ nl @ nl @
        ''Return {\"corrected_output\": <the fixed output>, \"changes\": [str]}.'')
       STANDARD ''reflect_revise'' (\<lambda>revised. k [(''revised'', revised)])"

definition reflector_graph :: "agent_env \<Rightarrow> graph" where
  "reflector_graph env =
     \<lparr>gr_entry = ''diagnose'',
      gr_nodes = [(''diagnose'', reflector_diagnose env), (''revise'', reflector_revise env)],
      gr_edges = chain_edges [(''diagnose'', Some ''revise''), (''revise'', None)]\<rparr>"

definition reflector_result :: "obj \<Rightarrow> pexn + step_result" where
  "reflector_result st =
     rbind (as_dict (getj st ''revised'')) (\<lambda>revised.
       Inr \<lparr>sr_output = [(''corrected_output'', get_or (getj st ''output'') revised ''corrected_output''),
              (''changes'', get_or (JArr []) revised ''changes''), (''diagnosis'', get_or (JStr []) st ''diagnosis'')],
            sr_model_used = None\<rparr>)"

definition reflector_agent :: "agent_env \<Rightarrow> step_runner" where
  "reflector_agent env ctx = run_agent env (reflector_graph env) (Inr (reflector_initial ctx)) reflector_result"

definition register_base_agents :: "agent_env \<Rightarrow> tool_registry \<Rightarrow> step_registry \<Rightarrow> step_registry" where
  "register_base_agents env tools reg =
     register_runner ''reflector_agent'' (reflector_agent env)
       (register_runner ''validator_agent'' (validator_agent env)
         (register_runner ''executor_agent'' (executor_agent env tools)
           (register_runner ''planner_agent'' (planner_agent env) reg)))"

section \<open>Running a graph\<close>

text \<open>
  What is relied on of LangGraph: from the entry on, a node runs on the state, its update is merged
  into the state, and the edge taken on the merged state gives the next node or the end; more node
  runs than the limit raise.
\<close>

definition graph_error :: pexn where
  "graph_error = PExn (OtherException ''GraphRecursionError'') []"

fun run_graph :: "graph \<Rightarrow> nat \<Rightarrow> string \<Rightarrow> obj \<Rightarrow> (obj \<Rightarrow> runner_prog) \<Rightarrow> runner_prog" where
  "run_graph g 0 node st k = Raise graph_error"
| "run_graph g (Suc n) node st k =
     (case dget (gr_nodes g) node of
        None \<Rightarrow> Raise (PExn (OtherException ''ValueError'') [])
      | Some f \<Rightarrow> f st (\<lambda>upd.
          let st = dupdate st upd in
          with_res (gr_edges g node st) (\<lambda>nx. case nx of None \<Rightarrow> k st | Some node' \<Rightarrow> run_graph g n node' st k)))"

definition runs_graphs :: "agent_env \<Rightarrow> bool" where
  "runs_graphs env \<longleftrightarrow> (\<forall>g n st k. ag_invoke env g n st k = run_graph g n (gr_entry g) st k)"

lemma run_agent_graph:
  "runs_graphs env \<Longrightarrow> run_agent env g (Inr st) f =
     run_graph g RECURSION_LIMIT (gr_entry g) st (\<lambda>final. case f final of Inl e \<Rightarrow> Raise e | Inr res \<Rightarrow> Return res)"
  by (simp add: run_agent_def runs_graphs_def)

section \<open>Bounds\<close>

text \<open>
  On every path of a program, whatever it is answered and also where it ends with an exception, there
  are at most \<open>n\<close> model calls and at most \<open>e\<close> other calls to the outside (side effects and whatever
  else a tool awaits), and what it returns satisfies \<open>Q\<close>.
\<close>

primrec calls_within :: "(step_result \<Rightarrow> bool) \<Rightarrow> runner_prog \<Rightarrow> nat \<Rightarrow> nat \<Rightarrow> bool" where
  "calls_within Q (Return res) n e = Q res"
| "calls_within Q (Raise exc) n e = True"
| "calls_within Q (Charge c p) n e = calls_within Q p n e"
| "calls_within Q (RequestReview rv p) n e = calls_within Q p n e"
| "calls_within Q (ExecuteEffect name params provider k) n e = (0 < e \<and> (\<forall>r. calls_within Q (k r) n (e - 1)))"
| "calls_within Q (CallLLM c k) n e = (0 < n \<and> (\<forall>r. calls_within Q (k r) (n - 1) e))"
| "calls_within Q (Await what k) n e = (0 < e \<and> (\<forall>r. calls_within Q (k r) n (e - 1)))"

lemma calls_within_mono: "calls_within Q p n e \<Longrightarrow> n \<le> n' \<Longrightarrow> e \<le> e' \<Longrightarrow> calls_within Q p n' e'"
proof (induction p arbitrary: n e n' e')
  case (CallLLM c k)
  then have n: "0 < n'" "\<And>r. calls_within Q (k r) (n - 1) e" "n - 1 \<le> n' - 1" by simp_all
  have "calls_within Q (k r) (n' - 1) e'" for r by (rule CallLLM.IH [OF rangeI n(2,3) CallLLM.prems(3)])
  then show ?case using n(1) by simp
next
  case (ExecuteEffect name params provider k)
  then have n: "0 < e'" "\<And>r. calls_within Q (k r) n (e - 1)" "e - 1 \<le> e' - 1" by simp_all
  have "calls_within Q (k r) n' (e' - 1)" for r by (rule ExecuteEffect.IH [OF rangeI n(2) ExecuteEffect.prems(2) n(3)])
  then show ?case using n(1) by simp
next
  case (Await what k)
  then have n: "0 < e'" "\<And>r. calls_within Q (k r) n (e - 1)" "e - 1 \<le> e' - 1" by simp_all
  have "calls_within Q (k r) n' (e' - 1)" for r by (rule Await.IH [OF rangeI n(2) Await.prems(2) n(3)])
  then show ?case using n(1) by simp
qed simp_all

text \<open>A run of such a program: the counter of model calls, the recorded effects and the result.\<close>

definition grown :: "step_context \<Rightarrow> nat \<Rightarrow> nat \<Rightarrow> step_context \<Rightarrow> bool" where
  "grown ctx n e ctx' \<longleftrightarrow> sc_llm_index ctx' \<le> sc_llm_index ctx + n \<and> length (sc_effects ctx') \<le> length (sc_effects ctx) + e"

lemma deliver_within:
  assumes "deliver sv dl m k (ctx, s) = (r, (ctx', s'))"
    and "\<And>x c t. m (ctx, s) = (x, (c, t)) \<Longrightarrow> grown ctx a b c"
    and "\<And>x c t. m (ctx, s) = (x, (c, t)) \<Longrightarrow> k x (c, t) = (r, (ctx', s')) \<Longrightarrow>
      grown c n e ctx' \<and> (\<forall>res. r = Inr res \<longrightarrow> Q res)"
  shows "grown ctx (a + n) (b + e) ctx' \<and> (\<forall>res. r = Inr res \<longrightarrow> Q res)"
proof -
  obtain x c t where m: "m (ctx, s) = (x, (c, t))" using prod.exhaust by metis
  note i = assms(2) [OF m]
  consider "r = Inl (PExn PyTimeoutError [])" "ctx' = ctx" | exc where "r = Inl exc" "ctx' = c" | "k x (c, t) = (r, (ctx', s'))"
    using assms(1) m by (auto simp: deliver_def split: if_splits sum.splits)
  then show ?thesis
  proof cases
    case 3
    then show ?thesis using assms(3) [OF m] i by (fastforce simp: grown_def)
  qed (use i in \<open>auto simp: grown_def\<close>)
qed

lemma llm_grown: "llm sv c (ctx, s) = (r, (ctx', s')) \<Longrightarrow> grown ctx 1 0 ctx'"
  by (auto simp: llm_def Let_def charge_def grown_def split: if_splits option.splits prod.splits sum.splits)

lemma execute_effect_grown: "execute_effect sv n ps p (ctx, s) = (r, (ctx', s')) \<Longrightarrow> grown ctx 0 1 ctx'"
  by (auto simp: execute_effect_def grown_def split: option.splits prod.splits sum.splits)

lemma run_within:
  assumes "run_prog sv dl p (ctx, s) = (r, (ctx', s'))" "calls_within Q p n e"
  shows "grown ctx n e ctx' \<and> (\<forall>res. r = Inr res \<longrightarrow> Q res)"
  using assms
proof (induction p arbitrary: n e ctx s)
  case (ExecuteEffect name params provider k)
  then have d: "deliver sv dl (execute_effect sv name params provider) (\<lambda>r. run_prog sv dl (k r)) (ctx, s) = (r, (ctx', s'))"
    and n: "0 < e" "\<And>r. calls_within Q (k r) n (e - 1)" by simp_all
  have "grown ctx (0 + n) (1 + (e - 1)) ctx' \<and> (\<forall>res. r = Inr res \<longrightarrow> Q res)"
    by (rule deliver_within [OF d]) (rule execute_effect_grown, assumption, rule ExecuteEffect.IH [OF rangeI _ n(2)])
  then show ?case using n(1) by simp
next
  case (CallLLM c k)
  then have n: "0 < n" "\<And>r. calls_within Q (k r) (n - 1) e" by simp_all
  have "grown ctx (1 + (n - 1)) (0 + e) ctx' \<and> (\<forall>res. r = Inr res \<longrightarrow> Q res)"
  proof (cases "sc_llm_index ctx < length (sc_replay_llm ctx)")
    case True
    obtain x c1 t where l: "llm sv c (ctx, s) = (x, (c1, t))" using prod.exhaust by metis
    then have "run_prog sv dl (k x) (c1, t) = (r, (ctx', s'))" using CallLLM.prems(1) True by simp
    from CallLLM.IH [OF rangeI this n(2)] llm_grown [OF l] show ?thesis by (simp add: grown_def)
  next
    case False
    then have "deliver sv dl (llm sv c) (\<lambda>r. run_prog sv dl (k r)) (ctx, s) = (r, (ctx', s'))" using CallLLM.prems(1) by simp
    then show ?thesis by (rule deliver_within) (rule llm_grown, assumption, rule CallLLM.IH [OF rangeI _ n(2)])
  qed
  then show ?case using n(1) by simp
next
  case (Await what k)
  then have d: "deliver sv dl (\<lambda>(ctx, s). case sv_await sv what s of (r, s') \<Rightarrow> (r, (ctx, s'))) (\<lambda>r. run_prog sv dl (k r)) (ctx, s) =
      (r, (ctx', s'))" and n: "0 < e" "\<And>r. calls_within Q (k r) n (e - 1)" by simp_all
  have "grown ctx (0 + n) (1 + (e - 1)) ctx' \<and> (\<forall>res. r = Inr res \<longrightarrow> Q res)"
    by (rule deliver_within [OF d]) (simp add: grown_def split: prod.splits, rule Await.IH [OF rangeI _ n(2)])
  then show ?case using n(1) by simp
next
  case (Charge c p)
  then have "run_prog sv dl p (charge c ctx, s) = (r, (ctx', s'))" "calls_within Q p n e" by simp_all
  from Charge.IH [OF this] show ?case by (simp add: charge_def grown_def)
next
  case (RequestReview rv p)
  then have "run_prog sv dl p (request_review rv ctx, s) = (r, (ctx', s'))" "calls_within Q p n e" by simp_all
  from RequestReview.IH [OF this] show ?case by (simp add: request_review_def grown_def)
qed (auto simp: grown_def)

lemma calls_with_res: "(\<And>x. r = Inr x \<Longrightarrow> calls_within Q (k x) n e) \<Longrightarrow> calls_within Q (with_res r k) n e"
  by (cases r) simp_all

lemma calls_ask_text: "(\<And>x. calls_within Q (k x) n e) \<Longrightarrow> calls_within Q (ask_text sys user tier task k) (Suc n) e"
  by (auto simp: ask_text_def intro: calls_with_res)

lemma calls_ask_json:
  assumes "\<And>j. calls_within Q (k j) n e"
  shows "calls_within Q (ask_json env sys user tier task k) (Suc (Suc n)) e"
  unfolding ask_json_def
proof (rule calls_ask_text)
  fix reply
  have "calls_within Q (k j) (Suc n) e" for j using calls_within_mono [OF assms] by simp
  then show "calls_within Q (case extract_json env reply of
         Inr j \<Rightarrow> k j
       | Inl first \<Rightarrow>
           ask_text ''You fix malformed JSON. Output only the corrected JSON value.''
             (''This was supposed to be JSON but did not parse ('' @ first @ ''):'' @ nl @ nl @ reply) tier ''json_repair''
             (\<lambda>repair.
                case extract_json env repair of
                  Inr j \<Rightarrow> k j
                | Inl second \<Rightarrow> Raise (PExn MalformedOutputError (''model did not return parseable JSON: '' @ second)))) (Suc n) e"
    by (auto split: sum.splits intro!: calls_ask_text assms)
qed

lemma getj_dset [simp]: "getj (dset k v d) k' = (if k' = k then v else getj d k')"
  by (simp add: getj_def)

lemma dupdate_Cons [simp]: "dupdate d ((k, v) # u) = dupdate (dset k v d) u" and dupdate_Nil [simp]: "dupdate d [] = d"
  by (simp_all add: dupdate_def)

text \<open>The chains: two calls for a question that may need a repair, one for the others.\<close>

lemma planner_calls: "runs_graphs env \<Longrightarrow> calls_within (\<lambda>_. True) (planner_agent env ctx) 6 0"
  by (auto simp: planner_agent_def run_agent_graph RECURSION_LIMIT_def eval_nat_numeral planner_graph_def chain_edges_def
      planner_analyze_def planner_draft_def planner_critique_def planner_finalize_def
      intro!: calls_ask_text calls_ask_json)

lemma validator_calls: "runs_graphs env \<Longrightarrow> calls_within (\<lambda>_. True) (validator_agent env ctx) 4 0"
  by (auto simp: validator_agent_def run_agent_graph RECURSION_LIMIT_def eval_nat_numeral validator_graph_def chain_edges_def
      validator_structure_def validator_content_def validator_verdict_def Let_def
      intro!: calls_ask_json calls_with_res)

lemma reflector_calls: "runs_graphs env \<Longrightarrow> calls_within (\<lambda>_. True) (reflector_agent env ctx) 3 0"
  by (auto simp: reflector_agent_def run_agent_graph RECURSION_LIMIT_def eval_nat_numeral reflector_graph_def chain_edges_def
      reflector_diagnose_def reflector_revise_def intro!: calls_ask_text calls_ask_json split: sum.splits)

text \<open>
  The loop of the executor. Before a decision the counter is at most four and there are as many tool
  results as decisions at most.
\<close>

definition deciding :: "nat \<Rightarrow> obj \<Rightarrow> bool" where
  "deciding i st \<longleftrightarrow> i \<le> 4 \<and> getj st ''iterations'' = JInt (int i) \<and>
     (\<exists>xs. dget st ''tool_results'' = Some (JArr xs) \<and> length xs \<le> i)"

text \<open>Every registered tool makes at most \<open>m\<close> model calls and \<open>c\<close> other calls each time it is called.\<close>

definition tools_within :: "nat \<Rightarrow> nat \<Rightarrow> tool_registry \<Rightarrow> bool" where
  "tools_within m c tools \<longleftrightarrow>
     (\<forall>name t. dget tools name = Some t \<longrightarrow> (\<forall>args k n e Q. (\<forall>j. calls_within Q (k j) n e) \<longrightarrow>
        calls_within Q (at_call t args k) (n + m) (e + c)))"

lemma effect_tool_within:
  assumes "\<And>args k n e Q. (\<forall>j. calls_within Q (k j) n e) \<Longrightarrow> calls_within Q (untyped args k) n (Suc e)"
    and "\<forall>j. calls_within Q (k j) n e"
  shows "calls_within Q (at_call (effect_tool untyped name description effect_name provider) args k) n (Suc e)"
  using assms by (cases args) (auto simp: effect_tool_def intro: calls_with_res)

lemma with_res_Some [simp]: "with_res (rbind r (\<lambda>x. Inr (Some x))) f = with_res r (\<lambda>x. f (Some x))"
  by (cases r) simp_all

text \<open>The three nodes of the loop.\<close>

definition decided :: "obj \<Rightarrow> json \<Rightarrow> obj" where
  "decided st decision = dset ''iterations'' (JInt (int_of (getj st ''iterations'') + 1)) (dset ''decision'' decision st)"

lemma executor_steps:
  "run_graph (executor_graph env tools) (Suc n) ''decide'' st k = executor_decide env tools st (\<lambda>upd.
     with_res (executor_route tools (dupdate st upd)) (\<lambda>nx. run_graph (executor_graph env tools) n nx (dupdate st upd) k))"
  "run_graph (executor_graph env tools) (Suc n) ''act'' st k =
     executor_act tools st (\<lambda>upd. run_graph (executor_graph env tools) n ''decide'' (dupdate st upd) k)"
  "run_graph (executor_graph env tools) (Suc n) ''respond'' st k = executor_respond env st (\<lambda>upd. k (dupdate st upd))"
  by (simp_all add: executor_graph_def executor_edges_def Let_def)

lemma executor_route_cases:
  "executor_route tools st = Inr nx \<Longrightarrow> nx = ''respond'' \<or> nx = ''act'' \<and> int_of (getj st ''iterations'') < 5"
  by (auto simp: executor_route_def rbind_eq_Inr MAX_TOOL_CALLS_def split: if_splits)

lemma decided_fields:
  assumes "deciding i st"
  shows "getj (decided st d) ''iterations'' = JInt (int i + 1)" "dget (decided st d) ''tool_results'' = dget st ''tool_results''"
  using assms by (simp_all add: deciding_def decided_def int_of_def)

text \<open>The state after a tool, from the state after the decision.\<close>

lemma deciding_next:
  assumes "deciding i st" "int i + 1 < 5"
  shows "deciding (Suc i) (dset ''tool_results'' (JArr (arr_of (getj (decided st d) ''tool_results'') @ [x])) (decided st d))"
proof -
  obtain xs where "dget st ''tool_results'' = Some (JArr xs)" "length xs \<le> i" using assms(1) by (auto simp: deciding_def)
  then show ?thesis using assms decided_fields [OF assms(1)]
    by (simp add: deciding_def decided_def arr_of_def getj_def)
qed

lemma executor_loop_calls:
  assumes tools: "tools_within m c tools"
    and k: "\<And>st xs. dget st ''tool_results'' = Some (JArr xs) \<Longrightarrow> length xs \<le> 4 \<Longrightarrow> calls_within Q (k st) 0 0"
  shows "deciding i st \<Longrightarrow> calls_within Q (run_graph (executor_graph env tools) n ''decide'' st k)
    (Suc (2 * (5 - i)) + (4 - i) * m) ((4 - i) * c)"
proof (induction "5 - i" arbitrary: i st n)
  case 0
  then show ?case by (simp add: deciding_def)
next
  case (Suc l)
  let ?n = "Suc (2 * (5 - Suc i)) + (4 - i) * m" and ?e = "(4 - i) * c"
  obtain xs where xs: "dget st ''tool_results'' = Some (JArr xs)" "length xs \<le> 4" and i: "i \<le> 4"
    using Suc.prems by (auto simp: deciding_def)
  show ?case
  proof (cases n)
    case (Suc n')
    have act: "calls_within Q (run_graph (executor_graph env tools) j ''act'' (decided st d) k) ?n ?e"
      if "int i + 1 < 5" for j d
    proof (cases j)
      case (Suc j')
      have left: "4 - i = Suc (4 - Suc i)" using that by simp
      show ?thesis unfolding Suc executor_steps executor_act_def
      proof (intro calls_with_res)
        fix decision tool
        assume "get_tool tools (case getj decision ''tool'' of JStr t \<Rightarrow> t | _ \<Rightarrow> []) = Inr tool"
        then have q: "(\<forall>x. calls_within Q (f x) a b) \<Longrightarrow> calls_within Q (at_call tool args f) (a + m) (b + c)" for args f a b
          using tools by (auto simp: tools_within_def get_tool_def split: option.splits)
        have "calls_within Q (at_call tool (jor (getj decision ''args'') (JObj [])) (\<lambda>result.
            run_graph (executor_graph env tools) j' ''decide'' (dupdate (decided st d)
              [(''tool_results'', JArr (arr_of (getj (decided st d) ''tool_results'') @
                 [JObj [(''tool'', JStr (at_name tool)), (''args'', getj decision ''args''), (''result'', result)]]))]) k))
            (Suc (2 * (5 - Suc i)) + (4 - Suc i) * m + m) ((4 - Suc i) * c + c)"
          using Suc.hyps(1) [of "Suc i"] deciding_next [OF Suc.prems that] Suc.hyps(2) by (intro q allI) simp
        moreover have "Suc (2 * (5 - Suc i)) + (4 - Suc i) * m + m = ?n" "(4 - Suc i) * c + c = ?e"
          unfolding left by simp_all
        ultimately show "calls_within Q (at_call tool (jor (getj decision ''args'') (JObj [])) (\<lambda>result.
            run_graph (executor_graph env tools) j' ''decide'' (dupdate (decided st d)
              [(''tool_results'', JArr (arr_of (getj (decided st d) ''tool_results'') @
                 [JObj [(''tool'', JStr (at_name tool)), (''args'', getj decision ''args''), (''result'', result)]]))]) k)) ?n ?e"
          by (simp only:)
      qed
    qed simp
    have respond: "calls_within Q (run_graph (executor_graph env tools) j ''respond'' (decided st d) k) ?n ?e" for j d
    proof (cases j)
      case (Suc j')
      have "calls_within Q (k (dset ''result'' x (decided st d))) a b" for x a b
        using k [of _ xs] xs decided_fields [OF Suc.prems] calls_within_mono [of Q _ 0 0] by simp
      then show ?thesis unfolding Suc executor_steps executor_respond_def add_Suc
        by (intro calls_with_res) (auto intro!: calls_ask_text)
    qed simp
    have "calls_within Q (with_res (executor_route tools (decided st d)) (\<lambda>nx. run_graph (executor_graph env tools) n' nx (decided st d) k))
        ?n ?e" for d
      using executor_route_cases act respond decided_fields(1) [OF Suc.prems]
      by (intro calls_with_res) (fastforce simp: int_of_def)
    then have d: "calls_within Q (with_res (executor_route tools (dupdate st upd)) (\<lambda>nx. run_graph (executor_graph env tools) n' nx (dupdate st upd) k))
        ?n ?e" if "upd = [(''decision'', d), (''iterations'', JInt (int_of (getj st ''iterations'') + 1))]" for upd d
      using that by (simp add: decided_def)
    have "Suc (2 * (5 - i)) + (4 - i) * m = Suc (Suc ?n)" using i by simp
    then show ?thesis unfolding Suc executor_steps executor_decide_def by (simp only:) (intro calls_ask_json d [OF refl])
  qed simp
qed

text \<open>The limit of the graph does not matter from ten node runs on.\<close>

lemma executor_loop_limit:
  "deciding i st \<Longrightarrow> 2 * (5 - i) \<le> n \<Longrightarrow> 2 * (5 - i) \<le> m \<Longrightarrow>
   run_graph (executor_graph env tools) n ''decide'' st k = run_graph (executor_graph env tools) m ''decide'' st k"
proof (induction "5 - i" arbitrary: i st n m)
  case 0
  then show ?case by (simp add: deciding_def)
next
  case (Suc j)
  have i: "i \<le> 4" using Suc.prems by (simp add: deciding_def)
  have "2 \<le> n" "2 \<le> m" using Suc.prems(2,3) i by linarith+
  then obtain n' m' where nm: "n = Suc (Suc n')" "m = Suc (Suc m')" by (metis add_2_eq_Suc le_Suc_ex)
  have act: "run_graph (executor_graph env tools) (Suc n') ''act'' (decided st d) k =
      run_graph (executor_graph env tools) (Suc m') ''act'' (decided st d) k" if "int i + 1 < 5" for d
  proof -
    have "run_graph (executor_graph env tools) n' ''decide'' (dset ''tool_results'' (JArr (arr_of (getj (decided st d) ''tool_results'') @ [x])) (decided st d)) k =
        run_graph (executor_graph env tools) m' ''decide'' (dset ''tool_results'' (JArr (arr_of (getj (decided st d) ''tool_results'') @ [x])) (decided st d)) k" for x
      using Suc.hyps(1) [of "Suc i"] Suc.hyps(2) Suc.prems(2,3) nm deciding_next [OF Suc.prems(1) that] by simp
    then show ?thesis unfolding executor_steps executor_act_def by simp
  qed
  have "with_res (executor_route tools (decided st d)) (\<lambda>nx. run_graph (executor_graph env tools) (Suc n') nx (decided st d) k) =
      with_res (executor_route tools (decided st d)) (\<lambda>nx. run_graph (executor_graph env tools) (Suc m') nx (decided st d) k)" for d
  proof (cases "executor_route tools (decided st d)")
    case (Inr nx)
    then show ?thesis using executor_route_cases [OF Inr] act decided_fields(1) [OF Suc.prems(1)]
      by (auto simp: int_of_def executor_steps(3) simp del: run_graph.simps)
  qed simp
  then show ?case unfolding nm executor_steps(1) executor_decide_def by (simp add: decided_def)
qed

lemma executor_deciding: "deciding 0 (executor_initial env ctx)"
  by (simp add: deciding_def executor_initial_def getj_def)

lemma executor_calls:
  assumes "runs_graphs env" "tools_within m c tools"
  shows "calls_within (\<lambda>res. \<exists>xs. dget (sr_output res) ''tool_calls'' = Some (JArr xs) \<and> length xs \<le> 4)
    (executor_agent env tools ctx) (11 + 4 * m) (4 * c)"
proof -
  have "calls_within (\<lambda>res. \<exists>xs. dget (sr_output res) ''tool_calls'' = Some (JArr xs) \<and> length xs \<le> 4)
      (run_graph (executor_graph env tools) RECURSION_LIMIT ''decide'' (executor_initial env ctx) (\<lambda>st. Return (executor_result st)))
      (Suc (2 * (5 - 0)) + (4 - 0) * m) ((4 - 0) * c)"
    by (rule executor_loop_calls [OF assms(2) _ executor_deciding]) (simp add: executor_result_def get_or_def)
  then show ?thesis
    using run_agent_graph [OF assms(1), of "executor_graph env tools" "executor_initial env ctx" "\<lambda>st. Inr (executor_result st)"]
    by (simp add: executor_agent_def executor_graph_def del: run_graph.simps)
qed

section \<open>Properties\<close>

text \<open>
  C17: a base agent makes a bounded number of calls, whatever the models answer and however the attempt
  ends. Let \<open>m\<close> and \<open>c\<close> bound the model calls and the other calls (side effects and awaited work) that
  one call of any registered tool makes. On every path of its program an agent makes at most \<open>11 + 4 m\<close>
  model calls and \<open>4 c\<close> other calls, so that a run consumes no more model answers and records no more
  side effects than that: the agent itself asks a model at most eleven times, and it calls at most four
  tools, each once (the code names the limit five, but counts the decision before it compares). The
  executor also reports at most four tool results, and it always ends long before the limit that
  LangGraph has on the number of node runs, which therefore plays no part.
\<close>

theorem agents_bounded:
  assumes "runs_graphs env" "tools_within m c tools" "get_runner (register_base_agents env tools []) agent_type = Inr runner"
    and "run_prog sv deadline (runner ctx) (ctx0, s) = (r, (ctx', s'))"
  shows "calls_within (\<lambda>_. True) (runner ctx) (11 + 4 * m) (4 * c) \<and>
    sc_llm_index ctx' \<le> sc_llm_index ctx0 + 11 + 4 * m \<and> length (sc_effects ctx') \<le> length (sc_effects ctx0) + 4 * c \<and>
    (agent_type = ''executor_agent'' \<longrightarrow>
       (\<forall>res. r = Inr res \<longrightarrow> (\<exists>xs. dget (sr_output res) ''tool_calls'' = Some (JArr xs) \<and> length xs < 5)) \<and>
       (\<forall>limit \<ge> 10. run_graph (executor_graph env tools) limit ''decide'' (executor_initial env ctx) (\<lambda>st. Return (executor_result st)) =
          runner ctx))"
proof -
  let ?Q = "\<lambda>res. \<exists>xs. dget (sr_output res) ''tool_calls'' = Some (JArr xs) \<and> length xs \<le> 4"
  have weaken: "calls_within (\<lambda>_. True) p n e" if "calls_within Q p n e" for Q p n e
    using that by (induction p arbitrary: n e) auto
  have all: "grown ctx0 (11 + 4 * m) (4 * c) ctx'" if "calls_within Q (runner ctx) (11 + 4 * m) (4 * c)" for Q
    using run_within [OF assms(4) that] by blast
  consider "agent_type = ''executor_agent''" "runner = executor_agent env tools"
    | "agent_type \<noteq> ''executor_agent''" "runner \<in> {planner_agent env, validator_agent env, reflector_agent env}"
    using assms(3) by (auto simp: register_base_agents_def register_runner_def get_runner_def split: if_splits)
  then show ?thesis
  proof cases
    case 1
    have q: "calls_within ?Q (runner ctx) (11 + 4 * m) (4 * c)" using executor_calls [OF assms(1,2)] 1 by blast
    have "run_graph (executor_graph env tools) limit ''decide'' (executor_initial env ctx) (\<lambda>st. Return (executor_result st)) = runner ctx"
      if "10 \<le> limit" for limit
      using executor_loop_limit [OF executor_deciding, of limit RECURSION_LIMIT] that
        run_agent_graph [OF assms(1), of "executor_graph env tools" "executor_initial env ctx" "\<lambda>st. Inr (executor_result st)"]
      unfolding 1 executor_agent_def by (simp add: executor_graph_def RECURSION_LIMIT_def del: run_graph.simps)
    moreover have "\<forall>res. r = Inr res \<longrightarrow> ?Q res" using run_within [OF assms(4) q] by blast
    ultimately show ?thesis using weaken [OF q] all [OF q] by (fastforce simp: grown_def)
  next
    case 2
    then have q: "calls_within (\<lambda>_. True) (runner ctx) (11 + 4 * m) (4 * c)"
      using calls_within_mono [OF planner_calls [OF assms(1)]] calls_within_mono [OF validator_calls [OF assms(1)]]
        calls_within_mono [OF reflector_calls [OF assms(1)]] by auto
    then show ?thesis using all [OF q] 2(1) by (simp add: grown_def)
  qed
qed

definition sample_env :: agent_env where
  "sample_env = \<lparr>ag_invoke = (\<lambda>g n st k. run_graph g n (gr_entry g) st k),
     ag_loads = (\<lambda>_. Inr (JObj [(''action'', JStr ''tool''), (''tool'', JStr ''mail''), (''args'', JObj [])])),
     ag_float_repr = (\<lambda>_. ''0.0'')\<rparr>"

text \<open>A tool that awaits something once.\<close>

definition sample_tools :: tool_registry where
  "sample_tools = register_tool (function_tool ''mail'' ''sends mail'' (\<lambda>args k. Await ''mail'' (\<lambda>r. with_res r k))) []"

theorem agents_bounded_witness:
  "\<exists>res ctx' s' xs. run_prog sample_services 90000000 (executor_agent sample_env sample_tools sample_context) (sample_context, 0) =
       (Inr res, (ctx', s')) \<and>
     calls_within (\<lambda>_. True) (executor_agent sample_env sample_tools sample_context) 11 4 \<and>
     sc_llm_index ctx' \<le> 11 \<and> dget (sr_output res) ''tool_calls'' = Some (JArr xs) \<and> length xs < 5"
proof -
  let ?m = "run_prog sample_services 90000000 (executor_agent sample_env sample_tools sample_context) (sample_context, 0)"
  have g: "runs_graphs sample_env" by (simp add: runs_graphs_def sample_env_def)
  have q: "tools_within 0 1 sample_tools"
    by (auto simp: tools_within_def sample_tools_def register_tool_def function_tool_def intro: calls_with_res split: if_splits)
  have r: "get_runner (register_base_agents sample_env sample_tools []) ''executor_agent'' = Inr (executor_agent sample_env sample_tools)"
    by (simp add: register_base_agents_def register_runner_def get_runner_def)
  have "case fst ?m of Inr _ \<Rightarrow> True | Inl _ \<Rightarrow> False" by code_simp
  then obtain res ctx' s' where m: "?m = (Inr res, (ctx', s'))" by (cases ?m) (auto split: sum.splits)
  have "sc_llm_index sample_context = 0" by (simp add: sample_context_def)
  then show ?thesis using agents_bounded [OF g q r m] m by auto
qed

end
