(* ===== verification/Evals.thy ===== *)
theory Evals
  imports Agents Ports
begin

text \<open>
  \<open>evals/\<close>: scoring the output of an agent. The scorers (\<open>scorers.py\<close>), suites and reports
  (\<open>models.py\<close>), the runner (\<open>runner.py\<close>) and the text of a report (\<open>report.py\<close>). Regular
  expressions given by a suite, the reading of a number from a string and the shortest decimal of a
  float are parameters; so are the model clients of the agent and of the judge.
\<close>

section \<open>Data\<close>

record check =
  ck_scorer :: string
  ck_args :: obj
  ck_weight :: rat

record eval_case =
  ec_name :: string
  ec_inputs :: obj
  ec_checks :: "check list"
  ec_tags :: "string list"

record eval_suite =
  es_name :: string
  es_target :: string
  es_description :: string
  es_threshold :: rat
  es_cases :: "eval_case list"

record score_result =
  sx_scorer :: string
  sx_passed :: bool
  sx_score :: rat
  sx_weight :: rat
  sx_detail :: string

record case_result =
  cr_name :: string
  cr_passed :: bool
  cr_weighted_score :: rat
  cr_scores :: "score_result list"
  cr_output :: obj
  cr_cost_usd :: usd
  cr_tokens_input :: int
  cr_tokens_output :: int
  cr_latency_seconds :: rat
  cr_error :: "string option"

record suite_report =
  rp_suite :: string
  rp_target :: string
  rp_threshold :: rat
  rp_passed :: bool
  rp_pass_rate :: rat
  rp_case_count :: nat
  rp_cases :: "case_result list"
  rp_total_cost_usd :: usd
  rp_total_tokens_input :: int
  rp_total_tokens_output :: int

text \<open>The constraints that a suite has been validated against, and those on the results.\<close>

definition eval_case_fields :: "eval_case \<Rightarrow> bool" where
  "eval_case_fields c \<longleftrightarrow> ec_checks c \<noteq> [] \<and> list_all (\<lambda>k. 0 < ck_weight k) (ec_checks c)"

definition eval_suite_fields :: "eval_suite \<Rightarrow> bool" where
  "eval_suite_fields s \<longleftrightarrow>
     0 \<le> es_threshold s \<and> es_threshold s \<le> 1 \<and> es_cases s \<noteq> [] \<and> list_all eval_case_fields (es_cases s)"

definition unit_field :: "rat \<Rightarrow> 'a \<Rightarrow> pexn + 'a" where
  "unit_field x r = (if 0 \<le> x \<and> x \<le> 1 then Inr r else Inl (PExn PydanticValidationError []))"

definition new_score_result :: "string \<Rightarrow> bool \<Rightarrow> rat \<Rightarrow> string \<Rightarrow> pexn + score_result" where
  "new_score_result scorer passed score detail =
     unit_field score \<lparr>sx_scorer = scorer, sx_passed = passed, sx_score = score, sx_weight = 1, sx_detail = detail\<rparr>"

text \<open>A value that may raise, as a step that does nothing else.\<close>

definition pure_res :: "pexn + 'a \<Rightarrow> ('s, pexn, 'a) eff" where
  "pure_res r s = (r, s)"

definition failed_cases :: "suite_report \<Rightarrow> case_result list" where
  "failed_cases r = filter (\<lambda>c. \<not> cr_passed c) (rp_cases r)"

section \<open>Surroundings\<close>

text \<open>What \<open>float\<close> makes of a string.\<close>

datatype py_float = Finite rat | PosInf | NegInf | NaN

type_synonym 's client = "llm_call \<Rightarrow> budget_view option \<Rightarrow> ('s, pexn, llm_completion) eff"

record 's evals =
  el_registry :: step_registry
  el_llm :: "'s client"
  el_judge :: "'s client option"
  el_judge_tier :: string
  el_now :: "'s \<Rightarrow> instant"
  el_await :: "string \<Rightarrow> ('s, pexn, json) eff"
  el_digest :: "json \<Rightarrow> string"
  el_float_of :: "string \<Rightarrow> py_float option"
  el_float_repr :: "rat \<Rightarrow> string"
  el_search :: "string \<Rightarrow> string \<Rightarrow> pexn + bool"
  el_missing_repr :: string

text \<open>\<open>ScorerDeps\<close> as the runner builds it: the judge is the agent's own client by default.\<close>

definition judge_client :: "'s evals \<Rightarrow> 's client option" where
  "judge_client e = Some (case el_judge e of Some j \<Rightarrow> j | None \<Rightarrow> el_llm e)"

section \<open>Paths\<close>

text \<open>\<open>str.isdigit\<close> also holds of the three superscript digits of Latin-1, which \<open>int\<close> refuses.\<close>

definition is_digit :: "char \<Rightarrow> bool" where
  "is_digit c = (let n = of_char c :: nat in 48 \<le> n \<and> n \<le> 57)"

definition isdigit :: "string \<Rightarrow> bool" where
  "isdigit s \<longleftrightarrow> s \<noteq> [] \<and> list_all (\<lambda>c. is_digit c \<or> (of_char c :: nat) \<in> {178, 179, 185}) s"

definition digits_value :: "string \<Rightarrow> int" where
  "digits_value s = foldl (\<lambda>a c. 10 * a + (of_char c - 48)) 0 s"

definition int_text :: "string \<Rightarrow> pexn + int" where
  "int_text s =
     (let neg = (case s of c # _ \<Rightarrow> c = CHR ''-'' | [] \<Rightarrow> False); ds = (if neg then drop 1 s else s)
      in if ds \<noteq> [] \<and> list_all is_digit ds then Inr (if neg then - digits_value ds else digits_value ds)
         else Inl (PExn (OtherException ''ValueError'')
                (''invalid literal for int() with base 10: '' @ repr_str s)))"

fun resolve_parts :: "json \<Rightarrow> string list \<Rightarrow> pexn + json option" where
  "resolve_parts cur [] = Inr (Some cur)"
| "resolve_parts (JObj d) (part # parts) =
     (case dget d part of None \<Rightarrow> Inr None | Some v \<Rightarrow> resolve_parts v parts)"
| "resolve_parts (JArr xs) (part # parts) =
     (if isdigit (dropWhile (\<lambda>c. c = CHR ''-'') part)
      then (case int_text part of
              Inl e \<Rightarrow> Inl e
            | Inr idx \<Rightarrow>
                let n = int (length xs) in
                if - n \<le> idx \<and> idx < n
                then resolve_parts (xs ! nat (if idx < 0 then idx + n else idx)) parts
                else Inr None)
      else Inr None)"
| "resolve_parts _ (part # parts) = Inr None"

text \<open>The result \<open>None\<close> is the sentinel \<open>_MISSING\<close>.\<close>

definition resolve_path :: "json \<Rightarrow> json \<Rightarrow> pexn + json option" where
  "resolve_path value_root path =
     (if \<not> truthy path then Inr (Some value_root)
      else case path of
        JStr p \<Rightarrow> resolve_parts value_root (split_on CHR ''.'' p)
      | _ \<Rightarrow> Inl (PExn (OtherException ''AttributeError'') []))"

section \<open>Scorers\<close>

definition type_error :: "pexn + 'a" where
  "type_error = Inl (PExn (OtherException ''TypeError'') [])"

definition require_arg :: "obj \<Rightarrow> string \<Rightarrow> pexn + json" where
  "require_arg args k = (case dget args k of Some v \<Rightarrow> Inr v | None \<Rightarrow> Inl (PExn PyKeyError (repr_str k)))"

definition ok_score :: "string \<Rightarrow> bool \<Rightarrow> string \<Rightarrow> pexn + score_result" where
  "ok_score scorer passed detail = new_score_result scorer passed (if passed then 1 else 0) detail"

definition repr_opt :: "'s evals \<Rightarrow> json option \<Rightarrow> string" where
  "repr_opt e v = (case v of None \<Rightarrow> el_missing_repr e | Some j \<Rightarrow> repr_json (el_float_repr e) j)"

definition text_of :: "'s evals \<Rightarrow> json option \<Rightarrow> string" where
  "text_of e v = (case v of None \<Rightarrow> [] | Some j \<Rightarrow> str_json (el_float_repr e) j)"

definition score_equals :: "'s evals \<Rightarrow> json \<Rightarrow> obj \<Rightarrow> pexn + score_result" where
  "score_equals e value_root args =
     rbind (resolve_path value_root (get_or (JStr []) args ''path'')) (\<lambda>actual.
     rbind (require_arg args ''value'') (\<lambda>expected.
       ok_score ''equals'' (case actual of None \<Rightarrow> False | Some a \<Rightarrow> py_eq a expected)
         (''expected '' @ repr_json (el_float_repr e) expected @ '', got '' @ repr_opt e actual)))"

text \<open>\<open>str.lower\<close> on Latin-1.\<close>

definition lower_char :: "char \<Rightarrow> char" where
  "lower_char c =
     (let n = of_char c :: nat in
      if (65 \<le> n \<and> n \<le> 90) \<or> (192 \<le> n \<and> n \<le> 222 \<and> n \<noteq> 215) then char_of (n + 32) else c)"

fun missing_needles :: "string \<Rightarrow> json list \<Rightarrow> pexn + json list" where
  "missing_needles text [] = Inr []"
| "missing_needles text (JStr n # ns) =
     rbind (missing_needles text ns) (\<lambda>ms.
       Inr (if substring (map lower_char n) (map lower_char text) then ms else JStr n # ms))"
| "missing_needles text (_ # ns) = Inl (PExn (OtherException ''AttributeError'') [])"

definition score_contains :: "'s evals \<Rightarrow> json \<Rightarrow> obj \<Rightarrow> pexn + score_result" where
  "score_contains e value_root args =
     rbind (resolve_path value_root (get_or (JStr []) args ''path'')) (\<lambda>actual.
     rbind (iterate (jor (getj args ''substrings'')
              (case dget args ''substring'' of Some v \<Rightarrow> JArr [v] | None \<Rightarrow> JArr []))) (\<lambda>needles.
     rbind (missing_needles (text_of e actual) needles) (\<lambda>missing.
       ok_score ''contains'' (missing = [])
         (if missing \<noteq> [] then ''missing '' @ repr_json (el_float_repr e) (JArr missing) else ''all present''))))"

definition score_regex :: "'s evals \<Rightarrow> json \<Rightarrow> obj \<Rightarrow> pexn + score_result" where
  "score_regex e value_root args =
     rbind (resolve_path value_root (get_or (JStr []) args ''path'')) (\<lambda>actual.
     rbind (require_arg args ''pattern'') (\<lambda>pattern.
     case pattern of
       JStr p \<Rightarrow> rbind (el_search e p (text_of e actual)) (\<lambda>hit.
         ok_score ''regex'' hit (''/'' @ p @ ''/ '' @ (if hit then ''matched'' else ''did not match'')))
     | _ \<Rightarrow> type_error))"

text \<open>\<open>float(x)\<close>, with \<open>None\<close> for the two errors that the callers tell from the others.\<close>

definition to_float :: "'s evals \<Rightarrow> json option \<Rightarrow> py_float option" where
  "to_float e v =
     (case v of
        None \<Rightarrow> None
      | Some (JStr s) \<Rightarrow> el_float_of e s
      | Some j \<Rightarrow> map_option Finite (num_of j))"

definition show_float :: "'s evals \<Rightarrow> py_float \<Rightarrow> string" where
  "show_float e x = (case x of Finite r \<Rightarrow> el_float_repr e r | PosInf \<Rightarrow> ''inf'' | NegInf \<Rightarrow> ''-inf'' | NaN \<Rightarrow> ''nan'')"

fun float_le :: "py_float \<Rightarrow> py_float \<Rightarrow> bool" where
  "float_le NaN y = False"
| "float_le x NaN = False"
| "float_le NegInf y = True"
| "float_le x PosInf = True"
| "float_le (Finite a) (Finite b) = (a \<le> b)"
| "float_le x y = False"

text \<open>A bound of the range: the given argument, which need not be a number, or the infinity.\<close>

definition range_bound :: "py_float \<Rightarrow> json option \<Rightarrow> pexn + py_float" where
  "range_bound dflt v =
     (case v of
        None \<Rightarrow> Inr dflt
      | Some j \<Rightarrow> (case num_of j of Some x \<Rightarrow> Inr (Finite x) | None \<Rightarrow> type_error))"

definition show_bound :: "'s evals \<Rightarrow> py_float \<Rightarrow> json option \<Rightarrow> string" where
  "show_bound e dflt v = (case v of None \<Rightarrow> show_float e dflt | Some j \<Rightarrow> str_json (el_float_repr e) j)"

text \<open>The chained comparison looks at the upper bound only when the lower one holds.\<close>

definition score_in_range :: "'s evals \<Rightarrow> json \<Rightarrow> obj \<Rightarrow> pexn + score_result" where
  "score_in_range e value_root args =
     rbind (require_arg args ''path'') (\<lambda>path.
     rbind (resolve_path value_root path) (\<lambda>actual.
     case to_float e actual of
       None \<Rightarrow> ok_score ''in_range'' False (repr_opt e actual @ '' is not numeric'')
     | Some num \<Rightarrow>
         (let lo = dget args ''min''; hi = dget args ''max'' in
          rbind (range_bound NegInf lo) (\<lambda>l.
          rbind (if float_le l num then rbind (range_bound PosInf hi) (\<lambda>h. Inr (float_le num h)) else Inr False) (\<lambda>inside.
            ok_score ''in_range'' inside
              (show_float e num @ '' in ['' @ show_bound e NegInf lo @ '', '' @ show_bound e PosInf hi @ '']''))))))"

fun py_in :: "json option \<Rightarrow> json \<Rightarrow> pexn + bool" where
  "py_in a (JArr xs) = Inr (case a of None \<Rightarrow> False | Some x \<Rightarrow> list_ex (\<lambda>y. py_eq y x) xs)"
| "py_in a (JStr s) = (case a of Some (JStr t) \<Rightarrow> Inr (substring t s) | _ \<Rightarrow> type_error)"
| "py_in a (JObj d) =
     (case a of
        Some (JStr k) \<Rightarrow> Inr (dget d k \<noteq> None)
      | Some (JArr _) \<Rightarrow> type_error
      | Some (JObj _) \<Rightarrow> type_error
      | _ \<Rightarrow> Inr False)"
| "py_in a _ = type_error"

definition score_one_of :: "'s evals \<Rightarrow> json \<Rightarrow> obj \<Rightarrow> pexn + score_result" where
  "score_one_of e value_root args =
     rbind (resolve_path value_root (get_or (JStr []) args ''path'')) (\<lambda>actual.
     rbind (require_arg args ''options'') (\<lambda>options.
     rbind (py_in actual options) (\<lambda>hit.
       ok_score ''one_of'' hit (repr_opt e actual @ '' in '' @ str_json (el_float_repr e) options))))"

fun type_name :: "json option \<Rightarrow> string" where
  "type_name None = ''object''"
| "type_name (Some JNull) = ''NoneType''"
| "type_name (Some (JBool _)) = ''bool''"
| "type_name (Some (JInt _)) = ''int''"
| "type_name (Some (JFloat _)) = ''float''"
| "type_name (Some (JStr _)) = ''str''"
| "type_name (Some (JArr _)) = ''list''"
| "type_name (Some (JObj _)) = ''dict''"

fun missing_keys :: "obj \<Rightarrow> json list \<Rightarrow> pexn + json list" where
  "missing_keys d [] = Inr []"
| "missing_keys d (k # ks) =
     rbind (py_in (Some k) (JObj d)) (\<lambda>present. rbind (missing_keys d ks) (\<lambda>ms. Inr (if present then ms else k # ms)))"

definition score_json_keys :: "'s evals \<Rightarrow> json \<Rightarrow> obj \<Rightarrow> pexn + score_result" where
  "score_json_keys e value_root args =
     rbind (resolve_path value_root (get_or (JStr []) args ''path'')) (\<lambda>actual.
     case actual of
       Some (JObj d) \<Rightarrow>
         rbind (require_arg args ''required'') (\<lambda>required.
         rbind (iterate required) (\<lambda>ks.
         rbind (missing_keys d ks) (\<lambda>missing.
           ok_score ''json_keys'' (missing = [])
             (if missing \<noteq> [] then ''missing keys '' @ repr_json (el_float_repr e) (JArr missing) else ''all keys present''))))
     | _ \<Rightarrow> ok_score ''json_keys'' False (''not an object: '' @ type_name actual))"

definition safe_len :: "json \<Rightarrow> nat" where
  "safe_len v = (case v of JStr s \<Rightarrow> length s | JArr xs \<Rightarrow> length xs | JObj d \<Rightarrow> length d | _ \<Rightarrow> 1)"

definition score_non_empty :: "'s evals \<Rightarrow> json \<Rightarrow> obj \<Rightarrow> pexn + score_result" where
  "score_non_empty e value_root args =
     rbind (resolve_path value_root (get_or (JStr []) args ''path'')) (\<lambda>actual.
     case actual of
       None \<Rightarrow> ok_score ''non_empty'' False ''empty''
     | Some v \<Rightarrow>
         if v \<in> {JNull, JStr [], JArr [], JObj []} then ok_score ''non_empty'' False ''empty''
         else ok_score ''non_empty'' True (''len='' @ show_nat (safe_len v)))"

section \<open>The model as a judge\<close>

definition JUDGE_SYSTEM :: string where
  "JUDGE_SYSTEM =
     ''You are a strict evaluation judge. Score how well the OUTPUT satisfies the '' @
     ''RUBRIC on a 0-10 integer scale. Respond with only the number.''"

text \<open>The first number of the answer: digits, and a fraction if the point is followed by a digit.\<close>

definition judge_number :: "string \<Rightarrow> rat option" where
  "judge_number raw =
     (let s = dropWhile (\<lambda>c. \<not> is_digit c) raw;
          whole = takeWhile is_digit s;
          rest = dropWhile is_digit s;
          frac = (case rest of c # r \<Rightarrow> if c = CHR ''.'' then takeWhile is_digit r else [] | [] \<Rightarrow> [])
      in if whole = [] then None
         else Some (of_int (digits_value whole) + of_int (digits_value frac) / 10 ^ length frac))"

text \<open>The format \<open>:.2f\<close>.\<close>

definition fmt2 :: "rat \<Rightarrow> string" where
  "fmt2 x =
     (let n = nat (round_half_even (\<bar>x\<bar> * 100))
      in (if x < 0 then ''-'' else '''') @ show_nat (n div 100) @ ''.'' @ [digit (n mod 100 div 10), digit (n mod 10)])"

text \<open>
  A tier that is no string reaches the router as it is, where no model lists it; the default is the
  judge's own tier.
\<close>

definition coerce_tier :: "json \<Rightarrow> pexn + cost_tier" where
  "coerce_tier v =
     (case v of
        JStr s \<Rightarrow> (case tier_of s of
            Some t \<Rightarrow> Inr t
          | None \<Rightarrow> Inl (PExn (OtherException ''ValueError'') (repr_str s @ '' is not a valid CostTier'')))
      | _ \<Rightarrow> Inl (PExn NoEligibleModelError []))"

definition threshold_of :: "'s evals \<Rightarrow> obj \<Rightarrow> pexn + py_float" where
  "threshold_of e args =
     (let v = get_or (JFloat (7/10)) args ''threshold'' in
      case to_float e (Some v) of
        Some x \<Rightarrow> Inr x
      | None \<Rightarrow> (case v of JStr _ \<Rightarrow> Inl (PExn (OtherException ''ValueError'') []) | _ \<Rightarrow> type_error))"

definition judge_call :: "cost_tier \<Rightarrow> string \<Rightarrow> string \<Rightarrow> llm_call" where
  "judge_call tier rubric target =
     \<lparr>ca_messages = [\<lparr>lm_role = ''user'',
        lm_content = ''RUBRIC:'' @ nl @ rubric @ nl @ nl @ ''OUTPUT:'' @ nl @ target\<rparr>],
      ca_system = Some JUDGE_SYSTEM, ca_tools = None, ca_max_tokens = 8, ca_tier = tier,
      ca_task_type = ''eval_judge'', ca_needs_vision = False, ca_reliability_floor = 0,
      ca_expected_output_tokens = None\<rparr>"

definition judge_verdict :: "'s evals \<Rightarrow> py_float \<Rightarrow> string \<Rightarrow> pexn + score_result" where
  "judge_verdict e pass_at answer =
     (let raw = strip answer;
          score01 = (case judge_number raw of Some x \<Rightarrow> min (max (x / 10) 0) 1 | None \<Rightarrow> 0)
      in new_score_result ''llm_judge'' (float_le pass_at (Finite score01)) score01
           (''judge said '' @ repr_str raw @ '' -> '' @ fmt2 score01 @ '' (need '' @
            (case pass_at of Finite x \<Rightarrow> fmt2 x | _ \<Rightarrow> show_float e pass_at) @ '')''))"

definition llm_judge :: "'s evals \<Rightarrow> json \<Rightarrow> obj \<Rightarrow> ('s, pexn, score_result) eff" where
  "llm_judge e value_root args =
     (case judge_client e of
        None \<Rightarrow> pure_res (new_score_result ''llm_judge'' False 0 ''no judge LLM configured'')
      | Some judge \<Rightarrow>
          ebind (pure_res (resolve_path value_root (get_or (JStr []) args ''path''))) (\<lambda>target.
          ebind (pure_res (require_arg args ''rubric'')) (\<lambda>rubric.
          ebind (pure_res (threshold_of e args)) (\<lambda>pass_at.
          ebind (pure_res (coerce_tier (get_or (JStr (el_judge_tier e)) args ''tier''))) (\<lambda>tier.
          ebind (judge (judge_call tier (str_json (el_float_repr e) rubric)
                   (case target of None \<Rightarrow> el_missing_repr e | Some t \<Rightarrow> str_json (el_float_repr e) t)) None) (\<lambda>completion.
            pure_res (judge_verdict e pass_at (lp_text (cp_response completion)))))))))"

section \<open>Running a suite\<close>

text \<open>Reading and validating the YAML file are parameters.\<close>

definition load_suite :: "(string \<Rightarrow> json option) \<Rightarrow> (json \<Rightarrow> pexn + eval_suite) \<Rightarrow> string \<Rightarrow> pexn + eval_suite" where
  "load_suite read validate path =
     (case read path of
        None \<Rightarrow> Inl (PExn (OtherException ''FileNotFoundError'') (''eval suite not found: '' @ path))
      | Some raw \<Rightarrow> validate raw)"

definition SCORERS :: "'s evals \<Rightarrow> (string, json \<Rightarrow> obj \<Rightarrow> ('s, pexn, score_result) eff) pydict" where
  "SCORERS e =
     [(''equals'', \<lambda>r a. pure_res (score_equals e r a)),
      (''contains'', \<lambda>r a. pure_res (score_contains e r a)),
      (''regex'', \<lambda>r a. pure_res (score_regex e r a)),
      (''in_range'', \<lambda>r a. pure_res (score_in_range e r a)),
      (''one_of'', \<lambda>r a. pure_res (score_one_of e r a)),
      (''json_keys'', \<lambda>r a. pure_res (score_json_keys e r a)),
      (''non_empty'', \<lambda>r a. pure_res (score_non_empty e r a)),
      (''llm_judge'', llm_judge e)]"

definition get_scorer :: "'s evals \<Rightarrow> string \<Rightarrow> pexn + (json \<Rightarrow> obj \<Rightarrow> ('s, pexn, score_result) eff)" where
  "get_scorer e name =
     (case dget (SCORERS e) name of
        Some f \<Rightarrow> Inr f
      | None \<Rightarrow> Inl (PExn ConfigurationError
          (''unknown scorer '' @ repr_str name @ ''; available: '' @
           repr_json (el_float_repr e) (JArr (map JStr (sort (dkeys (SCORERS e))))))))"

definition score_check :: "'s evals \<Rightarrow> check \<Rightarrow> obj \<Rightarrow> ('s, pexn, score_result) eff" where
  "score_check e c output =
     ebind (pure_res (get_scorer e (ck_scorer c))) (\<lambda>scorer.
     ebind (scorer (JObj output) (ck_args c)) (\<lambda>result.
       ereturn (result\<lparr>sx_weight := ck_weight c\<rparr>)))"

text \<open>
  The context of a case has no guard for side effects, no budget and nothing to replay, and the agent
  runs without a deadline: the clock of these services never reaches it.
\<close>

definition case_context :: "eval_suite \<Rightarrow> eval_case \<Rightarrow> step_context" where
  "case_context suite c =
     \<lparr>sc_instance_id = ''eval-'' @ es_name suite, sc_tenant_id = ''eval'', sc_step_id = ec_name c,
      sc_agent_type = es_target suite, sc_attempt = 1, sc_inputs = ec_inputs c, sc_instance_context = [],
      sc_budget = None, sc_replay_llm = [], sc_charges = [], sc_effects = [], sc_review = None,
      sc_llm_index = 0, sc_llm_recordings = []\<rparr>"

definition case_services :: "'s evals \<Rightarrow> 's step_services" where
  "case_services e = \<lparr>sv_guard = None, sv_llm = Some (el_llm e), sv_await = el_await e, sv_now = (\<lambda>_. 0),
     sv_digest = el_digest e\<rparr>"

definition seconds_between :: "instant \<Rightarrow> instant \<Rightarrow> rat" where
  "seconds_between a b = of_int (b - a) / 1000000"

definition case_error :: "eval_case \<Rightarrow> step_context \<Rightarrow> rat \<Rightarrow> pexn \<Rightarrow> case_result" where
  "case_error c ctx elapsed exc =
     \<lparr>cr_name = ec_name c, cr_passed = False, cr_weighted_score = 0, cr_scores = [], cr_output = [],
      cr_cost_usd = sum_list (map ce_amount_usd (sc_charges ctx)), cr_tokens_input = 0, cr_tokens_output = 0,
      cr_latency_seconds = elapsed, cr_error = Some (class_name (pexn_class exc) @ '': '' @ pexn_text exc)\<rparr>"

definition weighted :: "score_result list \<Rightarrow> rat" where
  "weighted scores =
     (let total = sum_list (map sx_weight scores) in
      sum_list (map (\<lambda>s. sx_score s * sx_weight s) scores) / (if total = 0 then 1 else total))"

definition new_case_result :: "eval_case \<Rightarrow> step_context \<Rightarrow> rat \<Rightarrow> obj \<Rightarrow> score_result list \<Rightarrow> pexn + case_result" where
  "new_case_result c ctx elapsed output scores =
     unit_field (weighted scores)
       \<lparr>cr_name = ec_name c, cr_passed = list_all sx_passed scores, cr_weighted_score = weighted scores,
        cr_scores = scores, cr_output = output, cr_cost_usd = sum_list (map ce_amount_usd (sc_charges ctx)),
        cr_tokens_input = sum_list (map ce_tokens_input (sc_charges ctx)),
        cr_tokens_output = sum_list (map ce_tokens_output (sc_charges ctx)),
        cr_latency_seconds = elapsed, cr_error = None\<rparr>"

definition run_case :: "'s evals \<Rightarrow> eval_suite \<Rightarrow> step_runner \<Rightarrow> eval_case \<Rightarrow> ('s, pexn, case_result) eff" where
  "run_case e suite runner c s =
     (case run_prog (case_services e) 1 (runner (case_context suite c)) (case_context suite c, s) of
        (Inl exc, (ctx, s1)) \<Rightarrow>
          if is_exception exc
          then (Inr (case_error c ctx (seconds_between (el_now e s) (el_now e s1)) exc), s1)
          else (Inl exc, s1)
      | (Inr result, (ctx, s1)) \<Rightarrow>
          ebind (esequence (map (\<lambda>k. score_check e k (sr_output result)) (ec_checks c))) (\<lambda>scores.
            pure_res (new_case_result c ctx (seconds_between (el_now e s) (el_now e s1)) (sr_output result) scores)) s1)"

definition new_suite_report :: "eval_suite \<Rightarrow> case_result list \<Rightarrow> pexn + suite_report" where
  "new_suite_report suite results =
     (let pass_rate = (if results \<noteq> [] then sum_list (map cr_weighted_score results) / of_nat (length results) else 0) in
      unit_field pass_rate
        \<lparr>rp_suite = es_name suite, rp_target = es_target suite, rp_threshold = es_threshold suite,
         rp_passed = (es_threshold suite \<le> pass_rate), rp_pass_rate = pass_rate, rp_case_count = length results,
         rp_cases = results, rp_total_cost_usd = sum_list (map cr_cost_usd results),
         rp_total_tokens_input = sum_list (map cr_tokens_input results),
         rp_total_tokens_output = sum_list (map cr_tokens_output results)\<rparr>)"

definition run_suite :: "'s evals \<Rightarrow> eval_suite \<Rightarrow> ('s, pexn, suite_report) eff" where
  "run_suite e suite =
     ebind (pure_res (get_runner (el_registry e) (es_target suite))) (\<lambda>runner.
     ebind (esequence (map (run_case e suite runner) (es_cases suite))) (\<lambda>results.
       pure_res (new_suite_report suite results)))"

section \<open>The text of a report\<close>

text \<open>The formats \<open>:.0%\<close>; the mark of a failed check lies outside Latin-1 and is a parameter.\<close>

definition percent :: "rat \<Rightarrow> string" where
  "percent x = show_int (round_half_even (x * 100)) @ ''%''"

definition render_case :: "string \<Rightarrow> case_result \<Rightarrow> string list" where
  "render_case cross c =
     [''  '' @ (if cr_passed c then ''ok  '' else ''FAIL'') @ '' '' @ cr_name c @ ''  ('' @ percent (cr_weighted_score c) @ '')''] @
     (case cr_error c of Some err \<Rightarrow> if err \<noteq> [] then [''        error: '' @ err] else [] | None \<Rightarrow> []) @
     map (\<lambda>s. ''        '' @ (if sx_passed s then [CHR 183] else cross) @ '' '' @ sx_scorer s @ '': '' @ sx_detail s)
       (cr_scores c)"

definition render_text :: "string \<Rightarrow> suite_report \<Rightarrow> string" where
  "render_text cross r =
     join nl
       ([(if rp_passed r then ''PASS'' else ''FAIL'') @ ''  '' @ rp_suite r @ ''  (target: '' @ rp_target r @ '')'',
         ''  pass rate '' @ percent (rp_pass_rate r) @ ''  threshold '' @ percent (rp_threshold r) @
         ''  cases '' @ show_nat (rp_case_count r),
         ''  cost $'' @ fmt4 (rp_total_cost_usd r) @ ''  tokens '' @ show_int (rp_total_tokens_input r) @ ''in / '' @
         show_int (rp_total_tokens_output r) @ ''out'',
         ''''] @
        concat (map (render_case cross) (rp_cases r)))"

section \<open>Scores\<close>

definition binary :: "score_result \<Rightarrow> bool" where
  "binary r \<longleftrightarrow> sx_score r = (if sx_passed r then 1 else 0)"

lemma unit_field_Inr: "unit_field x r = Inr r' \<longleftrightarrow> r' = r \<and> 0 \<le> x \<and> x \<le> 1"
  by (auto simp: unit_field_def)

definition scores_binary :: "pexn + score_result \<Rightarrow> bool" where
  "scores_binary m \<longleftrightarrow> (\<forall>r. m = Inr r \<longrightarrow> binary r)"

named_theorems scoring

lemma scores_binary_ok [scoring]: "scores_binary (ok_score n b d)"
  by (auto simp: scores_binary_def ok_score_def new_score_result_def unit_field_Inr binary_def)

lemma scores_binary_type_error [scoring]: "scores_binary type_error"
  by (simp add: scores_binary_def type_error_def)

lemma scores_binary_rbind [scoring]: "(\<And>x. scores_binary (f x)) \<Longrightarrow> scores_binary (rbind m f)"
  by (auto simp: scores_binary_def rbind_eq_Inr)

lemma scores_binary_if [scoring]: "scores_binary m \<Longrightarrow> scores_binary n \<Longrightarrow> scores_binary (if b then m else n)"
  by simp

lemma scores_binary_option [scoring]:
  "scores_binary m \<Longrightarrow> (\<And>x. scores_binary (f x)) \<Longrightarrow> scores_binary (case v of None \<Rightarrow> m | Some x \<Rightarrow> f x)"
  by (cases v) simp_all

lemma scores_binary_json [scoring]:
  "scores_binary n \<Longrightarrow> (\<And>x. scores_binary (b x)) \<Longrightarrow> (\<And>x. scores_binary (i x)) \<Longrightarrow> (\<And>x. scores_binary (f x)) \<Longrightarrow>
   (\<And>x. scores_binary (s x)) \<Longrightarrow> (\<And>x. scores_binary (a x)) \<Longrightarrow> (\<And>x. scores_binary (d x)) \<Longrightarrow>
   scores_binary (case v of JNull \<Rightarrow> n | JBool x \<Rightarrow> b x | JInt x \<Rightarrow> i x | JFloat x \<Rightarrow> f x | JStr x \<Rightarrow> s x
     | JArr x \<Rightarrow> a x | JObj x \<Rightarrow> d x)"
  by (cases v) simp_all

lemma pure_scorers_binary:
  "scores_binary (score_equals e v a)" "scores_binary (score_contains e v a)" "scores_binary (score_regex e v a)"
  "scores_binary (score_in_range e v a)" "scores_binary (score_one_of e v a)" "scores_binary (score_json_keys e v a)"
  "scores_binary (score_non_empty e v a)"
  unfolding score_equals_def score_contains_def score_regex_def score_in_range_def score_one_of_def
    score_json_keys_def score_non_empty_def Let_def
  by (intro scoring)+

lemma judge_score_bounds: "llm_judge e v a s = (Inr r, s') \<Longrightarrow> 0 \<le> sx_score r \<and> sx_score r \<le> 1"
  by (auto simp: llm_judge_def judge_verdict_def new_score_result_def unit_field_Inr pure_res_def
      ebind_eq_Inr Let_def split: option.splits)

lemma esequence_all2:
  "esequence (map f ys) s = (Inr xs, s') \<Longrightarrow> list_all2 (\<lambda>y x. \<exists>s1 s2. f y s1 = (Inr x, s2)) ys xs"
  by (induction ys arbitrary: s xs) (auto simp: ebind_eq_Inr ereturn_def)

text \<open>What one check contributes: a score in the unit interval with the weight of the check.\<close>

definition check_scored :: "check \<Rightarrow> score_result \<Rightarrow> bool" where
  "check_scored c r \<longleftrightarrow> 0 \<le> sx_score r \<and> sx_score r \<le> 1 \<and> sx_weight r = ck_weight c \<and>
     (ck_scorer c \<noteq> ''llm_judge'' \<longrightarrow> binary r)"

lemma score_check_scored:
  assumes "score_check e c output s = (Inr r, s')"
  shows "check_scored c r"
proof -
  from assms obtain f r0 s1 where f: "dget (SCORERS e) (ck_scorer c) = Some f"
    and r0: "f (JObj output) (ck_args c) s1 = (Inr r0, s')" and r: "r = r0\<lparr>sx_weight := ck_weight c\<rparr>"
    by (auto simp: score_check_def get_scorer_def ebind_eq_Inr pure_res_def ereturn_def split: option.splits)
  have "0 \<le> sx_score r0 \<and> sx_score r0 \<le> 1 \<and> (ck_scorer c \<noteq> ''llm_judge'' \<longrightarrow> binary r0)"
  proof (cases "ck_scorer c = ''llm_judge''")
    case True
    then have "f = llm_judge e" using f by (simp add: SCORERS_def)
    then show ?thesis using judge_score_bounds [of e "JObj output" "ck_args c" s1 r0 s'] r0 True by simp
  next
    case False
    then have "binary r0" using f r0 pure_scorers_binary [of e "JObj output" "ck_args c"]
      by (auto simp: SCORERS_def pure_res_def scores_binary_def split: if_splits)
    then show ?thesis by (simp add: binary_def)
  qed
  then show ?thesis by (simp add: r check_scored_def binary_def)
qed

section \<open>Weighted scores\<close>

lemma weighted_sums:
  assumes "\<forall>r \<in> set rs. 0 \<le> sx_score r \<and> sx_score r \<le> 1 \<and> 0 < sx_weight r"
  shows "0 \<le> sum_list (map (\<lambda>r. sx_score r * sx_weight r) rs) \<and>
    sum_list (map (\<lambda>r. sx_score r * sx_weight r) rs) \<le> sum_list (map sx_weight rs) \<and>
    (rs \<noteq> [] \<longrightarrow> 0 < sum_list (map sx_weight rs)) \<and>
    (list_all binary rs \<longrightarrow>
       (sum_list (map sx_weight rs) = sum_list (map (\<lambda>r. sx_score r * sx_weight r) rs) \<longleftrightarrow> list_all sx_passed rs))"
  using assms
proof (induction rs)
  case (Cons r rs)
  let ?p = "sum_list (map (\<lambda>r. sx_score r * sx_weight r) rs)" and ?w = "sum_list (map sx_weight rs)"
  have ih: "0 \<le> ?p" "?p \<le> ?w" "list_all binary rs \<Longrightarrow> ?w = ?p \<longleftrightarrow> list_all sx_passed rs"
    using Cons by auto
  have r: "0 < sx_weight r" using Cons.prems by simp
  have sw: "0 \<le> sx_score r * sx_weight r" "sx_score r * sx_weight r \<le> sx_weight r"
    using Cons.prems by (simp_all add: mult_left_le_one_le)
  have b: "sx_score r * sx_weight r = (if sx_passed r then sx_weight r else 0)" if "binary r"
    using that by (simp add: binary_def)
  have "sx_weight r + ?w = sx_score r * sx_weight r + ?p \<longleftrightarrow> sx_passed r \<and> list_all sx_passed rs"
    if "binary r" "list_all binary rs"
    using b [OF that(1)] ih(3) [OF that(2)] ih(2) r by (cases "sx_passed r") auto
  then show ?case using ih add_mono [OF sw(2) ih(2)] sw(1) r by auto
qed simp

lemma weighted_bounds:
  assumes "list_all2 check_scored cs rs" "list_all (\<lambda>k. 0 < ck_weight k) cs" "cs \<noteq> []"
  shows "0 \<le> weighted rs" "weighted rs \<le> 1"
    "list_all binary rs \<Longrightarrow> list_all sx_passed rs \<longleftrightarrow> weighted rs = 1"
proof -
  have "\<forall>r \<in> set rs. 0 \<le> sx_score r \<and> sx_score r \<le> 1 \<and> 0 < sx_weight r" "rs \<noteq> []"
    using assms by (auto simp: check_scored_def list_all2_conv_all_nth list_all_length in_set_conv_nth)
  from weighted_sums [OF this(1)] this(2)
  show "0 \<le> weighted rs" "weighted rs \<le> 1" "list_all binary rs \<Longrightarrow> list_all sx_passed rs \<longleftrightarrow> weighted rs = 1"
    by (auto simp: weighted_def Let_def)
qed

definition unjudged :: "eval_case \<Rightarrow> bool" where
  "unjudged c \<longleftrightarrow> list_all (\<lambda>k. ck_scorer k \<noteq> ''llm_judge'') (ec_checks c)"

definition case_sound :: "eval_case \<Rightarrow> case_result \<Rightarrow> bool" where
  "case_sound c r \<longleftrightarrow> cr_name r = ec_name c \<and> 0 \<le> cr_weighted_score r \<and> cr_weighted_score r \<le> 1 \<and>
     (case cr_error r of
        Some _ \<Rightarrow> \<not> cr_passed r \<and> cr_weighted_score r = 0 \<and> cr_scores r = []
      | None \<Rightarrow> list_all2 check_scored (ec_checks c) (cr_scores r) \<and> (cr_passed r \<longleftrightarrow> list_all sx_passed (cr_scores r))) \<and>
     (unjudged c \<longrightarrow> (cr_passed r \<longleftrightarrow> cr_weighted_score r = 1))"

lemma run_case_sound:
  assumes "eval_case_fields c" "run_case e suite runner c s = (Inr r, s')"
  shows "case_sound c r"
proof -
  obtain q ctx s1 where q: "run_prog (case_services e) 1 (runner (case_context suite c)) (case_context suite c, s) = (q, (ctx, s1))"
    using prod.exhaust by metis
  show ?thesis
  proof (cases q)
    case (Inl exc)
    then show ?thesis using assms(2) q by (auto simp: run_case_def case_error_def case_sound_def split: if_splits)
  next
    case (Inr res)
    then obtain scores t where sc: "esequence (map (\<lambda>k. score_check e k (sr_output res)) (ec_checks c)) s1 = (Inr scores, t)"
      and nr: "new_case_result c ctx (seconds_between (el_now e s) (el_now e s1)) (sr_output res) scores = Inr r"
      using assms(2) q by (auto simp: run_case_def ebind_eq_Inr pure_res_def)
    have all2: "list_all2 check_scored (ec_checks c) scores"
      using esequence_all2 [OF sc] by (rule list_all2_mono) (auto dest: score_check_scored)
    have "list_all binary scores" if "unjudged c"
      using all2 that by (auto simp: unjudged_def list_all2_conv_all_nth list_all_length check_scored_def)
    then show ?thesis using nr all2 assms(1) weighted_bounds [OF all2]
      by (auto simp: new_case_result_def unit_field_Inr case_sound_def eval_case_fields_def)
  qed
qed

lemma mean_bounds:
  fixes xs :: "rat list"
  assumes "\<forall>x \<in> set xs. 0 \<le> x \<and> x \<le> 1"
  shows "0 \<le> sum_list xs" "sum_list xs \<le> of_nat (length xs)" "sum_list xs = of_nat (length xs) \<longleftrightarrow> (\<forall>x \<in> set xs. x = 1)"
  using assms
proof (induction xs)
  case (Cons x xs)
  { case 1 then show ?case using Cons.IH(1) by simp }
  { case 2 then show ?case using Cons.IH(2) by (simp add: add_mono) }
  { case 3
    then have "sum_list xs \<le> of_nat (length xs)" "x \<le> 1" using Cons.IH(2) by auto
    then have "x + sum_list xs = 1 + of_nat (length xs) \<longleftrightarrow> x = 1 \<and> sum_list xs = of_nat (length xs)" by linarith
    then show ?case using Cons.IH(3) 3 by simp }
qed simp_all

section \<open>Properties\<close>

text \<open>
  C18: the verdict on a suite means what it says. Every case is reported under its name with a score
  in the unit interval; a case whose agent raised fails with score zero; any other is scored by each
  of its checks. The pass rate is the mean of the scores of the cases, lies in the unit interval, and
  the suite passes exactly when it reaches the threshold. Without checks by a model, a case passes
  exactly when its score is one, so a suite with threshold one passes exactly when all its cases do.
\<close>

theorem eval_verdict_sound:
  assumes "eval_suite_fields suite" "run_suite e suite s = (Inr rep, s')"
  shows "list_all2 case_sound (es_cases suite) (rp_cases rep) \<and> rp_case_count rep = length (es_cases suite) \<and>
    rp_pass_rate rep * of_nat (rp_case_count rep) = sum_list (map cr_weighted_score (rp_cases rep)) \<and>
    0 \<le> rp_pass_rate rep \<and> rp_pass_rate rep \<le> 1 \<and> (rp_passed rep \<longleftrightarrow> es_threshold suite \<le> rp_pass_rate rep) \<and>
    (list_all unjudged (es_cases suite) \<longrightarrow> es_threshold suite = 1 \<longrightarrow> (rp_passed rep \<longleftrightarrow> failed_cases rep = []))"
proof -
  from assms(2) obtain runner rs t where rs: "esequence (map (run_case e suite runner) (es_cases suite)) t = (Inr rs, s')"
    and rep: "new_suite_report suite rs = Inr rep"
    by (auto simp: run_suite_def ebind_eq_Inr pure_res_def)
  have "list_all2 (\<lambda>c r. eval_case_fields c \<and> (\<exists>s1 s2. run_case e suite runner c s1 = (Inr r, s2))) (es_cases suite) rs"
    using esequence_all2 [OF rs] assms(1) by (auto simp: eval_suite_fields_def list_all2_conv_all_nth list_all_length)
  then have snd: "list_all2 case_sound (es_cases suite) rs"
    by (rule list_all2_mono) (auto dest: run_case_sound)
  then have len: "length rs = length (es_cases suite)" "rs \<noteq> []"
    using assms(1) by (auto simp: eval_suite_fields_def dest: list_all2_lengthD)
  have unit: "\<forall>x \<in> set (map cr_weighted_score rs). 0 \<le> x \<and> x \<le> 1"
    using snd by (auto simp: case_sound_def list_all2_conv_all_nth in_set_conv_nth)
  have passed: "cr_passed r \<longleftrightarrow> cr_weighted_score r = 1" if "list_all unjudged (es_cases suite)" "r \<in> set rs" for r
    using snd that by (auto simp: case_sound_def list_all2_conv_all_nth in_set_conv_nth list_all_length)
  have "1 \<le> rp_pass_rate rep \<longleftrightarrow> (\<forall>r \<in> set rs. cr_weighted_score r = 1)"
    using rep len mean_bounds [OF unit] by (auto simp: new_suite_report_def unit_field_Inr Let_def le_divide_eq)
  then show ?thesis using rep len snd passed
    by (auto simp: new_suite_report_def unit_field_Inr Let_def failed_cases_def filter_empty_conv)
qed

text \<open>One echoed case with two checks, of which the second, of weight one, fails.\<close>

definition sample_evals :: "nat evals" where
  "sample_evals = \<lparr>el_registry = [(''echo'', echo_runner)],
     el_llm = (\<lambda>_ _ s. (Inl (PExn LLMError []), s)), el_judge = None, el_judge_tier = ''standard'', el_now = int,
     el_await = (\<lambda>_ s. (Inr JNull, s)), el_digest = (\<lambda>_. []), el_float_of = (\<lambda>_. None),
     el_float_repr = (\<lambda>_. ''0.0''), el_search = (\<lambda>_ _. Inr False), el_missing_repr = ''<object>''\<rparr>"

definition sample_suite :: eval_suite where
  "sample_suite = \<lparr>es_name = ''demo'', es_target = ''echo'', es_description = [], es_threshold = 7/10,
     es_cases = [\<lparr>ec_name = ''one'', ec_inputs = [(''tier'', JStr ''hot'')],
       ec_checks = [\<lparr>ck_scorer = ''equals'', ck_args = [(''path'', JStr ''inputs.tier''), (''value'', JStr ''hot'')], ck_weight = 3\<rparr>,
         \<lparr>ck_scorer = ''non_empty'', ck_args = [(''path'', JStr ''inputs.score'')], ck_weight = 1\<rparr>],
       ec_tags = []\<rparr>]\<rparr>"

theorem eval_verdict_sound_witness:
  "\<exists>rep. fst (run_suite sample_evals sample_suite 0) = Inr rep \<and> rp_pass_rate rep = 3/4 \<and> rp_passed rep \<and>
     list_all2 case_sound (es_cases sample_suite) (rp_cases rep)"
proof -
  have f: "eval_suite_fields sample_suite" by code_simp
  have "case fst (run_suite sample_evals sample_suite 0) of Inr rep \<Rightarrow> rp_pass_rate rep = 3/4 | Inl _ \<Rightarrow> False" by code_simp
  then obtain rep where rep: "fst (run_suite sample_evals sample_suite 0) = Inr rep" "rp_pass_rate rep = 3/4"
    by (auto split: sum.splits)
  then obtain s' where "run_suite sample_evals sample_suite 0 = (Inr rep, s')" by (metis prod.collapse)
  from eval_verdict_sound [OF f this] rep show ?thesis by (simp add: sample_suite_def)
qed

end
