(* ===== verification/SalesProvider.thy ===== *)
theory SalesProvider
  imports SideEffects Json
begin

text \<open>
  \<open>use_cases/sales_intelligence/provider.py\<close>: the in-memory provider of the two side effects of the
  sales workflow, which keeps the contract that the exactly-once guard relies on. The provider that
  posts to a webhook is in the theory \<open>HttpProviders\<close>.
\<close>

section \<open>The in-memory provider\<close>

definition CREATE_CRM_TASK :: string where
  "CREATE_CRM_TASK = ''sales.create_crm_task''"

definition SEND_EMAIL :: string where
  "SEND_EMAIL = ''sales.send_email''"

definition SALES_EFFECTS :: "string list" where
  "SALES_EFFECTS = [CREATE_CRM_TASK, SEND_EMAIL]"

record sales_record =
  sl_ref :: string
  sl_effect_name :: string
  sl_params :: obj
  sl_status :: string

text \<open>
  Records are shared between the index by key and the two lists, and change when an effect is
  compensated: they live in a store, and the others hold addresses.
\<close>

record sales_world =
  sw_store :: "sales_record list"
  sw_by_key :: "(string, nat) pydict"
  sw_crm_tasks :: "nat list"
  sw_emails :: "nat list"
  sw_seq :: nat

definition new_sales_world :: sales_world where
  "new_sales_world = \<lparr>sw_store = [], sw_by_key = [], sw_crm_tasks = [], sw_emails = [], sw_seq = 0\<rparr>"

definition done_with :: "sales_world \<Rightarrow> nat \<Rightarrow> effect_result" where
  "done_with w a =
     (let ref = sl_ref (sw_store w ! a) in
      \<lparr>ef_ok = True, ef_data = [(''ref'', JStr ref)], ef_provider_ref = Some ref, ef_error = None\<rparr>)"

definition add_record :: "effect_request \<Rightarrow> string \<Rightarrow> sales_world \<Rightarrow> sales_world" where
  "add_record req prefix w =
     w\<lparr>sw_store := sw_store w @ [\<lparr>sl_ref = prefix @ show_nat (sw_seq w), sl_effect_name = rq_effect_name req,
         sl_params = rq_params req, sl_status = ''done''\<rparr>],
       sw_by_key := dset (rq_idempotency_key req) (length (sw_store w)) (sw_by_key w)\<rparr>"

definition sales_execute :: "effect_request \<Rightarrow> (sales_world, pexn, effect_result) eff" where
  "sales_execute req w =
     (case dget (sw_by_key w) (rq_idempotency_key req) of
        Some a \<Rightarrow> (Inr (done_with w a), w)
      | None \<Rightarrow>
          let a = length (sw_store w); w = w\<lparr>sw_seq := sw_seq w + 1\<rparr> in
          if rq_effect_name req = CREATE_CRM_TASK
          then let w = (add_record req ''crm-task-'' w)\<lparr>sw_crm_tasks := sw_crm_tasks w @ [a]\<rparr> in (Inr (done_with w a), w)
          else if rq_effect_name req = SEND_EMAIL
          then let w = (add_record req ''email-'' w)\<lparr>sw_emails := sw_emails w @ [a]\<rparr> in (Inr (done_with w a), w)
          else (Inr \<lparr>ef_ok = False, ef_data = [], ef_provider_ref = None,
                     ef_error = Some (''unknown effect '' @ rq_effect_name req)\<rparr>, w))"

definition sales_reconcile :: "effect_request \<Rightarrow> (sales_world, pexn, effect_result option) eff" where
  "sales_reconcile req w = (Inr (map_option (done_with w) (dget (sw_by_key w) (rq_idempotency_key req))), w)"

definition sales_compensate :: "effect_request \<Rightarrow> effect_result \<Rightarrow> (sales_world, pexn, effect_result option) eff" where
  "sales_compensate req executed w =
     (case dget (sw_by_key w) (rq_idempotency_key req) of
        None \<Rightarrow> (Inr None, w)
      | Some a \<Rightarrow>
          let status = (if rq_effect_name req = CREATE_CRM_TASK then ''cancelled'' else ''recalled'') in
          (Inr (Some \<lparr>ef_ok = True, ef_data = [(''ref'', JStr (sl_ref (sw_store w ! a))), (''status'', JStr status)],
                      ef_provider_ref = None, ef_error = None\<rparr>),
           w\<lparr>sw_store := (sw_store w)[a := (sw_store w ! a)\<lparr>sl_status := status\<rparr>]\<rparr>))"

definition in_memory_sales_provider :: "sales_world action_provider" where
  "in_memory_sales_provider =
     \<lparr>ap_supports_idempotency_key = (\<lambda>effect_name. effect_name \<in> set SALES_EFFECTS),
      ap_execute = sales_execute, ap_reconcile = sales_reconcile, ap_compensate = sales_compensate\<rparr>"

text \<open>The guard's contract: an action has happened once its key is known.\<close>

definition sales_landed :: "string \<Rightarrow> sales_world \<Rightarrow> nat" where
  "sales_landed k w = (case dget (sw_by_key w) k of None \<Rightarrow> 0 | Some _ \<Rightarrow> 1)"

lemma sales_execute_landed:
  "sales_landed k (snd (sales_execute req w)) =
     (if k = rq_idempotency_key req \<and> rq_effect_name req \<in> set SALES_EFFECTS then 1 else sales_landed k w)"
  by (auto simp: sales_execute_def sales_landed_def add_record_def SALES_EFFECTS_def Let_def split: option.splits)

interpretation sales: effect_provider sales_landed in_memory_sales_provider
proof
  fix req w r w' k
  assume e: "ap_execute in_memory_sales_provider req w = (r, w')"
  then have "w' = snd (sales_execute req w)" by (simp add: in_memory_sales_provider_def)
  then show "sales_landed k w' = sales_landed k w \<or>
      k = rq_idempotency_key req \<and> sales_landed k w' = Suc (sales_landed k w) \<and>
        \<not> (ap_supports_idempotency_key in_memory_sales_provider (rq_effect_name req) \<and> 0 < sales_landed k w)"
    by (auto simp: sales_execute_landed) (auto simp: sales_landed_def split: option.splits)
next
  fix req w x w'
  assume "ap_execute in_memory_sales_provider req w = (Inr x, w')" "ef_ok x"
  then show "0 < sales_landed (rq_idempotency_key req) w'"
    by (auto simp: in_memory_sales_provider_def sales_execute_def sales_landed_def add_record_def done_with_def Let_def
        split: option.splits if_splits)
qed (auto simp: in_memory_sales_provider_def sales_reconcile_def sales_compensate_def sales_landed_def Let_def
    split: option.splits)

interpretation sales_guard: effect_guard "pg_guard [(''sales'', in_memory_sales_provider)] dig"
  pg_entries pg_outbox_ok sales_landed for dig
  by (intro effect_guard.intro effect_guard_axioms.intro pg_guarded.guarded_outbox_axioms)
    (simp add: pg_guard_def sales.effect_provider_axioms)

section \<open>What has been delivered\<close>

definition deliveries :: "sales_world \<Rightarrow> string \<Rightarrow> nat list" where
  "deliveries w k = filter (\<lambda>a. dget (sw_by_key w) k = Some a) (sw_crm_tasks w @ sw_emails w)"

text \<open>Tasks and mails are distinct records, and the keys are in bijection with them.\<close>

definition sales_ok :: "sales_world \<Rightarrow> bool" where
  "sales_ok w \<longleftrightarrow> distinct (dkeys (sw_by_key w)) \<and> distinct (map snd (sw_by_key w)) \<and>
     distinct (sw_crm_tasks w @ sw_emails w) \<and> set (sw_crm_tasks w @ sw_emails w) = set (map snd (sw_by_key w)) \<and>
     (\<forall>a \<in> set (map snd (sw_by_key w)). a < length (sw_store w)) \<and>
     (\<forall>a \<in> set (sw_crm_tasks w). sl_effect_name (sw_store w ! a) = CREATE_CRM_TASK) \<and>
     (\<forall>a \<in> set (sw_emails w). sl_effect_name (sw_store w ! a) = SEND_EMAIL)"

lemma sales_execute_ok: "sales_ok w \<Longrightarrow> sales_ok (snd (sales_execute req w))"
proof (cases "dget (sw_by_key w) (rq_idempotency_key req)")
  case None
  assume ok: "sales_ok w"
  have "rq_idempotency_key req \<notin> set (dkeys (sw_by_key w))" using None by (simp only: dget_None_iff not_False_eq_True)
  moreover have "length (sw_store w) \<notin> set (map snd (sw_by_key w))" using ok by (auto simp: sales_ok_def)
  moreover have "a < length (sw_store w)" if "a \<in> set (sw_crm_tasks w) \<or> a \<in> set (sw_emails w)" for a
  proof -
    have "a \<in> set (map snd (sw_by_key w))" using ok that unfolding sales_ok_def by (metis Un_iff set_append)
    then show ?thesis using ok unfolding sales_ok_def by blast
  qed
  ultimately show ?thesis using ok None
    by (auto simp: sales_execute_def sales_ok_def add_record_def dset_fresh nth_append Let_def)
qed (simp add: sales_execute_def)

lemma sales_compensate_ok: "sales_ok w \<Longrightarrow> sales_ok (snd (sales_compensate req ex w))"
  by (auto simp: sales_compensate_def sales_ok_def nth_list_update Let_def split: option.splits)

text \<open>A property of the world that the providers keep is kept by everything the guard does.\<close>

definition world_kept :: "('w \<Rightarrow> bool) \<Rightarrow> ('o \<times> 'w, pexn, 'a) eff \<Rightarrow> bool" where
  "world_kept J m \<longleftrightarrow> (\<forall>d w r d' w'. m (d, w) = (r, (d', w')) \<longrightarrow> J w \<longrightarrow> J w')"

definition keeps_world :: "('w \<Rightarrow> bool) \<Rightarrow> ('w, pexn, 'a) eff \<Rightarrow> bool" where
  "keeps_world J m \<longleftrightarrow> (\<forall>w r w'. m w = (r, w') \<longrightarrow> J w \<longrightarrow> J w')"

definition provider_keeps :: "('w \<Rightarrow> bool) \<Rightarrow> 'w action_provider \<Rightarrow> bool" where
  "provider_keeps J p \<longleftrightarrow> (\<forall>req. keeps_world J (ap_execute p req)) \<and> (\<forall>req. keeps_world J (ap_reconcile p req)) \<and>
     (\<forall>req ex. keeps_world J (ap_compensate p req ex))"

named_theorems keeping

lemma world_kept_basic [keeping]:
  "world_kept J (ereturn x)" "world_kept J (ethrow e)" "world_kept J (on_outbox m)"
  by (auto simp: world_kept_def ereturn_def ethrow_def on_outbox_def split: prod.splits)

lemma world_kept_on_world [keeping]: "keeps_world J m \<Longrightarrow> world_kept J (on_world m)"
  by (auto simp: world_kept_def keeps_world_def on_world_def split: prod.splits)

lemma world_kept_ebind [keeping]:
  assumes "world_kept J m" "\<And>x. world_kept J (f x)"
  shows "world_kept J (ebind m f)"
  unfolding world_kept_def
proof (intro allI impI)
  fix d w r d' w'
  assume b: "ebind m f (d, w) = (r, (d', w'))" and j: "J w"
  obtain q d1 w1 where m: "m (d, w) = (q, (d1, w1))" using prod.exhaust by metis
  then have "J w1" using assms(1) j unfolding world_kept_def by blast
  then show "J w'" using b m assms(2) unfolding world_kept_def by (cases q) (auto simp: ebind_def)
qed

lemma world_kept_etry [keeping]: "world_kept J m \<Longrightarrow> world_kept J (etry m)"
  by (auto simp: world_kept_def etry_def split: prod.splits)

lemma call_provider_keeps:
  assumes "provider_keeps J p"
  shows "keeps_world J (call_provider p req resuming)"
  unfolding keeps_world_def
proof (intro allI impI)
  fix w r w'
  assume c: "call_provider p req resuming w = (r, w')" and j: "J w"
  let ?m = "if resuming \<and> \<not> ap_supports_idempotency_key p (rq_effect_name req) then ap_reconcile p req else ereturn None"
  obtain q w1 where m: "?m w = (q, w1)" using prod.exhaust by metis
  then have j1: "J w1" using assms j by (auto simp: provider_keeps_def keeps_world_def ereturn_def split: if_splits)
  from c m consider "q = Inr None" "ap_execute p req w1 = (r, w')" | "w' = w1"
    unfolding call_provider_def by (cases q) (auto simp: ebind_def ereturn_def split: option.splits)
  then show "J w'" using j1 assms by cases (auto simp: provider_keeps_def keeps_world_def)
qed

lemma registered_keeps:
  "list_all (\<lambda>(n, p). provider_keeps J p) reg \<Longrightarrow> get_provider reg name = Inr p \<Longrightarrow> provider_keeps J p"
  by (auto simp: get_provider_def list_all_iff dest!: dget_Some_in split: option.splits)

lemma execute_keeps:
  assumes "list_all (\<lambda>(n, p). provider_keeps J p) (sg_providers g)"
  shows "world_kept J (execute g a)"
proof (cases "get_provider (sg_providers g) (ea_provider_name a)")
  case (Inr p)
  have "world_kept J (after_claim g a p row)" for row
    unfolding after_claim_def using call_provider_keeps [OF registered_keeps [OF assms Inr]]
    by (auto intro!: keeping)
  then show ?thesis unfolding execute_def Inr sum.case by (intro world_kept_ebind keeping)
qed (simp add: execute_def keeping)

lemma compensate_row_keeps:
  assumes "list_all (\<lambda>(n, p). provider_keeps J p) (sg_providers g)"
  shows "world_kept J (compensate_row g iid tid row)"
proof (cases "get_provider (sg_providers g) (oe_provider row)")
  case (Inr p)
  have "keeps_world J (ap_compensate p req ex)" for req ex
    using registered_keeps [OF assms Inr] by (simp add: provider_keeps_def)
  then show ?thesis unfolding compensate_row_def Inr sum.case by (intro world_kept_ebind keeping)
qed (simp add: compensate_row_def keeping)

lemma compensate_rows_keeps:
  assumes "list_all (\<lambda>(n, p). provider_keeps J p) (sg_providers g)"
  shows "world_kept J (compensate_rows g iid tid rows undone)"
proof (induction rows arbitrary: undone)
  case (Cons row rows)
  then show ?case unfolding compensate_rows.simps by (intro world_kept_ebind compensate_row_keeps [OF assms])
qed (simp add: keeping)

lemma world_kept_step: "world_kept J m \<Longrightarrow> m s = (r, s') \<Longrightarrow> J (snd s) \<Longrightarrow> J (snd s')"
  unfolding world_kept_def by (cases s; cases s') auto

lemma effect_run_keeps:
  assumes "effect_run g s0 s" and ps: "list_all (\<lambda>(n, p). provider_keeps J p) (sg_providers g)" and "J (snd s0)"
  shows "J (snd s)"
  using assms(1)
proof (induction rule: effect_run.induct)
  case start
  show ?case by (rule assms(3))
next
  case (ran s a r s')
  show ?case by (rule world_kept_step [OF execute_keeps [OF ps] ran(2,3)])
next
  case (died_after_claim s a p r' s')
  show ?case using died_after_claim(3,4) unfolding claim_step_def by (rule world_kept_step [OF world_kept_basic(3)])
next
  case (died_after_reconcile s a p row s1 q s')
  have "keeps_world J (ap_reconcile p (request_of g a))"
    using registered_keeps [OF ps died_after_reconcile(2)] by (simp add: provider_keeps_def)
  moreover have "J (snd s1)"
    using died_after_reconcile(3,5) unfolding claim_step_def by (rule world_kept_step [OF world_kept_basic(3)])
  ultimately show ?case using world_kept_step [OF world_kept_on_world died_after_reconcile(4)] by blast
next
  case (died_after_call s a p row s1 c s')
  have "J (snd s1)"
    using died_after_call(3,7) unfolding claim_step_def by (rule world_kept_step [OF world_kept_basic(3)])
  then show ?case
    by (rule world_kept_step [OF world_kept_on_world [OF call_provider_keeps [OF registered_keeps [OF ps died_after_call(2)]]] died_after_call(6)])
next
  case (compensated s iid tid rows s1 n u s')
  have "J (snd s1)" using compensated(2,4) by (rule world_kept_step [OF world_kept_basic(3)])
  then show ?case by (rule world_kept_step [OF compensate_rows_keeps [OF ps] compensated(3)])
next
  case (died_compensating s name p req ex v s')
  have "keeps_world J (ap_compensate p req ex)"
    using registered_keeps [OF ps died_compensating(2)] by (simp add: provider_keeps_def)
  then show ?case using died_compensating(3,4) by (rule world_kept_step [OF world_kept_on_world])
qed

section \<open>Properties\<close>

lemma sales_provider_keeps: "provider_keeps sales_ok in_memory_sales_provider"
  unfolding provider_keeps_def keeps_world_def in_memory_sales_provider_def
  using sales_execute_ok sales_compensate_ok by (auto simp: sales_reconcile_def) (metis snd_conv)+

lemma deliveries_landed:
  assumes "sales_ok w"
  shows "length (deliveries w k) = sales_landed k w"
proof (cases "dget (sw_by_key w) k")
  case None
  then show ?thesis by (simp add: deliveries_def sales_landed_def)
next
  case (Some a)
  then have "a \<in> set (map snd (sw_by_key w))" by (force dest: dget_Some_in)
  then have "distinct (sw_crm_tasks w @ sw_emails w)" "a \<in> set (sw_crm_tasks w @ sw_emails w)"
    using assms by (simp_all only: sales_ok_def)
  then have "length (filter ((=) a) (sw_crm_tasks w @ sw_emails w)) = 1"
    by (simp only: distinct_length_filter) (simp add: Int_absorb2 Collect_conv_if)
  then show ?thesis using Some by (simp only: deliveries_def sales_landed_def option.case option.inject)
qed

lemma delivered_key:
  assumes "sales_ok w" "a \<in> set (sw_crm_tasks w @ sw_emails w)"
  shows "\<exists>!k. dget (sw_by_key w) k = Some a"
proof -
  have a: "a \<in> set (map snd (sw_by_key w))" and d: "distinct (map snd (sw_by_key w))" "distinct (dkeys (sw_by_key w))"
    using assms by (simp_all only: sales_ok_def)
  then obtain k where "(k, a) \<in> set (sw_by_key w)" by auto
  then have "dget (sw_by_key w) k = Some a" using d(2) by (simp add: map_of_is_SomeI)
  moreover have "k' = k" if "dget (sw_by_key w) k' = Some a" for k'
  proof -
    have "(k', a) \<in> set (sw_by_key w)" using that by (rule dget_Some_in)
    then show ?thesis using \<open>(k, a) \<in> set (sw_by_key w)\<close> d(1) unfolding distinct_map
      by (auto dest: inj_onD [of snd _ "(k', a)" "(k, a)"])
  qed
  ultimately show ?thesis by blast
qed

text \<open>
  C19: the sales workflow contacts nobody twice. Run any sequence of guarded effects and compensations
  against the in-memory sales provider, each of which may die between its awaits, from an empty outbox.
  Then no key has more than one task or mail, every task and mail belongs to exactly one key, and an
  effect that returns has delivered exactly one under its key.
\<close>

theorem sales_effects_once:
  assumes "effect_run (pg_guard [(''sales'', in_memory_sales_provider)] dig) (d, new_sales_world) s"
    and "pg_outbox_ok d" "pg_entries d = []"
  shows "length (deliveries (snd s) k) \<le> 1 \<and>
    (\<forall>a \<in> set (sw_crm_tasks (snd s) @ sw_emails (snd s)). \<exists>!k. dget (sw_by_key (snd s)) k = Some a) \<and>
    (execute (pg_guard [(''sales'', in_memory_sales_provider)] dig) b s = (Inr out, s') \<longrightarrow>
       length (deliveries (snd s') (key_of (pg_guard [(''sales'', in_memory_sales_provider)] dig) b)) = 1)"
proof -
  let ?g = "pg_guard [(''sales'', in_memory_sales_provider)] dig"
  have ps: "list_all (\<lambda>(n, p). provider_keeps sales_ok p) (sg_providers ?g)"
    by (simp add: pg_guard_def sales_provider_keeps)
  have ok: "sales_ok (snd s)"
    by (rule effect_run_keeps [OF assms(1) ps]) (simp add: new_sales_world_def sales_ok_def)
  have once: "entry_once (safely_resumed sales_landed ?g) (\<lambda>k. sales_landed k (snd (d, new_sales_world))) (pg_entries (fst (d, new_sales_world))) k" for k
    using assms(3) by (simp add: entry_once_def sales_landed_def new_sales_world_def)
  have inv: "pg_outbox_ok (fst s) \<and> (\<forall>k. entry_once (safely_resumed sales_landed ?g) (\<lambda>k. sales_landed k (snd s)) (pg_entries (fst s)) k)"
    by (rule sales_guard.run_inv [OF assms(1)]) (use assms(2) once in auto)
  have le: "sales_landed k w \<le> 1" for k w by (simp add: sales_landed_def split: option.splits)
  have "length (deliveries (snd s') (key_of ?g b)) = 1" if x: "execute ?g b s = (Inr out, s')"
  proof -
    have "sales_ok (snd s')" by (rule world_kept_step [OF execute_keeps [OF ps] x ok])
    then show ?thesis
      using sales_guard.execute_inv [OF inv x] le [of "key_of ?g b" "snd s'"] by (simp add: deliveries_landed)
  qed
  then show ?thesis using le [of k "snd s"] delivered_key [OF ok] by (auto simp: deliveries_landed [OF ok])
qed

definition sample_mail :: effect_args where
  "sample_mail = \<lparr>ea_instance_id = ''i1'', ea_tenant_id = ''t1'', ea_step_id = ''send'',
     ea_effect_name = SEND_EMAIL, ea_params = [], ea_provider_name = ''sales''\<rparr>"

definition sales_sample_guard :: "(db, sales_world) side_effect_guard" where
  "sales_sample_guard = pg_guard [(''sales'', in_memory_sales_provider)] sample_digest"

text \<open>A mail whose attempt dies right after the provider has sent it, and the attempt that follows.\<close>

definition sample_sent :: "db \<times> sales_world" where
  "sample_sent =
     (case claim_step sales_sample_guard sample_mail in_memory_sales_provider (empty_db 500, new_sales_world) of
        (_, s1) \<Rightarrow> snd (on_world (call_provider in_memory_sales_provider (request_of sales_sample_guard sample_mail) False) s1))"

lemma sample_sent_run: "effect_run sales_sample_guard (empty_db 500, new_sales_world) sample_sent"
proof -
  let ?c = "claim_step sales_sample_guard sample_mail in_memory_sales_provider (empty_db 500, new_sales_world)"
  have p: "get_provider (sg_providers sales_sample_guard) (ea_provider_name sample_mail) = Inr in_memory_sales_provider"
    by (simp add: sales_sample_guard_def pg_guard_def get_provider_def sample_mail_def)
  have "case fst ?c of Inr row \<Rightarrow> oe_status row = ''pending'' \<and> oe_attempts row = 1 | Inl _ \<Rightarrow> False" by code_simp
  then obtain row where "fst ?c = Inr row" and row: "oe_status row = ''pending''" "oe_attempts row = 1"
    by (auto split: sum.splits)
  then have c: "?c = (Inr row, snd ?c)" by (metis prod.collapse)
  have "sample_sent = snd (on_world (call_provider in_memory_sales_provider (request_of sales_sample_guard sample_mail)
      (1 < oe_attempts row)) (snd ?c))"
    unfolding sample_sent_def row by (subst c) simp
  then show ?thesis using effect_run.died_after_call [OF effect_run.start p c] row by (simp add: prod_eq_iff)
qed

theorem sales_effects_once_witness:
  "\<exists>out s'. execute sales_sample_guard sample_mail sample_sent = (Inr out, s') \<and>
     length (deliveries (snd s') (key_of sales_sample_guard sample_mail)) = 1"
proof -
  let ?x = "execute sales_sample_guard sample_mail sample_sent"
  have "case fst ?x of Inr _ \<Rightarrow> True | Inl _ \<Rightarrow> False" by code_simp
  then obtain out where "fst ?x = Inr out" by (auto split: sum.splits)
  then have x: "?x = (Inr out, snd ?x)" by (metis prod.collapse)
  have "pg_outbox_ok (empty_db 500)" "pg_entries (empty_db 500) = []"
    by (simp_all add: pg_outbox_ok_def pg_entries_def empty_db_def)
  from sales_effects_once [OF sample_sent_run [unfolded sales_sample_guard_def] this, of _ sample_mail out "snd ?x"] x
  show ?thesis unfolding sales_sample_guard_def by blast
qed

end
