(* ===== verification/Sales.thy ===== *)
theory Sales
  imports Agents Driver SalesProvider
begin

text \<open>
  \<open>use_cases/sales_intelligence\<close>: the reference workflow. A lead is researched, scored against an
  ideal customer profile, and, when it qualifies, contacted: the models that flow between the steps, the
  four agents and the compensator, the provider of the two side effects, and the workflow definition.
  The conversions that pydantic makes to numbers and what \<open>dict\<close> makes of other values than
  dictionaries are parameters; characters outside ASCII in the prompts are written as a hyphen.
\<close>

section \<open>Models\<close>

text \<open>\<open>x.get\<close> needs a dictionary.\<close>

definition dict_of :: "json \<Rightarrow> pexn + obj" where
  "dict_of j = (case j of JObj d \<Rightarrow> Inr d | _ \<Rightarrow> Inl (PExn (OtherException ''AttributeError'') []))"

definition invalid_model :: pexn where
  "invalid_model = PExn PydanticValidationError []"

definition pick_fields :: "string list \<Rightarrow> obj \<Rightarrow> obj" where
  "pick_fields ks d = concat (map (\<lambda>k. case dget d k of None \<Rightarrow> [] | Some v \<Rightarrow> [(k, v)]) ks)"

definition LEAD_FIELDS :: "string list" where
  "LEAD_FIELDS = [''company_name'', ''domain'', ''contact_name'', ''contact_title'', ''contact_email'', ''source'', ''raw'']"

text \<open>A field of type string or list of strings, with its default; \<open>None\<close> when the value has another type.\<close>

definition str_field :: "string option \<Rightarrow> obj \<Rightarrow> string \<Rightarrow> json option" where
  "str_field dflt d k =
     (case dget d k of
        None \<Rightarrow> map_option JStr dflt
      | Some (JStr s) \<Rightarrow> Some (JStr s)
      | Some _ \<Rightarrow> None)"

fun is_str :: "json \<Rightarrow> bool" where
  "is_str (JStr _) = True"
| "is_str _ = False"

definition strs_field :: "obj \<Rightarrow> string \<Rightarrow> json option" where
  "strs_field d k =
     (case dget d k of
        None \<Rightarrow> Some (JArr [])
      | Some (JArr xs) \<Rightarrow> if list_all is_str xs then Some (JArr xs) else None
      | Some _ \<Rightarrow> None)"

fun model_dump :: "(string \<times> json option) list \<Rightarrow> pexn + obj" where
  "model_dump [] = Inr []"
| "model_dump ((k, v) # fs) =
     (case v of None \<Rightarrow> Inl invalid_model | Some j \<Rightarrow> rbind (model_dump fs) (\<lambda>d. Inr ((k, j) # d)))"

definition new_lead :: "obj \<Rightarrow> pexn + obj" where
  "new_lead d =
     model_dump
       [(''company_name'', str_field None d ''company_name''), (''domain'', str_field (Some []) d ''domain''),
        (''contact_name'', str_field (Some []) d ''contact_name''), (''contact_title'', str_field (Some []) d ''contact_title''),
        (''contact_email'', str_field (Some []) d ''contact_email''), (''source'', str_field (Some ''unknown'') d ''source''),
        (''raw'', case dget d ''raw'' of None \<Rightarrow> Some (JObj []) | Some (JObj r) \<Rightarrow> Some (JObj r) | Some _ \<Rightarrow> None)]"

text \<open>The context may nest the lead, as any value: \<open>k in data\<close> also works on strings and lists.\<close>

definition lead_known :: "json \<Rightarrow> pexn + obj" where
  "lead_known v =
     (let failure = Inl (PExn (OtherException ''TypeError'') []) in
      case v of
        JObj d \<Rightarrow> Inr (pick_fields LEAD_FIELDS d)
      | JStr s \<Rightarrow> if list_ex (\<lambda>k. substring k s) LEAD_FIELDS then failure else Inr []
      | JArr xs \<Rightarrow> if list_ex (\<lambda>k. JStr k \<in> set xs) LEAD_FIELDS then failure else Inr []
      | _ \<Rightarrow> failure)"

definition lead_from_context :: "obj \<Rightarrow> pexn + obj" where
  "lead_from_context ctx = rbind (lead_known (get_or (JObj ctx) ctx ''lead'')) new_lead"

record icp_profile =
  ic_name :: string
  ic_target_industries :: "string list"
  ic_min_headcount :: int
  ic_max_headcount :: int
  ic_target_titles :: "string list"
  ic_required_signals :: "string list"
  ic_disqualifiers :: "string list"
  ic_hot_threshold :: int
  ic_warm_threshold :: int
  ic_qualify_threshold :: int

definition default_icp :: icp_profile where
  "default_icp = \<lparr>ic_name = ''permissive-default'', ic_target_industries = [], ic_min_headcount = 0,
     ic_max_headcount = 1000000, ic_target_titles = [], ic_required_signals = [], ic_disqualifiers = [],
     ic_hot_threshold = 75, ic_warm_threshold = 50, ic_qualify_threshold = 25\<rparr>"

text \<open>Reading and validating the YAML file are parameters; an empty file reads as the empty dictionary.\<close>

definition load_icp :: "(string \<Rightarrow> json option) \<Rightarrow> (json \<Rightarrow> pexn + icp_profile) \<Rightarrow> string \<Rightarrow> pexn + icp_profile" where
  "load_icp read validate path =
     (case read path of
        None \<Rightarrow> Inl (PExn ConfigurationError (''ICP profile not found: '' @ path))
      | Some raw \<Rightarrow> validate (jor raw (JObj [])))"

record sales_env =
  sa_agent :: agent_env
  sa_tools :: tool_registry
  sa_icp :: icp_profile
  sa_review_margin :: int
  sa_provider :: string
  sa_dict :: "json \<Rightarrow> pexn + obj"
  sa_int :: "json \<Rightarrow> int option"
  sa_float :: "json \<Rightarrow> rat option"

abbreviation show_value :: "sales_env \<Rightarrow> json \<Rightarrow> string" where
  "show_value sa \<equiv> str_json (ag_float_repr (sa_agent sa))"

definition DOSSIER_FIELDS :: "string list" where
  "DOSSIER_FIELDS = [''company_summary'', ''industry'', ''headcount_estimate'', ''tech_stack'', ''buying_signals'',
     ''recent_news'', ''pain_hypotheses'', ''sources'', ''already_in_crm'', ''confidence'']"

definition new_dossier :: "sales_env \<Rightarrow> bool \<Rightarrow> obj \<Rightarrow> pexn + obj" where
  "new_dossier sa already_in_crm d =
     model_dump
       [(''company_summary'', str_field (Some []) d ''company_summary''), (''industry'', str_field (Some []) d ''industry''),
        (''headcount_estimate'', case getj d ''headcount_estimate'' of JNull \<Rightarrow> Some JNull | j \<Rightarrow> map_option JInt (sa_int sa j)),
        (''tech_stack'', strs_field d ''tech_stack''), (''buying_signals'', strs_field d ''buying_signals''),
        (''recent_news'', strs_field d ''recent_news''), (''pain_hypotheses'', strs_field d ''pain_hypotheses''),
        (''sources'', strs_field d ''sources''), (''already_in_crm'', Some (JBool already_in_crm)),
        (''confidence'', case dget d ''confidence'' of
            None \<Rightarrow> Some (JFloat 0)
          | Some j \<Rightarrow> (case sa_float sa j of
              Some x \<Rightarrow> if 0 \<le> x \<and> x \<le> 1 then Some (JFloat x) else None
            | None \<Rightarrow> None))]"

definition empty_dossier :: "bool \<Rightarrow> obj" where
  "empty_dossier already_in_crm =
     [(''company_summary'', JStr []), (''industry'', JStr []), (''headcount_estimate'', JNull), (''tech_stack'', JArr []),
      (''buying_signals'', JArr []), (''recent_news'', JArr []), (''pain_hypotheses'', JArr []), (''sources'', JArr []),
      (''already_in_crm'', JBool already_in_crm), (''confidence'', JFloat 0)]"

record lead_score =
  ls_fit_score :: int
  ls_tier :: string
  ls_rationale :: string
  ls_matched_criteria :: "string list"
  ls_missing_criteria :: "string list"
  ls_disqualifier_hits :: "string list"
  ls_recommended_action :: string

definition strs :: "string list \<Rightarrow> json" where
  "strs xs = JArr (map JStr xs)"

definition score_dump :: "lead_score \<Rightarrow> obj" where
  "score_dump sc =
     [(''fit_score'', JInt (ls_fit_score sc)), (''tier'', JStr (ls_tier sc)), (''rationale'', JStr (ls_rationale sc)),
      (''matched_criteria'', strs (ls_matched_criteria sc)), (''missing_criteria'', strs (ls_missing_criteria sc)),
      (''disqualifier_hits'', strs (ls_disqualifier_hits sc)), (''recommended_action'', JStr (ls_recommended_action sc))]"

definition lead_qualified :: "lead_score \<Rightarrow> bool" where
  "lead_qualified sc \<longleftrightarrow> ls_tier sc \<noteq> ''disqualified''"

definition receipt_dump :: "bool \<Rightarrow> string \<Rightarrow> string option \<Rightarrow> string option \<Rightarrow> obj" where
  "receipt_dump skipped reason crm_task_ref email_ref =
     [(''skipped'', JBool skipped), (''reason'', JStr reason),
      (''crm_task_ref'', case crm_task_ref of None \<Rightarrow> JNull | Some r \<Rightarrow> JStr r),
      (''email_ref'', case email_ref of None \<Rightarrow> JNull | Some r \<Rightarrow> JStr r)]"

lemma receipt_dump_not_empty [simp]: "receipt_dump b r c e \<noteq> []"
  by (simp add: receipt_dump_def)

section \<open>Tools\<close>

definition CRM_LOOKUP :: string where
  "CRM_LOOKUP = ''crm_lookup''"

definition WEB_ENRICH :: string where
  "WEB_ENRICH = ''web_enrich''"

type_synonym lookup_fn = "json \<Rightarrow> (json \<Rightarrow> runner_prog) \<Rightarrow> runner_prog"

definition default_crm_lookup :: lookup_fn where
  "default_crm_lookup args k = k (JObj [(''found'', JBool False), (''note'', JStr ''no CRM lookup configured'')])"

definition default_web_enrich :: lookup_fn where
  "default_web_enrich args k = k (JObj [(''note'', JStr ''no enrichment source configured'')])"

definition build_sales_tools :: "lookup_fn option \<Rightarrow> lookup_fn option \<Rightarrow> tool_registry" where
  "build_sales_tools crm_lookup web_enrich =
     register_tool
       (function_tool WEB_ENRICH
          (''Fetch public firmographic data for a company (industry, headcount, '' @
           ''tech, news). args: {\"domain\": str}'')
          (case web_enrich of Some f \<Rightarrow> f | None \<Rightarrow> default_web_enrich))
       (register_tool
          (function_tool CRM_LOOKUP
             (''Look up whether a company/contact already exists in the CRM. '' @
              ''args: {\"domain\": str, \"company_name\": str}'')
             (case crm_lookup of Some f \<Rightarrow> f | None \<Rightarrow> default_crm_lookup)) [])"

definition run_tool :: "tool_registry \<Rightarrow> string \<Rightarrow> lookup_fn" where
  "run_tool reg name args k = with_res (get_tool reg name) (\<lambda>t. at_call t args k)"

definition py_dict :: "sales_env \<Rightarrow> json \<Rightarrow> pexn + obj" where
  "py_dict sa j = (case j of JObj d \<Rightarrow> Inr d | _ \<Rightarrow> sa_dict sa j)"

section \<open>Prompts\<close>

definition RESEARCH_SYSTEM :: string where
  "RESEARCH_SYSTEM =
     ''You are a B2B sales research analyst. Given a lead, you assemble a concise, '' @
     ''factual dossier: what the company does, its size and industry, the tools it '' @
     ''uses, and any signals that it might be in-market. Never invent specifics - if '' @
     ''a fact is unknown, leave it out and lower your confidence. Prefer primary '' @
     ''sources and note where each claim came from.''"

definition SCORING_SYSTEM :: string where
  "SCORING_SYSTEM =
     ''You are a sales qualification engine. You score a lead 0-100 against an Ideal '' @
     ''Customer Profile (ICP), citing which criteria matched and which did not. Be '' @
     ''conservative: a missing signal is not a matched signal. Flag any ICP '' @
     ''disqualifier you see. Return only the requested JSON.''"

definition COPYWRITING_SYSTEM :: string where
  "COPYWRITING_SYSTEM =
     ''You are a senior SDR who writes outreach that gets replies. You write for one '' @
     ''specific person about one specific, credible reason to talk now. You never use '' @
     ''spam-trigger language, fake familiarity, or more than a few sentences.'' @ nl @ nl @
     ''House style:'' @ nl @
     ''- Email: subject under 8 words, body 60-110 words, one clear call to action, '' @
     ''no attachments-language, no '' @ [CHR 39] @ ''I hope this finds you well'' @ [CHR 39] @ ''.'' @ nl @
     ''- LinkedIn: under 60 words, even more informal, no links.'' @ nl @
     ''- Every message must reference at least one concrete detail from the dossier.'' @ nl @
     ''- Plain sentences. No em-dash-stuffed clauses. No buzzwords ('' @ [CHR 39] @ ''synergy'' @ [CHR 39] @ '', '' @
     [CHR 39] @ ''circle back'' @ [CHR 39] @ '', '' @ [CHR 39] @ ''touch base'' @ [CHR 39] @ '', '' @
     [CHR 39] @ ''game-changer'' @ [CHR 39] @ '').''"

definition COPY_REVIEW_SYSTEM :: string where
  "COPY_REVIEW_SYSTEM =
     ''You are a strict outreach reviewer. You check a draft against the house style '' @
     ''and flag every violation: length, banned phrases, missing personalization, '' @
     ''weak or missing call to action, generic opener. Return only the requested JSON.''"

section \<open>Research\<close>

definition research_initial :: "step_context \<Rightarrow> pexn + obj" where
  "research_initial ctx = rbind (lead_from_context (sc_inputs ctx)) (\<lambda>lead. Inr [(''lead'', JObj lead)])"

definition research_gather :: "sales_env \<Rightarrow> node" where
  "research_gather sa st k =
     with_res (dict_of (getj st ''lead'')) (\<lambda>lead.
     run_tool (sa_tools sa) CRM_LOOKUP
       (JObj [(''domain'', get_or (JStr []) lead ''domain''), (''company_name'', get_or (JStr []) lead ''company_name'')]) (\<lambda>crm.
     run_tool (sa_tools sa) WEB_ENRICH (JObj [(''domain'', get_or (JStr []) lead ''domain'')]) (\<lambda>enrichment.
     with_res (py_dict sa crm) (\<lambda>c.
     with_res (py_dict sa enrichment) (\<lambda>e.
       k [(''crm'', JObj c), (''enrichment'', JObj e)])))))"

definition coerce_dossier :: "sales_env \<Rightarrow> json \<Rightarrow> bool \<Rightarrow> obj" where
  "coerce_dossier sa raw already_in_crm =
     (let data = (case raw of JObj d \<Rightarrow> d | _ \<Rightarrow> []) in
      case new_dossier sa already_in_crm (pick_fields DOSSIER_FIELDS data) of
        Inr d \<Rightarrow> d
      | Inl _ \<Rightarrow> empty_dossier already_in_crm)"

definition research_synthesize :: "sales_env \<Rightarrow> node" where
  "research_synthesize sa st k =
     ask_json (sa_agent sa) RESEARCH_SYSTEM
       (''Lead: '' @ show_value sa (getj st ''lead'') @ nl @
        ''CRM record: '' @ show_value sa (getj st ''crm'') @ nl @
        ''Enrichment data: '' @ show_value sa (getj st ''enrichment'') @ nl @ nl @
        ''Build the dossier. Return JSON with keys: company_summary (str), '' @
        ''industry (str), headcount_estimate (int or null), tech_stack (list[str]), '' @
        ''buying_signals (list[str]), recent_news (list[str]), pain_hypotheses '' @
        ''(list[str]), sources (list[str]), confidence (0.0-1.0 float).'')
       STANDARD ''sales_research'' (\<lambda>raw.
     with_res (as_dict (getj st ''crm'')) (\<lambda>crm.
       k [(''dossier'', JObj (coerce_dossier sa raw (truthy (getj crm ''found''))))]))"

definition research_graph :: "sales_env \<Rightarrow> graph" where
  "research_graph sa =
     \<lparr>gr_entry = ''gather'',
      gr_nodes = [(''gather'', research_gather sa), (''synthesize'', research_synthesize sa)],
      gr_edges = chain_edges [(''gather'', Some ''synthesize''), (''synthesize'', None)]\<rparr>"

definition research_result :: "obj \<Rightarrow> step_result" where
  "research_result st =
     \<lparr>sr_output = [(''lead'', getj st ''lead''), (''dossier'', get_or (JObj (empty_dossier False)) st ''dossier'')],
      sr_model_used = None\<rparr>"

definition research_agent :: "sales_env \<Rightarrow> step_runner" where
  "research_agent sa ctx =
     run_agent (sa_agent sa) (research_graph sa) (research_initial ctx) (\<lambda>st. Inr (research_result st))"

section \<open>Scoring\<close>

definition inherited :: "step_context \<Rightarrow> string \<Rightarrow> obj \<Rightarrow> json" where
  "inherited ctx k research = get_or (get_or (JObj []) (sc_inputs ctx) k) research k"

definition scoring_initial :: "step_context \<Rightarrow> pexn + obj" where
  "scoring_initial ctx =
     rbind (dict_of (get_or (JObj []) (sc_inputs ctx) ''research'')) (\<lambda>research.
       Inr [(''dossier'', inherited ctx ''dossier'' research), (''lead'', inherited ctx ''lead'' research)])"

definition scoring_score :: "sales_env \<Rightarrow> node" where
  "scoring_score sa st k =
     (let icp = sa_icp sa in
      ask_json (sa_agent sa) SCORING_SYSTEM
        (''ICP: industries='' @ show_value sa (strs (ic_target_industries icp)) @ '', headcount '' @
         show_int (ic_min_headcount icp) @ ''-'' @ show_int (ic_max_headcount icp) @
         '', titles='' @ show_value sa (strs (ic_target_titles icp)) @ '', '' @
         ''required signals='' @ show_value sa (strs (ic_required_signals icp)) @
         '', disqualifiers='' @ show_value sa (strs (ic_disqualifiers icp)) @ nl @ nl @
         ''Lead: '' @ show_value sa (getj st ''lead'') @ nl @ ''Dossier: '' @ show_value sa (getj st ''dossier'') @ nl @ nl @
         ''Return {\"fit_score\": 0-100 int, \"rationale\": str, \"matched_criteria\": '' @
         ''[str], \"missing_criteria\": [str], \"disqualifier_hits\": [str], '' @
         ''\"recommended_action\": str}.'')
        CHEAP ''sales_scoring''
        (\<lambda>proposal. k [(''proposal'', case proposal of JObj d \<Rightarrow> JObj d | _ \<Rightarrow> JObj [])]))"

text \<open>\<open>int(x)\<close> of a number, booleans included; other values count as zero.\<close>

definition fit_of :: "json \<Rightarrow> int" where
  "fit_of raw_score =
     max 0 (min 100 (case num_of raw_score of
       Some x \<Rightarrow> if 0 \<le> x then \<lfloor>x\<rfloor> else \<lceil>x\<rceil>
     | None \<Rightarrow> 0))"

definition tier_for :: "icp_profile \<Rightarrow> string list \<Rightarrow> int \<Rightarrow> string" where
  "tier_for icp hits fit =
     (if hits \<noteq> [] \<or> fit < ic_qualify_threshold icp then ''disqualified''
      else if fit \<ge> ic_hot_threshold icp then ''hot''
      else if fit \<ge> ic_warm_threshold icp then ''warm''
      else ''cold'')"

definition str_list :: "sales_env \<Rightarrow> json \<Rightarrow> pexn + string list" where
  "str_list sa j = rbind (iterate j) (\<lambda>xs. Inr (map (show_value sa) xs))"

definition str_list_truthy :: "sales_env \<Rightarrow> json \<Rightarrow> pexn + string list" where
  "str_list_truthy sa j = rbind (iterate j) (\<lambda>xs. Inr (map (show_value sa) (filter truthy xs)))"

definition scored :: "sales_env \<Rightarrow> obj \<Rightarrow> pexn + lead_score" where
  "scored sa p =
     rbind (str_list_truthy sa (get_or (JArr []) p ''disqualifier_hits'')) (\<lambda>hits.
     rbind (str_list sa (get_or (JArr []) p ''matched_criteria'')) (\<lambda>matched.
     rbind (str_list sa (get_or (JArr []) p ''missing_criteria'')) (\<lambda>missing.
       let fit = fit_of (get_or (JInt 0) p ''fit_score'') in
       Inr \<lparr>ls_fit_score = fit, ls_tier = tier_for (sa_icp sa) hits fit,
            ls_rationale = show_value sa (get_or (JStr []) p ''rationale''),
            ls_matched_criteria = matched, ls_missing_criteria = missing, ls_disqualifier_hits = hits,
            ls_recommended_action = show_value sa (get_or (JStr []) p ''recommended_action'')\<rparr>)))"

definition borderline :: "sales_env \<Rightarrow> lead_score \<Rightarrow> bool" where
  "borderline sa sc \<longleftrightarrow> sa_review_margin sa \<noteq> 0 \<and> ls_disqualifier_hits sc = [] \<and>
     \<bar>ls_fit_score sc - ic_qualify_threshold (sa_icp sa)\<bar> \<le> sa_review_margin sa"

definition border_review :: "sales_env \<Rightarrow> int \<Rightarrow> review_request" where
  "border_review sa fit =
     (let border = sa_review_margin sa; line = ic_qualify_threshold (sa_icp sa) in
      \<lparr>rv_reason = ''low_confidence'',
       rv_confidence = of_int (round_half_even (of_int \<bar>fit - line\<bar> / of_int (max border 1) * 100)) / 100,
       rv_recommendation = ''fit score '' @ show_int fit @ '' is within '' @ show_int border @ '' of the qualify line '' @
         ''('' @ show_int line @ '') - confirm before outreach'',
       rv_options = [], rv_auto_action = ''abort'', rv_timeout_seconds = None\<rparr>)"

definition scoring_calibrate :: "sales_env \<Rightarrow> node" where
  "scoring_calibrate sa st k =
     with_res (as_dict (getj st ''proposal'')) (\<lambda>p.
     with_res (scored sa p) (\<lambda>sc.
       if borderline sa sc
       then RequestReview (border_review sa (ls_fit_score sc)) (k [(''score'', JObj (score_dump sc))])
       else k [(''score'', JObj (score_dump sc))]))"

definition scoring_graph :: "sales_env \<Rightarrow> graph" where
  "scoring_graph sa =
     \<lparr>gr_entry = ''score'',
      gr_nodes = [(''score'', scoring_score sa), (''calibrate'', scoring_calibrate sa)],
      gr_edges = chain_edges [(''score'', Some ''calibrate''), (''calibrate'', None)]\<rparr>"

definition scoring_result :: "obj \<Rightarrow> pexn + step_result" where
  "scoring_result st =
     (case get_or (JObj []) st ''score'' of
        JObj d \<Rightarrow> Inr \<lparr>sr_output = d, sr_model_used = None\<rparr>
      | _ \<Rightarrow> Inl invalid_model)"

definition scoring_agent :: "sales_env \<Rightarrow> step_runner" where
  "scoring_agent sa ctx = run_agent (sa_agent sa) (scoring_graph sa) (scoring_initial ctx) scoring_result"

section \<open>Copywriting\<close>

definition copy_initial :: "step_context \<Rightarrow> pexn + obj" where
  "copy_initial ctx =
     rbind (dict_of (get_or (JObj []) (sc_inputs ctx) ''research'')) (\<lambda>research.
       Inr [(''lead'', inherited ctx ''lead'' research), (''dossier'', inherited ctx ''dossier'' research),
            (''score'', get_or (JObj []) (sc_inputs ctx) ''score''), (''revisions'', JInt 0)])"

definition draft_of :: "sales_env \<Rightarrow> string \<Rightarrow> json \<Rightarrow> pexn + json" where
  "draft_of sa channel raw =
     (let data = (case raw of JObj d \<Rightarrow> d | _ \<Rightarrow> []) in
      rbind (str_list sa (get_or (JArr []) data ''personalization_notes'')) (\<lambda>notes.
        Inr (JObj [(''channel'', JStr channel), (''subject'', JStr (show_value sa (get_or (JStr []) data ''subject''))),
             (''body'', JStr (show_value sa (get_or (JStr []) data ''body''))),
             (''call_to_action'', JStr (show_value sa (get_or (JStr []) data ''call_to_action''))),
             (''personalization_notes'', strs notes)])))"

definition copy_draft :: "sales_env \<Rightarrow> node" where
  "copy_draft sa st k =
     with_res (as_dict (getj st ''score'')) (\<lambda>score.
     if getj score ''tier'' = JStr ''disqualified'' then k [(''skipped'', JBool True)]
     else ask_json (sa_agent sa) COPYWRITING_SYSTEM
       (''Lead: '' @ show_value sa (getj st ''lead'') @ nl @ ''Dossier: '' @ show_value sa (getj st ''dossier'') @ nl @
        ''Why now (score rationale): '' @ show_value sa (get_or (JStr []) score ''rationale'') @ nl @ nl @
        ''Return {\"email\": {\"subject\": str, \"body\": str, \"call_to_action\": str, '' @
        ''\"personalization_notes\": [str]}, \"linkedin\": {\"body\": str, '' @
        ''\"call_to_action\": str, \"personalization_notes\": [str]}}.'')
       STANDARD ''sales_copywriting'' (\<lambda>drafts.
     let d = (case drafts of JObj d \<Rightarrow> d | _ \<Rightarrow> []) in
     with_res (draft_of sa ''email'' (getj d ''email'')) (\<lambda>email.
     with_res (draft_of sa ''linkedin'' (getj d ''linkedin'')) (\<lambda>linkedin.
       k [(''email'', email), (''linkedin'', linkedin)]))))"

definition copy_edges :: "string \<Rightarrow> obj \<Rightarrow> pexn + string option" where
  "copy_edges node st =
     Inr (if node = ''draft'' then (if truthy (getj st ''skipped'') then None else Some ''review'')
          else if node = ''review'' then Some ''finalize'' else None)"

definition copy_review :: "sales_env \<Rightarrow> node" where
  "copy_review sa st k =
     ask_json (sa_agent sa) COPY_REVIEW_SYSTEM
       (''Email: '' @ show_value sa (getj st ''email'') @ nl @ ''LinkedIn: '' @ show_value sa (getj st ''linkedin'') @ nl @ nl @
        ''Return {\"issues\": [str]} - every house-style violation, empty if clean.'')
       CHEAP ''sales_copy_review'' (\<lambda>verdict.
     with_res (str_list_truthy sa (case verdict of JObj d \<Rightarrow> get_or (JArr []) d ''issues'' | _ \<Rightarrow> JArr [])) (\<lambda>issues.
       k [(''issues'', strs issues)]))"

definition redraft :: "sales_env \<Rightarrow> string \<Rightarrow> obj \<Rightarrow> pexn + obj" where
  "redraft sa channel d =
     (if truthy (getj d channel)
      then rbind (draft_of sa channel (getj d channel)) (\<lambda>x. Inr [(channel, x)]) else Inr [])"

definition copy_finalize :: "sales_env \<Rightarrow> node" where
  "copy_finalize sa st k =
     (let issues = jor (getj st ''issues'') (JArr []) in
      if \<not> truthy issues then k []
      else ask_json (sa_agent sa) COPYWRITING_SYSTEM
        (''Email: '' @ show_value sa (getj st ''email'') @ nl @ ''LinkedIn: '' @ show_value sa (getj st ''linkedin'') @ nl @
         ''Fix these issues: '' @ show_value sa issues @ nl @ nl @
         ''Return the corrected drafts in the same JSON shape as before.'')
        STANDARD ''sales_copy_revise'' (\<lambda>fixed.
      let d = (case fixed of JObj d \<Rightarrow> d | _ \<Rightarrow> []) in
      with_res (redraft sa ''email'' d) (\<lambda>email.
      with_res (redraft sa ''linkedin'' d) (\<lambda>linkedin.
        k ([(''revisions'', JInt (int_of (get_or (JInt 0) st ''revisions'') + 1))] @ email @ linkedin)))))"

definition copy_graph :: "sales_env \<Rightarrow> graph" where
  "copy_graph sa =
     \<lparr>gr_entry = ''draft'',
      gr_nodes = [(''draft'', copy_draft sa), (''review'', copy_review sa), (''finalize'', copy_finalize sa)],
      gr_edges = copy_edges\<rparr>"

text \<open>The drafts in the state are dumps of drafts, which validate as themselves.\<close>

definition copy_result :: "obj \<Rightarrow> pexn + step_result" where
  "copy_result st =
     (if truthy (getj st ''skipped'')
      then Inr \<lparr>sr_output = [(''skipped'', JBool True), (''reason'', JStr ''lead disqualified'')], sr_model_used = None\<rparr>
      else case (dget st ''email'', dget st ''linkedin'') of
        (Some email, Some linkedin) \<Rightarrow>
          Inr \<lparr>sr_output = [(''skipped'', JBool False),
                 (''outreach'', JObj [(''email'', email), (''linkedin'', linkedin),
                    (''revisions'', get_or (JInt 0) st ''revisions''),
                    (''quality_issues'', get_or (JArr []) st ''issues''), (''send_ready'', JBool True)])],
               sr_model_used = None\<rparr>
      | _ \<Rightarrow> Inl (PExn PyKeyError []))"

definition copywriting_agent :: "sales_env \<Rightarrow> step_runner" where
  "copywriting_agent sa ctx = run_agent (sa_agent sa) (copy_graph sa) (copy_initial ctx) copy_result"

section \<open>Outreach\<close>

definition outreach_initial :: "step_context \<Rightarrow> pexn + obj" where
  "outreach_initial ctx =
     rbind (dict_of (get_or (JObj []) (sc_inputs ctx) ''research'')) (\<lambda>research.
     rbind (dict_of (get_or (JObj []) (sc_inputs ctx) ''draft_outreach'')) (\<lambda>cp.
       let skipped = truthy (getj cp ''skipped'') in
       Inr [(''lead'', inherited ctx ''lead'' research), (''score'', get_or (JObj []) (sc_inputs ctx) ''score''),
            (''outreach'', get_or (JObj []) cp ''outreach''), (''skipped'', JBool skipped),
            (''reason'', if skipped then get_or (JStr ''lead disqualified'') cp ''reason'' else JStr [])]))"

definition ref_of :: "sales_env \<Rightarrow> effect_result \<Rightarrow> string option" where
  "ref_of sa r = (if truthy (getj (ef_data r) ''ref'') then Some (show_value sa (getj (ef_data r) ''ref'')) else None)"

text \<open>The mail is looked at only after the task has been created.\<close>

definition outreach_dispatch :: "sales_env \<Rightarrow> node" where
  "outreach_dispatch sa st k =
     (if truthy (getj st ''skipped'') \<or> \<not> truthy (getj st ''outreach'')
      then (case get_or (JStr []) st ''reason'' of
              JStr reason \<Rightarrow> k [(''receipt'', JObj (receipt_dump True reason None None))]
            | _ \<Rightarrow> Raise invalid_model)
      else
        with_res (as_dict (getj st ''lead'')) (\<lambda>lead.
        with_res (as_dict (getj st ''score'')) (\<lambda>score.
        with_res (dict_of (getj st ''outreach'')) (\<lambda>outreach.
        let email = get_or (JObj []) outreach ''email''; tier = get_or (JStr ''lead'') score ''tier'' in
        ExecuteEffect CREATE_CRM_TASK
          [(''company'', get_or (JStr []) lead ''company_name''), (''contact'', get_or (JStr []) lead ''contact_name''),
           (''contact_email'', get_or (JStr []) lead ''contact_email''), (''tier'', tier),
           (''summary'', JStr (''Outreach queued ('' @ show_value sa tier @ ''): '' @
              show_value sa (get_or (JStr []) score ''rationale'')))]
          (sa_provider sa) (\<lambda>r. with_res r (\<lambda>task.
        with_res (dict_of email) (\<lambda>email.
        ExecuteEffect SEND_EMAIL
          [(''to'', get_or (JStr []) lead ''contact_email''), (''subject'', get_or (JStr []) email ''subject''),
           (''body'', get_or (JStr []) email ''body'')]
          (sa_provider sa) (\<lambda>r. with_res r (\<lambda>sent.
          k [(''receipt'', JObj (receipt_dump False [] (ref_of sa task) (ref_of sa sent)))])))))))))"

definition outreach_graph :: "sales_env \<Rightarrow> graph" where
  "outreach_graph sa =
     \<lparr>gr_entry = ''dispatch'', gr_nodes = [(''dispatch'', outreach_dispatch sa)],
      gr_edges = chain_edges [(''dispatch'', None)]\<rparr>"

definition outreach_result :: "obj \<Rightarrow> pexn + step_result" where
  "outreach_result st =
     (case jor (getj st ''receipt'') (JObj (receipt_dump True [] None None)) of
        JObj receipt \<Rightarrow> Inr \<lparr>sr_output = receipt, sr_model_used = None\<rparr>
      | _ \<Rightarrow> Inl invalid_model)"

definition outreach_agent :: "sales_env \<Rightarrow> step_runner" where
  "outreach_agent sa ctx = run_agent (sa_agent sa) (outreach_graph sa) (outreach_initial ctx) outreach_result"

definition outreach_compensator :: step_runner where
  "outreach_compensator ctx =
     with_res (dict_of (get_or (JObj []) (sc_inputs ctx) ''output'')) (\<lambda>prior.
       Return \<lparr>sr_output = [(''compensated'', JBool True), (''crm_task_ref'', getj prior ''crm_task_ref''),
          (''email_ref'', getj prior ''email_ref'')], sr_model_used = None\<rparr>)"

section \<open>The workflow\<close>

definition register_sales_intelligence :: "sales_env \<Rightarrow> step_registry \<Rightarrow> step_registry" where
  "register_sales_intelligence sa reg =
     register_runner ''sales_outreach_compensator'' outreach_compensator
       (register_runner ''sales_outreach_agent'' (outreach_agent sa)
         (register_runner ''sales_copywriting_agent'' (copywriting_agent sa)
           (register_runner ''sales_scoring_agent'' (scoring_agent sa)
             (register_runner ''sales_research_agent'' (research_agent sa) reg))))"

definition LLM_RETRY :: retry_policy where
  "LLM_RETRY = default_retry_policy\<lparr>rp_max_retries := 2\<rparr>"

definition research_step :: workflow_step where
  "research_step = (mk_step ''research'' ''Research the lead'' ''sales_research_agent'' [])
     \<lparr>ws_timeout_seconds := 180, ws_retry_policy := LLM_RETRY\<rparr>"

definition score_step :: workflow_step where
  "score_step = (mk_step ''score'' ''Score against ICP'' ''sales_scoring_agent'' [''research''])
     \<lparr>ws_cost_tier := CHEAP, ws_timeout_seconds := 120, ws_retry_policy := LLM_RETRY\<rparr>"

definition draft_step :: workflow_step where
  "draft_step = (mk_step ''draft_outreach'' ''Draft outreach'' ''sales_copywriting_agent'' [''research'', ''score''])
     \<lparr>ws_timeout_seconds := 180, ws_retry_policy := LLM_RETRY\<rparr>"

definition send_step :: "bool \<Rightarrow> int option \<Rightarrow> workflow_step" where
  "send_step require_send_approval approval_timeout_seconds =
     (mk_step ''send'' ''Send outreach'' ''sales_outreach_agent'' [''research'', ''score'', ''draft_outreach''])
     \<lparr>ws_cost_tier := CHEAP, ws_timeout_seconds := 120, ws_side_effects := [CREATE_CRM_TASK, SEND_EMAIL],
      ws_compensation_action := Some ''sales_outreach_compensator'', ws_requires_approval := require_send_approval,
      ws_approval_timeout_seconds := approval_timeout_seconds, ws_approval_auto_action := ''skip''\<rparr>"

definition sales_definition :: "string \<Rightarrow> bool \<Rightarrow> int option \<Rightarrow> workflow_definition" where
  "sales_definition version require_send_approval approval_timeout_seconds =
     \<lparr>wd_workflow_id = ''sales-intelligence'', wd_name = ''Sales Intelligence & Outreach'',
      wd_description = ''Research a lead, qualify it against the ICP, and send first-touch outreach.'',
      wd_version = version,
      wd_steps = [research_step, score_step, draft_step, send_step require_send_approval approval_timeout_seconds],
      wd_global_timeout_seconds = 3600, wd_max_concurrent_steps = 2, wd_on_failure = OF_ROLLBACK\<rparr>"

definition sales_intelligence_workflow :: "string \<Rightarrow> bool \<Rightarrow> int option \<Rightarrow> workflow_definition res" where
  "sales_intelligence_workflow version require_send_approval approval_timeout_seconds =
     new_definition (sales_definition version require_send_approval approval_timeout_seconds)"

lemma sales_workflow_accepted:
  "sales_intelligence_workflow v r t = Inr d \<longleftrightarrow>
     d = sales_definition v r t \<and> semver_pattern v \<and> (\<forall>x. t = Some x \<longrightarrow> 0 < x)"
proof -
  have g: "validate_graph (sales_definition v r t) = Inr ()" by code_simp
  have fixed: "workflow_step_fields research_step" "workflow_step_fields score_step" "workflow_step_fields draft_step"
    "ident_pattern ''sales-intelligence''" by code_simp+
  have "workflow_step_fields (send_step True None)" by code_simp
  then have "workflow_step_fields (send_step r t) \<longleftrightarrow> (\<forall>x. t = Some x \<longrightarrow> 0 < x)"
    by (cases t) (simp_all add: workflow_step_fields_def send_step_def)
  then have "workflow_definition_fields (sales_definition v r t) \<longleftrightarrow> semver_pattern v \<and> (\<forall>x. t = Some x \<longrightarrow> 0 < x)"
    by (simp add: sales_definition_def workflow_definition_fields_def fixed)
  then show ?thesis by (auto simp: sales_intelligence_workflow_def new_definition_def g)
qed

lemma sales_agents_registered:
  "\<forall>st \<in> set (wd_steps (sales_definition v r t)).
     (\<exists>f. get_runner (register_sales_intelligence sa reg) (ws_agent_type st) = Inr f) \<and>
     (\<forall>c. ws_compensation_action st = Some c \<longrightarrow> (\<exists>f. get_runner (register_sales_intelligence sa reg) c = Inr f))"
  by (simp add: sales_definition_def research_step_def score_step_def draft_step_def send_step_def mk_step_def
      register_sales_intelligence_def register_runner_def get_runner_def)

section \<open>What a program requests for review\<close>

text \<open>Every result of a program satisfies \<open>Q\<close>, together with the review requested last.\<close>

primrec ends_with :: "(step_result \<Rightarrow> review_request option \<Rightarrow> bool) \<Rightarrow> runner_prog \<Rightarrow> review_request option \<Rightarrow> bool" where
  "ends_with Q (Return res) rv = Q res rv"
| "ends_with Q (Raise e) rv = True"
| "ends_with Q (Charge c p) rv = ends_with Q p rv"
| "ends_with Q (RequestReview r p) rv = ends_with Q p (Some r)"
| "ends_with Q (ExecuteEffect name params provider k) rv = (\<forall>r. ends_with Q (k r) rv)"
| "ends_with Q (CallLLM c k) rv = (\<forall>r. ends_with Q (k r) rv)"
| "ends_with Q (Await what k) rv = (\<forall>r. ends_with Q (k r) rv)"

lemma llm_review: "llm sv c (ctx, s) = (r, (ctx', s')) \<Longrightarrow> sc_review ctx' = sc_review ctx"
  by (auto simp: llm_def charge_def Let_def split: if_splits option.splits prod.splits sum.splits)

lemma execute_effect_review: "execute_effect sv n ps p (ctx, s) = (r, (ctx', s')) \<Longrightarrow> sc_review ctx' = sc_review ctx"
  by (auto simp: execute_effect_def split: option.splits prod.splits sum.splits)

lemma deliver_ends:
  assumes "deliver sv dl m k (ctx, s) = (Inr res, (ctx', s'))"
    and "\<And>r c t. m (ctx, s) = (r, (c, t)) \<Longrightarrow> sc_review c = sc_review ctx"
    and "\<And>r c t. k r (c, t) = (Inr res, (ctx', s')) \<Longrightarrow> sc_review c = sc_review ctx \<Longrightarrow> P"
  shows P
proof -
  obtain r c t where m: "m (ctx, s) = (r, (c, t))" using prod.exhaust by metis
  have "k r (c, t) = (Inr res, (ctx', s'))"
    using assms(1) unfolding deliver_def m by (auto split: if_splits sum.splits)
  then show P using assms(2) [OF m] assms(3) by blast
qed

lemma run_ends:
  assumes "run_prog sv dl p (ctx, s) = (Inr res, (ctx', s'))" "ends_with Q p (sc_review ctx)"
  shows "Q res (sc_review ctx')"
  using assms
proof (induction p arbitrary: ctx s)
  case (ExecuteEffect name params provider k)
  then have d: "deliver sv dl (execute_effect sv name params provider) (\<lambda>r. run_prog sv dl (k r)) (ctx, s) = (Inr res, (ctx', s'))"
    and e: "\<And>r. ends_with Q (k r) (sc_review ctx)" by simp_all
  show ?case by (rule deliver_ends [OF d]) (simp add: execute_effect_review, rule ExecuteEffect.IH [OF rangeI], assumption, simp add: e)
next
  case (CallLLM c k)
  then have e: "\<And>r. ends_with Q (k r) (sc_review ctx)" by simp
  show ?case
  proof (cases "sc_llm_index ctx < length (sc_replay_llm ctx)")
    case True
    obtain x c1 t where l: "llm sv c (ctx, s) = (x, (c1, t))" using prod.exhaust by metis
    then have "run_prog sv dl (k x) (c1, t) = (Inr res, (ctx', s'))" using CallLLM.prems(1) True by simp
    then show ?thesis by (rule CallLLM.IH [OF rangeI]) (simp add: e llm_review [OF l])
  next
    case False
    then have d: "deliver sv dl (llm sv c) (\<lambda>r. run_prog sv dl (k r)) (ctx, s) = (Inr res, (ctx', s'))" using CallLLM.prems(1) by simp
    show ?thesis by (rule deliver_ends [OF d]) (simp add: llm_review, rule CallLLM.IH [OF rangeI], assumption, simp add: e)
  qed
next
  case (Await what k)
  then have d: "deliver sv dl (\<lambda>(ctx, s). case sv_await sv what s of (r, s') \<Rightarrow> (r, (ctx, s'))) (\<lambda>r. run_prog sv dl (k r)) (ctx, s) =
      (Inr res, (ctx', s'))" and e: "\<And>r. ends_with Q (k r) (sc_review ctx)" by simp_all
  show ?case by (rule deliver_ends [OF d]) (simp split: prod.splits, rule Await.IH [OF rangeI], assumption, simp add: e)
next
  case (Charge c p)
  then have "run_prog sv dl p (charge c ctx, s) = (Inr res, (ctx', s'))" "ends_with Q p (sc_review (charge c ctx))"
    by (simp_all add: charge_def)
  then show ?case by (rule Charge.IH)
next
  case (RequestReview rv p)
  then have "run_prog sv dl p (request_review rv ctx, s) = (Inr res, (ctx', s'))" "ends_with Q p (sc_review (request_review rv ctx))"
    by (simp_all add: request_review_def)
  then show ?case by (rule RequestReview.IH)
qed (simp_all add: ereturn_def ethrow_def)

lemma ends_with_res: "(\<And>x. r = Inr x \<Longrightarrow> ends_with Q (k x) rv) \<Longrightarrow> ends_with Q (with_res r k) rv"
  by (cases r) simp_all

lemma ends_ask_text: "(\<And>x. ends_with Q (k x) rv) \<Longrightarrow> ends_with Q (ask_text sys user tier task k) rv"
  by (auto simp: ask_text_def intro: ends_with_res)

lemma ends_ask_json:
  assumes "\<And>j. ends_with Q (k j) rv"
  shows "ends_with Q (ask_json env sys user tier task k) rv"
  unfolding ask_json_def
proof (rule ends_ask_text)
  fix t
  show "ends_with Q (case extract_json env t of
      Inl first \<Rightarrow> ask_text ''You fix malformed JSON. Output only the corrected JSON value.''
          (''This was supposed to be JSON but did not parse ('' @ first @ ''):'' @ nl @ nl @ t) tier ''json_repair''
          (\<lambda>repair. case extract_json env repair of
             Inl second \<Rightarrow> Raise (PExn MalformedOutputError (''model did not return parseable JSON: '' @ second))
           | Inr j \<Rightarrow> k j)
    | Inr j \<Rightarrow> k j) rv"
    by (cases "extract_json env t") (auto intro!: ends_ask_text assms split: sum.splits)
qed

section \<open>Properties\<close>

lemma fit_of_bounds: "0 \<le> fit_of j \<and> fit_of j \<le> 100"
  by (simp add: fit_of_def)

lemma rounded_share:
  fixes d b :: int
  assumes "0 \<le> d" "d \<le> b" "0 < b"
  shows "0 \<le> round_half_even (of_int d / of_int b * 100)" "round_half_even (of_int d / of_int b * 100) \<le> 100"
proof -
  have "of_int d / of_int b \<le> (1 :: rat)" using assms by simp
  then have "of_int d / of_int b * 100 \<le> (1 * 100 :: rat)" by (rule mult_right_mono) simp
  then show "round_half_even (of_int d / of_int b * 100) \<le> 100" by (intro round_half_even_le) simp
  show "0 \<le> round_half_even (of_int d / of_int b * 100)" using assms by (intro round_half_even_mono_0) simp
qed

lemma border_confidence:
  assumes "borderline sa sc"
  shows "0 \<le> rv_confidence (border_review sa (ls_fit_score sc)) \<and> rv_confidence (border_review sa (ls_fit_score sc)) \<le> 1"
proof -
  let ?d = "\<bar>ls_fit_score sc - ic_qualify_threshold (sa_icp sa)\<bar>" and ?b = "max (sa_review_margin sa) 1"
  have "?d \<le> sa_review_margin sa" using assms by (simp add: borderline_def)
  then have "?d \<le> ?b" "0 < ?b" by linarith+
  note r = rounded_share [OF abs_ge_zero this]
  have "rv_confidence (border_review sa (ls_fit_score sc)) = of_int (round_half_even (of_int ?d / of_int ?b * 100)) / 100"
    by (simp only: border_review_def Let_def review_request.simps)
  then show ?thesis using r by (simp only: zero_le_divide_iff) simp
qed

definition scored_result :: "sales_env \<Rightarrow> step_result \<Rightarrow> review_request option \<Rightarrow> bool" where
  "scored_result sa res rv \<longleftrightarrow> (\<exists>p sc. scored sa p = Inr sc \<and> sr_output res = score_dump sc \<and>
     rv = (if borderline sa sc then Some (border_review sa (ls_fit_score sc)) else None))"

lemma calibrate_ends:
  assumes "\<And>sc. k [(''score'', JObj (score_dump sc))] = Return \<lparr>sr_output = score_dump sc, sr_model_used = None\<rparr>"
  shows "ends_with (scored_result sa) (scoring_calibrate sa st k) None"
  unfolding scoring_calibrate_def
  by (intro ends_with_res) (auto simp: assms scored_result_def)

lemma run_scoring_graph:
  "run_graph (scoring_graph sa) (Suc (Suc n)) ''score'' st k =
     scoring_score sa st (\<lambda>upd. scoring_calibrate sa (dupdate st upd) (\<lambda>upd'. k (dupdate (dupdate st upd) upd')))"
  by (simp add: scoring_graph_def chain_edges_def Let_def)

lemma scoring_ends:
  assumes "runs_graphs (sa_agent sa)"
  shows "ends_with (scored_result sa) (scoring_agent sa ctx) None"
proof (cases "scoring_initial ctx")
  case (Inr st)
  let ?k = "\<lambda>final. case scoring_result final of Inl e \<Rightarrow> Raise e | Inr res \<Rightarrow> Return res"
  have "ends_with (scored_result sa) (scoring_calibrate sa st' (\<lambda>upd. ?k (dupdate st' upd))) None" for st'
    by (rule calibrate_ends) (simp add: scoring_result_def get_or_def dupdate_def)
  then have "ends_with (scored_result sa) (run_graph (scoring_graph sa) (Suc (Suc 38)) ''score'' st ?k) None"
    unfolding run_scoring_graph scoring_score_def Let_def by (intro ends_ask_json)
  then show ?thesis
    unfolding scoring_agent_def Inr run_agent_graph [OF assms] by (simp add: RECURSION_LIMIT_def scoring_graph_def del: run_graph.simps)
qed (simp add: scoring_agent_def run_agent_def)

text \<open>
  C21: the qualification of a lead does not depend on the good will of the model. Whatever it answers, a
  score that is returned lies between 0 and 100. The lead is disqualified exactly when a disqualifier
  was hit or the score is under the qualify threshold; otherwise it is hot from the hot threshold on,
  warm below that from the warm threshold on, and cold below both. A human is asked to confirm exactly
  when the margin is not zero, no disqualifier was hit and the score is within the margin of the qualify
  threshold, on either side, and then with a confidence between 0 and 1.
\<close>

theorem scoring_sound:
  assumes "runs_graphs (sa_agent sa)" "sc_review ctx0 = None"
    and "run_prog sv deadline (scoring_agent sa ctx) (ctx0, s) = (Inr res, (ctx', s'))"
    and "fit_line = ic_qualify_threshold (sa_icp sa)"
  shows "\<exists>sc. sr_output res = score_dump sc \<and> 0 \<le> ls_fit_score sc \<and> ls_fit_score sc \<le> 100 \<and>
    (ls_tier sc = ''disqualified'' \<longleftrightarrow> ls_disqualifier_hits sc \<noteq> [] \<or> ls_fit_score sc < fit_line) \<and>
    (ls_tier sc = ''hot'' \<longleftrightarrow> ls_disqualifier_hits sc = [] \<and> fit_line \<le> ls_fit_score sc \<and>
       ic_hot_threshold (sa_icp sa) \<le> ls_fit_score sc) \<and>
    (ls_tier sc = ''warm'' \<longleftrightarrow> ls_disqualifier_hits sc = [] \<and> fit_line \<le> ls_fit_score sc \<and>
       ls_fit_score sc < ic_hot_threshold (sa_icp sa) \<and> ic_warm_threshold (sa_icp sa) \<le> ls_fit_score sc) \<and>
    (ls_tier sc = ''cold'' \<longleftrightarrow> ls_disqualifier_hits sc = [] \<and> fit_line \<le> ls_fit_score sc \<and>
       ls_fit_score sc < ic_hot_threshold (sa_icp sa) \<and> ls_fit_score sc < ic_warm_threshold (sa_icp sa)) \<and>
    (sc_review ctx' \<noteq> None \<longleftrightarrow> sa_review_margin sa \<noteq> 0 \<and> ls_disqualifier_hits sc = [] \<and>
       fit_line - sa_review_margin sa \<le> ls_fit_score sc \<and> ls_fit_score sc \<le> fit_line + sa_review_margin sa) \<and>
    (\<forall>rv. sc_review ctx' = Some rv \<longrightarrow> 0 \<le> rv_confidence rv \<and> rv_confidence rv \<le> 1)"
proof -
  have "scored_result sa res (sc_review ctx')"
    by (rule run_ends [OF assms(3)]) (simp add: scoring_ends [OF assms(1)] assms(2))
  then obtain p sc where sc: "scored sa p = Inr sc" "sr_output res = score_dump sc"
    and rv: "sc_review ctx' = (if borderline sa sc then Some (border_review sa (ls_fit_score sc)) else None)"
    by (auto simp: scored_result_def)
  have fit: "0 \<le> ls_fit_score sc \<and> ls_fit_score sc \<le> 100"
    and tier: "ls_tier sc = tier_for (sa_icp sa) (ls_disqualifier_hits sc) (ls_fit_score sc)"
    using sc(1) fit_of_bounds by (auto simp: scored_def rbind_eq_Inr Let_def)
  have border: "borderline sa sc \<longleftrightarrow> sa_review_margin sa \<noteq> 0 \<and> ls_disqualifier_hits sc = [] \<and>
      fit_line - sa_review_margin sa \<le> ls_fit_score sc \<and> ls_fit_score sc \<le> fit_line + sa_review_margin sa"
    unfolding borderline_def assms(4) by linarith
  have conf: "\<forall>rv. sc_review ctx' = Some rv \<longrightarrow> 0 \<le> rv_confidence rv \<and> rv_confidence rv \<le> 1"
    using rv border_confidence [of sa sc] by (simp split: if_splits)
  have asked: "sc_review ctx' \<noteq> None \<longleftrightarrow> borderline sa sc" using rv by simp
  show ?thesis
    by (rule exI [of _ sc], intro conjI)
      (use sc(2) fit conf asked [unfolded border] in \<open>simp_all add: tier tier_for_def assms(4) not_less not_le\<close>)
qed

text \<open>
  C20: a disqualified lead costs nothing more and is never contacted. When the score step of an instance
  ended with the tier \<open>disqualified\<close>, the drafting step makes no call at all and returns that it was
  skipped; and once that is the result of the drafting step, the sending step makes no call either, so
  no task is created and no mail is sent, whatever else the instance holds.
\<close>

theorem disqualified_lead_untouched:
  assumes "runs_graphs (sa_agent sa)"
    and "dget (wi_step_states i) ''score'' = Some st" "ss_output st = Some out" "dget out ''tier'' = Some (JStr ''disqualified'')"
    and "sc_inputs ctx = resolve_inputs i draft_step"
    and "dget (wi_step_states i') ''draft_outreach'' = Some st'" "sc_inputs ctx' = resolve_inputs i' (send_step approval timeout)"
  shows "copywriting_agent sa ctx =
      Return \<lparr>sr_output = [(''skipped'', JBool True), (''reason'', JStr ''lead disqualified'')], sr_model_used = None\<rparr> \<and>
    (ss_output st' = Some [(''skipped'', JBool True), (''reason'', JStr ''lead disqualified'')] \<longrightarrow>
       outreach_agent sa ctx' =
         Return \<lparr>sr_output = receipt_dump True ''lead disqualified'' None None, sr_model_used = None\<rparr>)"
proof -
  let ?res = "\<lparr>sr_output = [(''skipped'', JBool True), (''reason'', JStr ''lead disqualified'')], sr_model_used = None\<rparr>"
  obtain r where r: "dget (sc_inputs ctx) ''research'' = Some (JObj r)" "dget (sc_inputs ctx) ''score'' = Some (JObj out)"
    using assms(2-5) by (simp add: resolve_inputs_def draft_step_def mk_step_def)
  obtain r' c where r': "dget (sc_inputs ctx') ''research'' = Some (JObj r')" "dget (sc_inputs ctx') ''draft_outreach'' = Some (JObj c)"
    "\<And>x. ss_output st' = Some x \<Longrightarrow> c = x"
    using assms(6,7) by (cases "ss_output st'") (simp_all add: resolve_inputs_def send_step_def mk_step_def)
  have "copywriting_agent sa ctx = Return ?res"
    unfolding copywriting_agent_def using assms(1,4) r
    by (simp add: copy_initial_def dict_of_def get_or_def run_agent_graph RECURSION_LIMIT_def eval_nat_numeral copy_graph_def copy_draft_def
        getj_def as_dict_def copy_edges_def copy_result_def dupdate_def)
  moreover have "outreach_agent sa ctx' = Return \<lparr>sr_output = receipt_dump True ''lead disqualified'' None None, sr_model_used = None\<rparr>"
    if "ss_output st' = Some (sr_output ?res)"
    unfolding outreach_agent_def using assms(1) r'(1,2) r'(3) [OF that]
    by (simp add: outreach_initial_def dict_of_def get_or_def run_agent_graph RECURSION_LIMIT_def eval_nat_numeral outreach_graph_def
        outreach_dispatch_def getj_def chain_edges_def outreach_result_def dupdate_def)
  ultimately show ?thesis by simp
qed

text \<open>A model that scores the lead two points above the line.\<close>

definition sample_sales :: sales_env where
  "sample_sales = \<lparr>sa_agent = sample_env\<lparr>ag_loads := (\<lambda>_. Inr (JObj [(''fit_score'', JInt 27), (''rationale'', JStr ''fits'')]))\<rparr>,
     sa_tools = build_sales_tools None None, sa_icp = default_icp, sa_review_margin = 4, sa_provider = ''sales'',
     sa_dict = (\<lambda>_. Inr []), sa_int = (\<lambda>_. None), sa_float = (\<lambda>_. None)\<rparr>"

lemma sample_sales_graphs: "runs_graphs (sa_agent sample_sales)"
  by (simp add: runs_graphs_def sample_sales_def sample_env_def)

text \<open>The answer of the model is replayed from a recording.\<close>

definition sample_answered :: step_context where
  "sample_answered = sample_context\<lparr>sc_replay_llm := [\<lparr>lr_request_digest = [], lr_model = ''m'',
     lr_response = [(''model_id'', JStr ''m''), (''text'', JStr ''{}'')], lr_tokens_input = 0, lr_tokens_output = 0, lr_cost_usd = 0\<rparr>]\<rparr>"

lemma ask_json_replayed:
  assumes "sc_llm_index ctx < length (sc_replay_llm ctx)"
    and "response_from_recording (lr_response (sc_replay_llm ctx ! sc_llm_index ctx)) = Inr resp"
    and "extract_json env (strip (lp_text resp)) = Inr j"
  shows "run_prog sv dl (ask_json env sys user tier task k) (ctx, s) =
    run_prog sv dl (k j) (ctx\<lparr>sc_llm_index := Suc (sc_llm_index ctx)\<rparr>, s)"
  using assms by (simp add: ask_json_def ask_text_def llm_def Let_def)

lemma scoring_score_replayed:
  assumes "sc_llm_index ctx < length (sc_replay_llm ctx)"
    and "response_from_recording (lr_response (sc_replay_llm ctx ! sc_llm_index ctx)) = Inr resp"
    and "extract_json (sa_agent sa) (strip (lp_text resp)) = Inr (JObj p)"
  shows "run_prog sv dl (scoring_score sa st k) (ctx, s) =
    run_prog sv dl (k [(''proposal'', JObj p)]) (ctx\<lparr>sc_llm_index := Suc (sc_llm_index ctx)\<rparr>, s)"
  unfolding scoring_score_def Let_def ask_json_replayed [OF assms] by simp

lemma sample_scoring:
  "\<exists>res ctx' s'. run_prog sample_services 90000000 (scoring_agent sample_sales sample_answered) (sample_answered, 0) =
     (Inr res, (ctx', s')) \<and> sc_review ctx' \<noteq> None"
proof -
  let ?k = "\<lambda>final. case scoring_result final of Inl e \<Rightarrow> Raise e | Inr res \<Rightarrow> Return res"
  let ?p = "[(''fit_score'', JInt 27), (''rationale'', JStr ''fits'')]"
  have st: "\<exists>st. scoring_initial sample_answered = Inr st"
    by (simp add: scoring_initial_def sample_answered_def sample_context_def get_or_def dict_of_def)
  have "case scored sample_sales ?p of Inr sc \<Rightarrow> borderline sample_sales sc | Inl _ \<Rightarrow> False" by code_simp
  then obtain sc where sc: "scored sample_sales ?p = Inr sc" "borderline sample_sales sc" by (auto split: sum.splits)
  obtain resp where r: "response_from_recording [(''model_id'', JStr ''m''), (''text'', JStr ''{}'')] = Inr resp"
    by (simp add: response_from_recording_def)
  have cal: "scoring_calibrate sample_sales (dupdate st [(''proposal'', JObj ?p)]) (\<lambda>upd. ?k (dupdate (dupdate st [(''proposal'', JObj ?p)]) upd)) =
      RequestReview (border_review sample_sales (ls_fit_score sc)) (Return \<lparr>sr_output = score_dump sc, sr_model_used = None\<rparr>)" for st
    using sc by (simp add: scoring_calibrate_def dupdate_def getj_def as_dict_def scoring_result_def get_or_def)
  from st obtain st where st: "scoring_initial sample_answered = Inr st" by blast
  have "scoring_agent sample_sales sample_answered = run_graph (scoring_graph sample_sales) (Suc (Suc 38)) ''score'' st ?k"
    unfolding scoring_agent_def st run_agent_graph [OF sample_sales_graphs]
    by (simp add: RECURSION_LIMIT_def scoring_graph_def del: run_graph.simps)
  then have agent: "scoring_agent sample_sales sample_answered =
      scoring_score sample_sales st (\<lambda>upd. scoring_calibrate sample_sales (dupdate st upd) (\<lambda>upd'. ?k (dupdate (dupdate st upd) upd')))"
    by (simp only: run_scoring_graph)
  have "run_prog sample_services 90000000 (scoring_agent sample_sales sample_answered) (sample_answered, 0) =
      run_prog sample_services 90000000
        (RequestReview (border_review sample_sales (ls_fit_score sc)) (Return \<lparr>sr_output = score_dump sc, sr_model_used = None\<rparr>))
        (sample_answered\<lparr>sc_llm_index := Suc (sc_llm_index sample_answered)\<rparr>, 0)"
    unfolding agent cal [of st, symmetric]
    by (rule scoring_score_replayed [where resp = resp])
      (simp_all add: sample_answered_def sample_context_def r extract_json_def sample_sales_def Let_def)
  then show ?thesis by (simp add: ereturn_def request_review_def)
qed

theorem scoring_sound_witness:
  "\<exists>res ctx' s' sc. run_prog sample_services 90000000 (scoring_agent sample_sales sample_answered) (sample_answered, 0) =
       (Inr res, (ctx', s')) \<and> sr_output res = score_dump sc \<and> ls_fit_score sc \<le> 100 \<and>
     sc_review ctx' \<noteq> None \<and> ls_disqualifier_hits sc = [] \<and> 21 \<le> ls_fit_score sc \<and> ls_fit_score sc \<le> 29"
proof -
  obtain res ctx' s' where m: "run_prog sample_services 90000000 (scoring_agent sample_sales sample_answered) (sample_answered, 0) =
      (Inr res, (ctx', s'))" "sc_review ctx' \<noteq> None"
    using sample_scoring by blast
  have "sc_review sample_answered = None" by (simp add: sample_answered_def sample_context_def)
  moreover have "25 = ic_qualify_threshold (sa_icp sample_sales)" "sa_review_margin sample_sales = 4"
    by (simp_all add: sample_sales_def default_icp_def)
  ultimately show ?thesis using scoring_sound [OF sample_sales_graphs _ m(1)] m by fastforce
qed

definition sample_sale :: "(string \<times> obj) list \<Rightarrow> workflow_instance" where
  "sample_sale outs = sample_instance\<lparr>wi_step_states := map (\<lambda>(k, out). (k, (new_step_state k)\<lparr>ss_output := Some out\<rparr>)) outs\<rparr>"

theorem disqualified_lead_untouched_witness:
  "copywriting_agent sample_sales (sample_context\<lparr>sc_inputs := resolve_inputs
       (sample_sale [(''score'', [(''tier'', JStr ''disqualified'')])]) draft_step\<rparr>) =
     Return \<lparr>sr_output = [(''skipped'', JBool True), (''reason'', JStr ''lead disqualified'')], sr_model_used = None\<rparr> \<and>
   outreach_agent sample_sales (sample_context\<lparr>sc_inputs := resolve_inputs
       (sample_sale [(''draft_outreach'', [(''skipped'', JBool True), (''reason'', JStr ''lead disqualified'')])]) (send_step True None)\<rparr>) =
     Return \<lparr>sr_output = receipt_dump True ''lead disqualified'' None None, sr_model_used = None\<rparr>"
proof -
  let ?i = "sample_sale [(''score'', [(''tier'', JStr ''disqualified'')])]"
  let ?o = "[(''skipped'', JBool True), (''reason'', JStr ''lead disqualified'')]"
  let ?i' = "sample_sale [(''draft_outreach'', ?o)]"
  let ?t = "(new_step_state ''score'')\<lparr>ss_output := Some [(''tier'', JStr ''disqualified'')]\<rparr>"
  let ?t' = "(new_step_state ''draft_outreach'')\<lparr>ss_output := Some ?o\<rparr>"
  have st: "dget (wi_step_states ?i) ''score'' = Some ?t" "dget (wi_step_states ?i') ''draft_outreach'' = Some ?t'"
    by (simp_all add: sample_sale_def)
  show ?thesis
    using disqualified_lead_untouched [OF sample_sales_graphs st(1), of "[(''tier'', JStr ''disqualified'')]"
        "sample_context\<lparr>sc_inputs := resolve_inputs ?i draft_step\<rparr>" ?i' ?t'
        "sample_context\<lparr>sc_inputs := resolve_inputs ?i' (send_step True None)\<rparr>" True None] st(2)
    by simp
qed

end
