(* ===== verification/HttpProviders.thy ===== *)
theory HttpProviders
  imports SideEffects Json
begin

text \<open>
  The action providers that call a server: \<open>HttpActionProvider\<close> (\<open>integrations/actions/providers.py\<close>),
  \<open>N8nActionProvider\<close> (\<open>integrations/actions/n8n.py\<close>) and \<open>WebhookSalesProvider\<close>
  (\<open>use_cases/sales_intelligence/provider.py\<close>). The HTTP client is a parameter that acts on the world.
\<close>

section \<open>Requests and responses\<close>

record http_request =
  hq_method :: string
  hq_url :: string
  hq_params :: "(string \<times> string) list"
  hq_json :: "json option"
  hq_headers :: "(string \<times> string) list"

text \<open>The decoded body, or the error that decoding it raises; \<open>None\<close> for a response without content.\<close>

record http_response =
  hr_status_code :: int
  hr_json :: "(pexn + json) option"

text \<open>
  \<open>hc_send\<close> performs a request or raises; \<open>hc_is_http_error\<close> tells the exceptions of the client's
  class \<open>HTTPError\<close>. The fields of an effect result are not checked at run time: \<open>hc_data\<close> and
  \<open>hc_ref\<close> say how a body that is no dictionary and a reference that is no string are kept.
\<close>

record 'w http_client =
  hc_send :: "http_request \<Rightarrow> ('w, pexn, http_response) eff"
  hc_is_http_error :: "pexn \<Rightarrow> bool"
  hc_data :: "json \<Rightarrow> obj"
  hc_ref :: "json \<Rightarrow> string option"
  hc_float_repr :: "rat \<Rightarrow> string"

definition raise_for_status :: "http_response \<Rightarrow> pexn + unit" where
  "raise_for_status resp =
     (if 200 \<le> hr_status_code resp \<and> hr_status_code resp < 300 then Inr ()
      else Inl (PExn (OtherException ''HTTPStatusError'') []))"

definition body_of :: "http_response \<Rightarrow> pexn + json" where
  "body_of resp = (case hr_json resp of None \<Rightarrow> Inr (JObj []) | Some r \<Rightarrow> r)"

definition body_dict :: "http_response \<Rightarrow> pexn + obj" where
  "body_dict resp =
     rbind (raise_for_status resp) (\<lambda>_. rbind (body_of resp) (\<lambda>j. case j of
        JObj d \<Rightarrow> Inr d
      | _ \<Rightarrow> Inl (PExn (OtherException ''AttributeError'') [])))"

definition from_response :: "pexn + 'a \<Rightarrow> ('w, pexn, 'a) eff" where
  "from_response r w = (r, w)"

definition ok_result :: "obj \<Rightarrow> string option \<Rightarrow> effect_result" where
  "ok_result data ref = \<lparr>ef_ok = True, ef_data = data, ef_provider_ref = ref, ef_error = None\<rparr>"

definition keep_ref :: "'w http_client \<Rightarrow> json \<Rightarrow> string option" where
  "keep_ref hc j = (case j of JNull \<Rightarrow> None | JStr s \<Rightarrow> Some s | _ \<Rightarrow> hc_ref hc j)"

section \<open>The generic provider\<close>

definition post_effect :: "string \<Rightarrow> effect_request \<Rightarrow> http_request" where
  "post_effect url req =
     \<lparr>hq_method = ''POST'', hq_url = url, hq_params = [],
      hq_json = Some (JObj [(''effect'', JStr (rq_effect_name req)), (''params'', JObj (rq_params req))]),
      hq_headers = [(''Idempotency-Key'', rq_idempotency_key req)]\<rparr>"

definition http_execute ::
  "'w http_client \<Rightarrow> (string, string) pydict \<Rightarrow> effect_request \<Rightarrow> ('w, pexn, effect_result) eff" where
  "http_execute hc endpoints req =
     (case dget endpoints (rq_effect_name req) of
        None \<Rightarrow> ereturn \<lparr>ef_ok = False, ef_data = [], ef_provider_ref = None,
                  ef_error = Some (''no endpoint configured for '' @ repr_str (rq_effect_name req))\<rparr>
      | Some url \<Rightarrow>
          ebind (hc_send hc (post_effect url req)) (\<lambda>resp.
          ebind (from_response (body_dict resp)) (\<lambda>body.
            ereturn (ok_result body (keep_ref hc (jor (getj body ''id'') (JStr (rq_idempotency_key req))))))))"

definition http_action_provider ::
  "'w http_client \<Rightarrow> (string, string) pydict \<Rightarrow> string set \<Rightarrow> 'w action_provider" where
  "http_action_provider hc endpoints idempotent_effects = base_action_provider
     \<lparr>ap_supports_idempotency_key := (\<lambda>effect_name. effect_name \<in> idempotent_effects),
      ap_execute := http_execute hc endpoints\<rparr>"

section \<open>The sales webhook\<close>

definition webhook_execute :: "'w http_client \<Rightarrow> string \<Rightarrow> effect_request \<Rightarrow> ('w, pexn, effect_result) eff" where
  "webhook_execute hc webhook_url req =
     ebind (hc_send hc (post_effect webhook_url req)) (\<lambda>resp.
     ebind (from_response (body_dict resp)) (\<lambda>body.
       ereturn (ok_result body (keep_ref hc (getj body ''ref'')))))"

definition webhook_sales_provider :: "'w http_client \<Rightarrow> string \<Rightarrow> 'w action_provider" where
  "webhook_sales_provider hc webhook_url = base_action_provider
     \<lparr>ap_supports_idempotency_key := (\<lambda>effect_name. effect_name \<in> {''sales.create_crm_task'', ''sales.send_email''}),
      ap_execute := webhook_execute hc webhook_url\<rparr>"

section \<open>The n8n provider\<close>

record n8n_config =
  n8_base_url :: string
  n8_api_key :: "string option"
  n8_prefix :: string
  n8_idempotent :: "string set"
  n8_reconcilable :: "string set"
  n8_compensable :: "string set"

definition rstrip_slash :: "string \<Rightarrow> string" where
  "rstrip_slash s = rev (dropWhile (\<lambda>c. c = CHR ''/'') (rev s))"

definition new_n8n ::
  "string \<Rightarrow> string option \<Rightarrow> string \<Rightarrow> string set \<Rightarrow> string set \<Rightarrow> string set \<Rightarrow> n8n_config" where
  "new_n8n base_url api_key webhook_prefix idempotent reconcilable compensable =
     \<lparr>n8_base_url = rstrip_slash base_url, n8_api_key = api_key,
      n8_prefix = ''/'' @ rstrip_slash (dropWhile (\<lambda>c. c = CHR ''/'') webhook_prefix),
      n8_idempotent = idempotent, n8_reconcilable = reconcilable, n8_compensable = compensable\<rparr>"

definition n8n_url :: "n8n_config \<Rightarrow> string \<Rightarrow> string \<Rightarrow> string" where
  "n8n_url c effect_name suffix = n8_base_url c @ n8_prefix c @ ''/'' @ effect_name @ suffix"

definition n8n_headers :: "n8n_config \<Rightarrow> effect_request \<Rightarrow> (string \<times> string) list" where
  "n8n_headers c req =
     [(''Idempotency-Key'', rq_idempotency_key req), (''X-AgentForge-Instance'', rq_instance_id req),
      (''X-AgentForge-Tenant'', rq_tenant_id req)] @
     (case n8_api_key c of Some k \<Rightarrow> if k \<noteq> [] then [(''X-N8N-API-KEY'', k)] else [] | None \<Rightarrow> [])"

definition n8n_payload :: "effect_request \<Rightarrow> obj" where
  "n8n_payload req =
     [(''effect'', JStr (rq_effect_name req)), (''params'', JObj (rq_params req)),
      (''instance_id'', JStr (rq_instance_id req)), (''tenant_id'', JStr (rq_tenant_id req)),
      (''step_id'', JStr (rq_step_id req)), (''idempotency_key'', JStr (rq_idempotency_key req))]"

definition n8n_post :: "n8n_config \<Rightarrow> effect_request \<Rightarrow> string \<Rightarrow> obj \<Rightarrow> http_request" where
  "n8n_post c req suffix body =
     \<lparr>hq_method = ''POST'', hq_url = n8n_url c (rq_effect_name req) suffix, hq_params = [],
      hq_json = Some (JObj body), hq_headers = n8n_headers c req\<rparr>"

definition n8n_execute :: "'w http_client \<Rightarrow> n8n_config \<Rightarrow> effect_request \<Rightarrow> ('w, pexn, effect_result) eff" where
  "n8n_execute hc c req =
     ebind (hc_send hc (n8n_post c req [] (n8n_payload req))) (\<lambda>resp.
     ebind (from_response (body_dict resp)) (\<lambda>body.
       ereturn (ok_result body (Some (str_json (hc_float_repr hc)
         (jor (jor (getj body ''id'') (getj body ''ref'')) (JStr (rq_idempotency_key req))))))))"

definition n8n_status :: "n8n_config \<Rightarrow> effect_request \<Rightarrow> http_request" where
  "n8n_status c req =
     \<lparr>hq_method = ''GET'', hq_url = n8n_url c (rq_effect_name req) ''/status'',
      hq_params = [(''idempotency_key'', rq_idempotency_key req)], hq_json = None, hq_headers = n8n_headers c req\<rparr>"

definition n8n_reconcile :: "'w http_client \<Rightarrow> n8n_config \<Rightarrow> effect_request \<Rightarrow> ('w, pexn, effect_result option) eff" where
  "n8n_reconcile hc c req =
     (if rq_effect_name req \<notin> n8_reconcilable c then ereturn None
      else ebind (etry (hc_send hc (n8n_status c req))) (\<lambda>r. case r of
        Inl e \<Rightarrow> if hc_is_http_error hc e then ereturn None else ethrow e
      | Inr resp \<Rightarrow>
          if hr_status_code resp = 404 then ereturn None
          else ebind (from_response (body_dict resp)) (\<lambda>body.
            if \<not> truthy (getj body ''found'') then ereturn None
            else ereturn (Some (ok_result body (Some (str_json (hc_float_repr hc) (jor (getj body ''id'') (JStr []))))))) ))"

definition n8n_compensate ::
  "'w http_client \<Rightarrow> n8n_config \<Rightarrow> effect_request \<Rightarrow> effect_result \<Rightarrow> ('w, pexn, effect_result option) eff" where
  "n8n_compensate hc c req executed =
     (if rq_effect_name req \<notin> n8_compensable c then ereturn None
      else ebind (hc_send hc (n8n_post c req ''/compensate''
             (n8n_payload req @ [(''executed'', JObj (ef_data executed)),
                (''ref'', case ef_provider_ref executed of None \<Rightarrow> JNull | Some r \<Rightarrow> JStr r)]))) (\<lambda>resp.
           ebind (from_response (rbind (raise_for_status resp) (\<lambda>_. body_of resp))) (\<lambda>body.
             ereturn (Some (ok_result (case body of JObj d \<Rightarrow> d | _ \<Rightarrow> hc_data hc body) None)))))"

definition n8n_action_provider :: "'w http_client \<Rightarrow> n8n_config \<Rightarrow> 'w action_provider" where
  "n8n_action_provider hc c =
     \<lparr>ap_supports_idempotency_key = (\<lambda>effect_name. effect_name \<in> n8_idempotent c),
      ap_execute = n8n_execute hc c, ap_reconcile = n8n_reconcile hc c, ap_compensate = n8n_compensate hc c\<rparr>"

definition build_n8n_provider ::
  "'w http_client \<Rightarrow> string \<Rightarrow> string option \<Rightarrow> string set \<Rightarrow> 'w action_provider" where
  "build_n8n_provider hc base_url api_key idempotent_effects =
     n8n_action_provider hc (new_n8n base_url api_key ''/webhook'' idempotent_effects idempotent_effects {})"

section \<open>Properties\<close>

text \<open>
  C22: a provider from \<open>build_n8n_provider\<close> is never asked whether an earlier attempt has landed. The
  guard reconciles only effects that the receiver does not deduplicate, and only effects that it does
  deduplicate have a status webhook: so a resumed attempt of any effect just posts the same request
  again, exactly as a first attempt does.
\<close>

theorem n8n_never_reconciles:
  "call_provider (build_n8n_provider hc base_url api_key idempotent_effects) req resuming =
     n8n_execute hc (new_n8n base_url api_key ''/webhook'' idempotent_effects idempotent_effects {}) req"
proof
  fix w
  show "call_provider (build_n8n_provider hc base_url api_key idempotent_effects) req resuming w =
     n8n_execute hc (new_n8n base_url api_key ''/webhook'' idempotent_effects idempotent_effects {}) req w"
    by (simp add: call_provider_def build_n8n_provider_def n8n_action_provider_def n8n_reconcile_def new_n8n_def
        ebind_def ereturn_def)
qed

text \<open>So an effect that is not marked idempotent is sent twice when an attempt dies after its request.\<close>

definition recording_client :: "http_request list http_client" where
  "recording_client = \<lparr>hc_send = (\<lambda>rq w. (Inr \<lparr>hr_status_code = 200, hr_json = None\<rparr>, w @ [rq])),
     hc_is_http_error = (\<lambda>_. True), hc_data = (\<lambda>_. []), hc_ref = (\<lambda>_. None), hc_float_repr = (\<lambda>_. ''0.0'')\<rparr>"

definition n8n_sample_guard :: "(db, http_request list) side_effect_guard" where
  "n8n_sample_guard = pg_guard [(''n8n'', build_n8n_provider recording_client ''http://n8n'' None {})] sample_digest"

definition n8n_sample_effect :: effect_args where
  "n8n_sample_effect = sample_effect\<lparr>ea_provider_name := ''n8n''\<rparr>"

lemma n8n_sends_twice:
  "\<exists>s out s' rq. effect_run n8n_sample_guard (empty_db 500, []) s \<and>
     execute n8n_sample_guard n8n_sample_effect s = (Inr out, s') \<and> snd s' = [rq, rq]"
proof -
  let ?p = "build_n8n_provider recording_client ''http://n8n'' None {}" and ?rq = "request_of n8n_sample_guard n8n_sample_effect"
  let ?c = "claim_step n8n_sample_guard n8n_sample_effect ?p (empty_db 500, [])"
  have p: "get_provider (sg_providers n8n_sample_guard) (ea_provider_name n8n_sample_effect) = Inr ?p"
    by (simp add: n8n_sample_guard_def pg_guard_def get_provider_def n8n_sample_effect_def)
  have "case fst ?c of Inr row \<Rightarrow> oe_status row = ''pending'' \<and> oe_attempts row = 1 | Inl _ \<Rightarrow> False" by code_simp
  then obtain row where "fst ?c = Inr row" and row: "oe_status row = ''pending''" "oe_attempts row = 1"
    by (auto split: sum.splits)
  then have c: "?c = (Inr row, snd ?c)" by (metis prod.collapse)
  let ?s = "snd (on_world (call_provider ?p ?rq False) (snd ?c))"
  have run: "effect_run n8n_sample_guard (empty_db 500, []) ?s"
    using effect_run.died_after_call [OF effect_run.start p c] row by (simp add: prod_eq_iff)
  have "case fst (execute n8n_sample_guard n8n_sample_effect ?s) of Inr _ \<Rightarrow> True | Inl _ \<Rightarrow> False" by code_simp
  then obtain out where "fst (execute n8n_sample_guard n8n_sample_effect ?s) = Inr out" by (auto split: sum.splits)
  moreover have "case snd (snd (execute n8n_sample_guard n8n_sample_effect ?s)) of [a, b] \<Rightarrow> a = b | _ \<Rightarrow> False" by code_simp
  then have "\<exists>rq. snd (snd (execute n8n_sample_guard n8n_sample_effect ?s)) = [rq, rq]" by (auto split: list.splits)
  ultimately show ?thesis using run by (metis prod.collapse)
qed

end
