(* ===== verification/Spec2Isabelle.thy ===== *)
theory Spec2Isabelle
  imports Prelude Enums Exceptions Dag Workflow_Definition Fold_Props EventStore_Props Leasing Outbox DefinitionRepo DeadLetter
    Control Escalation Instances Engine_Props Worker Worker_Drive Json Auth RateLimit Api Tenancy Agents Evals Sales HttpProviders
begin

text \<open>
  AgentForge, a durable execution engine for workflows of agents: a model of the Python package
  \<open>src/src/agentforge\<close> and what holds of it. Paths below are relative to that package.

  \<^bold>\<open>The program.\<close> A workflow definition is a graph of steps. An instance of it is an append-only log of
  events; its state is the replay of that log. A worker leases instances, and for each lease a driver
  plans which steps may run, runs them through their agents, and appends what happened under a guard
  that refuses a lease that was lost. Steps call language models through a client that routes by cost,
  and the outside world through a guard over an outbox. Operators pause, resolve and requeue
  instances through services and an HTTP API, which tenants reach with keys and scopes.

  \<^bold>\<open>The theories.\<close>
  \<^item> \<open>Prelude\<close>, \<open>Json\<close>: Python values, dictionaries as association lists in insertion order, errors as
    sums, stateful steps that may raise (\<open>eff\<close>) with their triples, and printing.
  \<^item> \<open>Enums\<close>, \<open>Exceptions\<close>, \<open>Dag\<close>, \<open>Workflow_Definition\<close>, \<open>Instance_State\<close>, \<open>Events\<close>: \<open>core/domain\<close>,
    \<open>core/events/types.py\<close> and \<open>exceptions.py\<close>. Layering succeeds exactly on acyclic graphs, and a
    definition is accepted exactly when it is well formed.
  \<^item> \<open>Fold\<close>, \<open>Fold_Props\<close>, \<open>Event_Effects\<close>: \<open>core/events/fold.py\<close>, one definition per handler. Replaying from
    a snapshot is replaying from the start; every single event moves the status along the transition
    table or leaves it alone; costs are the sums of the charges.
  \<^item> \<open>Tables\<close>, \<open>EventStore\<close>, \<open>EventStore_Props\<close>: \<open>core/persistence\<close>, with keys and column lengths. An append
    extends one log at the expected version or changes nothing, two racing commits never both
    succeed, and a read is the replay of the log.
  \<^item> \<open>Leasing\<close>: \<open>core/leasing.py\<close>. At most one lease issued for an instance passes its guard; an
    acquisition takes exactly the due and free instances; a takeover between the guard of an append and
    its writes does not stop the append.
  \<^item> \<open>Outbox\<close>, \<open>Actions\<close>, \<open>SideEffects\<close>: \<open>core/outbox.py\<close>, \<open>integrations/actions\<close>, \<open>core/side_effects.py\<close>. The
    locales \<open>outbox_store\<close> and \<open>effect_provider\<close> state what the guard relies on, of its store and of a
    provider as \<open>ActionProvider\<close> documents it; both stores, the no-op provider and the sales provider are
    interpretations. Whatever attempts die, an effect that returns has landed, no more often than it was
    tried; it has landed once if its providers honour keys for it, or always know on a reconcile that it
    has landed (\<open>safely_resumed\<close>, more than the protocol asks). A compensation undoes every executed
    effect.
  \<^item> \<open>HttpProviders\<close>: the providers that call a server, among them \<open>integrations/actions/n8n.py\<close>.
  \<^item> \<open>Cost\<close>, \<open>LLM\<close>: \<open>core/cost\<close>, \<open>integrations/llm/base.py\<close>, \<open>core/llm_client.py\<close>. The router returns a
    cheapest eligible model; a completion walks the fallback chain in order, past the three kinds of
    failures that may be retried, and a budget decides only whether it starts.
  \<^item> \<open>Runners\<close>, \<open>Executor\<close>: \<open>core/runners.py\<close>, \<open>core/executor.py\<close>. A runner is a tree of the calls it makes on
    its context; replaying the recordings of an attempt in which no call failed gives a runner that only
    asks models the same answers.
  \<^item> \<open>Ports\<close>, \<open>Journal\<close>, \<open>PgJournal\<close>: \<open>core/ports.py\<close>, and the event store as the journal of its clients: a
    locale with the laws of appending and reading, interpreted by the store.
  \<^item> \<open>Driver\<close>, \<open>Driver_Props\<close>, \<open>Driver_Journal\<close>, \<open>Driver_Progress\<close>: \<open>core/driver.py\<close>. A plan dispatches only
    steps that may run; the projection that a drive carries is the stored one; the loop ends.
  \<^item> \<open>DefinitionRepo\<close>, \<open>DeadLetter\<close>, \<open>Control\<close>, \<open>Escalation\<close>, \<open>Instances\<close>: the services of the same names in
    \<open>core\<close>. Each operation does its one commit or changes nothing, also with other writers between
    its steps.
  \<^item> \<open>Engine\<close>, \<open>Engine_Props\<close>: \<open>bootstrap.py\<close>, the driver over the real parts, as an interpretation of the
    locale of \<open>Driver_Journal\<close>.
  \<^item> \<open>Worker\<close>, \<open>Worker_Drive\<close>: \<open>worker.py\<close>, \<open>core/recovery.py\<close>. The loops of a worker are interleaved steps of a
    relation. Its running tasks are kept apart from \<open>_active\<close>: they never outnumber its concurrency and
    no two drive the same instance. A task cancelled during its release leaves its instance in \<open>_active\<close>
    for good.
  \<^item> \<open>Auth\<close>, \<open>RateLimit\<close>, \<open>Api\<close>, \<open>Tenancy\<close>: \<open>core/auth.py\<close> and \<open>api\<close>. A request changes no row of another tenant
    and its answer depends on none.
  \<^item> \<open>Agents\<close>: \<open>agents\<close>, the four base agents as graphs. Whatever models answer, the calls of an attempt are
    bounded in terms of those that a single tool call makes.
  \<^item> \<open>Evals\<close>: \<open>evals\<close>. The verdict on a suite is the mean of its scores against the threshold.
  \<^item> \<open>Sales\<close>, \<open>SalesProvider\<close>: \<open>use_cases/sales_intelligence\<close>. Tiers follow the thresholds, a disqualified
    lead is never contacted, and nobody is contacted twice.

  \<^bold>\<open>Conventions and bounds.\<close> A float is a rational, so rounding of binary fractions is not seen; an
  instant is a number of microseconds; characters are those of Latin-1, and a dash outside it in a message
  of the code is a hyphen here. A transaction is one step on
  the tables, and what other transactions do in between is written out where a property is about it
  (\<open>commit_tx\<close>, \<open>control_transition\<close>, the worker). The driver's loop has the 1000 rounds of the code as
  its fuel: \<open>drive_terminates\<close> shows that they are not used up while fewer attempts are left. A graph
  of an agent runs at most 40 nodes, as in the code: \<open>agents_bounded\<close> shows that ten are enough for the
  executor, and the others have fixed chains. Every other recursion is structural or has a termination
  proof. The steps of one wave of a drive run one after the other, where the code lets them
  interleave at their awaits. A requeue resolves its dead letter in a transaction after its append, as in
  the code, but nothing can fail between the two.

  \<^bold>\<open>Parameters.\<close> Code that is not in the repository is an argument of what uses it: SHA-256 and canonical
  JSON, the JWT library, Redis, HTTP clients, the model providers, the tools of an agent (with \<open>tools_within\<close>), LangGraph (with
  \<open>runs_graphs\<close>), the JSON parser, regular expressions, YAML files, the decimal text of a float, and the
  conversions of pydantic to numbers.

  \<^bold>\<open>Not modelled.\<close> The providers for Anthropic and OpenAI (\<open>integrations/llm\<close>) translate to and from the
  types of vendor libraries that are not in the repository. Messages on the Redis channel
  (\<open>core/pubsub.py\<close>) are best effort and change no state. Settings, the command line, database and
  Redis client construction (\<open>config.py\<close>, \<open>cli.py\<close>, \<open>db.py\<close>, \<open>redis_client.py\<close>) configure libraries.
  Metrics, traces and logs are read by no other part. \<open>core/persistence/protocols.py\<close> declares types, and
  \<open>core/hashing.py\<close> calls libraries.
\<close>

end
